(* ===== verification/Prelude.thy ===== *)
theory Prelude
  imports Complex_Main
begin

text \<open>
  The prelude of the development: the string and array operations of the JavaScript
  standard library that the modelled TypeScript uses, the named collections of facts the
  component theories share, and the generic list lemmas behind them.

  A JavaScript string is modelled as a list of code units below 256
  (\<open>string = char list\<close>); white space and letter case are those of these code units.
  An optional property \<open>x?: T\<close> is a field of type \<open>'a option\<close>, with \<open>None\<close> for
  \<open>undefined\<close>.
\<close>

named_theorems frame_simps "operations leave unrelated parts of a state unchanged"
named_theorems step_intros "introduction rules of preservation arguments"

subsection \<open>Strings\<close>

definition js_ws :: "char \<Rightarrow> bool" where
  "js_ws c \<longleftrightarrow> of_char c \<in> ({9, 10, 11, 12, 13, 32, 160} :: nat set)"

definition js_trim_end :: "string \<Rightarrow> string" where
  "js_trim_end s = rev (dropWhile js_ws (rev s))"

definition js_trim :: "string \<Rightarrow> string" where
  "js_trim s = js_trim_end (dropWhile js_ws s)"

definition js_lower_char :: "char \<Rightarrow> char" where
  "js_lower_char c =
     (let n = (of_char c :: nat)
      in if 65 \<le> n \<and> n \<le> 90 \<or> 192 \<le> n \<and> n \<le> 222 \<and> n \<noteq> 215 then char_of (n + 32) else c)"

definition js_lower :: "string \<Rightarrow> string" where
  "js_lower s = map js_lower_char s"

fun js_starts_with :: "string \<Rightarrow> string \<Rightarrow> bool" where
  "js_starts_with s [] = True"
| "js_starts_with [] (p # ps) = False"
| "js_starts_with (c # s) (p # ps) = (c = p \<and> js_starts_with s ps)"

fun js_includes :: "string \<Rightarrow> string \<Rightarrow> bool" where
  "js_includes [] p = (p = [])"
| "js_includes (c # s) p = (js_starts_with (c # s) p \<or> js_includes s p)"

fun js_join :: "string \<Rightarrow> string list \<Rightarrow> string" where
  "js_join sep [] = []"
| "js_join sep [x] = x"
| "js_join sep (x # y # xs) = x @ sep @ js_join sep (y # xs)"

text \<open>Splitting at a one-character separator, as \<open>String.prototype.split\<close> does.\<close>

fun js_split :: "char \<Rightarrow> string \<Rightarrow> string list" where
  "js_split d [] = [[]]"
| "js_split d (c # s) =
     (if c = d then [] # js_split d s
      else (case js_split d s of [] \<Rightarrow> [[c]] | w # ws \<Rightarrow> (c # w) # ws))"

text \<open>The truthiness of an optional string: neither \<open>undefined\<close> nor empty.\<close>

definition truthy_str :: "string option \<Rightarrow> bool" where
  "truthy_str x \<longleftrightarrow> (case x of None \<Rightarrow> False | Some s \<Rightarrow> s \<noteq> [])"

definition is_digit :: "char \<Rightarrow> bool" where
  "is_digit c \<longleftrightarrow> (let n = (of_char c :: nat) in 48 \<le> n \<and> n \<le> 57)"

definition digit_val :: "char \<Rightarrow> nat" where
  "digit_val c = of_char c - 48"

definition digit_char :: "nat \<Rightarrow> char" where
  "digit_char n = char_of (48 + n)"

fun nat_of_digits :: "nat \<Rightarrow> string \<Rightarrow> nat" where
  "nat_of_digits acc [] = acc"
| "nat_of_digits acc (c # s) = nat_of_digits (10 * acc + digit_val c) s"

text \<open>The decimal rendering of a natural number, \<open>String(n)\<close>.\<close>

fun string_of_nat :: "nat \<Rightarrow> string" where
  "string_of_nat n = (if n < 10 then [digit_char n] else string_of_nat (n div 10) @ [digit_char (n mod 10)])"

declare string_of_nat.simps [simp del]

definition string_of_int :: "int \<Rightarrow> string" where
  "string_of_int i = (if i < 0 then CHR ''-'' # string_of_nat (nat (- i)) else string_of_nat (nat i))"

subsection \<open>Arrays\<close>

text \<open>\<open>findIndex\<close>: the first position whose element satisfies the test.\<close>

fun find_index :: "('a \<Rightarrow> bool) \<Rightarrow> 'a list \<Rightarrow> nat option" where
  "find_index p [] = None"
| "find_index p (x # xs) = (if p x then Some 0 else map_option Suc (find_index p xs))"

text \<open>Updating the first element that satisfies the test in place.\<close>

fun update_first :: "('a \<Rightarrow> bool) \<Rightarrow> ('a \<Rightarrow> 'a) \<Rightarrow> 'a list \<Rightarrow> 'a list" where
  "update_first p f [] = []"
| "update_first p f (x # xs) = (if p x then f x # xs else x # update_first p f xs)"

text \<open>Insertion order of a \<open>Set\<close> built from an array: the first occurrences.\<close>

fun dedup :: "'a list \<Rightarrow> 'a list" where
  "dedup [] = []"
| "dedup (x # xs) = x # filter (\<lambda>y. y \<noteq> x) (dedup xs)"

text \<open>A stable sort by a strict comparison, as \<open>Array.prototype.sort\<close> does.\<close>

fun insort_by :: "('a \<Rightarrow> 'a \<Rightarrow> bool) \<Rightarrow> 'a \<Rightarrow> 'a list \<Rightarrow> 'a list" where
  "insort_by lt x [] = [x]"
| "insort_by lt x (y # ys) = (if lt y x then y # insort_by lt x ys else x # y # ys)"

fun sort_by :: "('a \<Rightarrow> 'a \<Rightarrow> bool) \<Rightarrow> 'a list \<Rightarrow> 'a list" where
  "sort_by lt [] = []"
| "sort_by lt (x # xs) = insort_by lt x (sort_by lt xs)"

subsection \<open>Facts on strings\<close>

lemma dropWhile_idem [simp]: "dropWhile p (dropWhile p xs) = dropWhile p xs"
  by (induction xs) auto

lemma js_trim_end_idem [simp]: "js_trim_end (js_trim_end s) = js_trim_end s"
  by (simp add: js_trim_end_def)

lemma js_trim_end_Nil [simp]: "js_trim_end [] = []"
  by (simp add: js_trim_end_def)

lemma js_trim_end_Cons: "\<not> js_ws c \<Longrightarrow> js_trim_end (c # s) = c # js_trim_end s"
  by (auto simp: js_trim_end_def dropWhile_append)

lemma dropWhile_js_trim_end: "dropWhile js_ws (js_trim_end (dropWhile js_ws s)) = js_trim_end (dropWhile js_ws s)"
proof (cases "dropWhile js_ws s")
  case Nil
  show ?thesis unfolding Nil by simp
next
  case (Cons c t)
  then have "\<not> js_ws c" by (simp add: dropWhile_eq_Cons_conv)
  then show ?thesis unfolding Cons by (simp add: js_trim_end_Cons)
qed

lemma js_trim_idem [simp]: "js_trim (js_trim s) = js_trim s"
  by (simp add: js_trim_def dropWhile_js_trim_end)

lemma js_trim_Nil [simp]: "js_trim [] = []"
  by (simp add: js_trim_def)

lemma of_char_lower:
  "(of_char (js_lower_char c) :: nat) =
     (let n = of_char c in if 65 \<le> n \<and> n \<le> 90 \<or> 192 \<le> n \<and> n \<le> 222 \<and> n \<noteq> 215 then n + 32 else n)"
  by (auto simp: js_lower_char_def Let_def)

lemma js_lower_char_idem [simp]: "js_lower_char (js_lower_char c) = js_lower_char c"
proof -
  have "(of_char (js_lower_char (js_lower_char c)) :: nat) = of_char (js_lower_char c)"
    by (auto simp: of_char_lower Let_def)
  then show ?thesis by (simp add: of_char_eq_iff)
qed

lemma js_lower_idem [simp]: "js_lower (js_lower s) = js_lower s"
  by (simp add: js_lower_def)

lemma js_ws_lower [simp]: "js_ws (js_lower_char c) = js_ws c"
  by (auto simp: js_ws_def of_char_lower Let_def)

lemma dropWhile_lower: "dropWhile js_ws (map js_lower_char s) = map js_lower_char (dropWhile js_ws s)"
  by (induction s) auto

lemma js_trim_lower: "js_trim (js_lower s) = js_lower (js_trim s)"
  by (simp add: js_trim_def js_trim_end_def js_lower_def dropWhile_lower rev_map)

lemma js_lower_Nil [simp]: "js_lower [] = []"
  by (simp add: js_lower_def)

lemma js_lower_eq_Nil [simp]: "js_lower s = [] \<longleftrightarrow> s = []"
  by (simp add: js_lower_def)

lemma truthy_str_simps [simp]:
  "truthy_str None = False" "truthy_str (Some s) = (s \<noteq> [])"
  by (simp_all add: truthy_str_def)

lemma is_digit_digit_char: "n < 10 \<Longrightarrow> is_digit (digit_char n)"
  by (simp add: is_digit_def digit_char_def)

lemma digit_val_digit_char: "n < 10 \<Longrightarrow> digit_val (digit_char n) = n"
  by (simp add: digit_val_def digit_char_def)

lemma nat_of_digits_append: "nat_of_digits acc (s @ t) = nat_of_digits (nat_of_digits acc s) t"
  by (induction s arbitrary: acc) auto

lemma nat_of_digits_string_of_nat: "nat_of_digits 0 (string_of_nat n) = n"
proof (induction n rule: string_of_nat.induct)
  case (1 n)
  show ?case
  proof (cases "n < 10")
    case True
    then show ?thesis by (subst string_of_nat.simps) (simp add: digit_val_digit_char)
  next
    case False
    with 1 have "nat_of_digits 0 (string_of_nat (n div 10)) = n div 10" by simp
    with False show ?thesis
      by (subst string_of_nat.simps) (simp add: nat_of_digits_append digit_val_digit_char)
  qed
qed

lemma string_of_nat_inj: "string_of_nat m = string_of_nat n \<longleftrightarrow> m = n"
  by (metis nat_of_digits_string_of_nat)

lemma string_of_nat_digits: "\<forall>c \<in> set (string_of_nat n). is_digit c"
proof (induction n rule: string_of_nat.induct)
  case (1 n)
  then show ?case
    by (subst string_of_nat.simps) (auto simp: is_digit_digit_char)
qed

lemma string_of_nat_nonempty [simp]: "string_of_nat n \<noteq> []"
  by (subst string_of_nat.simps) simp

lemma dropWhile_none: "\<forall>x \<in> set xs. \<not> p x \<Longrightarrow> dropWhile p xs = xs"
  by (cases xs) auto

lemma no_ws_trim: "list_all (\<lambda>c. \<not> js_ws c) s \<Longrightarrow> js_trim s = s"
  unfolding js_trim_def js_trim_end_def by (simp add: dropWhile_none list_all_iff)

text \<open>Words of lower case letters, digits, underscores and hyphens are their own lower case
  and have nothing to trim.\<close>

definition lower_word :: "string \<Rightarrow> bool" where
  "lower_word s \<longleftrightarrow> list_all (\<lambda>c. let n = (of_char c :: nat) in 97 \<le> n \<and> n \<le> 122 \<or> 48 \<le> n \<and> n \<le> 57 \<or> n = 45 \<or> n = 95) s"

lemma js_lower_word: "lower_word s \<Longrightarrow> js_lower s = s"
  by (induction s) (auto simp: lower_word_def js_lower_def js_lower_char_def Let_def)

lemma js_trim_word: "lower_word s \<Longrightarrow> js_trim s = s"
proof -
  assume "lower_word s"
  then have "\<forall>c \<in> set s. \<not> js_ws c"
    by (auto simp: lower_word_def js_ws_def list_all_iff Let_def)
  then show ?thesis
    by (simp add: js_trim_def js_trim_end_def dropWhile_none)
qed

subsection \<open>Facts on arrays\<close>

lemma find_index_Some:
  "find_index p xs = Some i \<Longrightarrow> i < length xs \<and> p (xs ! i) \<and> (\<forall>j < i. \<not> p (xs ! j))"
proof (induction xs arbitrary: i)
  case Nil
  then show ?case by simp
next
  case (Cons x xs)
  show ?case
  proof (cases "p x")
    case True
    with Cons.prems show ?thesis by simp
  next
    case False
    with Cons.prems obtain k where "find_index p xs = Some k" "i = Suc k" by auto
    with Cons.IH False show ?thesis by (auto simp: less_Suc_eq_0_disj)
  qed
qed

lemma find_index_update:
  "find_index p xs = Some i \<Longrightarrow> p y \<Longrightarrow> find_index p (xs[i := y]) = Some i"
proof (induction xs arbitrary: i)
  case (Cons x xs)
  then show ?case by (cases i) (auto split: if_splits)
qed simp

lemma find_update_other:
  "\<not> q (xs ! i) \<Longrightarrow> \<not> q y \<Longrightarrow> i < length xs \<Longrightarrow> List.find q (xs[i := y]) = List.find q xs"
proof (induction xs arbitrary: i)
  case (Cons x xs)
  then show ?case by (cases i) auto
qed simp

lemma find_append: "List.find p (xs @ ys) = (case List.find p xs of None \<Rightarrow> List.find p ys | Some x \<Rightarrow> Some x)"
  by (induction xs) auto

lemma find_index_None: "find_index p xs = None \<longleftrightarrow> (\<forall>x \<in> set xs. \<not> p x)"
  by (induction xs) auto

lemma find_eq_find_index:
  "List.find p xs = (case find_index p xs of None \<Rightarrow> None | Some i \<Rightarrow> Some (xs ! i))"
  by (induction xs) (auto split: option.splits)

lemma find_SomeD: "List.find p xs = Some x \<Longrightarrow> x \<in> set xs \<and> p x"
  by (induction xs) (auto split: if_splits)

lemma find_key: "distinct (map f xs) \<Longrightarrow> x \<in> set xs \<Longrightarrow> List.find (\<lambda>y. f y = f x) xs = Some x"
  by (induction xs) (auto simp: image_iff)

lemma length_update_first [simp]: "length (update_first p f xs) = length xs"
  by (induction xs) auto

lemma map_update_first_frame: "(\<And>x. g (f x) = g x) \<Longrightarrow> map g (update_first p f xs) = map g xs"
  by (induction xs) auto

lemma set_update_first_subset: "set (update_first p f xs) \<subseteq> set xs \<union> f ` {x \<in> set xs. p x}"
  by (induction xs) auto

lemma set_dedup [simp]: "set (dedup xs) = set xs"
  by (induction xs) auto

lemma distinct_dedup [simp]: "distinct (dedup xs)"
  by (induction xs) auto

lemma dedup_distinct: "distinct xs \<Longrightarrow> dedup xs = xs"
  by (induction xs) (auto simp: filter_id_conv)

lemma set_insort_by [simp]: "set (insort_by lt x xs) = insert x (set xs)"
  by (induction xs) auto

lemma set_sort_by [simp]: "set (sort_by lt xs) = set xs"
  by (induction xs) auto

lemma length_insort_by [simp]: "length (insort_by lt x xs) = Suc (length xs)"
  by (induction xs) auto

lemma length_sort_by [simp]: "length (sort_by lt xs) = length xs"
  by (induction xs) auto

lemma distinct_insort_by [simp]: "distinct (insort_by lt x xs) \<longleftrightarrow> x \<notin> set xs \<and> distinct xs"
  by (induction xs) auto

lemma distinct_sort_by [simp]: "distinct (sort_by lt xs) \<longleftrightarrow> distinct xs"
  by (induction xs) auto

text \<open>Sorting by a key: the comparison of the code is \<open>key a < key b\<close>.\<close>

lemma sorted_insort_by_key:
  fixes key :: "'a \<Rightarrow> 'b :: linorder"
  shows "sorted (map key xs) \<Longrightarrow> sorted (map key (insort_by (\<lambda>a b. key a < key b) x xs))"
proof (induction xs)
  case Nil
  then show ?case by simp
next
  case (Cons a xs)
  then show ?case by (cases "key a < key x") (auto intro: order_trans [of _ "key a"])
qed

lemma sorted_sort_by_key:
  fixes key :: "'a \<Rightarrow> 'b :: linorder"
  shows "sorted (map key (sort_by (\<lambda>a b. key a < key b) xs))"
  by (induction xs) (auto intro: sorted_insort_by_key)

subsection \<open>Dictionaries\<close>

text \<open>Writing one property of an object used as a dictionary.\<close>

fun dict_put :: "'k \<Rightarrow> 'v \<Rightarrow> ('k \<times> 'v) list \<Rightarrow> ('k \<times> 'v) list" where
  "dict_put k v [] = [(k, v)]"
| "dict_put k v ((l, w) # d) = (if l = k then (k, v) # d else (l, w) # dict_put k v d)"

lemma map_of_dict_put [simp]: "map_of (dict_put k v d) l = (if l = k then Some v else map_of d l)"
  by (induction k v d rule: dict_put.induct) auto

lemma keys_dict_put [simp]: "fst ` set (dict_put k v d) = insert k (fst ` set d)"
  by (induction k v d rule: dict_put.induct) auto

lemma distinct_dict_put: "distinct (map fst d) \<Longrightarrow> distinct (map fst (dict_put k v d))"
proof (induction k v d rule: dict_put.induct)
  case (2 k v l w d)
  then show ?case using keys_dict_put [of k v d] by (auto simp: image_iff)
qed simp

text \<open>A state keyed by name: reading after a write, and nothing else changed.\<close>

locale keyed_store =
  fixes get :: "'s \<Rightarrow> 'k \<Rightarrow> 'v option"
    and put :: "'k \<Rightarrow> 'v \<Rightarrow> 's \<Rightarrow> 's"
  assumes get_put: "get (put k v s) l = (if l = k then Some v else get s l)"
begin

lemma get_put_same [simp]: "get (put k v s) k = Some v"
  by (simp add: get_put)

lemma get_put_other: "l \<noteq> k \<Longrightarrow> get (put k v s) l = get s l"
  by (simp add: get_put)

lemma put_put: "get (put k w (put k v s)) = get (put k w s)"
  by (rule ext) (simp add: get_put)

lemma put_commute: "k \<noteq> l \<Longrightarrow> get (put k v (put l w s)) = get (put l w (put k v s))"
  by (rule ext) (auto simp: get_put)

text \<open>A predicate on stored values that a write of a good value keeps.\<close>

definition all_values :: "('v \<Rightarrow> bool) \<Rightarrow> 's \<Rightarrow> bool" where
  "all_values p s \<longleftrightarrow> (\<forall>k v. get s k = Some v \<longrightarrow> p v)"

lemma all_values_put: "all_values p s \<Longrightarrow> p v \<Longrightarrow> all_values p (put k v s)"
  by (auto simp: all_values_def get_put)

end

interpretation dict: keyed_store "\<lambda>d. map_of d" dict_put
  by unfold_locales simp

end
