(* ===== verification/StatusMachine.thy ===== *)
theory StatusMachine
  imports Prelude
begin

text \<open>
  The contract the status tables of the program share: a relation \<open>can\<close> between statuses and
  a set of terminal statuses no transition leaves. A history is a list of statuses each
  allowed to follow the one before. A ranked machine moves strictly upwards, so a history is
  no longer than the range of the rank.
\<close>

locale status_machine =
  fixes can :: "'s \<Rightarrow> 's \<Rightarrow> bool"
    and terminal :: "'s \<Rightarrow> bool"
  assumes terminal_stuck: "terminal s \<Longrightarrow> \<not> can s t"
begin

fun history :: "'s list \<Rightarrow> bool" where
  "history [] = True"
| "history [s] = True"
| "history (s # t # ss) = (can s t \<and> history (t # ss))"

lemma history_tl: "history (s # ss) \<Longrightarrow> history ss"
  by (cases ss) auto

lemma terminal_last: "history (xs @ s # ys) \<Longrightarrow> terminal s \<Longrightarrow> ys = []"
proof (induction xs)
  case Nil
  then show ?case by (cases ys) (auto dest: terminal_stuck)
next
  case (Cons x xs)
  then show ?case using history_tl [of x "xs @ s # ys"] by simp
qed

lemma terminal_reach: "can\<^sup>*\<^sup>* s t \<Longrightarrow> terminal s \<Longrightarrow> t = s"
  by (induction rule: converse_rtranclp_induct) (auto dest: terminal_stuck)

end

locale ranked_status_machine = status_machine can terminal
  for can :: "'s \<Rightarrow> 's \<Rightarrow> bool" and terminal :: "'s \<Rightarrow> bool" +
  fixes rank :: "'s \<Rightarrow> nat"
  assumes can_up: "can s t \<Longrightarrow> rank s < rank t"
begin

lemma history_rank: "history ss \<Longrightarrow> sorted_wrt (<) (map rank ss)"
proof (induction ss rule: history.induct)
  case (3 s t ss)
  then have "sorted_wrt (<) (map rank (t # ss))" "rank s < rank t" by (auto dest: can_up)
  then show ?case by auto
qed auto

lemma history_length: "history ss \<Longrightarrow> \<forall>s. rank s < n \<Longrightarrow> length ss \<le> n"
proof -
  assume h: "history ss" and n: "\<forall>s. rank s < n"
  have "distinct (map rank ss)" using history_rank [OF h] strict_sorted_iff by blast
  moreover have "set (map rank ss) \<subseteq> {..<n}" using n by auto
  ultimately show "length ss \<le> n"
    using card_mono [of "{..<n}" "set (map rank ss)"] distinct_card [of "map rank ss"] by simp
qed

lemma never_back: "can\<^sup>+\<^sup>+ s t \<Longrightarrow> rank s < rank t"
  by (induction rule: tranclp_induct) (auto dest: can_up)

lemma no_cycle: "\<not> can\<^sup>+\<^sup>+ s s"
  using never_back by blast

end

end
