(* ===== verification/Regex.thy ===== *)
theory Regex
  imports Prelude
begin

text \<open>
  The regular expressions of the modelled source. A pattern is a value of type \<open>rx\<close>, and
  \<open>ends r s i\<close> lists the positions at which a match of \<open>r\<close> begun at position \<open>i\<close> of
  \<open>s\<close> may end, in the order in which the backtracking matcher of ECMAScript tries them:
  the first element is the match the engine finds. A greedy repetition prefers more
  iterations and rejects an empty one, so its unfolding is bounded by the length of the rest
  of the input.
\<close>

datatype rx =
    Eps
  | Cls "char \<Rightarrow> bool"
  | Seq rx rx
  | Alt rx rx
  | Star rx
  | BolM
  | EolM
  | Bos
  | Eos
  | WordB

definition is_word_char :: "char \<Rightarrow> bool" where
  "is_word_char c \<longleftrightarrow>
     (let n = (of_char c :: nat)
      in 48 \<le> n \<and> n \<le> 57 \<or> 65 \<le> n \<and> n \<le> 90 \<or> n = 95 \<or> 97 \<le> n \<and> n \<le> 122)"

definition is_line_end :: "char \<Rightarrow> bool" where
  "is_line_end c \<longleftrightarrow> c = CHR 0x0A \<or> c = CHR 0x0D"

definition word_at :: "string \<Rightarrow> nat \<Rightarrow> bool" where
  "word_at s i \<longleftrightarrow> i < length s \<and> is_word_char (s ! i)"

fun iter_ends :: "nat \<Rightarrow> (nat \<Rightarrow> nat list) \<Rightarrow> nat \<Rightarrow> nat list" where
  "iter_ends 0 f i = [i]"
| "iter_ends (Suc n) f i = concat (map (\<lambda>j. if i < j then iter_ends n f j else []) (f i)) @ [i]"

fun ends :: "rx \<Rightarrow> string \<Rightarrow> nat \<Rightarrow> nat list" where
  "ends Eps s i = [i]"
| "ends (Cls p) s i = (if i < length s \<and> p (s ! i) then [Suc i] else [])"
| "ends (Seq a b) s i = concat (map (ends b s) (ends a s i))"
| "ends (Alt a b) s i = ends a s i @ ends b s i"
| "ends (Star a) s i = iter_ends (length s - i) (ends a s) i"
| "ends BolM s i = (if i = 0 \<or> is_line_end (s ! (i - 1)) then [i] else [])"
| "ends EolM s i = (if length s \<le> i \<or> is_line_end (s ! i) then [i] else [])"
| "ends Bos s i = (if i = 0 then [i] else [])"
| "ends Eos s i = (if length s \<le> i then [i] else [])"
| "ends WordB s i = (if (0 < i \<and> word_at s (i - 1)) \<noteq> word_at s i then [i] else [])"

text \<open>Derived patterns: a literal (with or without the \<open>i\<close> flag), an alternation of
  literals, \<open>+\<close>, \<open>?\<close>, a sequence.\<close>

fun rx_seq :: "rx list \<Rightarrow> rx" where
  "rx_seq [] = Eps"
| "rx_seq [r] = r"
| "rx_seq (r # q # rs) = Seq r (rx_seq (q # rs))"

fun rx_alts :: "rx list \<Rightarrow> rx" where
  "rx_alts [] = Cls (\<lambda>_. False)"
| "rx_alts [r] = r"
| "rx_alts (r # q # rs) = Alt r (rx_alts (q # rs))"

definition rx_lit :: "string \<Rightarrow> rx" where
  "rx_lit w = rx_seq (map (\<lambda>c. Cls (\<lambda>d. d = c)) w)"

definition rx_lit_i :: "string \<Rightarrow> rx" where
  "rx_lit_i w = rx_seq (map (\<lambda>c. Cls (\<lambda>d. js_lower_char d = js_lower_char c)) w)"

definition rx_words :: "string list \<Rightarrow> rx" where
  "rx_words ws = rx_alts (map rx_lit ws)"

definition rx_plus :: "rx \<Rightarrow> rx" where
  "rx_plus r = Seq r (Star r)"

definition rx_opt :: "rx \<Rightarrow> rx" where
  "rx_opt r = Alt r Eps"

definition rx_dot :: rx where
  "rx_dot = Cls (\<lambda>c. \<not> is_line_end c)"

definition rx_space :: rx where
  "rx_space = Cls js_ws"

definition rx_nonspace :: rx where
  "rx_nonspace = Cls (\<lambda>c. \<not> js_ws c)"

text \<open>\<open>RegExp.prototype.test\<close>: some start position has a match.\<close>

definition rx_test :: "rx \<Rightarrow> string \<Rightarrow> bool" where
  "rx_test r s \<longleftrightarrow> list_ex (\<lambda>i. ends r s i \<noteq> []) [0..<Suc (length s)]"

definition substring :: "string \<Rightarrow> nat \<Rightarrow> nat \<Rightarrow> string" where
  "substring s i j = take (j - i) (drop i s)"

text \<open>The first match of \<open>pre(g)post\<close> and the text of its group.\<close>

definition captures_at :: "rx \<Rightarrow> rx \<Rightarrow> rx \<Rightarrow> string \<Rightarrow> nat \<Rightarrow> (nat \<times> nat \<times> nat) list" where
  "captures_at pre g post s i =
     concat (map (\<lambda>a. concat (map (\<lambda>b. map (\<lambda>e. (a, b, e)) (ends post s b)) (ends g s a))) (ends pre s i))"

fun first_capture :: "rx \<Rightarrow> rx \<Rightarrow> rx \<Rightarrow> string \<Rightarrow> nat list \<Rightarrow> string option" where
  "first_capture pre g post s [] = None"
| "first_capture pre g post s (i # is) =
     (case captures_at pre g post s i of
        [] \<Rightarrow> first_capture pre g post s is
      | (a, b, e) # _ \<Rightarrow> Some (substring s a b))"

definition rx_capture :: "rx \<Rightarrow> rx \<Rightarrow> rx \<Rightarrow> string \<Rightarrow> string option" where
  "rx_capture pre g post s = first_capture pre g post s [0..<Suc (length s)]"

text \<open>
  Global scans of a pattern that never matches the empty string: every match from left to
  right, each starting where the one before ended. \<open>rx_replace_all r w s\<close> puts \<open>w\<close> in the
  place of each match, and \<open>all_captures\<close> lists the group of each match.
\<close>

fun rx_scan :: "nat \<Rightarrow> rx \<Rightarrow> string \<Rightarrow> nat \<Rightarrow> (nat \<times> nat) list" where
  "rx_scan 0 r s i = []"
| "rx_scan (Suc n) r s i =
     (case ends r s i of
        [] \<Rightarrow> (if i < length s then rx_scan n r s (Suc i) else [])
      | j # _ \<Rightarrow> (if i < j then (i, j) # rx_scan n r s j
                  else if i < length s then rx_scan n r s (Suc i) else []))"

definition rx_matches :: "rx \<Rightarrow> string \<Rightarrow> string list" where
  "rx_matches r s = map (\<lambda>(i, j). substring s i j) (rx_scan (Suc (length s)) r s 0)"

fun replace_from :: "nat \<Rightarrow> rx \<Rightarrow> string \<Rightarrow> string \<Rightarrow> nat \<Rightarrow> string" where
  "replace_from 0 r w s i = []"
| "replace_from (Suc n) r w s i =
     (case ends r s i of
        [] \<Rightarrow> (if i < length s then (s ! i) # replace_from n r w s (Suc i) else [])
      | j # _ \<Rightarrow> (if i < j then w @ replace_from n r w s j
                  else if i < length s then (s ! i) # replace_from n r w s (Suc i) else []))"

definition rx_replace_all :: "rx \<Rightarrow> string \<Rightarrow> string \<Rightarrow> string" where
  "rx_replace_all r w s = replace_from (Suc (length s)) r w s 0"

fun capture_scan :: "nat \<Rightarrow> rx \<Rightarrow> rx \<Rightarrow> rx \<Rightarrow> string \<Rightarrow> nat \<Rightarrow> string list" where
  "capture_scan 0 pre g post s i = []"
| "capture_scan (Suc n) pre g post s i =
     (case captures_at pre g post s i of
        [] \<Rightarrow> (if i < length s then capture_scan n pre g post s (Suc i) else [])
      | (a, b, e) # _ \<Rightarrow>
          (if i < e then substring s a b # capture_scan n pre g post s e
           else if i < length s then capture_scan n pre g post s (Suc i) else []))"

definition all_captures :: "rx \<Rightarrow> rx \<Rightarrow> rx \<Rightarrow> string \<Rightarrow> string list" where
  "all_captures pre g post s = capture_scan (Suc (length s)) pre g post s 0"

subsection \<open>Matches stay inside the input\<close>

lemma iter_ends_ge:
  "(\<And>k j. j \<in> set (f k) \<Longrightarrow> k \<le> j) \<Longrightarrow> e \<in> set (iter_ends n f i) \<Longrightarrow> i \<le> e"
  by (induction n f i rule: iter_ends.induct) (force split: if_splits)+

lemma ends_ge: "e \<in> set (ends r s i) \<Longrightarrow> i \<le> e"
proof (induction r arbitrary: i e)
  case (Seq a b)
  then show ?case by (force dest: order_trans)
next
  case (Star a)
  then show ?case using iter_ends_ge [of "ends a s" e "length s - i" i] by auto
qed (auto split: if_splits)

lemma iter_ends_le:
  "(\<And>k j. j \<in> set (f k) \<Longrightarrow> k \<le> m \<Longrightarrow> j \<le> m) \<Longrightarrow> i \<le> m \<Longrightarrow> e \<in> set (iter_ends n f i) \<Longrightarrow> e \<le> m"
  by (induction n f i rule: iter_ends.induct) (force split: if_splits)+

lemma ends_le: "e \<in> set (ends r s i) \<Longrightarrow> i \<le> length s \<Longrightarrow> e \<le> length s"
proof (induction r arbitrary: i e)
  case (Seq a b)
  then show ?case by fastforce
next
  case (Star a)
  then show ?case using iter_ends_le [of "ends a s" "length s" i e "length s - i"] by auto
qed (auto split: if_splits)

end
