(* ===== verification/TeamContracts.thy ===== *)
theory TeamContracts
  imports StatusMachine Regex
begin

text \<open>
  The vocabulary of the team runtime (\<open>src/team/contracts.ts\<close>): identifier patterns, the
  statuses of tasks and dispatch requests with their transition tables, the integration
  statuses, and the event types with the set of events that wake a leader.
\<close>

subsection \<open>Identifier patterns\<close>

definition is_lower_alnum :: "char \<Rightarrow> bool" where
  "is_lower_alnum c \<longleftrightarrow> is_digit c \<or> (let n = (of_char c :: nat) in 97 \<le> n \<and> n \<le> 122)"

definition safe_name :: "nat \<Rightarrow> string \<Rightarrow> bool" where
  "safe_name k s \<longleftrightarrow>
     (case s of [] \<Rightarrow> False
      | c # cs \<Rightarrow> is_lower_alnum c \<and> length cs \<le> k \<and> list_all (\<lambda>d. is_lower_alnum d \<or> d = CHR ''-'') cs)"

definition team_name_safe :: "string \<Rightarrow> bool" where
  "team_name_safe s = safe_name 29 s"

definition worker_name_safe :: "string \<Rightarrow> bool" where
  "worker_name_safe s = safe_name 63 s"

definition task_id_safe :: "string \<Rightarrow> bool" where
  "task_id_safe s \<longleftrightarrow> 1 \<le> length s \<and> length s \<le> 20 \<and> list_all is_digit s"

subsection \<open>Task statuses\<close>

datatype task_status = TPending | TBlocked | TInProgress | TCompleted | TFailed

definition team_task_statuses :: "task_status list" where
  "team_task_statuses = [TPending, TBlocked, TInProgress, TCompleted, TFailed]"

fun task_status_name :: "task_status \<Rightarrow> string" where
  "task_status_name TPending = ''pending''"
| "task_status_name TBlocked = ''blocked''"
| "task_status_name TInProgress = ''in_progress''"
| "task_status_name TCompleted = ''completed''"
| "task_status_name TFailed = ''failed''"

definition task_status_of :: "string \<Rightarrow> task_status option" where
  "task_status_of s = List.find (\<lambda>t. task_status_name t = s) team_task_statuses"

fun task_status_transitions :: "task_status \<Rightarrow> task_status list" where
  "task_status_transitions TInProgress = [TCompleted, TFailed]"
| "task_status_transitions _ = []"

definition is_terminal_task_status :: "task_status \<Rightarrow> bool" where
  "is_terminal_task_status s \<longleftrightarrow> s \<in> {TCompleted, TFailed}"

definition can_transition_task_status :: "task_status \<Rightarrow> task_status \<Rightarrow> bool" where
  "can_transition_task_status from to \<longleftrightarrow> to \<in> set (task_status_transitions from)"

subsection \<open>Dispatch request statuses\<close>

datatype dispatch_status = DPending | DNotified | DDelivered | DFailed

definition team_dispatch_statuses :: "dispatch_status list" where
  "team_dispatch_statuses = [DPending, DNotified, DDelivered, DFailed]"

fun dispatch_status_name :: "dispatch_status \<Rightarrow> string" where
  "dispatch_status_name DPending = ''pending''"
| "dispatch_status_name DNotified = ''notified''"
| "dispatch_status_name DDelivered = ''delivered''"
| "dispatch_status_name DFailed = ''failed''"

definition dispatch_status_of :: "string \<Rightarrow> dispatch_status option" where
  "dispatch_status_of s = List.find (\<lambda>t. dispatch_status_name t = s) team_dispatch_statuses"

definition is_dispatch_status :: "string \<Rightarrow> bool" where
  "is_dispatch_status s \<longleftrightarrow> s \<in> set (map dispatch_status_name team_dispatch_statuses)"

fun dispatch_transitions :: "dispatch_status \<Rightarrow> dispatch_status list" where
  "dispatch_transitions DPending = [DNotified, DFailed]"
| "dispatch_transitions DNotified = [DDelivered, DFailed]"
| "dispatch_transitions _ = []"

definition is_terminal_dispatch_status :: "dispatch_status \<Rightarrow> bool" where
  "is_terminal_dispatch_status s \<longleftrightarrow> s \<in> {DDelivered, DFailed}"

definition can_transition_dispatch_status :: "dispatch_status \<Rightarrow> dispatch_status \<Rightarrow> bool" where
  "can_transition_dispatch_status from to \<longleftrightarrow> to \<in> set (dispatch_transitions from)"

subsection \<open>Integration statuses and events\<close>

definition team_worker_integration_statuses :: "string list" where
  "team_worker_integration_statuses =
     [''idle'', ''integrated'', ''integration_failed'', ''cherry_pick_conflict'', ''rebase_conflict'']"

definition is_worker_integration_status :: "string \<Rightarrow> bool" where
  "is_worker_integration_status s \<longleftrightarrow> s \<in> set team_worker_integration_statuses"

definition team_event_types :: "string list" where
  "team_event_types =
     [''task_completed'', ''task_failed'', ''worker_state_changed'', ''worker_idle'', ''worker_stopped'',
      ''message_received'', ''leader_notification_deferred'', ''all_workers_idle'', ''shutdown_ack'',
      ''shutdown_gate'', ''shutdown_gate_forced'', ''ralph_cleanup_policy'', ''ralph_cleanup_summary'',
      ''approval_decision'', ''team_leader_nudge'', ''worker_diff_activity'', ''worker_diff_report'',
      ''worker_merge_report'', ''worker_merge_conflict'', ''worker_integration_failed'',
      ''worker_integration_attempt_requested'', ''worker_cherry_pick_detected'',
      ''worker_cherry_pick_applied'', ''worker_cherry_pick_conflict'', ''worker_rebase_applied'',
      ''worker_rebase_conflict'', ''worker_cross_rebase_applied'', ''worker_cross_rebase_conflict'',
      ''worker_cross_rebase_skipped'', ''worker_stale_diff'', ''worker_stale_heartbeat'',
      ''worker_stale_stdout'']"

definition team_wakeable_event_types :: "string list" where
  "team_wakeable_event_types =
     [''worker_state_changed'', ''task_completed'', ''task_failed'', ''worker_stopped'',
      ''message_received'', ''leader_notification_deferred'', ''all_workers_idle'',
      ''team_leader_nudge'', ''worker_integration_failed'', ''worker_integration_attempt_requested'',
      ''worker_merge_conflict'', ''worker_cherry_pick_conflict'', ''worker_rebase_conflict'',
      ''worker_cross_rebase_conflict'', ''worker_stale_diff'', ''worker_stale_heartbeat'',
      ''worker_stale_stdout'']"

definition is_wakeable_event_type :: "string \<Rightarrow> bool" where
  "is_wakeable_event_type e \<longleftrightarrow> e \<in> set team_wakeable_event_types"

subsection \<open>The tables are status machines\<close>

fun task_rank :: "task_status \<Rightarrow> nat" where
  "task_rank TPending = 0"
| "task_rank TBlocked = 0"
| "task_rank TInProgress = 1"
| "task_rank TCompleted = 2"
| "task_rank TFailed = 2"

fun dispatch_rank :: "dispatch_status \<Rightarrow> nat" where
  "dispatch_rank DPending = 0"
| "dispatch_rank DNotified = 1"
| "dispatch_rank DDelivered = 2"
| "dispatch_rank DFailed = 2"

lemma can_transition_task_status_iff [simp]:
  "can_transition_task_status s t \<longleftrightarrow> s = TInProgress \<and> is_terminal_task_status t"
  by (cases s) (auto simp: can_transition_task_status_def is_terminal_task_status_def)

lemma is_terminal_task_status_simps [simp]:
  "is_terminal_task_status TCompleted" "is_terminal_task_status TFailed"
  "\<not> is_terminal_task_status TPending" "\<not> is_terminal_task_status TBlocked"
  "\<not> is_terminal_task_status TInProgress"
  by (simp_all add: is_terminal_task_status_def)

lemma task_status_of_name [simp]: "task_status_of (task_status_name s) = Some s"
  by (cases s) (simp_all add: task_status_of_def team_task_statuses_def)

lemma is_terminal_dispatch_simps [simp]:
  "is_terminal_dispatch_status DDelivered" "is_terminal_dispatch_status DFailed"
  "\<not> is_terminal_dispatch_status DPending" "\<not> is_terminal_dispatch_status DNotified"
  by (simp_all add: is_terminal_dispatch_status_def)

lemma can_transition_dispatch_status_simps [simp]:
  "can_transition_dispatch_status DPending t \<longleftrightarrow> t = DNotified \<or> t = DFailed"
  "can_transition_dispatch_status DNotified t \<longleftrightarrow> t = DDelivered \<or> t = DFailed"
  "\<not> can_transition_dispatch_status DDelivered t"
  "\<not> can_transition_dispatch_status DFailed t"
  by (auto simp: can_transition_dispatch_status_def)

interpretation task_machine:
  ranked_status_machine can_transition_task_status is_terminal_task_status task_rank
  by unfold_locales (auto simp: is_terminal_task_status_def)

interpretation dispatch_machine:
  ranked_status_machine can_transition_dispatch_status is_terminal_dispatch_status dispatch_rank
proof unfold_locales
  fix s t
  show "is_terminal_dispatch_status s \<Longrightarrow> \<not> can_transition_dispatch_status s t"
    by (cases s) simp_all
  show "can_transition_dispatch_status s t \<Longrightarrow> dispatch_rank s < dispatch_rank t"
    by (cases s) auto
qed

lemma wakeable_known: "is_wakeable_event_type e \<Longrightarrow> e \<in> set team_event_types"
proof -
  have "set team_wakeable_event_types \<subseteq> set team_event_types" by code_simp
  then show "is_wakeable_event_type e \<Longrightarrow> e \<in> set team_event_types"
    by (auto simp: is_wakeable_event_type_def)
qed

instantiation task_status :: linorder
begin

definition less_eq_task_status :: "task_status \<Rightarrow> task_status \<Rightarrow> bool" where
  "less_eq_task_status s t \<longleftrightarrow>
     (case (find_index ((=) s) team_task_statuses, find_index ((=) t) team_task_statuses) of
        (Some i, Some j) \<Rightarrow> i \<le> j | _ \<Rightarrow> False)"

definition less_task_status :: "task_status \<Rightarrow> task_status \<Rightarrow> bool" where
  "less_task_status s t \<longleftrightarrow> s \<le> t \<and> s \<noteq> t"

instance
proof
  fix x y z :: task_status
  show "x < y \<longleftrightarrow> x \<le> y \<and> \<not> y \<le> x"
    by (cases x; cases y) (simp_all add: less_task_status_def less_eq_task_status_def team_task_statuses_def)
  show "x \<le> x"
    by (cases x) (simp_all add: less_eq_task_status_def team_task_statuses_def)
  show "x \<le> y \<Longrightarrow> y \<le> z \<Longrightarrow> x \<le> z"
    by (cases x; cases y; cases z) (simp_all add: less_eq_task_status_def team_task_statuses_def)
  show "x \<le> y \<Longrightarrow> y \<le> x \<Longrightarrow> x = y"
    by (cases x; cases y) (simp_all add: less_eq_task_status_def team_task_statuses_def)
  show "x \<le> y \<or> y \<le> x"
    by (cases x; cases y) (simp_all add: less_eq_task_status_def team_task_statuses_def)
qed

end

lemma digit_chars_safe: "n < 10 ^ 20 \<Longrightarrow> task_id_safe (string_of_nat n)"
proof -
  have len: "m < 10 ^ k \<Longrightarrow> 0 < k \<Longrightarrow> length (string_of_nat m) \<le> k" for m k
  proof (induction m arbitrary: k rule: string_of_nat.induct)
    case (1 m)
    show ?case
    proof (cases "m < 10")
      case True
      with 1 show ?thesis by (simp add: string_of_nat.simps [of m])
    next
      case False
      then obtain j where k: "k = Suc j" "0 < j" using 1 by (cases k; cases "k = 1") auto
      then have "m div 10 < 10 ^ j" using 1(2) by (simp add: less_mult_imp_div_less mult.commute)
      with 1 False k show ?thesis by (simp add: string_of_nat.simps [of m])
    qed
  qed
  show "n < 10 ^ 20 \<Longrightarrow> task_id_safe (string_of_nat n)"
    using len [of n 20] string_of_nat_digits [of n]
    by (auto simp: task_id_safe_def list_all_iff Suc_le_eq)
qed

end
