(* ===== verification/JsDate.thy ===== *)
theory JsDate
  imports Prelude "HOL-Library.Monad_Syntax"
begin

text \<open>
  The two date operations of the JavaScript standard library that the source relies on:
  \<open>new Date(ms).toISOString()\<close> for the years 0 to 9999 and \<open>Date.parse\<close> on the
  ECMAScript date-time format (a date, or a date and a time with an optional offset; a time
  without an offset is read in UTC, the process running with \<open>TZ=UTC\<close>). Any other string
  is an invalid date, \<open>None\<close>. Times are integers, milliseconds since the epoch, and the
  record fields of the other theories hold the strings, as the source does.
\<close>

definition leap_year :: "nat \<Rightarrow> bool" where
  "leap_year y \<longleftrightarrow> y mod 4 = 0 \<and> (y mod 100 \<noteq> 0 \<or> y mod 400 = 0)"

definition days_before :: "nat \<Rightarrow> nat" where
  "days_before y = 365 * y + (y + 3) div 4 + (y + 399) div 400 - (y + 99) div 100"

definition month_lengths :: "nat \<Rightarrow> nat list" where
  "month_lengths y = [31, (if leap_year y then 29 else 28), 31, 30, 31, 30, 31, 31, 30, 31, 30, 31]"

function find_year :: "nat \<Rightarrow> nat \<Rightarrow> nat" where
  "find_year d y = (if days_before (Suc y) \<le> d then find_year d (Suc y) else y)"
  by pat_completeness auto
termination
proof (relation "measure (\<lambda>(d, y). Suc d - y)")
  show "wf (measure (\<lambda>(d, y). Suc d - y))" by simp
next
  fix d y
  assume "days_before (Suc y) \<le> d"
  moreover have "Suc y \<le> days_before (Suc y)"
    by (simp add: days_before_def)
  ultimately show "((d, Suc y), d, y) \<in> measure (\<lambda>(d, y). Suc d - y)"
    by simp
qed

declare find_year.simps [simp del]

fun split_month :: "nat list \<Rightarrow> nat \<Rightarrow> nat \<Rightarrow> nat \<times> nat" where
  "split_month [] m d = (m, d)"
| "split_month (l # ls) m d = (if d < l then (m, d) else split_month ls (Suc m) (d - l))"

definition digits2 :: "nat \<Rightarrow> string" where
  "digits2 n = [digit_char (n div 10 mod 10), digit_char (n mod 10)]"

definition digits3 :: "nat \<Rightarrow> string" where
  "digits3 n = digit_char (n div 100 mod 10) # digits2 (n mod 100)"

definition digits4 :: "nat \<Rightarrow> string" where
  "digits4 n = digit_char (n div 1000 mod 10) # digits3 (n mod 1000)"

definition epoch_days :: nat where
  "epoch_days = 719528"

definition ms_per_day :: int where
  "ms_per_day = 86400000"

text \<open>The times whose year has four digits.\<close>

definition valid_time :: "int \<Rightarrow> bool" where
  "valid_time t \<longleftrightarrow> - (int epoch_days * ms_per_day) \<le> t \<and> t < 2932897 * ms_per_day"

definition iso_of_ms :: "int \<Rightarrow> string" where
  "iso_of_ms t =
     (let d = nat (t div ms_per_day + int epoch_days); ms = nat (t mod ms_per_day);
          y = find_year d (d div 366);
          (m, dd) = split_month (month_lengths y) 0 (d - days_before y)
      in digits4 y @ ''-'' @ digits2 (Suc m) @ ''-'' @ digits2 (Suc dd) @ ''T'' @
         digits2 (ms div 3600000) @ '':'' @ digits2 (ms div 60000 mod 60) @ '':'' @
         digits2 (ms div 1000 mod 60) @ ''.'' @ digits3 (ms mod 1000) @ ''Z'')"

fun take_digits :: "nat \<Rightarrow> nat \<Rightarrow> string \<Rightarrow> (nat \<times> string) option" where
  "take_digits 0 acc s = Some (acc, s)"
| "take_digits (Suc n) acc [] = None"
| "take_digits (Suc n) acc (c # s) =
     (if is_digit c then take_digits n (10 * acc + digit_val c) s else None)"

fun expect_char :: "char \<Rightarrow> string \<Rightarrow> string option" where
  "expect_char c [] = None"
| "expect_char c (d # s) = (if c = d then Some s else None)"

text \<open>The milliseconds of a fraction: its first three digits, padded on the right.\<close>

definition fraction_ms :: "string \<Rightarrow> nat" where
  "fraction_ms ds = nat_of_digits 0 (take 3 (ds @ ''000''))"

fun parse_offset :: "string \<Rightarrow> int option" where
  "parse_offset [] = Some 0"
| "parse_offset (c # s) =
     (if c = CHR ''Z'' then (if s = [] then Some 0 else None)
      else if c = CHR ''+'' \<or> c = CHR ''-'' then
        do { (h, s1) \<leftarrow> take_digits 2 0 s;
             s2 \<leftarrow> expect_char CHR '':'' s1;
             (m, s3) \<leftarrow> take_digits 2 0 s2;
             if s3 = [] \<and> h < 24 \<and> m < 60
             then Some ((if c = CHR ''+'' then 1 else -1) * (int h * 3600000 + int m * 60000))
             else None }
      else None)"

definition day_number :: "nat \<Rightarrow> nat \<Rightarrow> nat \<Rightarrow> int" where
  "day_number y m d =
     int (days_before y) + int (sum_list (take (m - 1) (month_lengths y))) + int d - 1 - int epoch_days"

definition parse_seconds :: "string \<Rightarrow> (nat \<times> nat \<times> string) option" where
  "parse_seconds s =
     (case s of
        [] \<Rightarrow> Some (0, 0, s)
      | c # s1 \<Rightarrow>
          (if c \<noteq> CHR '':'' then Some (0, 0, s)
           else do {
             (sec, s2) \<leftarrow> take_digits 2 0 s1;
             (case s2 of
                [] \<Rightarrow> Some (sec, 0, s2)
              | e # s3 \<Rightarrow>
                  (if e \<noteq> CHR ''.'' then Some (sec, 0, s2)
                   else (let fs = takeWhile is_digit s3
                         in if fs = [] then None
                            else Some (sec, fraction_ms fs, dropWhile is_digit s3)))) }))"

definition date_parse :: "string \<Rightarrow> int option" where
  "date_parse s =
     do { (y, s1) \<leftarrow> take_digits 4 0 s;
          s2 \<leftarrow> expect_char CHR ''-'' s1;
          (mo, s3) \<leftarrow> take_digits 2 0 s2;
          s4 \<leftarrow> expect_char CHR ''-'' s3;
          (d, s5) \<leftarrow> take_digits 2 0 s4;
          if mo < 1 \<or> 12 < mo \<or> d < 1 \<or> 31 < d then None
          else if s5 = [] then Some (day_number y mo d * ms_per_day)
          else do {
            s6 \<leftarrow> expect_char CHR ''T'' s5;
            (h, s7) \<leftarrow> take_digits 2 0 s6;
            s8 \<leftarrow> expect_char CHR '':'' s7;
            (mi, s9) \<leftarrow> take_digits 2 0 s8;
            (sec, ms, s10) \<leftarrow> parse_seconds s9;
            off \<leftarrow> parse_offset s10;
            if mi < 60 \<and> sec < 60 \<and> (h < 24 \<or> h = 24 \<and> mi = 0 \<and> sec = 0 \<and> ms = 0)
            then Some (day_number y mo d * ms_per_day + int h * 3600000 + int mi * 60000
                       + int sec * 1000 + int ms - off)
            else None } }"

subsection \<open>Parsing undoes formatting\<close>

lemma century_le: "(y + 99) div 100 \<le> (y :: nat)"
  by linarith

lemma day_number_int [code]:
  "day_number y m d =
     365 * int y + (int y + 3) div 4 + (int y + 399) div 400 - (int y + 99) div 100
       + int (sum_list (take (m - 1) (month_lengths y))) + int d - 719529"
proof -
  have "(y + 99) div 100 \<le> 365 * y + (y + 3) div 4 + (y + 399) div 400"
    using century_le [of y] by simp
  then have "int (days_before y) = 365 * int y + (int y + 3) div 4 + (int y + 399) div 400 - (int y + 99) div 100"
    by (simp add: days_before_def of_nat_diff zdiv_int)
  then show ?thesis by (simp add: day_number_def epoch_days_def)
qed

lemma days_before_Suc: "days_before (Suc y) = days_before y + (if leap_year y then 366 else 365)"
proof -
  have q: "(Suc y + 3) div 4 = (y + 3) div 4 + (if y mod 4 = 0 then 1 else 0)"
    and c: "(Suc y + 99) div 100 = (y + 99) div 100 + (if y mod 100 = 0 then 1 else 0)"
    and f: "(Suc y + 399) div 400 = (y + 399) div 400 + (if y mod 400 = 0 then 1 else 0)"
    using div_Suc [of "y + 3" 4] div_Suc [of "y + 99" 100] div_Suc [of "y + 399" 400] by simp_all
  define a b e where "a = (y + 3) div 4" and "b = (y + 99) div 100" and "e = (y + 399) div 400"
  have "b \<le> y" unfolding b_def by (rule century_le)
  moreover have "y mod 400 = 0 \<Longrightarrow> y mod 100 = 0" "y mod 100 = 0 \<Longrightarrow> y mod 4 = 0"
    by presburger+
  ultimately show ?thesis
    unfolding days_before_def q c f leap_year_def a_def [symmetric] b_def [symmetric] e_def [symmetric]
    by (cases "y mod 4 = 0"; cases "y mod 100 = 0"; cases "y mod 400 = 0") (simp_all del: mod_0_imp_dvd)
qed

lemma sum_month_lengths: "sum_list (month_lengths y) = (if leap_year y then 366 else 365)"
  by (simp add: month_lengths_def)

lemma days_before_mono: "y \<le> z \<Longrightarrow> days_before y \<le> days_before z"
  by (induction z) (auto simp: days_before_Suc le_Suc_eq)

lemma days_before_le: "days_before y \<le> 366 * y"
  by (induction y) (auto simp: days_before_Suc days_before_def)

lemma find_year_correct:
  "days_before y \<le> d \<Longrightarrow>
     days_before (find_year d y) \<le> d \<and> d < days_before (Suc (find_year d y))"
proof (induction d y rule: find_year.induct)
  case (1 d y)
  show ?case
  proof (cases "days_before (Suc y) \<le> d")
    case True
    with 1 show ?thesis by (simp add: find_year.simps [of d y])
  next
    case False
    with 1 show ?thesis by (simp add: find_year.simps [of d y])
  qed
qed

lemma split_month_correct:
  "d < sum_list ls \<Longrightarrow> split_month ls k d = (m, dd) \<Longrightarrow>
     k \<le> m \<and> m < k + length ls \<and> sum_list (take (m - k) ls) + dd = d \<and> dd < ls ! (m - k)"
proof (induction ls k d rule: split_month.induct)
  case (1 k d)
  then show ?case by simp
next
  case (2 l ls k d)
  show ?case
  proof (cases "d < l")
    case True
    with 2 show ?thesis by auto
  next
    case False
    with 2 have "Suc k \<le> m \<and> m < Suc k + length ls \<and> sum_list (take (m - Suc k) ls) + dd = d - l
        \<and> dd < ls ! (m - Suc k)"
      by auto
    moreover from this have "m - k = Suc (m - Suc k)" by arith
    ultimately show ?thesis using False by auto
  qed
qed

lemma length_month_lengths: "length (month_lengths y) = 12"
  by (simp add: month_lengths_def)

lemma month_lengths_bound: "l \<in> set (month_lengths y) \<Longrightarrow> l \<le> 31"
  by (auto simp: month_lengths_def)

lemma div_digits:
  fixes n :: nat
  shows "n < 100 \<Longrightarrow> 10 * (n div 10 mod 10) + n mod 10 = n"
    and "n < 1000 \<Longrightarrow> 10 * (10 * (n div 100 mod 10) + n mod 100 div 10 mod 10) + n mod 100 mod 10 = n"
    and "n < 10000 \<Longrightarrow> 1000 * (n div 1000 mod 10) + n mod 1000 = n"
proof -
  show "10 * (n div 10 mod 10) + n mod 10 = n" if "n < 100"
    using that mult_div_mod_eq [of 10 n] by simp
  have "10 * (n mod 100 div 10) + n mod 100 mod 10 = n mod 100"
    by simp
  moreover have "100 * (n div 100) + n mod 100 = n" "n mod 100 div 10 < 10"
    by (simp_all add: less_mult_imp_div_less)
  ultimately show "10 * (10 * (n div 100 mod 10) + n mod 100 div 10 mod 10) + n mod 100 mod 10 = n"
    if "n < 1000"
    using that by simp
  show "1000 * (n div 1000 mod 10) + n mod 1000 = n" if "n < 10000"
    using that mult_div_mod_eq [of 1000 n] by simp
qed

lemma take_digits2: "n < 100 \<Longrightarrow> take_digits 2 0 (digits2 n @ s) = Some (n, s)"
  by (simp add: digits2_def numeral_2_eq_2 is_digit_digit_char digit_val_digit_char)

lemma digits4_value:
  assumes "n < (10000 :: nat)"
  shows "10 * (10 * (10 * (n div 1000 mod 10) + n mod 1000 div 100 mod 10) + n mod 1000 mod 100 div 10 mod 10)
           + n mod 1000 mod 100 mod 10 = n"
  using div_digits(3) [OF assms] div_digits(2) [of "n mod 1000"] by simp

lemma take_digits4:
  assumes "n < 10000"
  shows "take_digits 4 0 (digits4 n @ s) = Some (n, s)"
proof -
  have four: "4 = Suc (Suc (Suc (Suc 0)))" by simp
  show ?thesis
    unfolding digits4_def digits3_def digits2_def four
    using digits4_value [OF assms]
    by (simp add: is_digit_digit_char digit_val_digit_char del: mod_mod_trivial)
qed

lemma expect_char_Cons [simp]: "expect_char c (c # s) = Some s"
  by simp

lemma not_digit_Z: "\<not> is_digit CHR ''Z''"
  by (simp add: is_digit_def)

lemma fraction_digits3:
  assumes "n < 1000"
  shows "fraction_ms (digits3 n) = n"
proof -
  have three: "3 = Suc (Suc (Suc 0))" by simp
  show ?thesis
    unfolding fraction_ms_def digits3_def digits2_def three
    using div_digits(2) [OF assms] by (simp add: digit_val_digit_char)
qed

lemma parse_seconds_iso:
  assumes "n < 1000" "sec < 100"
  shows "parse_seconds (CHR '':'' # digits2 sec @ CHR ''.'' # digits3 n @ ''Z'') = Some (sec, n, ''Z'')"
proof -
  have tw: "takeWhile is_digit (digits3 n @ ''Z'') = digits3 n"
    and dw: "dropWhile is_digit (digits3 n @ ''Z'') = ''Z''"
    by (simp_all add: digits3_def digits2_def is_digit_digit_char not_digit_Z)
  have ne: "digits3 n \<noteq> []" by (simp add: digits3_def)
  show ?thesis using assms ne
    by (simp add: parse_seconds_def take_digits2 tw dw fraction_digits3)
qed

lemma mixed_radix_sum:
  fixes ms s q h :: nat
  assumes "s * 1000 + a = ms" "q * 60 + b = s" "h * 60 + c = q"
  shows "h * 3600000 + c * 60000 + b * 1000 + a = ms"
  using assms by linarith

lemma split_ms:
  fixes ms :: nat
  shows "ms div 3600000 * 3600000 + ms div 60000 mod 60 * 60000 + ms div 1000 mod 60 * 1000 + ms mod 1000 = ms"
proof -
  have d: "ms div 60000 = ms div 1000 div 60" "ms div 3600000 = ms div 1000 div 60 div 60"
    by (simp_all add: div_mult2_eq [symmetric])
  show ?thesis
    unfolding d by (rule mixed_radix_sum [OF div_mult_mod_eq div_mult_mod_eq div_mult_mod_eq])
qed

theorem date_parse_iso:
  assumes "valid_time t"
  shows "date_parse (iso_of_ms t) = Some t"
proof -
  define d where "d = nat (t div ms_per_day + int epoch_days)"
  define ms where "ms = nat (t mod ms_per_day)"
  define y where "y = find_year d (d div 366)"
  obtain m dd where sm: "split_month (month_lengths y) 0 (d - days_before y) = (m, dd)"
    by fastforce
  have t_lo: "- int epoch_days \<le> t div ms_per_day" and t_hi: "t div ms_per_day < 2932897"
    using assms by (auto simp: valid_time_def ms_per_day_def epoch_days_def)
  have d_int: "int d = t div ms_per_day + int epoch_days"
    using t_lo by (simp add: d_def)
  have d_hi: "d < days_before 10000"
    using d_int t_hi by (simp add: epoch_days_def days_before_def)
  have "days_before (d div 366) \<le> d"
    using days_before_le [of "d div 366"] by (meson div_times_less_eq_dividend le_trans mult.commute times_div_less_eq_dividend)
  from find_year_correct [OF this]
  have y_lo: "days_before y \<le> d" and y_hi: "d < days_before (Suc y)"
    by (simp_all add: y_def)
  have y_bound: "y < 10000"
    using y_lo d_hi days_before_mono [of 10000 y] by (cases "y < 10000") auto
  have "d - days_before y < sum_list (month_lengths y)"
    using y_lo y_hi by (auto simp: sum_month_lengths days_before_Suc split: if_splits)
  from split_month_correct [OF this sm]
  have m: "m < 12" and dd: "sum_list (take m (month_lengths y)) + dd = d - days_before y"
    and ddl: "dd < month_lengths y ! m"
    by (auto simp: month_lengths_def)
  have dd31: "dd < 31"
    using ddl month_lengths_bound [OF nth_mem, of m y] m by (simp add: length_month_lengths)
  have dn: "day_number y (Suc m) (Suc dd) = t div ms_per_day"
    using dd y_lo d_int by (simp add: day_number_def)
  have ms_hi: "ms < 86400000" and ms_int: "int ms = t mod ms_per_day"
    by (simp_all add: ms_def ms_per_day_def)
  have ms_sum: "int (ms div 3600000) * 3600000 + int (ms div 60000 mod 60) * 60000
      + int (ms div 1000 mod 60) * 1000 + int (ms mod 1000) = int ms"
    using arg_cong [OF split_ms [of ms], of int] by (simp only: of_nat_add of_nat_mult of_nat_numeral)
  have iso: "iso_of_ms t = digits4 y @ CHR ''-'' # digits2 (Suc m) @ CHR ''-'' # digits2 (Suc dd) @
      CHR ''T'' # digits2 (ms div 3600000) @ CHR '':'' # digits2 (ms div 60000 mod 60) @
      CHR '':'' # digits2 (ms div 1000 mod 60) @ CHR ''.'' # digits3 (ms mod 1000) @ ''Z''"
    using sm by (simp add: iso_of_ms_def Let_def d_def ms_def y_def)
  have h24: "ms div 3600000 < 24" using ms_hi by auto
  then have h100: "ms div 3600000 < 100" by simp
  have total: "t div ms_per_day * ms_per_day + t mod ms_per_day = t"
    by (rule div_mult_mod_eq)
  have "t div ms_per_day * ms_per_day + int (ms div 3600000) * 3600000 + int (ms div 60000 mod 60) * 60000
      + int (ms div 1000 mod 60) * 1000 + int (ms mod 1000) = t"
    using ms_sum ms_int total by (simp only: add.assoc)
  then show ?thesis
    unfolding iso date_parse_def
    using y_bound m dd31 h24 h100 dn
    by (simp add: take_digits4 take_digits2 parse_seconds_iso)
qed

lemma valid_time_add: "0 \<le> t \<Longrightarrow> t + k < 2932897 * ms_per_day \<Longrightarrow> 0 \<le> k \<Longrightarrow> valid_time (t + k)"
  by (simp add: valid_time_def ms_per_day_def epoch_days_def)

lemma date_parse_Nil [simp]: "date_parse [] = None"
  by code_simp

end
