(* ===== verification/TeamTypes.thy ===== *)
theory TeamTypes
  imports TeamContracts JsDate
begin

text \<open>
  The records of \<open>src/team/state/types.ts\<close> and the phases of \<open>src/team/orchestrator.ts\<close> the
  team theories share. A field prefix tells the record: \<open>t_\<close> a task, \<open>c_\<close> a claim, \<open>ps_\<close> the
  persisted phase.
\<close>

subsection \<open>Tasks\<close>

datatype delegation_mode = DelNone | DelOptional | DelAuto | DelRequired

datatype child_model_policy = StandardModel | FastModel | InheritModel | FrontierModel

datatype report_format = Bullets | JsonReport

record delegation_plan =
  dp_mode :: delegation_mode
  dp_max_parallel_subtasks :: "int option"
  dp_required_parallel_probe :: "bool option"
  dp_spawn_threshold :: "int option"
  dp_child_model_policy :: "child_model_policy option"
  dp_child_model :: "string option"
  dp_subtask_candidates :: "string list option"
  dp_child_report_format :: "report_format option"
  dp_skip_allowed_reason_required :: "bool option"

datatype delegation_outcome = Spawned | Skipped

record delegation_evidence =
  de_status :: delegation_outcome
  de_detail :: string
  de_recorded_at :: string

datatype coordination_mode = Lightweight | Coordinated

datatype coordination_mechanism =
    SharedMentalModel | ClosedLoopCommunication | MutualPerformanceMonitoring
  | BackupBehavior | AdaptabilityCheckpoint | TeamOrientation

datatype plan_source = ExplicitPlan | SynthesizedPlan

record coordination_plan =
  cp_mode :: coordination_mode
  cp_activation_reasons :: "string list"
  cp_required_mechanisms :: "coordination_mechanism list option"
  cp_source :: "plan_source option"

datatype coordination_outcome = Checked | NoBoundaryHandoff

record coordination_evidence =
  ce_status :: coordination_outcome
  ce_detail :: string
  ce_recorded_at :: string

record task_claim =
  c_claimed_at :: "string option"
  c_owner :: string
  c_token :: string
  c_leased_until :: string

record team_task =
  t_id :: string
  t_subject :: string
  t_description :: string
  t_status :: task_status
  t_requires_code_change :: "bool option"
  t_role :: "string option"
  t_owner :: "string option"
  t_result :: "string option"
  t_error :: "string option"
  t_blocked_by :: "string list option"
  t_depends_on :: "string list option"
  t_file_paths :: "string list option"
  t_domains :: "string list option"
  t_lane :: "string option"
  t_allocation_reason :: "string option"
  t_version :: "int option"
  t_claim :: "task_claim option"
  t_created_at :: string
  t_completed_at :: "string option"
  t_delegation :: "delegation_plan option"
  t_delegation_compliance :: "delegation_evidence option"
  t_coordination :: "coordination_plan option"
  t_coordination_compliance :: "coordination_evidence option"

subsection \<open>Phases\<close>

datatype team_phase =
    TeamPlan | TeamPrd | TeamExec | TeamVerify | TeamFix
  | PhaseComplete | PhaseFailed | PhaseCancelled

record phase_transition =
  tr_from :: team_phase
  tr_to :: team_phase
  tr_at :: string
  tr_reason :: "string option"

record task_counts =
  tc_total :: nat
  tc_pending :: nat
  tc_blocked :: nat
  tc_in_progress :: nat
  tc_completed :: nat
  tc_failed :: nat

record phase_state =
  ps_current_phase :: team_phase
  ps_max_fix_attempts :: int
  ps_current_fix_attempt :: int
  ps_transitions :: "phase_transition list"
  ps_updated_at :: string
  ps_terminal_epoch :: "string option"
  ps_terminal_reason :: "string option"
  ps_final_task_counts :: "task_counts option"

subsection \<open>Events and the monitor snapshot\<close>

record team_event =
  ev_type :: string
  ev_worker :: string
  ev_task_id :: "string option"
  ev_message_id :: "string option"
  ev_reason :: "string option"

record monitor_snapshot =
  ms_task_status_by_id :: "(string \<times> string) list"
  ms_worker_alive_by_name :: "(string \<times> bool) list"
  ms_worker_state_by_name :: "(string \<times> string) list"
  ms_worker_turn_count_by_name :: "(string \<times> int) list"
  ms_worker_task_id_by_name :: "(string \<times> string) list"
  ms_mailbox_notified :: "(string \<times> string) list"
  ms_completed_event_task_ids :: "(string \<times> bool) list"

end
