(* ===== verification/TeamPhase.thy ===== *)
theory TeamPhase
  imports TeamTypes
begin

text \<open>
  The staged pipeline of a team (\<open>src/team/orchestrator.ts\<close>) and its reconciliation with the
  counts of the tasks (\<open>src/team/phase-controller.ts\<close>). The clock is an argument \<open>now\<close>,
  milliseconds since the epoch; a thrown error is a \<open>phase_error\<close>.
\<close>

subsection \<open>The pipeline\<close>

record team_state =
  st_active :: bool
  st_phase :: team_phase
  st_task_description :: string
  st_created_at :: string
  st_transitions :: "phase_transition list"
  st_tasks :: "team_task list"
  st_max_fix_attempts :: int
  st_current_fix_attempt :: int

datatype phase_error = FromTerminalPhase team_phase | InvalidTransition team_phase team_phase

definition terminal_phases :: "team_phase list" where
  "terminal_phases = [PhaseComplete, PhaseFailed, PhaseCancelled]"

fun phase_transitions_from :: "team_phase \<Rightarrow> team_phase list" where
  "phase_transitions_from TeamPlan = [TeamPrd]"
| "phase_transitions_from TeamPrd = [TeamExec]"
| "phase_transitions_from TeamExec = [TeamVerify]"
| "phase_transitions_from TeamVerify = [TeamFix, PhaseComplete, PhaseFailed]"
| "phase_transitions_from TeamFix = [TeamExec, TeamVerify, PhaseComplete, PhaseFailed]"
| "phase_transitions_from _ = []"

definition is_valid_transition :: "team_phase \<Rightarrow> team_phase \<Rightarrow> bool" where
  "is_valid_transition from to \<longleftrightarrow> to \<in> set (phase_transitions_from from)"

definition is_terminal_phase :: "team_phase \<Rightarrow> bool" where
  "is_terminal_phase p \<longleftrightarrow> p \<in> set terminal_phases"

definition can_resume_team_state :: "team_state \<Rightarrow> bool" where
  "can_resume_team_state s \<longleftrightarrow> st_active s \<and> \<not> is_terminal_phase (st_phase s)"

definition create_team_state :: "string \<Rightarrow> int \<Rightarrow> int \<Rightarrow> team_state" where
  "create_team_state task_description max_fix now =
     \<lparr> st_active = True, st_phase = TeamPlan, st_task_description = task_description,
       st_created_at = iso_of_ms now, st_transitions = [], st_tasks = [],
       st_max_fix_attempts = max_fix, st_current_fix_attempt = 0 \<rparr>"

definition fix_loop_exceeded_reason :: "int \<Rightarrow> string" where
  "fix_loop_exceeded_reason n = ''team-fix loop limit reached ('' @ string_of_int n @ '')''"

definition transition_phase ::
    "team_state \<Rightarrow> team_phase \<Rightarrow> string option \<Rightarrow> int \<Rightarrow> phase_error + team_state" where
  "transition_phase s to reason now =
     (let from = st_phase s
      in if is_terminal_phase from then Inl (FromTerminalPhase from)
         else if \<not> is_valid_transition from to then Inl (InvalidTransition from to)
         else
           let next_fix = (if to = TeamFix then st_current_fix_attempt s + 1 else st_current_fix_attempt s)
           in if to = TeamFix \<and> st_max_fix_attempts s < next_fix
              then Inr (s\<lparr> st_phase := PhaseFailed, st_active := False,
                           st_transitions := st_transitions s @
                             [\<lparr> tr_from = from, tr_to = PhaseFailed, tr_at = iso_of_ms now,
                                tr_reason = Some (fix_loop_exceeded_reason (st_max_fix_attempts s)) \<rparr>] \<rparr>)
              else Inr (s\<lparr> st_phase := to, st_active := \<not> is_terminal_phase to,
                           st_current_fix_attempt := next_fix,
                           st_transitions := st_transitions s @
                             [\<lparr> tr_from = from, tr_to = to, tr_at = iso_of_ms now, tr_reason = reason \<rparr>] \<rparr>))"

fun get_phase_agents :: "team_phase \<Rightarrow> string list option" where
  "get_phase_agents TeamPlan = Some [''analyst'', ''planner'']"
| "get_phase_agents TeamPrd = Some [''product-manager'', ''analyst'']"
| "get_phase_agents TeamExec = Some [''executor'', ''designer'', ''test-engineer'']"
| "get_phase_agents TeamVerify = Some [''verifier'', ''code-reviewer'', ''quality-reviewer'']"
| "get_phase_agents TeamFix = Some [''executor'', ''debugger'', ''test-engineer'']"
| "get_phase_agents _ = None"

subsection \<open>Reconciliation with the task counts\<close>

definition infer_phase_target :: "nat \<Rightarrow> nat \<Rightarrow> nat \<Rightarrow> nat \<Rightarrow> bool \<Rightarrow> team_phase" where
  "infer_phase_target pending blocked in_progress failed verification_pending =
     (let all_terminal = (pending = 0 \<and> blocked = 0 \<and> in_progress = 0)
      in if all_terminal \<and> failed = 0
         then (if verification_pending then TeamVerify else PhaseComplete)
         else if all_terminal \<and> failed > 0 then TeamFix
         else TeamExec)"

definition default_phase_state :: "int \<Rightarrow> phase_state" where
  "default_phase_state now =
     \<lparr> ps_current_phase = TeamExec, ps_max_fix_attempts = 3, ps_current_fix_attempt = 0,
       ps_transitions = [], ps_updated_at = iso_of_ms now, ps_terminal_epoch = None,
       ps_terminal_reason = None, ps_final_task_counts = None \<rparr>"

definition to_team_state :: "phase_state \<Rightarrow> int \<Rightarrow> team_state" where
  "to_team_state p now =
     (create_team_state ''team-runtime-monitor'' (ps_max_fix_attempts p) now)
       \<lparr> st_active := \<not> is_terminal_phase (ps_current_phase p), st_phase := ps_current_phase p,
         st_current_fix_attempt := ps_current_fix_attempt p, st_transitions := ps_transitions p \<rparr>"

definition to_phase_state :: "team_state \<Rightarrow> int \<Rightarrow> phase_state" where
  "to_phase_state s now =
     \<lparr> ps_current_phase = st_phase s, ps_max_fix_attempts = st_max_fix_attempts s,
       ps_current_fix_attempt = st_current_fix_attempt s, ps_transitions = st_transitions s,
       ps_updated_at = iso_of_ms now, ps_terminal_epoch = None, ps_terminal_reason = None,
       ps_final_task_counts = None \<rparr>"

fun build_transition_path :: "team_phase \<Rightarrow> team_phase \<Rightarrow> team_phase list" where
  "build_transition_path TeamPlan TeamVerify = [TeamPrd, TeamExec, TeamVerify]"
| "build_transition_path TeamPrd TeamVerify = [TeamExec, TeamVerify]"
| "build_transition_path TeamExec TeamVerify = [TeamVerify]"
| "build_transition_path TeamFix TeamVerify = [TeamExec, TeamVerify]"
| "build_transition_path TeamPlan TeamExec = [TeamPrd, TeamExec]"
| "build_transition_path TeamPrd TeamExec = [TeamExec]"
| "build_transition_path TeamFix TeamExec = [TeamExec]"
| "build_transition_path TeamPlan TeamFix = [TeamPrd, TeamExec, TeamVerify, TeamFix]"
| "build_transition_path TeamPrd TeamFix = [TeamExec, TeamVerify, TeamFix]"
| "build_transition_path TeamExec TeamFix = [TeamVerify, TeamFix]"
| "build_transition_path TeamVerify TeamFix = [TeamFix]"
| "build_transition_path TeamPlan PhaseComplete = [TeamPrd, TeamExec, TeamVerify, PhaseComplete]"
| "build_transition_path TeamPrd PhaseComplete = [TeamExec, TeamVerify, PhaseComplete]"
| "build_transition_path TeamExec PhaseComplete = [TeamVerify, PhaseComplete]"
| "build_transition_path TeamVerify PhaseComplete = [PhaseComplete]"
| "build_transition_path TeamFix PhaseComplete = [PhaseComplete]"
| "build_transition_path TeamPlan PhaseFailed = [TeamPrd, TeamExec, TeamVerify, PhaseFailed]"
| "build_transition_path TeamPrd PhaseFailed = [TeamExec, TeamVerify, PhaseFailed]"
| "build_transition_path TeamExec PhaseFailed = [TeamVerify, PhaseFailed]"
| "build_transition_path TeamVerify PhaseFailed = [PhaseFailed]"
| "build_transition_path TeamFix PhaseFailed = [PhaseFailed]"
| "build_transition_path _ _ = []"

text \<open>The loop of the monitor over the path; an error of a transition is thrown.\<close>

fun walk_path :: "team_phase list \<Rightarrow> team_state \<Rightarrow> int \<Rightarrow> phase_error + team_state" where
  "walk_path [] s now = Inr s"
| "walk_path (p # ps) s now =
     (if st_phase s = p then walk_path ps s now
      else if is_terminal_phase (st_phase s) then Inr s
      else (case transition_phase s p None now of
              Inl e \<Rightarrow> Inl e
            | Inr s' \<Rightarrow> walk_path ps s' now))"

definition reconcile_phase :: "phase_state option \<Rightarrow> team_phase \<Rightarrow> int \<Rightarrow> phase_error + phase_state" where
  "reconcile_phase persisted target now =
     (let base = (case persisted of None \<Rightarrow> default_phase_state now | Some p \<Rightarrow> p)
      in if truthy_str (ps_terminal_epoch base) then Inr base
         else if ps_current_phase base = target then Inr (base\<lparr> ps_updated_at := iso_of_ms now \<rparr>)
         else if is_terminal_phase (ps_current_phase base)
         then (if is_terminal_phase target then Inr base
               else Inr \<lparr> ps_current_phase = target, ps_max_fix_attempts = ps_max_fix_attempts base,
                          ps_current_fix_attempt = 0,
                          ps_transitions = ps_transitions base @
                            [\<lparr> tr_from = ps_current_phase base, tr_to = target, tr_at = iso_of_ms now,
                               tr_reason = Some ''tasks_reopened'' \<rparr>],
                          ps_updated_at = iso_of_ms now, ps_terminal_epoch = None,
                          ps_terminal_reason = None, ps_final_task_counts = None \<rparr>)
         else
           (let s = to_team_state base now
            in case walk_path (build_transition_path (st_phase s) target) s now of
                 Inl e \<Rightarrow> Inl e
               | Inr s' \<Rightarrow> Inr (to_phase_state s' now)))"

subsection \<open>Facts on the pipeline\<close>

lemma is_terminal_phase_simps [simp]:
  "is_terminal_phase PhaseComplete" "is_terminal_phase PhaseFailed" "is_terminal_phase PhaseCancelled"
  "\<not> is_terminal_phase TeamPlan" "\<not> is_terminal_phase TeamPrd" "\<not> is_terminal_phase TeamExec"
  "\<not> is_terminal_phase TeamVerify" "\<not> is_terminal_phase TeamFix"
  by (simp_all add: is_terminal_phase_def terminal_phases_def)

interpretation phase_machine: status_machine is_valid_transition is_terminal_phase
proof unfold_locales
  fix s t
  show "is_terminal_phase s \<Longrightarrow> \<not> is_valid_transition s t"
    by (cases s) (simp_all add: is_valid_transition_def)
qed

text \<open>A state of the pipeline is coherent: it is active exactly while its phase is not
  terminal, and the fix attempts are within the limit.\<close>

definition phase_wf :: "team_state \<Rightarrow> bool" where
  "phase_wf s \<longleftrightarrow> (st_active s \<longleftrightarrow> \<not> is_terminal_phase (st_phase s))
     \<and> 0 \<le> st_current_fix_attempt s \<and> st_current_fix_attempt s \<le> st_max_fix_attempts s"

lemma transition_phase_cases:
  assumes "transition_phase s to reason now = Inr s'"
  shows "\<not> is_terminal_phase (st_phase s) \<and> is_valid_transition (st_phase s) to \<and>
         (st_phase s' = to \<or> to = TeamFix \<and> st_phase s' = PhaseFailed) \<and>
         st_max_fix_attempts s' = st_max_fix_attempts s \<and>
         (\<exists>e. st_transitions s' = st_transitions s @ [e] \<and> tr_from e = st_phase s \<and> tr_to e = st_phase s')"
  using assms by (auto simp: transition_phase_def Let_def split: if_splits)

lemma transition_phase_wf:
  assumes "transition_phase s to reason now = Inr s'" "phase_wf s"
  shows "phase_wf s'"
  using assms by (auto simp: transition_phase_def phase_wf_def Let_def split: if_splits)

lemma walk_path_wf: "walk_path ps s now = Inr s' \<Longrightarrow> phase_wf s \<Longrightarrow> phase_wf s'"
  by (induction ps s now arbitrary: s' rule: walk_path.induct)
    (auto split: if_splits sum.splits dest: transition_phase_wf)

lemma transition_phase_ok:
  "\<not> is_terminal_phase (st_phase s) \<Longrightarrow> is_valid_transition (st_phase s) to \<Longrightarrow>
     \<exists>s'. transition_phase s to reason now = Inr s'"
  by (auto simp: transition_phase_def Let_def)

lemma walk_path_total:
  "phase_machine.history (st_phase s # ps) \<Longrightarrow> \<exists>s'. walk_path ps s now = Inr s' \<and>
     (st_phase s' = last (st_phase s # ps) \<or> TeamFix \<in> set ps \<and> st_phase s' = PhaseFailed)"
proof (induction ps s now rule: walk_path.induct)
  case (1 s now)
  then show ?case by simp
next
  case (2 p ps s now)
  have v: "is_valid_transition (st_phase s) p" and h: "phase_machine.history (p # ps)"
    using "2.prems" by simp_all
  have nt: "\<not> is_terminal_phase (st_phase s)" and ne: "st_phase s \<noteq> p"
    using v by (cases "st_phase s"; auto simp: is_valid_transition_def)+
  obtain s1 where s1: "transition_phase s p None now = Inr s1"
    using transition_phase_ok [OF nt v] by blast
  from transition_phase_cases [OF this]
  consider "st_phase s1 = p" | "p = TeamFix" "st_phase s1 = PhaseFailed" by blast
  then show ?case
  proof cases
    case 1
    then have "\<exists>s'. walk_path ps s1 now = Inr s' \<and>
        (st_phase s' = last (st_phase s1 # ps) \<or> TeamFix \<in> set ps \<and> st_phase s' = PhaseFailed)"
      using "2.IH" (2) [OF ne nt s1] h by simp
    then show ?thesis using ne nt s1 1 by auto
  next
    case 2
    have "walk_path ps s1 now = Inr s1"
      using 2 h by (cases ps; cases "tl ps") (auto simp: is_valid_transition_def)
    then show ?thesis using ne nt s1 2 by auto
  qed
qed

lemma build_transition_path_history: "phase_machine.history (p # build_transition_path p q)"
  by (cases p; cases q) (simp_all add: is_valid_transition_def)

lemma build_transition_path_last:
  "build_transition_path p q = [] \<or> last (p # build_transition_path p q) = q"
  by (cases p; cases q) simp_all

definition phase_state_wf :: "phase_state \<Rightarrow> bool" where
  "phase_state_wf p \<longleftrightarrow> 0 \<le> ps_current_fix_attempt p \<and> ps_current_fix_attempt p \<le> ps_max_fix_attempts p"

lemma phase_wf_to_team_state: "phase_state_wf p \<Longrightarrow> phase_wf (to_team_state p now)"
  by (simp add: phase_wf_def phase_state_wf_def to_team_state_def create_team_state_def)

lemma st_phase_to_team_state [simp]: "st_phase (to_team_state p now) = ps_current_phase p"
  by (simp add: to_team_state_def)

lemma reconcile_walk:
  "\<exists>s'. walk_path (build_transition_path (ps_current_phase b) target) (to_team_state b now) now = Inr s' \<and>
     (st_phase s' \<in> {ps_current_phase b, target} \<or> target = TeamFix \<and> st_phase s' = PhaseFailed
      \<or> st_phase s' = PhaseFailed \<and> TeamFix \<in> set (build_transition_path (ps_current_phase b) target))"
  using walk_path_total [of "to_team_state b now" "build_transition_path (ps_current_phase b) target" now]
    build_transition_path_history [of "ps_current_phase b" target]
    build_transition_path_last [of "ps_current_phase b" target]
  by (auto split: if_splits)

text \<open>A path passes through the fix phase only when it is the target.\<close>

lemma fix_in_path: "TeamFix \<in> set (build_transition_path p q) \<Longrightarrow> q = TeamFix"
  by (cases p; cases q) simp_all

subsection \<open>Runs\<close>

inductive phase_run :: "int \<Rightarrow> team_state \<Rightarrow> bool" for max_fix :: int where
  phase_start: "phase_run max_fix (create_team_state d max_fix now)"
| phase_step: "phase_run max_fix s \<Longrightarrow> transition_phase s to reason now = Inr s' \<Longrightarrow> phase_run max_fix s'"

inductive_cases phase_run_cases: "phase_run max_fix s"

text \<open>The log of a run: each entry starts where the one before ended, and each is allowed.\<close>

fun log_chain :: "team_phase \<Rightarrow> phase_transition list \<Rightarrow> team_phase \<Rightarrow> bool" where
  "log_chain p [] q = (p = q)"
| "log_chain p (e # es) q = (tr_from e = p \<and> is_valid_transition p (tr_to e) \<and> log_chain (tr_to e) es q)"

lemma log_chain_snoc:
  "log_chain p es q \<Longrightarrow> tr_from e = q \<Longrightarrow> is_valid_transition q (tr_to e) \<Longrightarrow> log_chain p (es @ [e]) (tr_to e)"
  by (induction p es q rule: log_chain.induct) auto

lemma fix_valid_from: "is_valid_transition p TeamFix \<Longrightarrow> is_valid_transition p PhaseFailed"
  by (cases p) (simp_all add: is_valid_transition_def)

lemma transition_phase_log:
  assumes "transition_phase s to reason now = Inr s'" "log_chain p (st_transitions s) (st_phase s)"
  shows "log_chain p (st_transitions s') (st_phase s')"
proof -
  obtain e where e: "st_transitions s' = st_transitions s @ [e]" "tr_from e = st_phase s" "tr_to e = st_phase s'"
    and v: "is_valid_transition (st_phase s) to" and q: "st_phase s' = to \<or> to = TeamFix \<and> st_phase s' = PhaseFailed"
    using transition_phase_cases [OF assms(1)] by blast
  have "is_valid_transition (st_phase s) (tr_to e)"
    using v q e(3) fix_valid_from by auto
  from log_chain_snoc [OF assms(2) e(2) this] show ?thesis by (simp add: e)
qed

fun count_fix :: "phase_transition list \<Rightarrow> nat" where
  "count_fix [] = 0"
| "count_fix (e # es) = (if tr_to e = TeamFix then 1 else 0) + count_fix es"

lemma count_fix_append [simp]: "count_fix (es @ fs) = count_fix es + count_fix fs"
  by (induction es) auto

lemma transition_phase_count:
  "transition_phase s to reason now = Inr s' \<Longrightarrow>
     int (count_fix (st_transitions s)) = st_current_fix_attempt s \<Longrightarrow>
     int (count_fix (st_transitions s')) = st_current_fix_attempt s'"
  by (auto simp: transition_phase_def Let_def split: if_splits)

subsection \<open>Properties\<close>

text \<open>C19. The fix loop is bounded: from a fresh team state, after any number of transitions,
  the log is a chain of allowed steps from planning to the current phase, it enters the fix
  phase at most as often as the limit allows, the counter is the number of these entries, and
  the state is active exactly while its phase is not terminal.\<close>

theorem fix_loop_bounded:
  assumes "phase_run max_fix s" "0 \<le> max_fix"
  shows "log_chain TeamPlan (st_transitions s) (st_phase s)
    \<and> int (count_fix (st_transitions s)) = st_current_fix_attempt s
    \<and> st_current_fix_attempt s \<le> max_fix
    \<and> (st_active s \<longleftrightarrow> \<not> is_terminal_phase (st_phase s))"
proof -
  have "log_chain TeamPlan (st_transitions s) (st_phase s)
    \<and> int (count_fix (st_transitions s)) = st_current_fix_attempt s
    \<and> st_max_fix_attempts s = max_fix \<and> phase_wf s"
    using assms
  proof (induction rule: phase_run.induct)
    case (phase_start d now)
    then show ?case by (simp add: create_team_state_def phase_wf_def)
  next
    case (phase_step s to reason now s')
    then show ?case
      using transition_phase_log transition_phase_count transition_phase_wf transition_phase_cases
      by metis
  qed
  then show ?thesis by (simp add: phase_wf_def)
qed

theorem fix_loop_bounded_witness:
  "\<exists>s. transition_phase (create_team_state ''x'' 0 0) TeamPrd None 1 = Inr s \<and> st_current_fix_attempt s \<le> 0"
proof -
  obtain s where s: "transition_phase (create_team_state ''x'' 0 0) TeamPrd None 1 = Inr s"
    by (simp add: transition_phase_def create_team_state_def is_valid_transition_def Let_def)
  have "phase_run 0 s" by (rule phase_step [OF phase_start s])
  from fix_loop_bounded [OF this] s show ?thesis by simp
qed

text \<open>The monitor never throws, and lands where the tasks say: for every persisted phase
  and every target inferred from the task counts, reconciliation returns a state; a phase with
  a terminal epoch is returned untouched; otherwise the phase is the target, except that the
  fix phase becomes failed when the attempts are used up, that a finished phase stays for a
  finished target, and that a team in verification stays there when tasks are open again.\<close>

theorem reconcile_lands:
  assumes "target = infer_phase_target pending blocked in_progress failed verification_pending"
  shows "\<exists>r. reconcile_phase (Some b) target now = Inr r
    \<and> (truthy_str (ps_terminal_epoch b) \<longrightarrow> r = b)
    \<and> (\<not> truthy_str (ps_terminal_epoch b) \<longrightarrow>
         ps_current_phase r = target
         \<or> target = TeamFix \<and> ps_current_phase r = PhaseFailed \<and> ps_max_fix_attempts b \<le> ps_current_fix_attempt b
         \<or> is_terminal_phase target \<and> is_terminal_phase (ps_current_phase b) \<and> r = b
         \<or> target = TeamExec \<and> ps_current_phase b = TeamVerify \<and> ps_current_phase r = TeamVerify)"
proof -
  have target: "target \<in> {TeamVerify, PhaseComplete, TeamFix, TeamExec}"
    using assms by (auto simp: infer_phase_target_def Let_def split: if_splits)
  have step: "\<not> is_terminal_phase (ps_current_phase b) \<Longrightarrow> ps_current_phase b \<noteq> target \<Longrightarrow>
      \<exists>s'. walk_path (build_transition_path (ps_current_phase b) target) (to_team_state b now) now = Inr s' \<and>
        (st_phase s' = target
         \<or> target = TeamFix \<and> st_phase s' = PhaseFailed \<and> ps_max_fix_attempts b \<le> ps_current_fix_attempt b
         \<or> target = TeamExec \<and> ps_current_phase b = TeamVerify \<and> st_phase s' = TeamVerify)"
    using target
    by (cases "ps_current_phase b"; elim insertE emptyE)
      (simp_all add: to_team_state_def create_team_state_def transition_phase_def is_valid_transition_def Let_def)
  show ?thesis
    using step by (auto simp: reconcile_phase_def Let_def to_phase_state_def)
qed

theorem reconcile_lands_witness:
  "\<exists>r. reconcile_phase (Some (default_phase_state 0)) TeamFix 1 = Inr r"
  using reconcile_lands [of TeamFix 0 0 0 1 False "default_phase_state 0" 1]
  by (auto simp: infer_phase_target_def)

end
