(* ===== verification/JsValue.thy ===== *)
theory JsValue
  imports Prelude
begin

text \<open>
  Untyped JavaScript data: what \<open>JSON.parse\<close> returns and what a
  \<open>Record<string, unknown>\<close> holds. An object is its list of own properties in insertion
  order. A number is a finite rational, \<open>NaN\<close> or an infinity. \<open>JHost n\<close> is the built-in value that a lookup of \<open>n\<close> on a plain
  object inherits from \<open>Object.prototype\<close>.
\<close>

datatype jsnum = Fin rat | NaN | PosInf | NegInf

datatype js =
    JUndef
  | JNull
  | JBool bool
  | JNum jsnum
  | JStr string
  | JArr "js list"
  | JObj "(string \<times> js) list"
  | JHost string

abbreviation JInt :: "int \<Rightarrow> js" where
  "JInt i \<equiv> JNum (Fin (rat_of_int i))"

type_synonym js_record = "(string \<times> js) list"

definition rec_get :: "js_record \<Rightarrow> string \<Rightarrow> js" where
  "rec_get r k = (case map_of r k of None \<Rightarrow> JUndef | Some v \<Rightarrow> v)"

fun rec_set :: "string \<Rightarrow> js \<Rightarrow> js_record \<Rightarrow> js_record" where
  "rec_set k v [] = [(k, v)]"
| "rec_set k v ((l, w) # r) = (if l = k then (k, v) # r else (l, w) # rec_set k v r)"

definition rec_delete :: "string \<Rightarrow> js_record \<Rightarrow> js_record" where
  "rec_delete k r = filter (\<lambda>(l, _). l \<noteq> k) r"

text \<open>Spreading one record over another: \<open>{ ...a, ...b }\<close>.\<close>

definition rec_merge :: "js_record \<Rightarrow> js_record \<Rightarrow> js_record" where
  "rec_merge a b = fold (\<lambda>(k, v). rec_set k v) b a"

definition js_get :: "js \<Rightarrow> string \<Rightarrow> js" where
  "js_get v k = (case v of JObj r \<Rightarrow> rec_get r k | _ \<Rightarrow> JUndef)"

fun js_truthy :: "js \<Rightarrow> bool" where
  "js_truthy JUndef = False"
| "js_truthy JNull = False"
| "js_truthy (JBool b) = b"
| "js_truthy (JNum n) = (n \<noteq> NaN \<and> n \<noteq> Fin 0)"
| "js_truthy (JStr s) = (s \<noteq> [])"
| "js_truthy (JArr _) = True"
| "js_truthy (JObj _) = True"
| "js_truthy (JHost _) = True"

text \<open>\<open>typeof v === 'object' && v !== null\<close>\<close>

fun is_object :: "js \<Rightarrow> bool" where
  "is_object (JArr _) = True"
| "is_object (JObj _) = True"
| "is_object (JHost n) = (n = ''__proto__'')"
| "is_object _ = False"

fun js_string :: "js \<Rightarrow> string option" where
  "js_string (JStr s) = Some s"
| "js_string _ = None"

fun js_array :: "js \<Rightarrow> js list option" where
  "js_array (JArr xs) = Some xs"
| "js_array _ = None"

text \<open>\<open>a ?? b\<close>\<close>

definition js_coalesce :: "js \<Rightarrow> js \<Rightarrow> js" where
  "js_coalesce a b = (if a = JUndef \<or> a = JNull then b else a)"

text \<open>\<open>typeof v === 'string' ? v.trim() : \'\'\<close>\<close>

definition trimmed :: "js \<Rightarrow> string" where
  "trimmed v = (case js_string v of None \<Rightarrow> [] | Some s \<Rightarrow> js_trim s)"

text \<open>The integer a number holds, when it is one (\<open>Number.isInteger\<close>).\<close>

fun js_integer :: "js \<Rightarrow> int option" where
  "js_integer (JNum (Fin q)) = (if rat_of_int \<lfloor>q\<rfloor> = q then Some \<lfloor>q\<rfloor> else None)"
| "js_integer _ = None"

fun js_finite :: "js \<Rightarrow> bool" where
  "js_finite (JNum (Fin _)) = True"
| "js_finite _ = False"

fun js_floor :: "jsnum \<Rightarrow> jsnum" where
  "js_floor (Fin q) = Fin (rat_of_int \<lfloor>q\<rfloor>)"
| "js_floor n = n"

text \<open>A file read as JSON: absent, not parseable, or a value. A property whose value is
  \<open>undefined\<close> is not written, which reads the same.\<close>

datatype json_file = NoFile | BadFile | JsonFile js

subsection \<open>Property access\<close>

lemma rec_get_Nil [simp]: "rec_get [] k = JUndef"
  by (simp add: rec_get_def)

lemma rec_get_set [simp]: "rec_get (rec_set k v r) l = (if l = k then v else rec_get r l)"
  by (induction k v r rule: rec_set.induct) (auto simp: rec_get_def)

lemma rec_get_delete [simp]: "rec_get (rec_delete k r) l = (if l = k then JUndef else rec_get r l)"
proof -
  have "map_of (filter (\<lambda>(m, _). m \<noteq> k) r) l = (if l = k then None else map_of r l)"
    by (induction r) auto
  then show ?thesis by (simp add: rec_get_def rec_delete_def)
qed

lemma keys_rec_set: "fst ` set (rec_set k v r) = insert k (fst ` set r)"
  by (induction k v r rule: rec_set.induct) auto

lemma distinct_rec_set: "distinct (map fst r) \<Longrightarrow> distinct (map fst (rec_set k v r))"
proof (induction k v r rule: rec_set.induct)
  case (2 k v l w r)
  then show ?case using keys_rec_set [of k v r] by (auto simp: image_iff)
qed simp

lemma rec_get_merge:
  "distinct (map fst b) \<Longrightarrow>
     rec_get (rec_merge a b) k = (case map_of b k of None \<Rightarrow> rec_get a k | Some v \<Rightarrow> v)"
proof (induction b arbitrary: a)
  case Nil
  then show ?case by (simp add: rec_merge_def)
next
  case (Cons kv b)
  then have "rec_get (rec_merge (rec_set (fst kv) (snd kv) a) b) k =
      (case map_of b k of None \<Rightarrow> rec_get (rec_set (fst kv) (snd kv) a) k | Some v \<Rightarrow> v)"
    by simp
  moreover have "fst kv \<notin> dom (map_of b)" using Cons.prems by (simp add: dom_map_of_conv_image_fst)
  ultimately show ?case
    by (auto simp: rec_merge_def split_beta domIff split: option.splits)
qed

lemma js_get_JObj [simp]: "js_get (JObj r) k = rec_get r k"
  by (simp add: js_get_def)

lemma js_integer_JInt [simp]: "js_integer (JInt i) = Some i"
  by simp

lemma rec_get_Some: "rec_get r k \<noteq> JUndef \<Longrightarrow> map_of r k = Some (rec_get r k)"
  by (auto simp: rec_get_def split: option.splits)

lemma rec_set_same: "map_of r k = Some v \<Longrightarrow> rec_set k v r = r"
  by (induction k v r rule: rec_set.induct) (auto split: if_splits)

lemma rec_set_get: "rec_get r k = v \<Longrightarrow> v \<noteq> JUndef \<Longrightarrow> rec_set k v r = r"
  using rec_set_same rec_get_Some by blast

lemma map_of_rec_set [simp]: "map_of (rec_set k v r) l = (if l = k then Some v else map_of r l)"
  by (induction k v r rule: rec_set.induct) auto

lemma trimmed_JStr [simp]: "trimmed (JStr s) = js_trim s"
  by (simp add: trimmed_def)

lemma trimmed_JUndef [simp]: "trimmed JUndef = []"
  by (simp add: trimmed_def)

end
