(* ===== verification/TeamEvidence.thy ===== *)
theory TeamEvidence
  imports TeamTypes JsValue
begin

text \<open>
  The evidence a task needs before it may be completed: the delegation and coordination
  declarations of the final report (\<open>extractDelegationComplianceEvidence\<close> and
  \<open>extractCoordinationComplianceEvidence\<close> of \<open>src/team/state/tasks.ts\<close>), the verification
  section of the report (\<open>src/verification/verifier.ts\<close>) and the evidence file of an
  implementation task (\<open>src/team/completion-evidence.ts\<close>). The file system and SHA-256 are
  arguments; paths are POSIX paths.
\<close>

subsection \<open>Declarations in the report\<close>

definition labelled_line :: "rx \<Rightarrow> string \<Rightarrow> string option" where
  "labelled_line label s =
     rx_capture (rx_seq [BolM, Star rx_space, label, Star rx_space]) (rx_plus rx_dot) EolM s"

definition none_or_zero :: "string \<Rightarrow> bool" where
  "none_or_zero s \<longleftrightarrow>
     rx_test (rx_alts [rx_seq [Bos, rx_lit_i ''none'', WordB], rx_seq [Bos, rx_lit_i ''0'', WordB]]) s"

definition report_text :: "string option \<Rightarrow> string" where
  "report_text r = (case r of None \<Rightarrow> [] | Some s \<Rightarrow> s)"

definition extract_delegation_evidence :: "team_task \<Rightarrow> string option \<Rightarrow> int \<Rightarrow> delegation_evidence option" where
  "extract_delegation_evidence task result now =
     (case t_delegation task of
        None \<Rightarrow> None
      | Some plan \<Rightarrow>
          (if dp_mode plan = DelNone then None
           else if dp_mode plan = DelOptional \<and> dp_required_parallel_probe plan \<noteq> Some True then None
           else
             (let text = report_text result;
                  spawn = map_option js_trim (labelled_line (rx_lit_i ''Subagent spawn evidence:'') text);
                  skip = map_option js_trim (labelled_line (rx_lit_i ''Subagent skip reason:'') text)
              in if truthy_str spawn \<and> \<not> none_or_zero (the spawn)
                 then Some \<lparr> de_status = Spawned, de_detail = the spawn, de_recorded_at = iso_of_ms now \<rparr>
                 else if dp_skip_allowed_reason_required plan = Some True \<and> truthy_str skip
                 then Some \<lparr> de_status = Skipped, de_detail = the skip, de_recorded_at = iso_of_ms now \<rparr>
                 else None)))"

definition requires_delegation_evidence :: "team_task \<Rightarrow> bool" where
  "requires_delegation_evidence task \<longleftrightarrow>
     (case t_delegation task of
        None \<Rightarrow> False
      | Some plan \<Rightarrow> dp_mode plan = DelAuto \<or> dp_mode plan = DelRequired
                    \<or> dp_required_parallel_probe plan = Some True)"

definition dash_or_colon :: rx where
  "dash_or_colon = Cls (\<lambda>c. c = CHR ''-'' \<or> c = CHR '':'')"

definition checked_label :: rx where
  "checked_label = rx_seq [rx_lit_i ''Coordination protocol:'', Star rx_space, rx_lit_i ''coordinated'',
     Star rx_space, dash_or_colon]"

definition no_boundary_label :: rx where
  "no_boundary_label = rx_seq [rx_lit_i ''Coordination protocol:'', Star rx_space,
     rx_lit_i ''no boundary handoff'', rx_opt (rx_lit_i '' remained''), Star rx_space, dash_or_colon]"

definition requires_coordination_evidence :: "team_task \<Rightarrow> bool" where
  "requires_coordination_evidence task \<longleftrightarrow> map_option cp_mode (t_coordination task) = Some Coordinated"

definition extract_coordination_evidence :: "team_task \<Rightarrow> string option \<Rightarrow> int \<Rightarrow> coordination_evidence option" where
  "extract_coordination_evidence task result now =
     (if map_option cp_mode (t_coordination task) \<noteq> Some Coordinated then None
      else
        (let text = report_text result;
             checked = map_option js_trim (labelled_line checked_label text);
             nohand = map_option js_trim (labelled_line no_boundary_label text)
         in if truthy_str checked
            then Some \<lparr> ce_status = Checked, ce_detail = the checked, ce_recorded_at = iso_of_ms now \<rparr>
            else if truthy_str nohand
            then Some \<lparr> ce_status = NoBoundaryHandoff, ce_detail = the nohand, ce_recorded_at = iso_of_ms now \<rparr>
            else None))"

subsection \<open>The verification section\<close>

definition word_i :: "string list \<Rightarrow> rx" where
  "word_i ws = rx_seq [WordB, rx_alts (map rx_lit_i ws), WordB]"

definition has_verification_section :: "string \<Rightarrow> bool" where
  "has_verification_section text \<longleftrightarrow>
     rx_test (rx_seq [rx_lit_i ''verification'', rx_opt (rx_seq [rx_plus rx_space, rx_lit_i ''evidence'']),
                      Star rx_space, rx_lit '':'']) text
     \<or> rx_test (rx_seq [rx_lit ''##'', Star rx_space, rx_lit_i ''verification'']) text"

definition has_evidence_signal :: "string \<Rightarrow> bool" where
  "has_evidence_signal text \<longleftrightarrow>
     rx_test (word_i [''pass'', ''passed'', ''fail'', ''failed'']) text
     \<or> rx_test (rx_seq [rx_lit [CHR 0x60], rx_plus (Cls (\<lambda>c. c \<noteq> CHR 0x60)), rx_lit [CHR 0x60]]) text
     \<or> rx_test (word_i [''command'', ''test'', ''build'', ''typecheck'', ''lint'']) text"

definition has_structured_verification_evidence :: "string option \<Rightarrow> bool" where
  "has_structured_verification_evidence summary \<longleftrightarrow>
     (case summary of
        None \<Rightarrow> False
      | Some s \<Rightarrow> (let text = js_trim s
                  in text \<noteq> [] \<and> has_verification_section text \<and> has_evidence_signal text))"

datatype task_size = SmallTask | StandardTask | LargeTask

definition determine_task_size :: "int \<Rightarrow> int \<Rightarrow> task_size" where
  "determine_task_size file_count line_changes =
     (if file_count \<le> 3 \<and> line_changes < 100 then SmallTask
      else if file_count \<le> 15 \<and> line_changes < 500 then StandardTask
      else LargeTask)"

subsection \<open>Paths and files\<close>

fun split_by :: "(char \<Rightarrow> bool) \<Rightarrow> string \<Rightarrow> string list" where
  "split_by p [] = [[]]"
| "split_by p (c # s) =
     (if p c then [] # split_by p s
      else (case split_by p s of [] \<Rightarrow> [[c]] | w # ws \<Rightarrow> (c # w) # ws))"

text \<open>The segments of a normalised absolute path; \<open>..\<close> at the root stays at the root.\<close>

fun normalize_segments :: "string list \<Rightarrow> string list \<Rightarrow> string list" where
  "normalize_segments acc [] = rev acc"
| "normalize_segments acc (w # ws) =
     (if w = [] \<or> w = ''.'' then normalize_segments acc ws
      else if w = ''..'' then normalize_segments (tl acc) ws
      else normalize_segments (w # acc) ws)"

definition resolve_path :: "string list \<Rightarrow> string \<Rightarrow> string list" where
  "resolve_path cwd p =
     (let ws = split_by (\<lambda>c. c = CHR ''/'') p
      in if js_starts_with p ''/'' then normalize_segments [] ws else normalize_segments [] (cwd @ ws))"

fun relative_segments :: "string list \<Rightarrow> string list \<Rightarrow> string list" where
  "relative_segments (a # from) (b # to) =
     (if a = b then relative_segments from to else replicate (Suc (length from)) ''..'' @ b # to)"
| "relative_segments from to = replicate (length from) ''..'' @ to"

datatype fs_node =
    FsLink
  | FsDir
  | FsFile nat rat "js option"  \<comment> \<open>size, modification time in ms, content unless it is no JSON\<close>
  | FsOther

record file_system =
  fs_realpath :: "string list \<Rightarrow> string list option"
  fs_lstat :: "string list \<Rightarrow> fs_node option"

datatype evidence_error =
    EvFileSystem | EvNotJson
  | EvMissingMarker | EvOutside | EvSymlink | EvBadFile | EvPredates | EvForeign | EvIncomplete
  | EvNoVerificationSection

definition placeholder_text :: "string \<Rightarrow> bool" where
  "placeholder_text s \<longleftrightarrow>
     rx_test (rx_seq [Bos, rx_alts (map rx_lit_i [''todo'', ''tbd'', ''placeholder'', ''pending'', ''not run'']),
                      rx_opt (Cls (\<lambda>c. c = CHR ''.'' \<or> c = CHR ''!'')), Eos]) s"

definition text_value :: "js \<Rightarrow> bool" where
  "text_value v \<longleftrightarrow>
     (case js_string v of None \<Rightarrow> False | Some s \<Rightarrow> js_trim s \<noteq> [] \<and> \<not> placeholder_text (js_trim s))"

definition evidence_marker :: "string \<Rightarrow> string option" where
  "evidence_marker s =
     rx_capture (rx_seq [BolM, Star rx_space, rx_lit ''EVIDENCE_RECORDED:'', Star rx_space])
       (rx_plus rx_nonspace) (Seq (Star rx_space) EolM) s"

definition strip_evidence_markers :: "string \<Rightarrow> string" where
  "strip_evidence_markers s =
     rx_replace_all (rx_seq [BolM, Star rx_space, rx_lit ''EVIDENCE_RECORDED:'', Star rx_space,
       rx_plus rx_nonspace, Star rx_space, EolM]) [] s"

text \<open>The walk over the parts of the path: every prefix must exist and be no symbolic link.\<close>

fun walk_parts :: "file_system \<Rightarrow> string list \<Rightarrow> string list \<Rightarrow> evidence_error option" where
  "walk_parts fs current [] = None"
| "walk_parts fs current (part # parts) =
     (let cur = normalize_segments [] (current @ split_by (\<lambda>c. c = CHR ''/'') part)
      in case fs_lstat fs cur of
           None \<Rightarrow> Some EvFileSystem
         | Some FsLink \<Rightarrow> Some EvSymlink
         | Some _ \<Rightarrow> walk_parts fs cur parts)"

definition passing_check :: "js \<Rightarrow> bool" where
  "passing_check check \<longleftrightarrow>
     js_truthy check \<and> is_object check \<and> text_value (js_get check ''command'')
     \<and> js_get check ''result'' = JStr ''passed'' \<and> text_value (js_get check ''output'')"

definition evidence_complete :: "js \<Rightarrow> bool" where
  "evidence_complete ev \<longleftrightarrow>
     text_value (js_get ev ''summary'')
     \<and> (case js_array (js_get ev ''verification'') of
          None \<Rightarrow> False | Some cs \<Rightarrow> cs \<noteq> [] \<and> list_all passing_check cs)
     \<and> (case js_array (js_get ev ''unverified'') of
          None \<Rightarrow> False | Some us \<Rightarrow> list_all text_value us)"

definition evidence_since :: "team_task \<Rightarrow> int option" where
  "evidence_since task =
     date_parse (case Option.bind (t_claim task) c_claimed_at of None \<Rightarrow> t_created_at task | Some s \<Rightarrow> s)"

definition validate_completion_evidence ::
    "file_system \<Rightarrow> (string \<Rightarrow> string) \<Rightarrow> string list \<Rightarrow> string \<Rightarrow> team_task \<Rightarrow> string option \<Rightarrow> evidence_error option" where
  "validate_completion_evidence fs sha256 cwd team task result =
     (case evidence_marker (report_text result) of
        None \<Rightarrow> Some EvMissingMarker
      | Some path \<Rightarrow>
          (let target = resolve_path cwd path;
               rel = relative_segments (resolve_path cwd ''.omx/evidence'') target
           in if rel = [] \<or> hd rel = ''..'' then Some EvOutside
              else (case fs_realpath fs cwd of
                 None \<Rightarrow> Some EvFileSystem
               | Some real_cwd \<Rightarrow>
                   (case walk_parts fs real_cwd
                           (split_by (\<lambda>c. c = CHR ''/'' \<or> c = CHR 0x5C)
                              (js_join ''/'' (relative_segments (normalize_segments [] cwd) target))) of
                      Some e \<Rightarrow> Some e
                    | None \<Rightarrow>
                        (case fs_lstat fs target of
                           None \<Rightarrow> Some EvFileSystem
                         | Some (FsFile bytes mtime content) \<Rightarrow>
                             (if bytes = 0 \<or> 1024 * 1024 < bytes then Some EvBadFile
                              else (case evidence_since task of
                                      None \<Rightarrow> Some EvPredates
                                    | Some since \<Rightarrow>
                                        (if mtime < rat_of_int (since - 2000) then Some EvPredates
                                         else (case content of
                                                 None \<Rightarrow> Some EvNotJson
                                               | Some ev \<Rightarrow>
                                                   (if \<not> js_truthy ev \<or> js_get ev ''teamName'' \<noteq> JStr team
                                                       \<or> js_get ev ''taskId'' \<noteq> JStr (t_id task)
                                                       \<or> js_get ev ''claimTokenSha256''
                                                           \<noteq> JStr (sha256 (case t_claim task of None \<Rightarrow> [] | Some c \<Rightarrow> c_token c))
                                                    then Some EvForeign
                                                    else if \<not> evidence_complete ev then Some EvIncomplete
                                                    else if \<not> has_structured_verification_evidence
                                                               (Some (strip_evidence_markers (report_text result)))
                                                    then Some EvNoVerificationSection
                                                    else None)))))
                         | Some _ \<Rightarrow> Some EvBadFile)))))"

subsection \<open>What accepted evidence guarantees\<close>

lemma extract_delegation_detail:
  "extract_delegation_evidence task result now = Some e \<Longrightarrow>
     de_detail e \<noteq> [] \<and> (de_status e = Spawned \<longrightarrow> \<not> none_or_zero (de_detail e))
     \<and> (\<exists>plan. t_delegation task = Some plan \<and> dp_mode plan \<noteq> DelNone
           \<and> (de_status e = Skipped \<longrightarrow> dp_skip_allowed_reason_required plan = Some True))"
  by (auto simp: extract_delegation_evidence_def Let_def truthy_str_def
      split: option.splits if_splits)

lemma validated_evidence_file:
  assumes "validate_completion_evidence fs sha cwd team task result = None"
  shows "\<exists>path bytes mtime ev since.
           evidence_marker (report_text result) = Some path
           \<and> fs_lstat fs (resolve_path cwd path) = Some (FsFile bytes mtime (Some ev))
           \<and> 0 < bytes \<and> bytes \<le> 1024 * 1024
           \<and> evidence_since task = Some since \<and> rat_of_int (since - 2000) \<le> mtime
           \<and> js_get ev ''teamName'' = JStr team \<and> js_get ev ''taskId'' = JStr (t_id task)
           \<and> evidence_complete ev"
  using assms
  by (auto simp: validate_completion_evidence_def Let_def
      split: option.splits if_splits fs_node.splits)

end
