(* ===== verification/TeamTasks.thy ===== *)
theory TeamTasks
  imports TeamPhase TeamEvidence
begin

text \<open>
  The task board of a team: \<open>src/team/state/tasks.ts\<close> and the task functions of
  \<open>src/team/state.ts\<close>. The store holds the files \<open>task-<id>.json\<close> in directory order, each
  parsed to a task or \<open>None\<close> when it is no valid task, the team configuration, the phase, the
  event log and the monitor snapshot. Every operation runs inside the team's task barrier, so
  it reads and writes one store; the outcome of the task-claim lock is the argument
  \<open>lock_ok\<close>, the clock is read once per operation (\<open>now\<close>), and the value of
  \<open>randomUUID()\<close> is an argument.
\<close>

subsection \<open>State, results and errors\<close>

record team_worker =
  w_name :: string
  w_working_dir :: "string option"

record team_config =
  cfg_workers :: "team_worker list"
  cfg_next_task_id :: jsnum

record team_store =
  ts_tasks :: "(string \<times> team_task option) list"
  ts_config :: "team_config option"
  ts_phase :: "phase_state option"
  ts_events :: "team_event list"
  ts_monitor :: "monitor_snapshot option"

datatype task_error =
    ClaimConflict
  | BlockedDependency "string list"
  | TaskNotFound
  | AlreadyTerminal
  | WorkerNotFound
  | BadTransition
  | LeaseExpired
  | LeaseActive
  | MissingDelegationEvidence
  | MissingCoordinationEvidence
  | InvalidCompletionEvidence evidence_error
  | TaskThrow string

type_synonym 'a task_outcome = "(task_error + 'a) \<times> team_store"

subsection \<open>Reading a task\<close>

definition default_coordination_mechanisms :: "coordination_mechanism list" where
  "default_coordination_mechanisms =
     [SharedMentalModel, ClosedLoopCommunication, MutualPerformanceMonitoring, BackupBehavior,
      AdaptabilityCheckpoint, TeamOrientation]"

definition activation_reasons :: "string list \<Rightarrow> string list" where
  "activation_reasons rs = dedup (filter (\<lambda>r. r \<noteq> []) (map js_trim rs))"

definition required_mechanisms :: "coordination_mechanism list option \<Rightarrow> coordination_mechanism list" where
  "required_mechanisms ms =
     (case ms of
        Some xs \<Rightarrow> (if distinct xs \<and> xs \<noteq> [] then xs else default_coordination_mechanisms)
      | None \<Rightarrow> default_coordination_mechanisms)"

definition normalize_coordination :: "coordination_plan option \<Rightarrow> coordination_plan option" where
  "normalize_coordination value =
     (case value of
        None \<Rightarrow> None
      | Some plan \<Rightarrow>
          (let reasons = activation_reasons (cp_activation_reasons plan)
           in if reasons = [] then None
              else (case cp_mode plan of
                 Lightweight \<Rightarrow>
                   Some \<lparr> cp_mode = Lightweight, cp_activation_reasons = reasons,
                          cp_required_mechanisms = None, cp_source = cp_source plan \<rparr>
               | Coordinated \<Rightarrow>
                   Some \<lparr> cp_mode = Coordinated, cp_activation_reasons = reasons,
                          cp_required_mechanisms = Some (required_mechanisms (cp_required_mechanisms plan)),
                          cp_source = cp_source plan \<rparr>)))"

definition task_deps :: "team_task \<Rightarrow> string list" where
  "task_deps task =
     (case t_depends_on task of
        Some ds \<Rightarrow> ds
      | None \<Rightarrow> (case t_blocked_by task of Some bs \<Rightarrow> bs | None \<Rightarrow> []))"

definition task_version :: "team_task \<Rightarrow> int" where
  "task_version task = max 1 (case t_version task of Some v \<Rightarrow> v | None \<Rightarrow> 1)"

definition normalize_task :: "team_task \<Rightarrow> team_task" where
  "normalize_task task =
     task\<lparr> t_depends_on := Some (task_deps task),
           t_coordination := normalize_coordination (t_coordination task),
           t_version := Some (task_version task) \<rparr>"

definition read_task :: "team_store \<Rightarrow> string \<Rightarrow> team_task option" where
  "read_task s i =
     (if \<not> task_id_safe i then None
      else (case map_of (ts_tasks s) i of
              Some (Some task) \<Rightarrow> Some (normalize_task task)
            | _ \<Rightarrow> None))"

definition write_task :: "string \<Rightarrow> team_task \<Rightarrow> team_store \<Rightarrow> team_store" where
  "write_task i task s = s\<lparr> ts_tasks := dict_put i (Some task) (ts_tasks s) \<rparr>"

definition is_claim_lease_expired :: "task_claim option \<Rightarrow> int \<Rightarrow> bool" where
  "is_claim_lease_expired claim now =
     (case claim of
        None \<Rightarrow> False
      | Some c \<Rightarrow>
          (if c_leased_until c = [] then False
           else (case date_parse (c_leased_until c) of None \<Rightarrow> False | Some t \<Rightarrow> t \<le> now)))"

text \<open>\<open>Inr ()\<close> when the task is ready, otherwise the incomplete dependencies.\<close>

definition compute_task_readiness :: "team_store \<Rightarrow> string \<Rightarrow> string list + unit" where
  "compute_task_readiness s i =
     (case read_task s i of
        None \<Rightarrow> Inl []
      | Some task \<Rightarrow>
          (let deps = task_deps task;
               incomplete = filter (\<lambda>d. map_option t_status (read_task s d) \<noteq> Some TCompleted) deps
           in if deps = [] then Inr ()
              else if incomplete \<noteq> [] then Inl incomplete
              else Inr ()))"

subsection \<open>Claiming\<close>

definition lease_ms :: int where
  "lease_ms = 15 * 60 * 1000"

definition new_claim :: "string \<Rightarrow> string \<Rightarrow> int \<Rightarrow> task_claim" where
  "new_claim worker token now =
     \<lparr> c_claimed_at = Some (iso_of_ms now), c_owner = worker, c_token = token,
       c_leased_until = iso_of_ms (now + lease_ms) \<rparr>"

definition claimed_task :: "team_task \<Rightarrow> string \<Rightarrow> string \<Rightarrow> int \<Rightarrow> team_task" where
  "claimed_task v worker token now =
     v\<lparr> t_status := TInProgress, t_owner := Some worker, t_claim := Some (new_claim worker token now),
        t_version := Some (task_version v + 1) \<rparr>"

text \<open>The part of \<open>claimTask\<close> that decides on the current owner and claim: the task as it
  stands when the claim may go on.\<close>

definition reset_in_progress :: "team_task \<Rightarrow> team_task" where
  "reset_in_progress v =
     (if t_status v = TInProgress then v\<lparr> t_owner := None, t_claim := None, t_status := TPending \<rparr> else v)"

definition drop_idle_claim :: "team_task \<Rightarrow> string \<Rightarrow> int \<Rightarrow> team_task option" where
  "drop_idle_claim v worker now =
     (if t_status v = TPending \<or> t_status v = TBlocked
      then (if t_claim v \<noteq> None \<and> \<not> is_claim_lease_expired (t_claim v) now then None
            else if truthy_str (t_owner v) \<and> t_owner v \<noteq> Some worker then None
            else Some (v\<lparr> t_claim := None, t_owner := None \<rparr>))
      else Some v)"

definition clear_stale_claim :: "team_task \<Rightarrow> string \<Rightarrow> int \<Rightarrow> team_task option" where
  "clear_stale_claim v worker now =
     (if t_status v = TInProgress \<and> \<not> is_claim_lease_expired (t_claim v) now then None
      else drop_idle_claim (reset_in_progress v) worker now)"

definition claim_task ::
    "string \<Rightarrow> string \<Rightarrow> int option \<Rightarrow> bool \<Rightarrow> string \<Rightarrow> int \<Rightarrow> team_store \<Rightarrow> (team_task \<times> string) task_outcome" where
  "claim_task i worker expected lock_ok token now s =
     (case read_task s i of
        None \<Rightarrow> (Inl TaskNotFound, s)
      | Some v \<Rightarrow>
          (case compute_task_readiness s i of
             Inl deps \<Rightarrow> (Inl (BlockedDependency deps), s)
           | Inr _ \<Rightarrow>
               (if \<not> lock_ok then (Inl ClaimConflict, s)
                else if expected \<noteq> None \<and> t_version v \<noteq> expected then (Inl ClaimConflict, s)
                else if (case ts_config s of
                           None \<Rightarrow> True
                         | Some cfg \<Rightarrow> \<not> list_ex (\<lambda>w. w_name w = worker) (cfg_workers cfg))
                then (Inl WorkerNotFound, s)
                else if is_terminal_task_status (t_status v) then (Inl AlreadyTerminal, s)
                else (case clear_stale_claim v worker now of
                        None \<Rightarrow> (Inl ClaimConflict, s)
                      | Some v' \<Rightarrow>
                          (let updated = claimed_task v' worker token now
                           in (Inr (updated, token), write_task i updated s))))))"

subsection \<open>Finishing, releasing and reclaiming\<close>

definition holds_claim :: "team_task \<Rightarrow> string \<Rightarrow> bool" where
  "holds_claim v token \<longleftrightarrow>
     truthy_str (t_owner v) \<and>
     (case t_claim v of None \<Rightarrow> False | Some c \<Rightarrow> Some (c_owner c) = t_owner v \<and> c_token c = token)"

definition lease_over :: "team_task \<Rightarrow> int \<Rightarrow> bool" where
  "lease_over v now \<longleftrightarrow>
     (case t_claim v of
        None \<Rightarrow> False
      | Some c \<Rightarrow> (case date_parse (c_leased_until c) of None \<Rightarrow> False | Some t \<Rightarrow> t \<le> now))"

record terminal_data =
  td_result :: "string option"
  td_error :: "string option"

record evidence_env =
  ee_fs :: file_system
  ee_sha256 :: "string \<Rightarrow> string"
  ee_team :: string
  ee_cwd :: string

definition evidence_dir :: "team_store \<Rightarrow> evidence_env \<Rightarrow> team_task \<Rightarrow> string" where
  "evidence_dir s env v =
     (let dir = (case ts_config s of
                   None \<Rightarrow> None
                 | Some cfg \<Rightarrow>
                     Option.bind (List.find (\<lambda>w. Some (w_name w) = t_owner v) (cfg_workers cfg)) w_working_dir)
      in if truthy_str dir then the dir else ee_cwd env)"

definition completion_evidence_error ::
    "team_store \<Rightarrow> evidence_env \<Rightarrow> team_task \<Rightarrow> string option \<Rightarrow> evidence_error option" where
  "completion_evidence_error s env v result =
     validate_completion_evidence (ee_fs env) (ee_sha256 env)
       (resolve_path [] (evidence_dir s env v)) (ee_team env) v result"

definition finished_task ::
    "team_task \<Rightarrow> task_status \<Rightarrow> string option \<Rightarrow> string option \<Rightarrow> delegation_evidence option
       \<Rightarrow> coordination_evidence option \<Rightarrow> int \<Rightarrow> team_task" where
  "finished_task v to result error_text deleg coord now =
     v\<lparr> t_status := to, t_completed_at := Some (iso_of_ms now),
        t_result := (if to = TCompleted then result else None),
        t_error := (if to = TFailed then error_text else None),
        t_delegation_compliance :=
          (if to = TCompleted then (case deleg of Some e \<Rightarrow> Some e | None \<Rightarrow> t_delegation_compliance v)
           else t_delegation_compliance v),
        t_coordination_compliance :=
          (if to = TCompleted then (case coord of Some e \<Rightarrow> Some e | None \<Rightarrow> t_coordination_compliance v)
           else t_coordination_compliance v),
        t_claim := None, t_version := Some (task_version v + 1) \<rparr>"

definition finish_event :: "task_status \<Rightarrow> team_task \<Rightarrow> team_event list" where
  "finish_event to v =
     (let worker = (if truthy_str (t_owner v) then the (t_owner v) else ''unknown'')
      in if to = TCompleted
         then [\<lparr> ev_type = ''task_completed'', ev_worker = worker, ev_task_id = Some (t_id v),
                 ev_message_id = None, ev_reason = None \<rparr>]
         else if to = TFailed
         then [\<lparr> ev_type = ''task_failed'', ev_worker = worker, ev_task_id = Some (t_id v),
                 ev_message_id = None,
                 ev_reason = Some (if truthy_str (t_error v) then the (t_error v) else ''task_failed'') \<rparr>]
         else [])"

definition empty_monitor_snapshot :: monitor_snapshot where
  "empty_monitor_snapshot =
     \<lparr> ms_task_status_by_id = [], ms_worker_alive_by_name = [], ms_worker_state_by_name = [],
       ms_worker_turn_count_by_name = [], ms_worker_task_id_by_name = [], ms_mailbox_notified = [],
       ms_completed_event_task_ids = [] \<rparr>"

definition mark_completed_event :: "string \<Rightarrow> monitor_snapshot option \<Rightarrow> monitor_snapshot" where
  "mark_completed_event i m =
     (let base = (case m of None \<Rightarrow> empty_monitor_snapshot | Some x \<Rightarrow> x)
      in base\<lparr> ms_completed_event_task_ids := dict_put i True (ms_completed_event_task_ids base) \<rparr>)"

text \<open>The checks \<open>transitionTaskStatus\<close> makes on the task it read under the lock.\<close>

definition transition_error ::
    "team_store \<Rightarrow> evidence_env \<Rightarrow> team_task \<Rightarrow> task_status \<Rightarrow> task_status \<Rightarrow> string \<Rightarrow> string option
       \<Rightarrow> int \<Rightarrow> task_error option" where
  "transition_error s env v from to token result now =
     (if is_terminal_task_status (t_status v) then Some AlreadyTerminal
      else if \<not> can_transition_task_status (t_status v) to then Some BadTransition
      else if t_status v \<noteq> from then Some BadTransition
      else if \<not> holds_claim v token then Some ClaimConflict
      else if lease_over v now then Some LeaseExpired
      else if to = TCompleted \<and> requires_delegation_evidence v
              \<and> extract_delegation_evidence v result now = None then Some MissingDelegationEvidence
      else if to = TCompleted \<and> requires_coordination_evidence v
              \<and> extract_coordination_evidence v result now = None then Some MissingCoordinationEvidence
      else if to = TCompleted \<and> t_requires_code_change v = Some True
      then map_option InvalidCompletionEvidence (completion_evidence_error s env v result)
      else None)"

definition transition_task_status ::
    "string \<Rightarrow> task_status \<Rightarrow> task_status \<Rightarrow> string \<Rightarrow> terminal_data option \<Rightarrow> bool \<Rightarrow> evidence_env
       \<Rightarrow> int \<Rightarrow> team_store \<Rightarrow> team_task task_outcome" where
  "transition_task_status i from to token data lock_ok env now s =
     (if \<not> can_transition_task_status from to then (Inl BadTransition, s)
      else if \<not> task_id_safe i then (Inl (TaskThrow (''Invalid task ID: '' @ i)), s)
      else if \<not> lock_ok then (Inl ClaimConflict, s)
      else (case read_task s i of
              None \<Rightarrow> (Inl TaskNotFound, s)
            | Some v \<Rightarrow>
                (let result = Option.bind data td_result; error_text = Option.bind data td_error
                 in case transition_error s env v from to token result now of
                      Some e \<Rightarrow> (Inl e, s)
                    | None \<Rightarrow>
                        (let updated = finished_task v to result error_text
                                         (extract_delegation_evidence v result now)
                                         (extract_coordination_evidence v result now) now;
                             s1 = write_task i updated s;
                             s2 = s1\<lparr> ts_events := ts_events s1 @ finish_event to updated \<rparr>;
                             s3 = (if to = TCompleted
                                   then s2\<lparr> ts_monitor := Some (mark_completed_event i (ts_monitor s2)) \<rparr>
                                   else s2)
                         in (Inr updated, s3)))))"

definition unclaimed :: "team_task \<Rightarrow> team_task" where
  "unclaimed v = v\<lparr> t_status := TPending, t_owner := None, t_claim := None,
                    t_version := Some (task_version v + 1) \<rparr>"

definition release_task_claim ::
    "string \<Rightarrow> string \<Rightarrow> bool \<Rightarrow> int \<Rightarrow> team_store \<Rightarrow> team_task task_outcome" where
  "release_task_claim i token lock_ok now s =
     (if \<not> task_id_safe i then (Inl (TaskThrow (''Invalid task ID: '' @ i)), s)
      else if \<not> lock_ok then (Inl ClaimConflict, s)
      else (case read_task s i of
              None \<Rightarrow> (Inl TaskNotFound, s)
            | Some v \<Rightarrow>
                (if t_status v = TPending \<and> t_claim v = None \<and> \<not> truthy_str (t_owner v) then (Inr v, s)
                 else if t_status v = TCompleted \<or> t_status v = TFailed then (Inl AlreadyTerminal, s)
                 else if \<not> holds_claim v token then (Inl ClaimConflict, s)
                 else if lease_over v now then (Inl LeaseExpired, s)
                 else (Inr (unclaimed v), write_task i (unclaimed v) s))))"

definition reclaim_expired_task_claim ::
    "string \<Rightarrow> bool \<Rightarrow> int \<Rightarrow> team_store \<Rightarrow> (team_task \<times> bool) task_outcome" where
  "reclaim_expired_task_claim i lock_ok now s =
     (if \<not> task_id_safe i then (Inl (TaskThrow (''Invalid task ID: '' @ i)), s)
      else if \<not> lock_ok then (Inl ClaimConflict, s)
      else (case read_task s i of
              None \<Rightarrow> (Inl TaskNotFound, s)
            | Some v \<Rightarrow>
                (if t_status v = TCompleted \<or> t_status v = TFailed then (Inl AlreadyTerminal, s)
                 else if t_status v \<noteq> TInProgress \<or> t_claim v = None then (Inr (v, False), s)
                 else if \<not> is_claim_lease_expired (t_claim v) now then (Inl LeaseActive, s)
                 else (Inr (unclaimed v, True), write_task i (unclaimed v) s))))"

subsection \<open>Listing, creating and updating\<close>

definition list_tasks :: "team_store \<Rightarrow> team_task list" where
  "list_tasks s =
     (let loaded = map (\<lambda>(i, f). if i \<noteq> [] \<and> list_all is_digit i
                                 then (case f of
                                         None \<Rightarrow> None
                                       | Some task \<Rightarrow> (let n = normalize_task task
                                                       in if t_id n \<noteq> i then None else Some n))
                                 else None) (ts_tasks s)
      in sort_by (\<lambda>a b. nat_of_digits 0 (t_id a) < nat_of_digits 0 (t_id b)) (List.map_filter id loaded))"

text \<open>The counter of the configuration is given as the value of \<open>Number(raw)\<close>.\<close>

definition normalize_next_task_id :: "jsnum \<Rightarrow> int" where
  "normalize_next_task_id raw = (case raw of Fin q \<Rightarrow> max 1 \<lfloor>q\<rfloor> | _ \<Rightarrow> 1)"

definition has_valid_next_task_id :: "jsnum \<Rightarrow> bool" where
  "has_valid_next_task_id raw = (case raw of Fin q \<Rightarrow> 1 \<le> \<lfloor>q\<rfloor> | _ \<Rightarrow> False)"

definition next_task_id_from_disk :: "team_store \<Rightarrow> int" where
  "next_task_id_from_disk s =
     int (fold (\<lambda>(i, _) m. if i \<noteq> [] \<and> list_all is_digit i then max m (nat_of_digits 0 i) else m)
            (ts_tasks s) 0) + 1"

definition team_continuation_diagnostic :: "phase_state \<Rightarrow> string \<Rightarrow> string" where
  "team_continuation_diagnostic p phase_name =
     ''team_continuation_required:terminal_epoch='' @
     (case ps_terminal_epoch p of Some e \<Rightarrow> e | None \<Rightarrow> ps_updated_at p) @ '':reason='' @
     (case ps_terminal_reason p of Some r \<Rightarrow> r | None \<Rightarrow> ''terminal_phase_'' @ phase_name) @
     '':action=reopen_or_start_continuation''"

fun phase_name :: "team_phase \<Rightarrow> string" where
  "phase_name TeamPlan = ''team-plan''"
| "phase_name TeamPrd = ''team-prd''"
| "phase_name TeamExec = ''team-exec''"
| "phase_name TeamVerify = ''team-verify''"
| "phase_name TeamFix = ''team-fix''"
| "phase_name PhaseComplete = ''complete''"
| "phase_name PhaseFailed = ''failed''"
| "phase_name PhaseCancelled = ''cancelled''"

text \<open>The error \<open>createTask\<close> throws for a team that has finished.\<close>

definition creation_blocked :: "phase_state option \<Rightarrow> string option" where
  "creation_blocked phase =
     (case phase of
        None \<Rightarrow> None
      | Some p \<Rightarrow>
          (if truthy_str (ps_terminal_epoch p) \<or> is_terminal_phase (ps_current_phase p)
           then Some (team_continuation_diagnostic p (phase_name (ps_current_phase p))) else None))"

definition next_task_number :: "team_config \<Rightarrow> team_store \<Rightarrow> int" where
  "next_task_number cfg s =
     (let n = normalize_next_task_id (cfg_next_task_id cfg); d = next_task_id_from_disk s
      in if \<not> has_valid_next_task_id (cfg_next_task_id cfg) \<or> n < d then d else n)"

text \<open>\<open>createTask\<close>: the identifier and the creation time of the argument are overwritten.\<close>

definition create_task :: "team_task \<Rightarrow> int \<Rightarrow> team_store \<Rightarrow> team_task task_outcome" where
  "create_task task now s =
     (case ts_config s of
        None \<Rightarrow> (Inl (TaskThrow ''Team not found''), s)
      | Some cfg \<Rightarrow>
          (case creation_blocked (ts_phase s) of
             Some e \<Rightarrow> (Inl (TaskThrow e), s)
           | None \<Rightarrow>
               (let n = next_task_number cfg s;
                    i = string_of_int n;
                    created = (normalize_task (task\<lparr> t_id := i, t_created_at := iso_of_ms now \<rparr>))
                                \<lparr> t_depends_on := Some (task_deps task), t_version := Some 1 \<rparr>
                in if \<not> task_id_safe i then (Inl (TaskThrow (''Invalid task ID: '' @ i)), s)
                   else (Inr created,
                         (write_task i created s)
                           \<lparr> ts_config := Some (cfg\<lparr> cfg_next_task_id := Fin (rat_of_int (n + 1)) \<rparr>) \<rparr>))))"

text \<open>
  The properties an update may carry: \<open>None\<close> when the key is absent; for an optional property
  \<open>Some None\<close> when it is set to \<open>undefined\<close>.
\<close>

record task_updates =
  u_subject :: "string option"
  u_description :: "string option"
  u_status :: "string option"
  u_requires_code_change :: "bool option option"
  u_role :: "string option option"
  u_owner :: "string option option"
  u_result :: "string option option"
  u_error :: "string option option"
  u_blocked_by :: "string list option"
  u_depends_on :: "string list option"
  u_file_paths :: "string list option option"
  u_domains :: "string list option option"
  u_lane :: "string option option"
  u_allocation_reason :: "string option option"
  u_claim :: "task_claim option option"
  u_completed_at :: "string option option"
  u_delegation :: "delegation_plan option option"
  u_delegation_compliance :: "delegation_evidence option option"
  u_coordination :: "coordination_plan option option"
  u_coordination_compliance :: "coordination_evidence option option"

definition given :: "'a option \<Rightarrow> 'a \<Rightarrow> 'a" where
  "given u x = (case u of None \<Rightarrow> x | Some y \<Rightarrow> y)"

definition no_updates :: task_updates where
  "no_updates =
     \<lparr> u_subject = None, u_description = None, u_status = None, u_requires_code_change = None,
       u_role = None, u_owner = None, u_result = None, u_error = None, u_blocked_by = None,
       u_depends_on = None, u_file_paths = None, u_domains = None, u_lane = None,
       u_allocation_reason = None, u_claim = None, u_completed_at = None, u_delegation = None,
       u_delegation_compliance = None, u_coordination = None, u_coordination_compliance = None \<rparr>"

definition merge_updates :: "task_updates \<Rightarrow> task_status option \<Rightarrow> team_task \<Rightarrow> team_task" where
  "merge_updates u status v =
     \<lparr> t_id = t_id v,
       t_subject = given (u_subject u) (t_subject v),
       t_description = given (u_description u) (t_description v),
       t_status = given status (t_status v),
       t_requires_code_change = given (u_requires_code_change u) (t_requires_code_change v),
       t_role = given (u_role u) (t_role v),
       t_owner = given (u_owner u) (t_owner v),
       t_result = given (u_result u) (t_result v),
       t_error = given (u_error u) (t_error v),
       t_blocked_by = (case u_blocked_by u of None \<Rightarrow> t_blocked_by v | Some b \<Rightarrow> Some b),
       t_depends_on = Some (case u_depends_on u of
                              Some d \<Rightarrow> d
                            | None \<Rightarrow> (case u_blocked_by u of Some b \<Rightarrow> b | None \<Rightarrow> task_deps v)),
       t_file_paths = given (u_file_paths u) (t_file_paths v),
       t_domains = given (u_domains u) (t_domains v),
       t_lane = given (u_lane u) (t_lane v),
       t_allocation_reason = given (u_allocation_reason u) (t_allocation_reason v),
       t_version = Some (task_version v + 1),
       t_claim = given (u_claim u) (t_claim v),
       t_created_at = t_created_at v,
       t_completed_at = given (u_completed_at u) (t_completed_at v),
       t_delegation = given (u_delegation u) (t_delegation v),
       t_delegation_compliance = given (u_delegation_compliance u) (t_delegation_compliance v),
       t_coordination = given (u_coordination u) (t_coordination v),
       t_coordination_compliance = given (u_coordination_compliance u) (t_coordination_compliance v) \<rparr>"

definition update_guard :: "task_updates \<Rightarrow> team_task \<Rightarrow> string option" where
  "update_guard u v =
     (if u_status u \<noteq> None \<and> Option.bind (u_status u) task_status_of = None
      then Some (''Invalid task status: '' @ the (u_status u))
      else if u_requires_code_change u = Some (Some True) \<and> t_requires_code_change v \<noteq> Some True
              \<and> is_terminal_task_status (t_status v)
      then Some ''Cannot enable completion evidence for a terminal task.''
      else if u_status u = Some ''completed'' \<and> t_status v \<noteq> TCompleted
              \<and> (case u_requires_code_change u of
                   Some (Some b) \<Rightarrow> Some b | _ \<Rightarrow> t_requires_code_change v) = Some True
      then Some ''Use transition-task-status with completion evidence.''
      else if t_requires_code_change v = Some True \<and> u_requires_code_change u = Some (Some False)
      then Some ''Cannot disable completion evidence for an implementation task.''
      else None)"

definition update_task ::
    "string \<Rightarrow> task_updates \<Rightarrow> bool \<Rightarrow> team_store \<Rightarrow> team_task option task_outcome" where
  "update_task i u lock_ok s =
     (if \<not> task_id_safe i then (Inl (TaskThrow (''Invalid task ID: '' @ i)), s)
      else if \<not> lock_ok then (Inl (TaskThrow (''Timed out acquiring task claim lock for '' @ i)), s)
      else (case read_task s i of
              None \<Rightarrow> (Inr None, s)
            | Some v \<Rightarrow>
                (case update_guard u v of
                   Some e \<Rightarrow> (Inl (TaskThrow e), s)
                 | None \<Rightarrow>
                     (let merged = normalize_task (merge_updates u (Option.bind (u_status u) task_status_of) v)
                      in (Inr (Some merged), write_task i merged s)))))"

subsection \<open>Facts on reading and writing\<close>

lemma normalize_task_fields [simp]:
  "t_id (normalize_task v) = t_id v" "t_status (normalize_task v) = t_status v"
  "t_owner (normalize_task v) = t_owner v" "t_claim (normalize_task v) = t_claim v"
  "t_version (normalize_task v) = Some (task_version v)"
  "t_depends_on (normalize_task v) = Some (task_deps v)"
  "t_created_at (normalize_task v) = t_created_at v"
  "t_result (normalize_task v) = t_result v"
  "t_requires_code_change (normalize_task v) = t_requires_code_change v"
  by (simp_all add: normalize_task_def)

lemma task_deps_frame [simp]:
  "task_deps (v\<lparr> t_status := st \<rparr>) = task_deps v" "task_deps (v\<lparr> t_owner := w \<rparr>) = task_deps v"
  "task_deps (v\<lparr> t_claim := c \<rparr>) = task_deps v" "task_deps (v\<lparr> t_id := i \<rparr>) = task_deps v"
  "task_deps (v\<lparr> t_created_at := a \<rparr>) = task_deps v"
  "task_deps (v\<lparr> t_version := n \<rparr>) = task_deps v"
  by (simp_all add: task_deps_def split: option.split)

lemma task_version_frame [simp]:
  "task_version (v\<lparr> t_status := st \<rparr>) = task_version v" "task_version (v\<lparr> t_owner := w \<rparr>) = task_version v"
  "task_version (v\<lparr> t_claim := c \<rparr>) = task_version v"
  by (simp_all add: task_version_def)

lemma task_version_pos: "1 \<le> task_version v"
  by (simp add: task_version_def)

lemma task_deps_normalize [simp]: "task_deps (normalize_task v) = task_deps v"
  by (simp add: task_deps_def normalize_task_def split: option.splits)

lemma task_version_normalize [simp]: "task_version (normalize_task v) = task_version v"
  by (simp add: task_version_def [of "normalize_task v"] task_version_pos)

lemma activation_reasons_idem [simp]: "activation_reasons (activation_reasons rs) = activation_reasons rs"
proof -
  have "map js_trim (activation_reasons rs) = activation_reasons rs"
    by (rule map_idI) (auto simp: activation_reasons_def)
  moreover have "filter (\<lambda>r. r \<noteq> []) (activation_reasons rs) = activation_reasons rs"
    by (auto simp: filter_id_conv activation_reasons_def)
  moreover have "dedup (activation_reasons rs) = activation_reasons rs"
    by (simp add: dedup_distinct activation_reasons_def)
  ultimately show ?thesis by (simp add: activation_reasons_def [of "activation_reasons rs"])
qed

lemma required_mechanisms_idem [simp]: "required_mechanisms (Some (required_mechanisms ms)) = required_mechanisms ms"
  by (simp add: required_mechanisms_def default_coordination_mechanisms_def split: option.split)

lemma normalize_coordination_idem [simp]:
  "normalize_coordination (normalize_coordination p) = normalize_coordination p"
  by (cases p; cases "cp_mode (the p)") (simp_all add: normalize_coordination_def Let_def)

lemma normalize_task_idem [simp]: "normalize_task (normalize_task v) = normalize_task v"
proof -
  have c: "t_coordination (normalize_task v) = normalize_coordination (t_coordination v)"
    by (simp add: normalize_task_def)
  have "normalize_task w = w"
    if "t_depends_on w = Some (task_deps w)" "t_coordination w = normalize_coordination (t_coordination w)"
      "t_version w = Some (task_version w)" for w
    unfolding normalize_task_def that(1,3) [symmetric] that(2) [symmetric] by simp
  then show ?thesis using c by simp
qed

text \<open>Stored tasks are normal: reading one gives it back.\<close>

definition normal_task :: "team_task \<Rightarrow> bool" where
  "normal_task v \<longleftrightarrow> normalize_task v = v"

lemma read_write_same:
  "task_id_safe i \<Longrightarrow> read_task (write_task i v s) i = Some (normalize_task v)"
  by (simp add: read_task_def write_task_def)

lemma read_write_other [simp]: "j \<noteq> i \<Longrightarrow> read_task (write_task i v s) j = read_task s j"
  by (simp add: read_task_def write_task_def)

lemma read_task_safe: "read_task s i = Some v \<Longrightarrow> task_id_safe i \<and> normalize_task v = v"
  by (auto simp: read_task_def split: if_splits option.splits)

lemma read_task_version: "read_task s i = Some v \<Longrightarrow> t_version v = Some (task_version v)"
  using read_task_safe [of s i v] by (metis normalize_task_fields(5))

lemma read_task_frame [frame_simps]:
  "read_task (s\<lparr> ts_events := e \<rparr>) i = read_task s i"
  "read_task (s\<lparr> ts_monitor := m \<rparr>) i = read_task s i"
  "read_task (s\<lparr> ts_config := c \<rparr>) i = read_task s i"
  "read_task (s\<lparr> ts_phase := p \<rparr>) i = read_task s i"
  by (simp_all add: read_task_def)

lemma write_task_frame [frame_simps]:
  "ts_config (write_task i v s) = ts_config s" "ts_phase (write_task i v s) = ts_phase s"
  "ts_events (write_task i v s) = ts_events s" "ts_monitor (write_task i v s) = ts_monitor s"
  by (simp_all add: write_task_def)

interpretation board: keyed_store "\<lambda>s i. map_of (ts_tasks s) i"
  "\<lambda>i f s. s\<lparr> ts_tasks := dict_put i f (ts_tasks s) \<rparr>"
  by unfold_locales simp

end
