(* ===== verification/TeamBoard.thy ===== *)
theory TeamBoard
  imports TeamTasks
begin

text \<open>
  Runs of the task board: a sequence of the operations of \<open>TeamTasks\<close>, each with its clock
  reading, the outcome of its lock and its other inputs, and the properties that hold along
  every run: an unexpired lease is exclusive, versions only grow, finished tasks stay finished.
\<close>

datatype task_op =
    OpClaim string string "int option" string
  | OpTransition string task_status task_status string "terminal_data option"
  | OpRelease string string
  | OpReclaim string
  | OpCreate team_task
  | OpUpdate string task_updates

fun exec_op :: "evidence_env \<Rightarrow> task_op \<Rightarrow> bool \<Rightarrow> int \<Rightarrow> team_store \<Rightarrow> team_store" where
  "exec_op env (OpClaim i worker expected token) ok now s = snd (claim_task i worker expected ok token now s)"
| "exec_op env (OpTransition i from to token data) ok now s =
     snd (transition_task_status i from to token data ok env now s)"
| "exec_op env (OpRelease i token) ok now s = snd (release_task_claim i token ok now s)"
| "exec_op env (OpReclaim i) ok now s = snd (reclaim_expired_task_claim i ok now s)"
| "exec_op env (OpCreate task) ok now s = snd (create_task task now s)"
| "exec_op env (OpUpdate i u) ok now s = snd (update_task i u ok s)"

definition run_ops :: "evidence_env \<Rightarrow> (task_op \<times> bool \<times> int) list \<Rightarrow> team_store \<Rightarrow> team_store" where
  "run_ops env ops s = fold (\<lambda>(p, ok, now). exec_op env p ok now) ops s"

fun op_token :: "task_op \<Rightarrow> string option" where
  "op_token (OpTransition i from to token data) = Some token"
| "op_token (OpRelease i token) = Some token"
| "op_token _ = None"

fun is_update :: "task_op \<Rightarrow> bool" where
  "is_update (OpUpdate i u) = True"
| "is_update _ = False"

subsection \<open>Fresh identifiers\<close>

definition file_number :: "string \<Rightarrow> nat option" where
  "file_number i = (if i \<noteq> [] \<and> list_all is_digit i then Some (nat_of_digits 0 i) else None)"

lemma fold_max_ge:
  "m \<le> fold (\<lambda>(i, _) m. if i \<noteq> [] \<and> list_all is_digit i then max m (nat_of_digits 0 i) else m) fs m
   \<and> (\<forall>(i, f) \<in> set fs. i \<noteq> [] \<and> list_all is_digit i \<longrightarrow>
        nat_of_digits 0 i \<le> fold (\<lambda>(i, _) m. if i \<noteq> [] \<and> list_all is_digit i then max m (nat_of_digits 0 i) else m) fs m)"
proof (induction fs arbitrary: m)
  case Nil
  then show ?case by simp
next
  case (Cons a fs)
  obtain i f where a: "a = (i, f)" by fastforce
  show ?case
    using Cons [of m] Cons [of "max m (nat_of_digits 0 i)"] by (auto simp: a)
qed

lemma disk_number_less:
  "i \<in> fst ` set (ts_tasks s) \<Longrightarrow> i \<noteq> [] \<Longrightarrow> list_all is_digit i \<Longrightarrow>
     int (nat_of_digits 0 i) < next_task_id_from_disk s"
  using fold_max_ge [of 0 "ts_tasks s"] by (fastforce simp: next_task_id_from_disk_def)

lemma next_task_number_ge: "next_task_id_from_disk s \<le> next_task_number cfg s"
  by (simp add: next_task_number_def Let_def)

lemma next_task_id_from_disk_pos: "1 \<le> next_task_id_from_disk s"
  by (simp add: next_task_id_from_disk_def)

lemma string_of_next: "string_of_int (next_task_number cfg s) = string_of_nat (nat (next_task_number cfg s))"
  using next_task_number_ge [of s cfg] next_task_id_from_disk_pos [of s] by (simp add: string_of_int_def)

lemma next_task_fresh: "string_of_int (next_task_number cfg s) \<notin> fst ` set (ts_tasks s)"
proof
  let ?n = "next_task_number cfg s"
  assume "string_of_int ?n \<in> fst ` set (ts_tasks s)"
  then have "int (nat_of_digits 0 (string_of_nat (nat ?n))) < next_task_id_from_disk s"
    using disk_number_less [of "string_of_nat (nat ?n)" s] string_of_nat_digits [of "nat ?n"]
    by (simp add: string_of_next list_all_iff)
  then show False
    using next_task_number_ge [of s cfg] next_task_id_from_disk_pos [of s]
    by (simp add: nat_of_digits_string_of_nat)
qed

lemma read_task_domain: "read_task s i = Some v \<Longrightarrow> i \<in> fst ` set (ts_tasks s)"
  by (auto simp: read_task_def split: if_splits option.splits dest!: map_of_SomeD intro: rev_image_eqI)

lemma create_task_cases:
  assumes "create_task task now s = (r, s')"
  obtains (error) e where "r = Inl e" "s' = s"
  | (created) cfg v where "r = Inr v" "ts_config s = Some cfg" "creation_blocked (ts_phase s) = None"
      "t_id v = string_of_int (next_task_number cfg s)" "task_id_safe (t_id v)"
      "normalize_task v = v" "t_version v = Some 1" "t_created_at v = iso_of_ms now"
      "s' = (write_task (t_id v) v s)\<lparr> ts_config := Some (cfg\<lparr> cfg_next_task_id := Fin (rat_of_int (next_task_number cfg s + 1)) \<rparr>) \<rparr>"
proof (cases "ts_config s")
  case None
  then show ?thesis using assms error by (auto simp: create_task_def)
next
  case (Some cfg)
  show ?thesis
  proof (cases "creation_blocked (ts_phase s)")
    case blocked: (Some e)
    then show ?thesis using assms error Some by (auto simp: create_task_def)
  next
    case None
    let ?i = "string_of_int (next_task_number cfg s)"
    let ?t = "task\<lparr> t_id := ?i, t_created_at := iso_of_ms now \<rparr>"
    let ?v = "(normalize_task ?t)\<lparr> t_depends_on := Some (task_deps task), t_version := Some 1 \<rparr>"
    have deps: "task_deps ?t = task_deps task" by (simp add: task_deps_def split: option.splits)
    have "normalize_task ?v = ?v"
      by (simp add: normalize_task_def deps) (simp add: task_deps_def task_version_def)
    then show ?thesis
      using assms error created [of ?v cfg] Some None
      by (auto simp: create_task_def Let_def split: if_splits)
  qed
qed

subsection \<open>What one operation does to a task\<close>

lemma claim_task_Inl: "claim_task i worker expected ok token now s = (Inl e, s') \<Longrightarrow> s' = s"
  by (auto simp: claim_task_def Let_def split: option.splits sum.splits if_splits)

lemma claim_task_Inr:
  assumes "claim_task i worker expected ok token now s = (Inr (t, k), s')"
  shows "\<exists>v v' cfg. read_task s i = Some v \<and> compute_task_readiness s i = Inr () \<and> ok
      \<and> (expected = None \<or> t_version v = expected) \<and> ts_config s = Some cfg
      \<and> worker \<in> w_name ` set (cfg_workers cfg) \<and> \<not> is_terminal_task_status (t_status v)
      \<and> clear_stale_claim v worker now = Some v' \<and> t = claimed_task v' worker token now \<and> k = token
      \<and> s' = write_task i t s"
proof -
  obtain v where v: "read_task s i = Some v" and ready: "compute_task_readiness s i = Inr ()"
    using assms by (auto simp: claim_task_def split: option.splits sum.splits)
  note c = assms [unfolded claim_task_def v ready option.case sum.case]
  have ok: "ok" using c by (cases ok) simp_all
  have ex: "expected = None \<or> t_version v = expected"
    using c ok by (cases "expected = None \<or> t_version v = expected") simp_all
  obtain cfg where cfg: "ts_config s = Some cfg" "worker \<in> w_name ` set (cfg_workers cfg)"
    using c ok ex by (cases "ts_config s") (auto simp: list_ex_iff image_iff split: if_splits)
  then have known: "list_ex (\<lambda>w. w_name w = worker) (cfg_workers cfg)"
    by (auto simp: list_ex_iff)
  have nt: "\<not> is_terminal_task_status (t_status v)"
    using c ok ex cfg known by (cases "is_terminal_task_status (t_status v)") (simp_all split: if_splits)
  have ex': "(expected \<noteq> None \<and> t_version v \<noteq> expected) = False" using ex by simp
  have "(case clear_stale_claim v worker now of None \<Rightarrow> (Inl ClaimConflict, s)
         | Some v' \<Rightarrow> (let updated = claimed_task v' worker token now
                       in (Inr (updated, token), write_task i updated s))) = (Inr (t, k), s')"
    using c unfolding ex' by (simp only: ok cfg known nt option.case if_False not_True_eq_False simp_thms if_True)
  note e = this
  show ?thesis
  proof (cases "clear_stale_claim v worker now")
    case None
    with e show ?thesis by simp
  next
    case (Some v')
    have "claimed_task v' worker token now = t \<and> token = k
        \<and> write_task i (claimed_task v' worker token now) s = s'"
      using e unfolding Some option.case Let_def prod.inject sum.inject by blast
    then have "t = claimed_task v' worker token now" "k = token" "s' = write_task i t s" by blast+
    with Some v ready ok ex cfg nt show ?thesis by blast
  qed
qed

lemma clear_stale_claim_shape:
  "clear_stale_claim v worker now = Some v' \<Longrightarrow>
     \<exists>st w c. v' = v\<lparr> t_status := st, t_claim := c, t_owner := w \<rparr>"
proof -
  assume a: "clear_stale_claim v worker now = Some v'"
  have r: "\<exists>st w c. reset_in_progress v = v\<lparr> t_status := st, t_claim := c, t_owner := w \<rparr>"
    by (rule exI [of _ "t_status (reset_in_progress v)"], rule exI [of _ "t_owner (reset_in_progress v)"],
        rule exI [of _ "t_claim (reset_in_progress v)"]) (simp add: reset_in_progress_def)
  have "v' = reset_in_progress v \<or> v' = (reset_in_progress v)\<lparr> t_claim := None, t_owner := None \<rparr>"
    using a by (simp add: clear_stale_claim_def drop_idle_claim_def split: if_splits)
  moreover from r obtain st w c where "reset_in_progress v = v\<lparr> t_status := st, t_claim := c, t_owner := w \<rparr>"
    by blast
  ultimately have "v' = v\<lparr> t_status := st, t_claim := c, t_owner := w \<rparr>
      \<or> v' = v\<lparr> t_status := st, t_claim := None, t_owner := None \<rparr>"
    by simp
  then show ?thesis by blast
qed

lemma clear_stale_claim_frame:
  assumes "clear_stale_claim v worker now = Some v'"
  shows "t_id v' = t_id v \<and> task_version v' = task_version v \<and> task_deps v' = task_deps v \<and>
     t_coordination v' = t_coordination v \<and> t_depends_on v' = t_depends_on v"
  using clear_stale_claim_shape [OF assms] by auto

lemma clear_stale_claim_lease:
  "clear_stale_claim v worker now = Some v' \<Longrightarrow> \<not> is_terminal_task_status (t_status v) \<Longrightarrow>
     t_status v = TInProgress \<and> is_claim_lease_expired (t_claim v) now \<or>
     t_status v \<noteq> TInProgress \<and> (t_claim v = None \<or> is_claim_lease_expired (t_claim v) now)"
  by (cases "t_status v")
    (auto simp: clear_stale_claim_def drop_idle_claim_def reset_in_progress_def split: if_splits)

lemma transition_cases:
  assumes "transition_task_status i from to token data ok env now s = (r, s')"
  obtains (error) e where "r = Inl e" "s' = s"
  | (finished) v where "read_task s i = Some v" "task_id_safe i" "ok" "can_transition_task_status from to"
      "transition_error s env v from to token (Option.bind data td_result) now = None"
      "r = Inr (finished_task v to (Option.bind data td_result) (Option.bind data td_error)
                  (extract_delegation_evidence v (Option.bind data td_result) now)
                  (extract_coordination_evidence v (Option.bind data td_result) now) now)"
      "\<And>j. read_task s' j = read_task (write_task i (projr r) s) j"
      "ts_config s' = ts_config s" "ts_phase s' = ts_phase s" "ts_tasks s' = ts_tasks (write_task i (projr r) s)"
  using assms
  by (auto simp: transition_task_status_def Let_def frame_simps split: option.splits if_splits)

lemma transition_error_None:
  "transition_error s env v from to token result now = None \<Longrightarrow>
     t_status v = TInProgress \<and> from = TInProgress \<and> is_terminal_task_status to \<and> holds_claim v token \<and> \<not> lease_over v now"
  by (auto simp: transition_error_def split: if_splits)

lemma release_cases:
  assumes "release_task_claim i token ok now s = (r, s')"
  obtains (same) "s' = s"
  | (released) v where "read_task s i = Some v" "task_id_safe i" "holds_claim v token" "\<not> lease_over v now"
      "\<not> is_terminal_task_status (t_status v)" "r = Inr (unclaimed v)" "s' = write_task i (unclaimed v) s"
  using assms
  by (auto simp: release_task_claim_def is_terminal_task_status_def split: option.splits if_splits)

lemma reclaim_cases:
  assumes "reclaim_expired_task_claim i ok now s = (r, s')"
  obtains (same) "s' = s"
  | (reclaimed) v where "read_task s i = Some v" "task_id_safe i" "t_status v = TInProgress"
      "is_claim_lease_expired (t_claim v) now" "r = Inr (unclaimed v, True)" "s' = write_task i (unclaimed v) s"
  using assms
  by (auto simp: reclaim_expired_task_claim_def split: option.splits if_splits)

lemma update_cases:
  assumes "update_task i u ok s = (r, s')"
  obtains (same) "s' = s"
  | (updated) v where "read_task s i = Some v" "task_id_safe i" "update_guard u v = None"
      "s' = write_task i (normalize_task (merge_updates u (Option.bind (u_status u) task_status_of) v)) s"
  using assms by (auto simp: update_task_def Let_def split: option.splits if_splits)

lemma claimed_task_fields [simp]:
  "t_status (claimed_task v w k now) = TInProgress" "t_owner (claimed_task v w k now) = Some w"
  "t_claim (claimed_task v w k now) = Some (new_claim w k now)"
  "t_id (claimed_task v w k now) = t_id v"
  "task_version (claimed_task v w k now) = task_version v + 1"
  "task_deps (claimed_task v w k now) = task_deps v"
  using task_version_pos [of v]
  by (simp_all add: claimed_task_def task_version_def task_deps_def split: option.split)

lemma finished_task_fields [simp]:
  "t_status (finished_task v to r e d c now) = to" "t_claim (finished_task v to r e d c now) = None"
  "t_id (finished_task v to r e d c now) = t_id v" "t_owner (finished_task v to r e d c now) = t_owner v"
  "task_version (finished_task v to r e d c now) = task_version v + 1"
  "task_deps (finished_task v to r e d c now) = task_deps v"
  using task_version_pos [of v]
  by (simp_all add: finished_task_def task_version_def task_deps_def split: option.split)

lemma unclaimed_fields [simp]:
  "t_status (unclaimed v) = TPending" "t_claim (unclaimed v) = None" "t_owner (unclaimed v) = None"
  "t_id (unclaimed v) = t_id v" "task_version (unclaimed v) = task_version v + 1"
  "task_deps (unclaimed v) = task_deps v"
  using task_version_pos [of v]
  by (simp_all add: unclaimed_def task_version_def task_deps_def split: option.split)

lemma merge_updates_fields [simp]:
  "t_id (merge_updates u st v) = t_id v" "t_created_at (merge_updates u st v) = t_created_at v"
  "task_version (merge_updates u st v) = task_version v + 1"
  using task_version_pos [of v] by (simp_all add: merge_updates_def task_version_def)

text \<open>Why an operation may change a task: it is an update, or the task is not finished and the
  operation presents the token of the claim, or no unexpired claim is in the way.\<close>

definition may_change :: "task_op \<Rightarrow> int \<Rightarrow> team_task \<Rightarrow> bool" where
  "may_change p now v \<longleftrightarrow>
     is_update p \<or>
     \<not> is_terminal_task_status (t_status v) \<and>
       ((\<exists>k. op_token p = Some k \<and> holds_claim v k) \<or> t_status v \<noteq> TInProgress \<and> t_claim v = None
        \<or> is_claim_lease_expired (t_claim v) now)"

definition changed_by :: "team_store \<Rightarrow> string \<Rightarrow> team_task \<Rightarrow> bool" where
  "changed_by s' i v \<longleftrightarrow> (\<exists>w. read_task s' i = Some w \<and> task_version w = task_version v + 1 \<and> t_id w = t_id v)"

lemma changed_by_write:
  "task_id_safe i \<Longrightarrow> task_version w = task_version v + 1 \<Longrightarrow> t_id w = t_id v \<Longrightarrow> changed_by (write_task i w s) i v"
  by (simp add: changed_by_def read_write_same)

lemma exec_op_task:
  assumes v: "read_task s i = Some v"
  shows "read_task (exec_op env p ok now s) i = Some v \<or>
         may_change p now v \<and> changed_by (exec_op env p ok now s) i v"
proof (cases p)
  case (OpClaim j worker expected token)
  obtain r s' where c: "claim_task j worker expected ok token now s = (r, s')" by fastforce
  show ?thesis
  proof (cases r)
    case (Inl e)
    then show ?thesis using v OpClaim claim_task_Inl [of j worker expected ok token now s e s'] c by simp
  next
    case (Inr tk)
    obtain t k where tk: "tk = (t, k)" by fastforce
    obtain w w' where w: "read_task s j = Some w" and nt: "\<not> is_terminal_task_status (t_status w)"
      and cl: "clear_stale_claim w worker now = Some w'" and t: "t = claimed_task w' worker token now"
      and s': "s' = write_task j t s"
      using claim_task_Inr [of j worker expected ok token now s t k s'] c Inr tk by blast
    show ?thesis
    proof (cases "i = j")
      case False
      then show ?thesis using v OpClaim c s' by simp
    next
      case True
      then have "w = v" using v w by simp
      moreover have "may_change p now w"
        using clear_stale_claim_lease [OF cl nt] nt OpClaim by (auto simp: may_change_def)
      moreover have "changed_by s' j w"
        unfolding s' t using clear_stale_claim_frame [OF cl] read_task_safe [OF w]
        by (intro changed_by_write) simp_all
      ultimately show ?thesis using True OpClaim c by simp
    qed
  qed
next
  case (OpTransition j fr st token data)
  obtain r s' where c: "transition_task_status j fr st token data ok env now s = (r, s')" by fastforce
  from c show ?thesis
  proof (cases rule: transition_cases)
    case (error e)
    then show ?thesis using v OpTransition c by simp
  next
    case (finished w)
    show ?thesis
    proof (cases "i = j")
      case False
      then show ?thesis using v OpTransition c finished(7) [of i] by simp
    next
      case True
      then have "w = v" using v finished(1) by simp
      moreover have "may_change p now w"
        using transition_error_None [OF finished(5)] OpTransition by (auto simp: may_change_def)
      moreover have "changed_by (write_task j (projr r) s) j w"
        unfolding finished(6) using finished(2) by (intro changed_by_write) simp_all
      ultimately show ?thesis using True OpTransition c finished(7) [of j] by (simp add: changed_by_def)
    qed
  qed
next
  case (OpRelease j token)
  obtain r s' where c: "release_task_claim j token ok now s = (r, s')" by fastforce
  from c show ?thesis
  proof (cases rule: release_cases)
    case same
    then show ?thesis using v OpRelease c by simp
  next
    case (released w)
    then show ?thesis
      using v OpRelease c changed_by_write [of i "unclaimed w" w s]
      by (cases "i = j") (auto simp: may_change_def)
  qed
next
  case (OpReclaim j)
  obtain r s' where c: "reclaim_expired_task_claim j ok now s = (r, s')" by fastforce
  from c show ?thesis
  proof (cases rule: reclaim_cases)
    case same
    then show ?thesis using v OpReclaim c by simp
  next
    case (reclaimed w)
    then show ?thesis
      using v OpReclaim c changed_by_write [of i "unclaimed w" w s]
      by (cases "i = j") (auto simp: may_change_def)
  qed
next
  case (OpCreate task)
  obtain r s' where c: "create_task task now s = (r, s')" by fastforce
  from c show ?thesis
  proof (cases rule: create_task_cases)
    case (error e)
    then show ?thesis using v OpCreate c by simp
  next
    case (created config w)
    have "i \<noteq> t_id w" using read_task_domain [OF v] next_task_fresh [of config s] created(4) by metis
    then show ?thesis using v OpCreate c created by (simp add: frame_simps)
  qed
next
  case (OpUpdate j u)
  obtain r s' where c: "update_task j u ok s = (r, s')" by fastforce
  from c show ?thesis
  proof (cases rule: update_cases)
    case same
    then show ?thesis using v OpUpdate c by simp
  next
    case (updated w)
    then show ?thesis
      using v OpUpdate c
        changed_by_write [of i "normalize_task (merge_updates u (Option.bind (u_status u) task_status_of) w)" w s]
      by (cases "i = j") (auto simp: may_change_def)
  qed
qed

text \<open>The same along a run: a task that no operation of the run may change stays as it is.\<close>

lemma run_ops_Cons: "run_ops env ((p, ok, now) # ops) s = run_ops env ops (exec_op env p ok now s)"
  by (simp add: run_ops_def)

lemma run_ops_Nil [simp]: "run_ops env [] s = s"
  by (simp add: run_ops_def)

lemma run_ops_keeps:
  "read_task s i = Some v \<Longrightarrow> (\<And>p ok now. (p, ok, now) \<in> set ops \<Longrightarrow> \<not> may_change p now v) \<Longrightarrow>
     read_task (run_ops env ops s) i = Some v"
proof (induction ops arbitrary: s)
  case (Cons a ops)
  obtain p ok now where a: "a = (p, ok, now)" by (cases a)
  have "\<not> may_change p now v" by (rule Cons.prems(2) [of p ok now]) (simp add: a)
  then have "read_task (exec_op env p ok now s) i = Some v"
    using exec_op_task [OF Cons.prems(1), of env p ok now] by blast
  moreover have "\<And>p ok now. (p, ok, now) \<in> set ops \<Longrightarrow> \<not> may_change p now v"
    using Cons.prems(2) by (meson list.set_intros(2))
  ultimately show ?case using Cons.IH by (simp add: a run_ops_Cons)
qed simp

lemma run_ops_version:
  "read_task s i = Some v \<Longrightarrow>
     \<exists>w. read_task (run_ops env ops s) i = Some w \<and> task_version v \<le> task_version w
         \<and> (task_version w = task_version v \<longrightarrow> w = v)"
proof (induction ops arbitrary: s v)
  case (Cons a ops)
  obtain p ok now where a: "a = (p, ok, now)" by (cases a)
  consider "read_task (exec_op env p ok now s) i = Some v"
    | w where "read_task (exec_op env p ok now s) i = Some w" "task_version w = task_version v + 1"
    using exec_op_task [OF Cons.prems, of env p ok now] by (auto simp: changed_by_def)
  then show ?case
  proof cases
    case 1
    then show ?thesis using Cons.IH by (simp add: a run_ops_Cons)
  next
    case 2
    then show ?thesis using Cons.IH [of "exec_op env p ok now s" w] by (auto simp: a run_ops_Cons)
  qed
qed simp

end
