(* ===== verification/TeamTaskProps.thy ===== *)
theory TeamTaskProps
  imports TeamBoard
begin

text \<open>
  The properties of the task board, each with a concrete instance: the board of \<open>demo_store\<close>
  holds a finished task 1, a task 2 that depends on it, and a task 3 whose lease has run out.
\<close>

subsection \<open>A concrete board\<close>

definition blank_task :: "string \<Rightarrow> team_task" where
  "blank_task i =
     \<lparr> t_id = i, t_subject = ''s'', t_description = ''d'', t_status = TPending,
       t_requires_code_change = None, t_role = None, t_owner = None, t_result = None, t_error = None,
       t_blocked_by = None, t_depends_on = Some [], t_file_paths = None, t_domains = None, t_lane = None,
       t_allocation_reason = None, t_version = Some 1, t_claim = None, t_created_at = ''2026-01-01T00:00:00.000Z'',
       t_completed_at = None, t_delegation = None, t_delegation_compliance = None,
       t_coordination = None, t_coordination_compliance = None \<rparr>"

definition demo_store :: team_store where
  "demo_store =
     \<lparr> ts_tasks =
         [(''1'', Some ((blank_task ''1'')\<lparr> t_status := TCompleted \<rparr>)),
          (''2'', Some ((blank_task ''2'')\<lparr> t_depends_on := Some [''1''] \<rparr>)),
          (''3'', Some ((blank_task ''3'')\<lparr> t_status := TInProgress, t_owner := Some ''w1'',
                        t_claim := Some (new_claim ''w1'' ''k0'' 0) \<rparr>))],
       ts_config = Some \<lparr> cfg_workers = [\<lparr> w_name = ''w1'', w_working_dir = None \<rparr>,
                                         \<lparr> w_name = ''w2'', w_working_dir = None \<rparr>],
                          cfg_next_task_id = Fin 4 \<rparr>,
       ts_phase = None, ts_events = [], ts_monitor = None \<rparr>"

definition demo_env :: evidence_env where
  "demo_env = \<lparr> ee_fs = \<lparr> fs_realpath = (\<lambda>_. None), fs_lstat = (\<lambda>_. None) \<rparr>, ee_sha256 = (\<lambda>s. s),
                ee_team = ''t'', ee_cwd = ''/w'' \<rparr>"

lemma normalize_blank [simp]:
  "normalize_task (blank_task i) = blank_task i"
  "task_deps (blank_task i) = []" "t_status (blank_task i) = TPending"
  by (simp_all add: normalize_task_def blank_task_def task_deps_def task_version_def normalize_coordination_def)

lemma safe_demo: "task_id_safe ''1''" "task_id_safe ''2''" "task_id_safe ''3''" by code_simp+

lemma demo_reads:
  "read_task demo_store ''1'' = Some ((blank_task ''1'')\<lparr> t_status := TCompleted \<rparr>)"
  "read_task demo_store ''2'' = Some ((blank_task ''2'')\<lparr> t_depends_on := Some [''1''] \<rparr>)"
  "read_task demo_store ''3'' = Some ((blank_task ''3'')\<lparr> t_status := TInProgress, t_owner := Some ''w1'',
                        t_claim := Some (new_claim ''w1'' ''k0'' 0) \<rparr>)"
  by (simp_all add: read_task_def demo_store_def safe_demo) (simp_all add: normalize_task_def blank_task_def
      task_deps_def task_version_def normalize_coordination_def)

lemma demo_config: "ts_config demo_store = Some \<lparr> cfg_workers = [\<lparr> w_name = ''w1'', w_working_dir = None \<rparr>,
                                         \<lparr> w_name = ''w2'', w_working_dir = None \<rparr>], cfg_next_task_id = Fin 4 \<rparr>"
  by (simp add: demo_store_def)

lemma demo_ready: "compute_task_readiness demo_store ''2'' = Inr ()"
  by (simp add: compute_task_readiness_def demo_reads task_deps_def)

lemma demo_idle: "clear_stale_claim ((blank_task ''2'')\<lparr> t_depends_on := Some [''1''] \<rparr>) ''w2'' 1000 =
   Some ((blank_task ''2'')\<lparr> t_depends_on := Some [''1''], t_claim := None, t_owner := None \<rparr>)"
  by (simp add: clear_stale_claim_def drop_idle_claim_def reset_in_progress_def blank_task_def)

subsection \<open>Facts the properties share\<close>

lemma new_claim_lease:
  "valid_time (now + lease_ms) \<Longrightarrow> date_parse (c_leased_until (new_claim w k now)) = Some (now + lease_ms)"
  by (simp add: new_claim_def date_parse_iso)

lemma holds_claim_token: "holds_claim v k \<Longrightarrow> \<exists>c. t_claim v = Some c \<and> c_token c = k"
  by (auto simp: holds_claim_def split: option.splits)

lemma is_claim_lease_expired_at:
  "date_parse (c_leased_until c) = Some e \<Longrightarrow> is_claim_lease_expired (Some c) now \<longleftrightarrow> e \<le> now"
  by (auto simp: is_claim_lease_expired_def)

lemma ready_deps:
  "compute_task_readiness s i = Inr () \<Longrightarrow> read_task s i = Some v \<Longrightarrow> d \<in> set (task_deps v) \<Longrightarrow>
     \<exists>u. read_task s d = Some u \<and> t_status u = TCompleted"
  by (auto simp: compute_task_readiness_def Let_def filter_empty_conv map_option_case
      split: if_splits option.splits)

subsection \<open>Properties\<close>



text \<open>C23. A granted claim: all dependencies were completed, the worker belongs to the team, the
  expected version was the stored one, the task is now in progress under a claim of the worker
  with the given token for fifteen minutes, its version has grown by one, and no other task
  has changed.\<close>

theorem claim_grants:
  assumes "claim_task i worker expected ok token now s = (Inr (t, k), s')"
    and "valid_time (now + lease_ms)"
  shows "(\<forall>d \<in> set (task_deps t). \<exists>u. read_task s d = Some u \<and> t_status u = TCompleted)
    \<and> (\<exists>cfg. ts_config s = Some cfg \<and> worker \<in> w_name ` set (cfg_workers cfg))
    \<and> (\<exists>v. read_task s i = Some v \<and> (expected = None \<or> t_version v = expected)
           \<and> \<not> is_terminal_task_status (t_status v) \<and> t_version t = Some (task_version v + 1))
    \<and> read_task s' i = Some (normalize_task t) \<and> t_status t = TInProgress \<and> t_owner t = Some worker
    \<and> (\<exists>c. t_claim t = Some c \<and> c_token c = token \<and> c_owner c = worker
           \<and> date_parse (c_leased_until c) = Some (now + lease_ms))
    \<and> (\<forall>j. j \<noteq> i \<longrightarrow> read_task s' j = read_task s j)"
proof -
  obtain v v' cfg where v: "read_task s i = Some v" and ready: "compute_task_readiness s i = Inr ()"
    and ex: "expected = None \<or> t_version v = expected" and cfg: "ts_config s = Some cfg"
    and w: "worker \<in> w_name ` set (cfg_workers cfg)" and nt: "\<not> is_terminal_task_status (t_status v)"
    and cl: "clear_stale_claim v worker now = Some v'" and t: "t = claimed_task v' worker token now"
    and s': "s' = write_task i t s"
    using claim_task_Inr [OF assms(1)] by blast
  note fr = clear_stale_claim_frame [OF cl]
  have "\<forall>d \<in> set (task_deps t). \<exists>u. read_task s d = Some u \<and> t_status u = TCompleted"
    using ready_deps [OF ready v] fr by (simp add: t)
  moreover have "t_version t = Some (task_version v + 1)" using fr by (simp add: t claimed_task_def)
  moreover have "read_task s' i = Some (normalize_task t)"
    using read_task_safe [OF v] by (simp add: s' read_write_same)
  moreover have "\<exists>c. t_claim t = Some c \<and> c_token c = token \<and> c_owner c = worker
           \<and> date_parse (c_leased_until c) = Some (now + lease_ms)"
    using new_claim_lease [OF assms(2)] by (simp add: t new_claim_def)
  moreover have "t_status t = TInProgress" "t_owner t = Some worker" by (simp_all add: t)
  moreover have "\<forall>j. j \<noteq> i \<longrightarrow> read_task s' j = read_task s j" by (simp add: s')
  ultimately show ?thesis using v ex cfg w nt by blast
qed

theorem claim_grants_witness:
  "\<exists>t s'. claim_task ''2'' ''w2'' (Some 1) True ''k'' 1000 demo_store = (Inr (t, ''k''), s')
     \<and> t_owner t = Some ''w2'' \<and> read_task s' ''3'' = read_task demo_store ''3''"
proof -
  have "\<exists>t s'. claim_task ''2'' ''w2'' (Some 1) True ''k'' 1000 demo_store = (Inr (t, ''k''), s')"
    by (simp add: claim_task_def demo_reads demo_ready demo_config demo_idle Let_def) (simp add: blank_task_def)
  then obtain t s' where c: "claim_task ''2'' ''w2'' (Some 1) True ''k'' 1000 demo_store = (Inr (t, ''k''), s')"
    by blast
  have "valid_time (1000 + lease_ms)" by (simp add: valid_time_def lease_ms_def epoch_days_def ms_per_day_def)
  from claim_grants [OF c this]
  have "t_owner t = Some ''w2''" "read_task s' ''3'' = read_task demo_store ''3''" by simp_all
  with c show ?thesis by blast
qed

text \<open>Versions protect against lost updates: the version of a task never falls along a run
  of any operations, an equal version means an unchanged task, and so a claim that expects the
  version read before the run is refused when the task has changed since.\<close>

theorem stale_version_refused:
  assumes "read_task s i = Some v" "s' = run_ops env ops s" "read_task s' i \<noteq> Some v"
  shows "(\<exists>w. read_task s' i = Some w \<and> task_version v < task_version w)
    \<and> (\<exists>e. claim_task i worker (Some (task_version v)) ok token now s' = (Inl e, s'))"
proof -
  obtain w where w: "read_task s' i = Some w" "task_version v \<le> task_version w"
      "task_version w = task_version v \<longrightarrow> w = v"
    using run_ops_version [OF assms(1), of env ops] assms(2) by blast
  then have less: "task_version v < task_version w" using assms(3) by force
  moreover have "\<exists>e. claim_task i worker (Some (task_version v)) ok token now s' = (Inl e, s')"
  proof (cases "claim_task i worker (Some (task_version v)) ok token now s'")
    case (Pair r s'')
    then show ?thesis
    proof (cases r)
      case (Inl e)
      then show ?thesis using Pair claim_task_Inl by blast
    next
      case (Inr tk)
      then have "t_version w = Some (task_version v)"
        using Pair w(1) claim_task_Inr [of i worker _ ok token now s' "fst tk" "snd tk" s''] by auto
      then show ?thesis using less read_task_version [OF w(1)] by simp
    qed
  qed
  ultimately show ?thesis using w(1) by blast
qed

theorem stale_version_refused_witness:
  "\<exists>s'. s' = run_ops demo_env [(OpReclaim ''3'', True, 1000000)] demo_store
      \<and> (\<exists>e. claim_task ''3'' ''w2'' (Some 1) True ''k'' 1000001 s' = (Inl e, s'))"
proof -
  let ?v = "(blank_task ''3'')\<lparr> t_status := TInProgress, t_owner := Some ''w1'',
                        t_claim := Some (new_claim ''w1'' ''k0'' 0) \<rparr>"
  let ?s = "run_ops demo_env [(OpReclaim ''3'', True, 1000000)] demo_store"
  have "valid_time (0 + lease_ms)" by (simp add: valid_time_def lease_ms_def epoch_days_def ms_per_day_def)
  then have "is_claim_lease_expired (t_claim ?v) 1000000"
    using is_claim_lease_expired_at [OF new_claim_lease [of 0 "''w1''" "''k0''"], of 1000000]
    by (simp add: lease_ms_def)
  then have "reclaim_expired_task_claim ''3'' True 1000000 demo_store
      = (Inr (unclaimed ?v, True), write_task ''3'' (unclaimed ?v) demo_store)"
    by (simp add: reclaim_expired_task_claim_def demo_reads safe_demo)
  then have "read_task ?s ''3'' = Some (normalize_task (unclaimed ?v))"
    by (simp add: run_ops_Cons read_write_same safe_demo)
  moreover have "task_version (normalize_task (unclaimed ?v)) \<noteq> task_version ?v" by simp
  ultimately have "read_task ?s ''3'' \<noteq> Some ?v" by force
  moreover have "task_version ?v = 1" by (simp add: task_version_def blank_task_def)
  ultimately show ?thesis
    using stale_version_refused [OF demo_reads(3) refl, of demo_env "[(OpReclaim ''3'', True, 1000000)]" "''w2''" True "''k''" 1000001]
    by simp
qed

text \<open>C24. A finished task stays finished: no sequence of claims, transitions, releases,
  reclaims and creations, at any times and with any tokens, changes a completed or failed task,
  and no claim, release or reclaim of it succeeds.\<close>

theorem finished_stays:
  assumes "read_task s i = Some v" "is_terminal_task_status (t_status v)"
    and "\<forall>(p, ok, now) \<in> set ops. \<not> is_update p"
  shows "read_task (run_ops env ops s) i = Some v
    \<and> (\<exists>e. claim_task i w ex ok k now s = (Inl e, s))
    \<and> (ok \<longrightarrow> fst (release_task_claim i k ok now s) = Inl AlreadyTerminal
            \<and> fst (reclaim_expired_task_claim i ok now s) = Inl AlreadyTerminal)"
proof (intro conjI impI)
  show "read_task (run_ops env ops s) i = Some v"
    using assms(1) by (rule run_ops_keeps) (use assms(2,3) in \<open>auto simp: may_change_def\<close>)
  show "(\<exists>e. claim_task i w ex ok k now s = (Inl e, s))"
  proof (cases "claim_task i w ex ok k now s")
    case (Pair r s')
    then show ?thesis
      using claim_task_Inr [of i w ex ok k now s "fst (projr r)" "snd (projr r)" s'] claim_task_Inl assms(1,2)
      by (cases r) fastforce+
  qed
  have safe: "task_id_safe i" using read_task_safe [OF assms(1)] by simp
  assume ok
  then show "fst (release_task_claim i k ok now s) = Inl AlreadyTerminal"
    using assms(1,2) safe by (auto simp: release_task_claim_def is_terminal_task_status_def)
  show "fst (reclaim_expired_task_claim i ok now s) = Inl AlreadyTerminal"
    using \<open>ok\<close> assms(1,2) safe by (auto simp: reclaim_expired_task_claim_def is_terminal_task_status_def)
qed

theorem finished_stays_witness:
  "read_task (run_ops demo_env [(OpClaim ''1'' ''w1'' None ''k'', True, 5), (OpRelease ''1'' ''k'', True, 6)]
      demo_store) ''1'' = read_task demo_store ''1''"
  using finished_stays [OF demo_reads(1), of "[(OpClaim ''1'' ''w1'' None ''k'', True, 5), (OpRelease ''1'' ''k'', True, 6)]" demo_env]
  by (simp add: demo_reads(1))



text \<open>A new task gets an identifier no file of the board has, starts at version 1, leaves
  every other task alone, and the counter moves past its number.\<close>

theorem created_task_fresh:
  assumes "create_task task now s = (Inr v, s')"
  shows "t_id v \<notin> fst ` set (ts_tasks s) \<and> t_version v = Some 1
    \<and> read_task s' (t_id v) = Some v
    \<and> (\<forall>j. j \<noteq> t_id v \<longrightarrow> read_task s' j = read_task s j)
    \<and> (\<exists>cfg. ts_config s' = Some cfg
           \<and> normalize_next_task_id (cfg_next_task_id cfg) = int (nat_of_digits 0 (t_id v)) + 1)"
  using assms
proof (cases rule: create_task_cases)
  case (error e)
  then show ?thesis by simp
next
  case (created config w)
  let ?n = "next_task_number config s"
  have "1 \<le> ?n" using next_task_number_ge [of s config] next_task_id_from_disk_pos [of s] by simp
  then have "normalize_next_task_id (Fin (rat_of_int (?n + 1))) = int (nat_of_digits 0 (t_id w)) + 1"
    unfolding created(4) string_of_next by (simp add: normalize_next_task_id_def nat_of_digits_string_of_nat)
  with created next_task_fresh [of config s] show ?thesis
    by (simp add: frame_simps read_write_same)
qed

theorem created_task_fresh_witness:
  "\<exists>v s'. create_task (blank_task []) 0 demo_store = (Inr v, s') \<and> t_id v \<notin> {''1'', ''2'', ''3''}"
proof -
  let ?c = "\<lparr> cfg_workers = [\<lparr> w_name = ''w1'', w_working_dir = None \<rparr>,
                             \<lparr> w_name = ''w2'', w_working_dir = None \<rparr>], cfg_next_task_id = Fin 4 \<rparr>"
  have "next_task_id_from_disk demo_store = 4"
    by (simp add: next_task_id_from_disk_def demo_store_def is_digit_def digit_val_def)
  then have "next_task_number ?c demo_store = int 4"
    by (simp add: next_task_number_def normalize_next_task_id_def has_valid_next_task_id_def)
  then have "task_id_safe (string_of_int (next_task_number ?c demo_store))"
    using digit_chars_safe [of 4] by (simp add: string_of_int_def)
  then obtain v s' where c: "create_task (blank_task []) 0 demo_store = (Inr v, s')"
    by (simp add: create_task_def demo_config creation_blocked_def Let_def demo_store_def)
  from created_task_fresh [OF c] have "t_id v \<notin> fst ` set (ts_tasks demo_store)" by blast
  with c show ?thesis by (auto simp: demo_store_def)
qed

text \<open>The list of tasks holds exactly the valid files whose name is the identifier inside,
  each normalised, once, in the order of their numbers.\<close>

theorem list_tasks_correct:
  assumes "distinct (map fst (ts_tasks s))"
  shows "sorted (map (\<lambda>v. nat_of_digits 0 (t_id v)) (list_tasks s))
    \<and> distinct (map t_id (list_tasks s))
    \<and> (\<forall>v. v \<in> set (list_tasks s) \<longleftrightarrow>
         file_number (t_id v) \<noteq> None
         \<and> (\<exists>w. map_of (ts_tasks s) (t_id v) = Some (Some w) \<and> v = normalize_task w))"
proof -
  define f where "f = (\<lambda>(i, g). if i \<noteq> [] \<and> list_all is_digit i
                                 then (case g of
                                         None \<Rightarrow> None
                                       | Some task \<Rightarrow> (let n = normalize_task task
                                                       in if t_id n \<noteq> i then None else Some n))
                                 else None)"
  have l: "list_tasks s = sort_by (\<lambda>a b. nat_of_digits 0 (t_id a) < nat_of_digits 0 (t_id b))
      (List.map_filter f (ts_tasks s))"
    by (simp add: list_tasks_def f_def List.map_filter_def comp_def filter_map)
  have f_id: "f a = Some v \<Longrightarrow> t_id v = fst a" for a v
    by (auto simp: f_def Let_def split: prod.splits option.splits if_splits)
  have d: "distinct (map t_id (List.map_filter f xs)) \<and> t_id ` set (List.map_filter f xs) \<subseteq> fst ` set xs"
    if "distinct (map fst xs)" for xs
    using that
  proof (induction xs)
    case Nil
    then show ?case by (simp add: List.map_filter_def)
  next
    case (Cons a xs)
    then show ?case using f_id [of a] by (cases "f a") (auto simp: map_filter_simps)
  qed
  have dist: "distinct (map t_id (sort_by lt xs))" if "distinct (map t_id xs)" for lt and xs :: "team_task list"
  proof -
    have "inj_on t_id (set xs)" "distinct xs" using that by (auto simp: distinct_map)
    then show ?thesis by (simp add: distinct_map)
  qed
  have mem: "v \<in> set (list_tasks s) \<longleftrightarrow> (\<exists>a \<in> set (ts_tasks s). f a = Some v)" for v
    by (auto simp: l List.map_filter_def image_iff) (metis option.sel option.distinct(1))
  have "v \<in> set (list_tasks s) \<longleftrightarrow> file_number (t_id v) \<noteq> None
         \<and> (\<exists>w. map_of (ts_tasks s) (t_id v) = Some (Some w) \<and> v = normalize_task w)" for v
  proof -
    have fa: "f a = Some v \<longleftrightarrow> file_number (fst a) \<noteq> None \<and> t_id v = fst a
        \<and> (\<exists>w. snd a = Some w \<and> v = normalize_task w)" for a
      by (cases a) (auto simp: f_def Let_def file_number_def split: option.splits)
    have "v \<in> set (list_tasks s) \<longleftrightarrow> (\<exists>a \<in> set (ts_tasks s).
        file_number (fst a) \<noteq> None \<and> t_id v = fst a \<and> (\<exists>w. snd a = Some w \<and> v = normalize_task w))"
      unfolding mem fa ..
    also have "\<dots> \<longleftrightarrow> file_number (t_id v) \<noteq> None
        \<and> (\<exists>w. (t_id v, Some w) \<in> set (ts_tasks s) \<and> v = normalize_task w)"
      by (metis fst_conv snd_conv prod.collapse)
    finally show ?thesis unfolding map_of_eq_Some_iff [OF assms] .
  qed
  then show ?thesis
    using d [OF assms] sorted_sort_by_key [of "\<lambda>v. nat_of_digits 0 (t_id v)"] dist l by metis
qed

theorem list_tasks_correct_witness: "sorted (map (\<lambda>v. nat_of_digits 0 (t_id v)) (list_tasks demo_store))"
  using list_tasks_correct [of demo_store] by (simp add: demo_store_def)

text \<open>C25. A lapsed task is never lost: once the lease of a task in progress has run out, any
  worker of the team can claim it in one step when its dependencies are complete, and a
  reclaim returns it to pending without an owner.\<close>

theorem lapsed_task_recovered:
  assumes "read_task s i = Some v" "t_status v = TInProgress" "t_claim v = Some c"
    and "date_parse (c_leased_until c) = Some e" "e \<le> now"
    and "ts_config s = Some cfg" "worker \<in> w_name ` set (cfg_workers cfg)"
    and "compute_task_readiness s i = Inr ()"
  shows "(\<exists>t s'. claim_task i worker None True k now s = (Inr (t, k), s')
            \<and> t_owner t = Some worker \<and> task_version t = task_version v + 1)
    \<and> reclaim_expired_task_claim i True now s = (Inr (unclaimed v, True), write_task i (unclaimed v) s)"
proof -
  have ex: "is_claim_lease_expired (t_claim v) now"
    using is_claim_lease_expired_at [OF assms(4)] assms(3,5) by simp
  have known: "list_ex (\<lambda>w. w_name w = worker) (cfg_workers cfg)"
    using assms(7) by (auto simp: list_ex_iff)
  have "\<exists>v'. clear_stale_claim v worker now = Some v'"
    using ex assms(2) by (simp add: clear_stale_claim_def drop_idle_claim_def reset_in_progress_def)
  then obtain v' where v': "clear_stale_claim v worker now = Some v'" by blast
  have "claim_task i worker None True k now s
      = (Inr (claimed_task v' worker k now, k), write_task i (claimed_task v' worker k now) s)"
    using assms(1,2,6,8) known v' by (simp add: claim_task_def Let_def)
  moreover have "task_version v' = task_version v" using clear_stale_claim_frame [OF v'] by simp
  ultimately show ?thesis
    using assms(1-3) ex read_task_safe [OF assms(1)] by (simp add: reclaim_expired_task_claim_def)
qed

theorem lapsed_task_recovered_witness:
  "\<exists>t s'. claim_task ''3'' ''w2'' None True ''k'' lease_ms demo_store = (Inr (t, ''k''), s')"
proof -
  have "valid_time (0 + lease_ms)" by (simp add: valid_time_def lease_ms_def epoch_days_def ms_per_day_def)
  note lease = new_claim_lease [OF this, of "''w1''" "''k0''"]
  have "compute_task_readiness demo_store ''3'' = Inr ()"
    by (simp add: compute_task_readiness_def demo_reads)
  from lapsed_task_recovered [OF demo_reads(3) _ _ lease _ demo_config _ this, of lease_ms "''w2''" "''k''"]
  show ?thesis by auto
qed

text \<open>A task that is put in progress by a plain update, without a claim, can no longer be
  moved by the claim protocol: at any time and with any token, claims, transitions, releases,
  reclaims and creations leave it as it is, and a reclaim reports success without effect.\<close>

theorem unclaimed_progress_stuck:
  assumes "update_task i (no_updates\<lparr> u_status := Some ''in_progress'' \<rparr>) True s = (Inr (Some v), s')"
    and "t_claim v = None" and "\<forall>(p, ok, now) \<in> set ops. \<not> is_update p"
  shows "read_task (run_ops env ops s') i = Some v \<and> t_status v = TInProgress
    \<and> reclaim_expired_task_claim i True now s' = (Inr (v, False), s')"
proof -
  let ?u = "no_updates\<lparr> u_status := Some ''in_progress'' \<rparr>"
  have st: "task_status_of ''in_progress'' = Some TInProgress"
    using task_status_of_name [of TInProgress] by simp
  obtain w where w: "read_task s i = Some w" "task_id_safe i" and v: "v = normalize_task (merge_updates ?u (Some TInProgress) w)"
    and s': "s' = write_task i v s"
    using assms(1) by (auto simp: update_task_def Let_def st split: option.splits if_splits)
  have rd: "read_task s' i = Some v" using w by (simp add: s' read_write_same v)
  have ip: "t_status v = TInProgress" by (simp add: v merge_updates_def given_def)
  have "read_task (run_ops env ops s') i = Some v"
    using rd by (rule run_ops_keeps)
      (use assms(2,3) ip holds_claim_token [of v] in \<open>auto simp: may_change_def is_claim_lease_expired_def\<close>)
  then show ?thesis using rd ip assms(2) w(2) by (simp add: reclaim_expired_task_claim_def)
qed

theorem unclaimed_progress_stuck_witness:
  "\<exists>v s'. update_task ''2'' (no_updates\<lparr> u_status := Some ''in_progress'' \<rparr>) True demo_store = (Inr (Some v), s')
     \<and> read_task (run_ops demo_env [(OpClaim ''2'' ''w1'' None ''k'', True, 10 ^ 12)] s') ''2'' = Some v"
proof -
  have st: "task_status_of ''in_progress'' = Some TInProgress"
    using task_status_of_name [of TInProgress] by simp
  obtain v s' where c: "update_task ''2'' (no_updates\<lparr> u_status := Some ''in_progress'' \<rparr>) True demo_store = (Inr (Some v), s')"
    and n: "t_claim v = None"
    by (simp add: update_task_def safe_demo demo_reads update_guard_def st no_updates_def Let_def
        merge_updates_def given_def blank_task_def)
  from unclaimed_progress_stuck [OF c n] c show ?thesis by force
qed

end
