(* ===== verification/TeamAllocation.thy ===== *)
theory TeamAllocation
  imports TeamTasks
begin

text \<open>
  Which worker gets a task: the scoring of \<open>src/team/allocation-policy.ts\<close> and the pickup of
  ready work by idle workers of \<open>src/team/rebalance-policy.ts\<close>. A \<open>Set\<close> of hints is the list
  of its elements in insertion order, without duplicates. Task identifiers are decimal
  numerals.
\<close>

subsection \<open>Hints\<close>

record alloc_task =
  at_subject :: string
  at_description :: string
  at_role :: "string option"
  at_blocked_by :: "string list option"
  at_file_paths :: "string list option"
  at_domains :: "string list option"

record alloc_worker =
  aw_name :: string
  aw_role :: "string option"

record alloc_decision =
  ad_owner :: string
  ad_reason :: string

record assignment =
  as_owner :: string
  as_role :: "string option"
  as_subject :: "string option"
  as_description :: "string option"
  as_file_paths :: "string list option"
  as_domains :: "string list option"

record worker_state =
  ws_worker :: alloc_worker
  ws_assigned_count :: int
  ws_primary_role :: "string option"
  ws_scope_hints :: "string list"

definition source_roots :: "string list" where
  "source_roots = [''src'', ''scripts'', ''docs'', ''prompts'', ''skills'', ''templates'', ''native'', ''crates'']"

definition domain_stop_words :: "string list" where
  "domain_stop_words =
     [''a'', ''an'', ''and'', ''the'', ''for'', ''with'', ''into'', ''from'', ''then'', ''than'', ''that'',
      ''this'', ''those'', ''these'', ''work'', ''task'', ''tasks'', ''implement'', ''implementation'',
      ''continue'', ''additional'', ''update'', ''fix'', ''lane'', ''runtime'', ''tests'', ''test'',
      ''worker'', ''workers'', ''leader'', ''team'', ''plan'', ''approved'', ''supporting'', ''needed'',
      ''focus'', ''prefer'', ''plus'', ''related'', ''files'', ''file'', ''code'', ''notify'', ''src'',
      ''scripts'', ''docs'', ''prompts'', ''skills'', ''templates'', ''native'', ''crates'', ''index'', ''spec'']"

definition is_path_char :: "char \<Rightarrow> bool" where
  "is_path_char c \<longleftrightarrow> is_word_char c \<or> c = CHR ''.'' \<or> c = CHR ''/'' \<or> c = CHR ''-''"

text \<open>The file paths of a text, \<open>FILE_PATH_PATTERN\<close>.\<close>

definition file_paths_of :: "string \<Rightarrow> string list" where
  "file_paths_of text =
     all_captures
       (Alt Bos (Cls (\<lambda>c. js_ws c \<or> c = CHR ''('' \<or> c = CHR 0x22 \<or> c = CHR 0x27)))
       (rx_seq [rx_words source_roots, rx_lit ''/'', rx_plus (Cls is_path_char)])
       Eps text"

definition domain_words :: "string \<Rightarrow> string list" where
  "domain_words text =
     (let lower = (\<lambda>c. 97 \<le> (of_char c :: nat) \<and> of_char c \<le> (122 :: nat));
          tail = Cls (\<lambda>c. lower c \<or> is_digit c \<or> c = CHR ''_'' \<or> c = CHR ''-'')
      in rx_matches (rx_seq [Cls lower, tail, tail, Star tail]) (js_lower text))"

definition normalize_hint :: "string \<Rightarrow> string option" where
  "normalize_hint value = (let n = js_lower (js_trim value) in if 3 \<le> length n then Some n else None)"

text \<open>\<open>replace(/\.[^.]+$/, '')\<close>: the name without its last extension.\<close>

definition strip_extension :: "string \<Rightarrow> string" where
  "strip_extension s =
     (let r = rev s; ext = takeWhile (\<lambda>c. c \<noteq> CHR ''.'') r; rest = dropWhile (\<lambda>c. c \<noteq> CHR ''.'') r
      in if ext = [] \<or> rest = [] then s else rev (tl rest))"

definition add_hint :: "string \<Rightarrow> string list \<Rightarrow> string list" where
  "add_hint h hs = (if h \<in> set hs then hs else hs @ [h])"

definition collect_path_hints :: "string \<Rightarrow> string list \<Rightarrow> string list" where
  "collect_path_hints p hs =
     (case normalize_hint (dropWhile (\<lambda>c. c = CHR ''.'' \<or> c = CHR ''/'') p) of
        None \<Rightarrow> hs
      | Some np \<Rightarrow>
          (let hs1 = add_hint (''path:'' @ np) hs; basename = last (js_split CHR ''/'' np)
           in case normalize_hint (strip_extension basename) of
                None \<Rightarrow> hs1
              | Some stem \<Rightarrow> add_hint (''domain:'' @ stem) hs1))"

definition collect_domain_hints :: "string \<Rightarrow> string list \<Rightarrow> string list" where
  "collect_domain_hints value hs =
     fold (\<lambda>w hs. if w \<in> set domain_stop_words then hs else add_hint (''domain:'' @ w) hs) (domain_words value) hs"

definition or_empty :: "'a list option \<Rightarrow> 'a list" where
  "or_empty x = (case x of None \<Rightarrow> [] | Some xs \<Rightarrow> xs)"

definition extract_task_hints :: "alloc_task \<Rightarrow> string list" where
  "extract_task_hints task =
     (let h1 = fold collect_path_hints (or_empty (at_file_paths task)) [];
          h2 = fold collect_domain_hints (or_empty (at_domains task)) h1;
          text = at_subject task @ [CHR 10] @ at_description task;
          h3 = fold (\<lambda>p hs. if p = [] then hs else collect_path_hints p hs) (file_paths_of text) h2
      in collect_domain_hints text h3)"

definition count_hint_overlap :: "string list \<Rightarrow> string list \<Rightarrow> int" where
  "count_hint_overlap task_hints worker_hints =
     sum_list (map (\<lambda>h. if h \<in> set worker_hints then (if js_starts_with h ''path:'' then 3 else 1) else 0) task_hints)"

subsection \<open>Scoring and choosing\<close>

definition score_worker :: "alloc_task \<Rightarrow> worker_state \<Rightarrow> string list \<Rightarrow> bool \<Rightarrow> int" where
  "score_worker task w task_hints uniform =
     (let task_role = map_option js_trim (at_role task);
          worker_role = map_option js_trim (aw_role (ws_worker w));
          s1 = (if uniform then 0
                else (if truthy_str task_role \<and> ws_primary_role w = task_role then 18 else 0)
                   + (if truthy_str task_role \<and> worker_role = task_role then 12 else 0)
                   + (if truthy_str task_role \<and> \<not> truthy_str (ws_primary_role w) \<and> ws_assigned_count w = 0 then 9 else 0));
          overlap = count_hint_overlap task_hints (ws_scope_hints w);
          s2 = (if overlap > 0 then s1 + overlap * 4 else s1);
          s3 = (if task_hints \<noteq> [] \<and> overlap = 0 \<and> ws_scope_hints w \<noteq> [] then s2 - 3 else s2);
          s4 = s3 - ws_assigned_count w * 4
      in if or_empty (at_blocked_by task) \<noteq> [] then s4 - ws_assigned_count w else s4)"

definition assignment_hints :: "assignment \<Rightarrow> string list" where
  "assignment_hints a =
     extract_task_hints
       \<lparr> at_subject = or_empty (as_subject a), at_description = or_empty (as_description a),
         at_role = as_role a, at_blocked_by = None, at_file_paths = as_file_paths a, at_domains = as_domains a \<rparr>"

definition worker_state_of :: "assignment list \<Rightarrow> alloc_worker \<Rightarrow> worker_state" where
  "worker_state_of current w =
     (let assigned = filter (\<lambda>a. as_owner a = aw_name w) current
      in \<lparr> ws_worker = w, ws_assigned_count = int (length assigned),
           ws_primary_role = Option.bind (List.find (\<lambda>a. truthy_str (as_role a)) assigned) as_role,
           ws_scope_hints = fold (\<lambda>a hs. fold add_hint (assignment_hints a) hs) assigned [] \<rparr>)"

definition uniform_role_pool :: "alloc_task \<Rightarrow> worker_state list \<Rightarrow> bool" where
  "uniform_role_pool task ws \<longleftrightarrow>
     truthy_str (map_option js_trim (at_role task)) \<and> ws \<noteq> []
     \<and> list_all (\<lambda>w. map_option js_trim (aw_role (ws_worker w)) = map_option js_trim (at_role task)) ws"

type_synonym candidate = "worker_state \<times> nat \<times> int \<times> int"  \<comment> \<open>worker, index, score, overlap\<close>

fun better_candidate :: "candidate \<Rightarrow> candidate \<Rightarrow> bool" where
  "better_candidate (w, i, score, overlap) (w', i', score', overlap') =
     (if score' \<noteq> score then score' < score
      else if overlap' \<noteq> overlap then overlap' < overlap
      else if ws_assigned_count w \<noteq> ws_assigned_count w' then ws_assigned_count w < ws_assigned_count w'
      else i < i')"

definition candidates :: "alloc_task \<Rightarrow> alloc_worker list \<Rightarrow> assignment list \<Rightarrow> candidate list" where
  "candidates task workers current =
     (let hints = extract_task_hints task; ws = map (worker_state_of current) workers;
          uniform = uniform_role_pool task ws
      in map (\<lambda>(i, w). (w, i, score_worker task w hints uniform, count_hint_overlap hints (ws_scope_hints w)))
           (enumerate 0 ws))"

definition allocation_reason :: "alloc_task \<Rightarrow> worker_state \<Rightarrow> int \<Rightarrow> string" where
  "allocation_reason task selected overlap =
     js_join ''; ''
       ((if truthy_str (at_role task) \<and> ws_primary_role selected = at_role task
         then [''keeps '' @ the (at_role task) @ '' work grouped'']
         else if truthy_str (at_role task) \<and> aw_role (ws_worker selected) = at_role task
         then [''matches worker role '' @ the (aw_role (ws_worker selected))]
         else [''balances current load'']) @
        (if overlap > 0 then [''preserves low-overlap file/domain ownership''] else []) @
        (if or_empty (at_blocked_by task) \<noteq> [] then [''keeps blocked work on a lighter lane''] else []))"

definition choose_task_owner :: "alloc_task \<Rightarrow> alloc_worker list \<Rightarrow> assignment list \<Rightarrow> alloc_decision option" where
  "choose_task_owner task workers current =
     (if workers = [] then None
      else (case sort_by better_candidate (candidates task workers current) of
              [] \<Rightarrow> None
            | (w, i, score, overlap) # _ \<Rightarrow>
                Some \<lparr> ad_owner = aw_name (ws_worker w), ad_reason = allocation_reason task w overlap \<rparr>))"

definition assignment_of :: "alloc_task \<Rightarrow> string \<Rightarrow> assignment" where
  "assignment_of task owner =
     \<lparr> as_owner = owner, as_role = at_role task, as_subject = Some (at_subject task),
       as_description = Some (at_description task), as_file_paths = at_file_paths task, as_domains = at_domains task \<rparr>"

text \<open>\<open>None\<close> is the error thrown when there is no worker.\<close>

fun allocate_from :: "(alloc_task \<times> alloc_decision) list \<Rightarrow> alloc_task list \<Rightarrow> alloc_worker list
    \<Rightarrow> (alloc_task \<times> alloc_decision) list option" where
  "allocate_from acc [] workers = Some acc"
| "allocate_from acc (task # tasks) workers =
     (case choose_task_owner task workers (map (\<lambda>(t, d). assignment_of t (ad_owner d)) acc) of
        None \<Rightarrow> None
      | Some d \<Rightarrow> allocate_from (acc @ [(task, d)]) tasks workers)"

definition allocate_tasks_to_workers ::
    "alloc_task list \<Rightarrow> alloc_worker list \<Rightarrow> (alloc_task \<times> alloc_decision) list option" where
  "allocate_tasks_to_workers tasks workers = allocate_from [] tasks workers"

subsection \<open>Rebalancing\<close>

datatype worker_activity = WIdle | WWorking | WBlocked | WDone | WFailed | WDraining | WUnknown

record rebalance_worker =
  rw_worker :: alloc_worker
  rw_alive :: bool
  rw_state :: worker_activity

record rebalance_decision =
  rd_task_id :: string
  rd_worker_name :: string
  rd_reason :: string

definition has_completed_dependencies :: "team_task \<Rightarrow> (string \<rightharpoonup> team_task) \<Rightarrow> bool" where
  "has_completed_dependencies task by_id \<longleftrightarrow>
     list_all (\<lambda>i. map_option t_status (by_id i) = Some TCompleted) (task_deps task)"

definition is_worker_available :: "rebalance_worker \<Rightarrow> bool" where
  "is_worker_available w \<longleftrightarrow> rw_alive w \<and> rw_state w \<in> {WIdle, WDone, WUnknown}"

definition tasks_by_id :: "team_task list \<Rightarrow> string \<rightharpoonup> team_task" where
  "tasks_by_id tasks = map_of (rev (map (\<lambda>t. (t_id t, t)) tasks))"

definition pickup_before :: "string list \<Rightarrow> team_task \<Rightarrow> team_task \<Rightarrow> bool" where
  "pickup_before reclaimed a b \<longleftrightarrow>
     (let l = (if t_id a \<in> set reclaimed then 0 else 1 :: nat); r = (if t_id b \<in> set reclaimed then 0 else 1)
      in if l \<noteq> r then l < r else nat_of_digits 0 (t_id a) < nat_of_digits 0 (t_id b))"

definition pickup_queue :: "team_task list \<Rightarrow> string list \<Rightarrow> team_task list" where
  "pickup_queue tasks reclaimed =
     sort_by (pickup_before reclaimed)
       (filter (\<lambda>t. has_completed_dependencies t (tasks_by_id tasks))
         (filter (\<lambda>t. t_status t = TPending \<and> \<not> truthy_str (t_owner t)) tasks))"

definition alloc_of_task :: "team_task \<Rightarrow> alloc_task" where
  "alloc_of_task t =
     \<lparr> at_subject = t_subject t, at_description = t_description t, at_role = t_role t,
       at_blocked_by = t_blocked_by t, at_file_paths = t_file_paths t, at_domains = t_domains t \<rparr>"

definition plain_assignment :: "string \<Rightarrow> string option \<Rightarrow> assignment" where
  "plain_assignment owner role =
     \<lparr> as_owner = owner, as_role = role, as_subject = None, as_description = None,
       as_file_paths = None, as_domains = None \<rparr>"

fun rebalance_loop :: "team_task list \<Rightarrow> alloc_worker list \<Rightarrow> string list \<Rightarrow> assignment list \<Rightarrow> string list
    \<Rightarrow> rebalance_decision list" where
  "rebalance_loop [] live reclaimed in_flight claimed = []"
| "rebalance_loop (task # tasks) live reclaimed in_flight claimed =
     (if t_id task \<in> set claimed then rebalance_loop tasks live reclaimed in_flight claimed
      else (case choose_task_owner (alloc_of_task task) live in_flight of
              None \<Rightarrow> []
            | Some d \<Rightarrow>
                \<lparr> rd_task_id = t_id task, rd_worker_name = ad_owner d,
                  rd_reason = (if t_id task \<in> set reclaimed then ''reclaimed work is ready; '' @ ad_reason d
                               else ''idle worker pickup; '' @ ad_reason d) \<rparr>
                # rebalance_loop tasks live reclaimed (in_flight @ [plain_assignment (ad_owner d) (t_role task)])
                    (t_id task # claimed)))"

definition build_rebalance_decisions ::
    "team_task list \<Rightarrow> rebalance_worker list \<Rightarrow> string list \<Rightarrow> rebalance_decision list" where
  "build_rebalance_decisions tasks workers reclaimed =
     (let live = filter is_worker_available workers
      in if live = [] then []
         else rebalance_loop (pickup_queue tasks reclaimed) (map rw_worker live) reclaimed
                (map (\<lambda>t. plain_assignment (the (t_owner t)) (t_role t))
                   (filter (\<lambda>t. truthy_str (t_owner t) \<and> t_status t = TInProgress) tasks))
                [])"

subsection \<open>The chosen worker\<close>

lemma better_candidate_trans:
  "better_candidate a b \<Longrightarrow> better_candidate b c \<Longrightarrow> better_candidate a c"
  by (cases a; cases b; cases c) (auto split: if_splits)

lemma better_candidate_total:
  "fst (snd a) \<noteq> fst (snd b) \<Longrightarrow> better_candidate a b \<or> better_candidate b a"
  by (cases a; cases b) auto

lemma better_candidate_asym: "better_candidate a b \<Longrightarrow> \<not> better_candidate b a"
  by (cases a; cases b) (auto split: if_splits)

text \<open>The head of a sorted list is beaten by no element, when the comparison is transitive.\<close>

lemma sort_by_hd_best:
  assumes trans: "\<And>a b c. lt a b \<Longrightarrow> lt b c \<Longrightarrow> lt a c" and asym: "\<And>a b. lt a b \<Longrightarrow> \<not> lt b a"
    and conn: "\<And>a b c. \<not> lt b a \<Longrightarrow> \<not> lt c b \<Longrightarrow> \<not> lt c a"
  shows "sort_by lt xs = y # ys \<Longrightarrow> x \<in> set xs \<Longrightarrow> \<not> lt x y"
proof (induction xs arbitrary: x y ys)
  case Nil
  then show ?case by simp
next
  case (Cons z xs)
  show ?case
  proof (cases "sort_by lt xs")
    case Nil
    then have "xs = []" by (metis length_0_conv length_sort_by)
    then show ?thesis using Cons asym by auto
  next
    case (Cons w ws)
    have best: "\<And>v. v \<in> set xs \<Longrightarrow> \<not> lt v w" using Cons.IH [OF Cons] by blast
    show ?thesis
    proof (cases "lt w z")
      case True
      then have "y = w" using Cons.prems(1) Cons by simp
      then show ?thesis using Cons.prems(2) best True asym by auto
    next
      case False
      then have "y = z" using Cons.prems(1) Cons by simp
      then show ?thesis using Cons.prems(2) best False conn asym by (metis set_ConsD)
    qed
  qed
qed

lemma better_candidate_conn:
  "\<not> better_candidate b a \<Longrightarrow> \<not> better_candidate c b \<Longrightarrow> \<not> better_candidate c a"
  by (cases a; cases b; cases c) (auto split: if_splits)

lemma candidates_nonempty: "workers \<noteq> [] \<Longrightarrow> candidates task workers current \<noteq> []"
  by (cases workers) (simp_all add: candidates_def Let_def)

lemma candidates_mem:
  "(w, i, sc, ov) \<in> set (candidates task workers current) \<longleftrightarrow>
     i < length workers \<and> w = worker_state_of current (workers ! i)
     \<and> sc = score_worker task w (extract_task_hints task)
              (uniform_role_pool task (map (worker_state_of current) workers))
     \<and> ov = count_hint_overlap (extract_task_hints task) (ws_scope_hints w)"
proof -
  have "(i, worker_state_of current (workers ! i)) \<in> set (enumerate 0 (map (worker_state_of current) workers))"
    if "i < length workers"
    using that by (simp add: in_set_enumerate_eq)
  then show ?thesis
    unfolding candidates_def Let_def set_map image_iff
    by (auto simp: in_set_enumerate_eq intro!: bexI [of _ "(i, worker_state_of current (workers ! i))"])
qed

lemma choose_task_owner_total: "workers \<noteq> [] \<Longrightarrow> \<exists>d. choose_task_owner task workers current = Some d"
  using candidates_nonempty [of workers task current]
  by (auto simp: choose_task_owner_def split: list.split)
    (metis length_0_conv length_sort_by)

lemma choose_task_owner_best:
  assumes "choose_task_owner task workers current = Some d"
  shows "\<exists>c. c \<in> set (candidates task workers current) \<and> ad_owner d = aw_name (ws_worker (fst c))
           \<and> (\<forall>c' \<in> set (candidates task workers current). \<not> better_candidate c' c)"
proof -
  obtain c cs where s: "sort_by better_candidate (candidates task workers current) = c # cs"
    and d: "ad_owner d = aw_name (ws_worker (fst c))"
    using assms by (auto simp: choose_task_owner_def split: if_splits list.splits prod.splits)
  have "c \<in> set (candidates task workers current)"
    using s by (metis list.set_intros(1) set_sort_by)
  moreover have "\<not> better_candidate c' c" if "c' \<in> set (candidates task workers current)" for c'
    by (rule sort_by_hd_best [where lt = better_candidate, OF _ _ _ s that])
      (use better_candidate_trans better_candidate_asym better_candidate_conn in blast)+
  ultimately show ?thesis using d by blast
qed

lemma ws_worker_state_of [simp]: "ws_worker (worker_state_of current w) = w"
  by (simp add: worker_state_of_def Let_def)

lemma choose_task_owner_member:
  "choose_task_owner task workers current = Some d \<Longrightarrow> ad_owner d \<in> aw_name ` set workers"
  using choose_task_owner_best [of task workers current d]
  by (auto simp: candidates_mem)

subsection \<open>Facts on allocation\<close>

lemma allocate_from_total:
  "workers \<noteq> [] \<Longrightarrow> \<exists>r. allocate_from acc tasks workers = Some r \<and> map fst r = map fst acc @ tasks
     \<and> (\<forall>(t, d) \<in> set r. (t, d) \<in> set acc \<or> ad_owner d \<in> aw_name ` set workers)"
proof (induction tasks arbitrary: acc)
  case Nil
  then show ?case by auto
next
  case (Cons t tasks)
  obtain d where d: "choose_task_owner t workers (map (\<lambda>(t, d). assignment_of t (ad_owner d)) acc) = Some d"
    using choose_task_owner_total [OF Cons.prems] by blast
  obtain r where r: "allocate_from (acc @ [(t, d)]) tasks workers = Some r" "map fst r = map fst (acc @ [(t, d)]) @ tasks"
    "\<forall>(t', d') \<in> set r. (t', d') \<in> set (acc @ [(t, d)]) \<or> ad_owner d' \<in> aw_name ` set workers"
    using Cons.IH [OF Cons.prems, of "acc @ [(t, d)]"] by blast
  then show ?case
    using d choose_task_owner_member [OF d] by (intro exI [of _ r]) fastforce
qed

definition plain_task :: "alloc_task \<Rightarrow> bool" where
  "plain_task t \<longleftrightarrow> extract_task_hints t = [] \<and> \<not> truthy_str (map_option js_trim (at_role t))"

definition owner_count :: "(alloc_task \<times> alloc_decision) list \<Rightarrow> string \<Rightarrow> nat" where
  "owner_count r n = length (filter (\<lambda>(t, d). ad_owner d = n) r)"

lemma assignment_hints_plain: "plain_task t \<Longrightarrow> assignment_hints (assignment_of t owner) = []"
  by (simp add: plain_task_def assignment_hints_def assignment_of_def or_empty_def extract_task_hints_def Let_def)

lemma fold_no_hints: "\<forall>a \<in> set as. assignment_hints a = [] \<Longrightarrow> fold (\<lambda>a hs. fold add_hint (assignment_hints a) hs) as hs = hs"
  by (induction as arbitrary: hs) auto

lemma worker_state_plain:
  assumes "\<forall>(t, d) \<in> set acc. plain_task t"
  defines "current \<equiv> map (\<lambda>(t, d). assignment_of t (ad_owner d)) acc"
  shows "ws_scope_hints (worker_state_of current w) = []"
    and "ws_assigned_count (worker_state_of current w) = int (owner_count acc (aw_name w))"
proof -
  have "\<forall>a \<in> set current. assignment_hints a = []"
    using assms(1) by (auto simp: current_def assignment_hints_plain)
  then show "ws_scope_hints (worker_state_of current w) = []"
    by (simp add: worker_state_of_def Let_def fold_no_hints)
  show "ws_assigned_count (worker_state_of current w) = int (owner_count acc (aw_name w))"
    by (simp add: worker_state_of_def Let_def current_def owner_count_def filter_map comp_def case_prod_beta' assignment_of_def)
qed

lemma score_plain:
  assumes "plain_task t" "ws_scope_hints w = []"
  shows "score_worker t w (extract_task_hints t) u =
    - (if or_empty (at_blocked_by t) \<noteq> [] then 5 else 4) * ws_assigned_count w"
  using assms by (simp add: score_worker_def plain_task_def count_hint_overlap_def Let_def)

lemma choose_plain_least:
  assumes t: "plain_task t" and acc: "\<forall>(t, d) \<in> set acc. plain_task t"
    and c: "choose_task_owner t workers (map (\<lambda>(t, d). assignment_of t (ad_owner d)) acc) = Some d"
    and w: "w \<in> set workers"
  shows "owner_count acc (ad_owner d) \<le> owner_count acc (aw_name w)"
proof -
  let ?cur = "map (\<lambda>(t, d). assignment_of t (ad_owner d)) acc"
  let ?sc = "\<lambda>w. score_worker t (worker_state_of ?cur w) (extract_task_hints t)
      (uniform_role_pool t (map (worker_state_of ?cur) workers))"
  obtain cand where cand: "cand \<in> set (candidates t workers ?cur)" "ad_owner d = aw_name (ws_worker (fst cand))"
    and best: "\<forall>c' \<in> set (candidates t workers ?cur). \<not> better_candidate c' cand"
    using choose_task_owner_best [OF c] by blast
  obtain i where i: "i < length workers" "cand = (worker_state_of ?cur (workers ! i), i, ?sc (workers ! i),
      count_hint_overlap (extract_task_hints t) (ws_scope_hints (worker_state_of ?cur (workers ! i))))"
  proof -
    obtain w' i' sc' ov' where q: "cand = (w', i', sc', ov')" by (rule prod_cases4)
    show ?thesis using cand(1) that unfolding q candidates_mem by blast
  qed
  obtain j where j: "j < length workers" "w = workers ! j" using w by (auto simp: in_set_conv_nth)
  have "(worker_state_of ?cur w, j, ?sc w,
      count_hint_overlap (extract_task_hints t) (ws_scope_hints (worker_state_of ?cur w))) \<in> set (candidates t workers ?cur)"
    using j by (simp add: candidates_mem)
  with best have "\<not> ?sc (workers ! i) < ?sc w" unfolding i(2) by fastforce
  then show ?thesis
    using cand(2) i(2) score_plain [OF t worker_state_plain(1) [OF acc]] worker_state_plain(2) [OF acc]
    by (auto split: if_splits)
qed

lemma owner_count_snoc: "owner_count (acc @ [(t, d)]) n = owner_count acc n + (if ad_owner d = n then 1 else 0)"
  by (simp add: owner_count_def)

lemma allocate_from_balanced:
  assumes "allocate_from acc tasks workers = Some r" "\<forall>t \<in> set tasks. plain_task t"
    and "\<forall>(t, d) \<in> set acc. plain_task t"
    and "\<forall>a \<in> set workers. \<forall>b \<in> set workers. owner_count acc (aw_name a) \<le> owner_count acc (aw_name b) + 1"
    and "a \<in> set workers" "b \<in> set workers"
  shows "owner_count r (aw_name a) \<le> owner_count r (aw_name b) + 1"
  using assms(1-4)
proof (induction tasks arbitrary: acc)
  case Nil
  then show ?case using assms(5,6) by simp
next
  case (Cons t tasks)
  obtain d where c: "choose_task_owner t workers (map (\<lambda>(t, d). assignment_of t (ad_owner d)) acc) = Some d"
    and r: "allocate_from (acc @ [(t, d)]) tasks workers = Some r"
    using Cons.prems(1) by (auto split: option.splits)
  have least: "owner_count acc (ad_owner d) \<le> owner_count acc (aw_name w)" if "w \<in> set workers" for w
    using choose_plain_least [OF _ Cons.prems(3) c that] Cons.prems(2) by simp
  have "\<forall>a \<in> set workers. \<forall>b \<in> set workers.
      owner_count (acc @ [(t, d)]) (aw_name a) \<le> owner_count (acc @ [(t, d)]) (aw_name b) + 1"
    using least Cons.prems(4) by (auto simp: owner_count_snoc intro: le_SucI)
  moreover have "\<forall>(t', d') \<in> set (acc @ [(t, d)]). plain_task t'" using Cons.prems(2,3) by auto
  ultimately show ?case using Cons.IH [OF r] Cons.prems(2) by simp
qed

lemma rebalance_loop_decisions:
  assumes "live \<noteq> []"
  shows "map rd_task_id (rebalance_loop q live reclaimed fl claimed)
           = filter (\<lambda>i. i \<notin> set claimed) (dedup (map t_id q))
       \<and> rd_worker_name ` set (rebalance_loop q live reclaimed fl claimed) \<subseteq> aw_name ` set live"
proof (induction q arbitrary: fl claimed)
  case Nil
  then show ?case by simp
next
  case (Cons t q)
  obtain d where d: "choose_task_owner (alloc_of_task t) live fl = Some d"
    using choose_task_owner_total [OF assms] by blast
  show ?case
    using Cons choose_task_owner_member [OF d]
    by (auto simp: d intro!: filter_cong)
qed

subsection \<open>Properties\<close>

text \<open>C26. The owner of a task is a best worker: with at least one worker a choice is made, and
  no worker scores higher than the chosen one; among equal scores none overlaps more with the
  task's files and domains, and then none has fewer tasks or comes earlier in the list.\<close>

theorem chosen_owner_best:
  fixes task workers current
  defines "st \<equiv> \<lambda>j. worker_state_of current (workers ! j)"
  defines "sc \<equiv> \<lambda>j. score_worker task (st j) (extract_task_hints task)
                      (uniform_role_pool task (map (worker_state_of current) workers))"
  defines "ov \<equiv> \<lambda>j. count_hint_overlap (extract_task_hints task) (ws_scope_hints (st j))"
  assumes "workers \<noteq> []"
  shows "\<exists>d i. choose_task_owner task workers current = Some d \<and> i < length workers
    \<and> ad_owner d = aw_name (workers ! i)
    \<and> (\<forall>j < length workers. sc j \<le> sc i
         \<and> (sc j = sc i \<longrightarrow> ov j \<le> ov i
              \<and> (ov j = ov i \<longrightarrow> ws_assigned_count (st i) \<le> ws_assigned_count (st j)
                   \<and> (ws_assigned_count (st i) = ws_assigned_count (st j) \<longrightarrow> i \<le> j))))"
proof -
  obtain d where d: "choose_task_owner task workers current = Some d"
    using choose_task_owner_total [OF assms(4)] by blast
  obtain c where c: "c \<in> set (candidates task workers current)" "ad_owner d = aw_name (ws_worker (fst c))"
    and best: "\<forall>c' \<in> set (candidates task workers current). \<not> better_candidate c' c"
    using choose_task_owner_best [OF d] by blast
  obtain i where i: "i < length workers" "c = (st i, i, sc i, ov i)"
  proof -
    obtain w' i' sc' ov' where q: "c = (w', i', sc', ov')" by (rule prod_cases4)
    show ?thesis using c(1) that unfolding q candidates_mem st_def sc_def ov_def by blast
  qed
  have "\<not> better_candidate (st j, j, sc j, ov j) (st i, i, sc i, ov i)" if "j < length workers" for j
  proof -
    have "(st j, j, sc j, ov j) \<in> set (candidates task workers current)"
      using that by (simp add: candidates_mem st_def sc_def ov_def)
    then show ?thesis using best i(2) by metis
  qed
  then have "\<forall>j < length workers. sc j \<le> sc i
         \<and> (sc j = sc i \<longrightarrow> ov j \<le> ov i
              \<and> (ov j = ov i \<longrightarrow> ws_assigned_count (st i) \<le> ws_assigned_count (st j)
                   \<and> (ws_assigned_count (st i) = ws_assigned_count (st j) \<longrightarrow> i \<le> j)))"
    by (force split: if_splits)
  then show ?thesis using d i c(2) by (auto simp: st_def)
qed

definition demo_task :: "string \<Rightarrow> string option \<Rightarrow> alloc_task" where
  "demo_task subject role =
     \<lparr> at_subject = subject, at_description = ''x'', at_role = role, at_blocked_by = None,
       at_file_paths = None, at_domains = None \<rparr>"

definition demo_pool :: "alloc_worker list" where
  "demo_pool = [\<lparr> aw_name = ''w1'', aw_role = None \<rparr>, \<lparr> aw_name = ''w2'', aw_role = Some ''qa'' \<rparr>]"

theorem chosen_owner_best_witness:
  "\<exists>d i. choose_task_owner (demo_task ''a'' (Some ''qa'')) demo_pool [] = Some d \<and> i < 2
     \<and> ad_owner d = aw_name (demo_pool ! i)"
proof -
  have ne: "demo_pool \<noteq> []" and len: "length demo_pool = 2" by (simp_all add: demo_pool_def)
  from chosen_owner_best [OF ne, of "demo_task ''a'' (Some ''qa'')" "[]"] show ?thesis
    unfolding len by blast
qed

text \<open>C27. Allocation is complete and fair: every task gets an owner among the workers, in the
  order of the tasks, and when the tasks name no role, file or domain the numbers of tasks of
  any two workers differ by at most one.\<close>

theorem allocation_complete_fair:
  assumes "workers \<noteq> []"
  shows "\<exists>r. allocate_tasks_to_workers tasks workers = Some r \<and> map fst r = tasks
    \<and> (\<forall>(t, d) \<in> set r. ad_owner d \<in> aw_name ` set workers)
    \<and> ((\<forall>t \<in> set tasks. plain_task t) \<longrightarrow>
        (\<forall>a \<in> set workers. \<forall>b \<in> set workers. owner_count r (aw_name a) \<le> owner_count r (aw_name b) + 1))"
proof -
  obtain r where r: "allocate_from [] tasks workers = Some r" "map fst r = tasks"
      "\<forall>(t, d) \<in> set r. ad_owner d \<in> aw_name ` set workers"
    using allocate_from_total [OF assms, of "[]" tasks] by auto
  have "owner_count r (aw_name a) \<le> owner_count r (aw_name b) + 1"
    if "\<forall>t \<in> set tasks. plain_task t" "a \<in> set workers" "b \<in> set workers" for a b
    using allocate_from_balanced [OF r(1) that(1) _ _ that(2,3)] by (simp add: owner_count_def)
  then show ?thesis using r by (auto simp: allocate_tasks_to_workers_def)
qed

theorem allocation_complete_fair_witness:
  "\<exists>r. allocate_tasks_to_workers [demo_task ''a'' None, demo_task ''b'' None] demo_pool = Some r
     \<and> owner_count r ''w1'' \<le> owner_count r ''w2'' + 1 \<and> owner_count r ''w2'' \<le> owner_count r ''w1'' + 1"
proof -
  have "plain_task (demo_task ''a'' None)" "plain_task (demo_task ''b'' None)"
    by code_simp+
  then show ?thesis
    using allocation_complete_fair [of demo_pool "[demo_task ''a'' None, demo_task ''b'' None]"]
    by (auto simp: demo_pool_def)
qed

text \<open>Rebalancing picks up exactly the ready work: with an available worker, the decisions
  name, each once, the pending tasks without owner whose dependencies are completed, reclaimed
  tasks first and then by number, and every decision names an available worker; without one
  there is no decision.\<close>

theorem rebalance_ready_work:
  "(list_ex is_worker_available workers \<longrightarrow>
      map rd_task_id (build_rebalance_decisions tasks workers reclaimed)
        = dedup (map t_id (pickup_queue tasks reclaimed)))
   \<and> set (pickup_queue tasks reclaimed)
       = {t \<in> set tasks. t_status t = TPending \<and> \<not> truthy_str (t_owner t)
            \<and> (\<forall>i \<in> set (task_deps t). \<exists>u. tasks_by_id tasks i = Some u \<and> t_status u = TCompleted)}
   \<and> sorted (map (\<lambda>t. (if t_id t \<in> set reclaimed then 0 else 1 :: nat)) (pickup_queue tasks reclaimed))
   \<and> (\<forall>d \<in> set (build_rebalance_decisions tasks workers reclaimed).
        \<exists>w \<in> set workers. is_worker_available w \<and> aw_name (rw_worker w) = rd_worker_name d)"
proof (intro conjI impI)
  let ?live = "filter is_worker_available workers"
  note loop = rebalance_loop_decisions [of "map rw_worker ?live"]
  show "map rd_task_id (build_rebalance_decisions tasks workers reclaimed)
        = dedup (map t_id (pickup_queue tasks reclaimed))" if "list_ex is_worker_available workers"
  proof -
    have "?live \<noteq> []" using that by (auto simp: list_ex_iff filter_empty_conv)
    then show ?thesis using loop by (simp add: build_rebalance_decisions_def Let_def)
  qed
  show "\<forall>d \<in> set (build_rebalance_decisions tasks workers reclaimed).
        \<exists>w \<in> set workers. is_worker_available w \<and> aw_name (rw_worker w) = rd_worker_name d"
  proof (cases "?live = []")
    case True
    then show ?thesis by (simp add: build_rebalance_decisions_def Let_def)
  next
    case False
    then show ?thesis using loop by (fastforce simp: build_rebalance_decisions_def Let_def image_iff subset_iff)
  qed
  show "set (pickup_queue tasks reclaimed)
       = {t \<in> set tasks. t_status t = TPending \<and> \<not> truthy_str (t_owner t)
            \<and> (\<forall>i \<in> set (task_deps t). \<exists>u. tasks_by_id tasks i = Some u \<and> t_status u = TCompleted)}"
    by (auto simp: pickup_queue_def has_completed_dependencies_def list_all_iff)
  have ins: "sorted (map (\<lambda>t. (if t_id t \<in> set reclaimed then 0 else 1 :: nat)) xs) \<Longrightarrow>
      sorted (map (\<lambda>t. (if t_id t \<in> set reclaimed then 0 else 1 :: nat)) (insort_by (pickup_before reclaimed) x xs))" for x xs
    by (induction xs) (auto simp: pickup_before_def Let_def split: if_splits)
  have "sorted (map (\<lambda>t. (if t_id t \<in> set reclaimed then 0 else 1 :: nat)) (sort_by (pickup_before reclaimed) xs))" for xs
    by (induction xs) (simp_all add: ins)
  then show "sorted (map (\<lambda>t. (if t_id t \<in> set reclaimed then 0 else 1 :: nat)) (pickup_queue tasks reclaimed))"
    by (simp add: pickup_queue_def)
qed

definition idle_worker :: rebalance_worker where
  "idle_worker = \<lparr> rw_worker = \<lparr> aw_name = ''w1'', aw_role = None \<rparr>, rw_alive = True, rw_state = WIdle \<rparr>"

definition ready_task :: "string \<Rightarrow> team_task" where
  "ready_task i = \<lparr> t_id = i, t_subject = i, t_description = i, t_status = TPending, t_requires_code_change = None,
     t_role = None, t_owner = None, t_result = None, t_error = None, t_blocked_by = None, t_depends_on = None,
     t_file_paths = None, t_domains = None, t_lane = None, t_allocation_reason = None, t_version = Some 1,
     t_claim = None, t_created_at = [], t_completed_at = None, t_delegation = None, t_delegation_compliance = None,
     t_coordination = None, t_coordination_compliance = None \<rparr>"

theorem rebalance_ready_work_witness:
  "map rd_task_id (build_rebalance_decisions [ready_task ''1'', ready_task ''2''] [idle_worker] [''2''])
     = [''2'', ''1'']"
proof -
  have "list_ex is_worker_available [idle_worker]"
    "dedup (map t_id (pickup_queue [ready_task ''1'', ready_task ''2''] [''2''])) = [''2'', ''1'']"
    by code_simp+
  then show ?thesis
    using rebalance_ready_work [of "[idle_worker]" "[ready_task ''1'', ready_task ''2'']" "[''2'']"]
    by simp
qed

end
