(* ===== verification/TeamDispatch.thy ===== *)
theory TeamDispatch
  imports TeamContracts JsValue
begin

text \<open>
  Dispatch requests of a team (\<open>src/team/state/dispatch.ts\<close>, \<open>dispatch-recovery.ts\<close> and the readers of
  \<open>src/team/state.ts\<close>). A request lives in the file of the team and, when the runtime bridge
  accepted it, in the bridge. As in the code, the operations take the functions that read and
  write the requests and execute a bridge command; the bridge itself is an external process.
  The dispatch lock is held for a whole operation.
\<close>

datatype dispatch_kind = KInbox | KMailbox | KNudge

datatype transport_preference = HookPreferred | TransportDirect | PromptStdin

fun dispatch_kind_name :: "dispatch_kind \<Rightarrow> string" where
  "dispatch_kind_name KInbox = ''inbox''"
| "dispatch_kind_name KMailbox = ''mailbox''"
| "dispatch_kind_name KNudge = ''nudge''"

definition dispatch_kind_of :: "js \<Rightarrow> dispatch_kind option" where
  "dispatch_kind_of v = List.find (\<lambda>k. v = JStr (dispatch_kind_name k)) [KInbox, KMailbox, KNudge]"

fun transport_name :: "transport_preference \<Rightarrow> string" where
  "transport_name HookPreferred = ''hook_preferred_with_fallback''"
| "transport_name TransportDirect = ''transport_direct''"
| "transport_name PromptStdin = ''prompt_stdin''"

definition transport_of :: "js \<Rightarrow> transport_preference" where
  "transport_of v =
     (if v = JStr ''transport_direct'' then TransportDirect
      else if v = JStr ''prompt_stdin'' then PromptStdin else HookPreferred)"

definition team_reminder_intents :: "string list" where
  "team_reminder_intents =
     [''followup-reuse'', ''followup-relaunch'', ''stalled-unblock'', ''done-review-or-shutdown'', ''pending-mailbox-review'']"

definition is_team_reminder_intent :: "js \<Rightarrow> bool" where
  "is_team_reminder_intent v \<longleftrightarrow> v \<in> set (map JStr team_reminder_intents)"

record dispatch_request =
  dr_request_id :: string
  dr_kind :: dispatch_kind
  dr_team :: string
  dr_to_worker :: string
  dr_worker_index :: "jsnum option"
  dr_pane_id :: "string option"
  dr_trigger :: string
  dr_intent :: "string option"
  dr_message_id :: "string option"
  dr_inbox_key :: "string option"
  dr_transport :: transport_preference
  dr_fallback :: bool
  dr_legacy :: bool
  dr_status :: dispatch_status
  dr_attempts :: int
  dr_created_at :: string
  dr_updated_at :: string
  dr_notified_at :: "string option"
  dr_delivered_at :: "string option"
  dr_failed_at :: "string option"
  dr_last_reason :: "string option"

definition sanitize_for_status :: "dispatch_request \<Rightarrow> dispatch_request" where
  "sanitize_for_status r =
     (case dr_status r of
        DPending \<Rightarrow> r\<lparr> dr_notified_at := None, dr_delivered_at := None, dr_failed_at := None \<rparr>
      | DNotified \<Rightarrow> r\<lparr> dr_delivered_at := None, dr_failed_at := None \<rparr>
      | DDelivered \<Rightarrow> r\<lparr> dr_failed_at := None \<rparr>
      | DFailed \<Rightarrow> r\<lparr> dr_delivered_at := None \<rparr>)"

text \<open>\<open>typeof v === 'string' && v !== \'\' ? v : undefined\<close>\<close>

definition nonempty_text :: "js \<Rightarrow> string option" where
  "nonempty_text v = (case js_string v of Some (c # s) \<Rightarrow> Some (c # s) | _ \<Rightarrow> None)"

definition text_or :: "js \<Rightarrow> string \<Rightarrow> string" where
  "text_or v d = (case nonempty_text v of None \<Rightarrow> d | Some s \<Rightarrow> s)"

definition attempts_of :: "js \<Rightarrow> int" where
  "attempts_of v = (case v of JNum (Fin q) \<Rightarrow> max 0 \<lfloor>q\<rfloor> | _ \<Rightarrow> 0)"

definition status_of_js :: "js \<Rightarrow> dispatch_status" where
  "status_of_js v =
     (case List.find (\<lambda>s. v = JStr (dispatch_status_name s)) team_dispatch_statuses of None \<Rightarrow> DPending | Some s \<Rightarrow> s)"

text \<open>\<open>normalizeDispatchRequest\<close>; \<open>fresh\<close> is the random identifier, \<open>now\<close> the time.\<close>

definition normalize_dispatch_request :: "string \<Rightarrow> js \<Rightarrow> string \<Rightarrow> string \<Rightarrow> dispatch_request option" where
  "normalize_dispatch_request team raw fresh now =
     (let get = js_get raw in
      case (dispatch_kind_of (get ''kind''), js_string (get ''to_worker''), js_string (get ''trigger_message'')) of
        (Some k, Some w, Some t) \<Rightarrow>
          (if js_trim w = [] \<or> js_trim t = [] then None
           else Some (sanitize_for_status
             \<lparr> dr_request_id = (if trimmed (get ''request_id'') \<noteq> [] then text_or (get ''request_id'') fresh else fresh),
               dr_kind = k, dr_team = team, dr_to_worker = w,
               dr_worker_index = (case get ''worker_index'' of JNum n \<Rightarrow> Some n | _ \<Rightarrow> None),
               dr_pane_id = nonempty_text (get ''pane_id''), dr_trigger = t,
               dr_intent = (if is_team_reminder_intent (get ''intent'') then js_string (get ''intent'') else None),
               dr_message_id = nonempty_text (get ''message_id''),
               dr_inbox_key = nonempty_text (get ''inbox_correlation_key''),
               dr_transport = transport_of (get ''transport_preference''),
               dr_fallback = (get ''fallback_allowed'' \<noteq> JBool False),
               dr_legacy = (get ''creation_transport'' = JStr ''legacy-json''),
               dr_status = status_of_js (get ''status''), dr_attempts = attempts_of (get ''attempt_count''),
               dr_created_at = text_or (get ''created_at'') now, dr_updated_at = text_or (get ''updated_at'') now,
               dr_notified_at = nonempty_text (get ''notified_at''), dr_delivered_at = nonempty_text (get ''delivered_at''),
               dr_failed_at = nonempty_text (get ''failed_at''), dr_last_reason = nonempty_text (get ''last_reason'') \<rparr>))
      | _ \<Rightarrow> None)"

text \<open>What \<open>JSON.stringify\<close> keeps of a request; an undefined property is not written, and a number
  that is not finite is written as \<open>null\<close>.\<close>

definition opt_js :: "string option \<Rightarrow> js" where
  "opt_js x = (case x of None \<Rightarrow> JUndef | Some s \<Rightarrow> JStr s)"

definition number_js :: "jsnum option \<Rightarrow> js" where
  "number_js n = (case n of None \<Rightarrow> JUndef | Some (Fin q) \<Rightarrow> JNum (Fin q) | Some _ \<Rightarrow> JNull)"

definition request_js :: "dispatch_request \<Rightarrow> js" where
  "request_js r = JObj
     [(''request_id'', JStr (dr_request_id r)), (''kind'', JStr (dispatch_kind_name (dr_kind r))),
      (''team_name'', JStr (dr_team r)), (''to_worker'', JStr (dr_to_worker r)),
      (''worker_index'', number_js (dr_worker_index r)), (''pane_id'', opt_js (dr_pane_id r)),
      (''trigger_message'', JStr (dr_trigger r)), (''intent'', opt_js (dr_intent r)),
      (''message_id'', opt_js (dr_message_id r)), (''inbox_correlation_key'', opt_js (dr_inbox_key r)),
      (''transport_preference'', JStr (transport_name (dr_transport r))), (''fallback_allowed'', JBool (dr_fallback r)),
      (''creation_transport'', if dr_legacy r then JStr ''legacy-json'' else JUndef),
      (''status'', JStr (dispatch_status_name (dr_status r))), (''attempt_count'', JInt (dr_attempts r)),
      (''created_at'', JStr (dr_created_at r)), (''updated_at'', JStr (dr_updated_at r)),
      (''notified_at'', opt_js (dr_notified_at r)), (''delivered_at'', opt_js (dr_delivered_at r)),
      (''failed_at'', opt_js (dr_failed_at r)), (''last_reason'', opt_js (dr_last_reason r))]"

subsection \<open>Requests of the caller\<close>

record dispatch_input =
  di_kind :: dispatch_kind
  di_to_worker :: string
  di_worker_index :: "jsnum option"
  di_pane_id :: "string option"
  di_trigger :: string
  di_intent :: "string option"
  di_message_id :: "string option"
  di_inbox_key :: "string option"
  di_transport :: "transport_preference option"
  di_fallback :: "bool option"
  di_last_reason :: "string option"

definition same_mailbox_wake_target :: "dispatch_request \<Rightarrow> dispatch_input \<Rightarrow> bool" where
  "same_mailbox_wake_target r i \<longleftrightarrow>
     dr_status r \<in> {DPending, DNotified} \<and> dr_to_worker r = di_to_worker i \<and> dr_pane_id r = di_pane_id i
     \<and> (if truthy_str (dr_intent r) \<or> truthy_str (di_intent i) then dr_intent r = di_intent i
        else dr_trigger r = di_trigger i)"

definition equivalent_pending_dispatch :: "dispatch_request \<Rightarrow> dispatch_input \<Rightarrow> bool" where
  "equivalent_pending_dispatch r i \<longleftrightarrow>
     dr_kind r = di_kind i \<and>
     (if di_kind i = KMailbox then same_mailbox_wake_target r i
      else dr_to_worker r = di_to_worker i \<and> dr_status r = DPending
           \<and> (if di_kind i = KInbox \<and> truthy_str (di_inbox_key i) then dr_inbox_key r = di_inbox_key i
              else dr_trigger r = di_trigger i))"

definition can_transition_dispatch :: "dispatch_status \<Rightarrow> dispatch_status \<Rightarrow> bool" where
  "can_transition_dispatch f t \<longleftrightarrow> f = t \<or> can_transition_dispatch_status f t"

definition new_request_js :: "dispatch_input \<Rightarrow> string \<Rightarrow> string \<Rightarrow> js" where
  "new_request_js i fresh now = JObj
     [(''request_id'', JStr fresh), (''kind'', JStr (dispatch_kind_name (di_kind i))),
      (''to_worker'', JStr (di_to_worker i)), (''worker_index'', case di_worker_index i of None \<Rightarrow> JUndef | Some n \<Rightarrow> JNum n),
      (''pane_id'', opt_js (di_pane_id i)), (''trigger_message'', JStr (di_trigger i)), (''intent'', opt_js (di_intent i)),
      (''message_id'', opt_js (di_message_id i)), (''inbox_correlation_key'', opt_js (di_inbox_key i)),
      (''transport_preference'', case di_transport i of None \<Rightarrow> JUndef | Some p \<Rightarrow> JStr (transport_name p)),
      (''fallback_allowed'', case di_fallback i of None \<Rightarrow> JUndef | Some b \<Rightarrow> JBool b),
      (''last_reason'', opt_js (di_last_reason i)), (''status'', JStr ''pending''), (''attempt_count'', JInt 0),
      (''created_at'', JStr now), (''updated_at'', JStr now)]"

subsection \<open>The operations\<close>

datatype runtime_command =
    QueueDispatch string dispatch_input
  | MarkNotified string string
  | MarkDelivered string
  | MarkFailed string string

text \<open>A bridge command is executed, with a new state, is left to the file, or throws.\<close>

datatype 's bridge_result = Executed 's | NotExecuted | BridgeThrew

record 's dispatch_deps =
  dd_team :: string
  dd_read :: "'s \<Rightarrow> dispatch_request list"
  dd_write :: "dispatch_request list \<Rightarrow> 's \<Rightarrow> 's"
  dd_exec :: "runtime_command \<Rightarrow> 's \<Rightarrow> 's bridge_result"
  dd_valid_worker :: "string \<Rightarrow> bool"

datatype dispatch_error = MessageIdRequired | InvalidWorker | NormalizeFailed | BridgeFailed

definition read_request :: "('s, 'm) dispatch_deps_scheme \<Rightarrow> string \<Rightarrow> 's \<Rightarrow> dispatch_request option" where
  "read_request d i s = List.find (\<lambda>r. dr_request_id r = i) (dd_read d s)"

definition enqueue_dispatch_request ::
    "('s, 'm) dispatch_deps_scheme \<Rightarrow> dispatch_input \<Rightarrow> string \<Rightarrow> string \<Rightarrow> 's
      \<Rightarrow> 's \<times> (dispatch_error + dispatch_request \<times> bool)" where
  "enqueue_dispatch_request d i fresh now s =
     (if di_kind i = KMailbox \<and> js_trim (case di_message_id i of None \<Rightarrow> [] | Some m \<Rightarrow> m) = []
      then (s, Inl MessageIdRequired)
      else if \<not> dd_valid_worker d (di_to_worker i) then (s, Inl InvalidWorker)
      else case List.find (\<lambda>r. equivalent_pending_dispatch r i) (dd_read d s) of
        Some r \<Rightarrow> (s, Inr (r, True))
      | None \<Rightarrow>
          (case normalize_dispatch_request (dd_team d) (new_request_js i fresh now) fresh now of
             None \<Rightarrow> (s, Inl NormalizeFailed)
           | Some r \<Rightarrow>
               (let add = (\<lambda>s'. let r' = r\<lparr> dr_legacy := True \<rparr>
                                in (dd_write d (dd_read d s @ [r']) s', Inr (r', False)))
                in case dd_exec d (QueueDispatch (dr_request_id r) i) s of
                     BridgeThrew \<Rightarrow> (s, Inl BridgeFailed)
                   | NotExecuted \<Rightarrow> add s
                   | Executed s1 \<Rightarrow>
                       (case read_request d (dr_request_id r) s1 of
                          Some b \<Rightarrow> (s1, Inr (b, False))
                        | None \<Rightarrow> add s1))))"

definition list_dispatch_requests ::
    "('s, 'm) dispatch_deps_scheme \<Rightarrow> dispatch_status option \<Rightarrow> dispatch_kind option \<Rightarrow> string option \<Rightarrow> int option
      \<Rightarrow> 's \<Rightarrow> dispatch_request list" where
  "list_dispatch_requests d st k w limit s =
     (let f1 = filter (\<lambda>r. case st of None \<Rightarrow> True | Some x \<Rightarrow> dr_status r = x) (dd_read d s);
          f2 = filter (\<lambda>r. case k of None \<Rightarrow> True | Some x \<Rightarrow> dr_kind r = x) f1;
          f3 = filter (\<lambda>r. truthy_str w \<longrightarrow> dr_to_worker r = the w) f2
      in case limit of Some n \<Rightarrow> (if n > 0 then take (nat n) f3 else f3) | None \<Rightarrow> f3)"

text \<open>The properties the callers patch; an absent one keeps the stored value.\<close>

record dispatch_patch =
  pa_message_id :: "string option"
  pa_last_reason :: "string option"
  pa_attempts :: "jsnum option"
  pa_notified_at :: "string option"
  pa_delivered_at :: "string option"
  pa_failed_at :: "string option"

definition no_patch :: dispatch_patch where
  "no_patch = \<lparr> pa_message_id = None, pa_last_reason = None, pa_attempts = None, pa_notified_at = None,
     pa_delivered_at = None, pa_failed_at = None \<rparr>"

definition or_else :: "'a option \<Rightarrow> 'a option \<Rightarrow> 'a option" where
  "or_else a b = (case a of None \<Rightarrow> b | Some _ \<Rightarrow> a)"

definition next_attempts :: "dispatch_request \<Rightarrow> dispatch_status \<Rightarrow> jsnum option \<Rightarrow> int" where
  "next_attempts r t p =
     max (dr_attempts r)
       (case p of
          Some (Fin q) \<Rightarrow> \<lfloor>q\<rfloor>
        | _ \<Rightarrow> (if dr_status r = t then dr_attempts r else dr_attempts r + 1))"

definition patched_request :: "dispatch_request \<Rightarrow> dispatch_status \<Rightarrow> dispatch_patch \<Rightarrow> string \<Rightarrow> dispatch_request" where
  "patched_request r t p now =
     (let n = sanitize_for_status (r\<lparr>
                dr_message_id := or_else (pa_message_id p) (dr_message_id r),
                dr_last_reason := or_else (pa_last_reason p) (dr_last_reason r),
                dr_notified_at := or_else (pa_notified_at p) (dr_notified_at r),
                dr_delivered_at := or_else (pa_delivered_at p) (dr_delivered_at r),
                dr_failed_at := or_else (pa_failed_at p) (dr_failed_at r),
                dr_status := t, dr_attempts := max 0 (next_attempts r t (pa_attempts p)), dr_updated_at := now \<rparr>)
      in case t of
           DPending \<Rightarrow> n
         | DNotified \<Rightarrow> n\<lparr> dr_notified_at := or_else (pa_notified_at p) (Some now), dr_failed_at := pa_failed_at p \<rparr>
         | DDelivered \<Rightarrow> n\<lparr> dr_delivered_at := or_else (pa_delivered_at p) (Some now) \<rparr>
         | DFailed \<Rightarrow> n\<lparr> dr_failed_at := or_else (pa_failed_at p) (Some now) \<rparr>)"

definition transition_locked ::
    "('s, 'm) dispatch_deps_scheme \<Rightarrow> string \<Rightarrow> dispatch_status \<Rightarrow> dispatch_status \<Rightarrow> dispatch_patch \<Rightarrow> string \<Rightarrow> 's
      \<Rightarrow> 's \<times> dispatch_request option" where
  "transition_locked d i f t p now s =
     (let rs = dd_read d s
      in case find_index (\<lambda>r. dr_request_id r = i) rs of
           None \<Rightarrow> (s, None)
         | Some j \<Rightarrow>
             (let r = rs ! j
              in if dr_status r \<noteq> f \<and> dr_status r \<noteq> t \<or> \<not> can_transition_dispatch (dr_status r) t then (s, None)
                 else (let s' = dd_write d (rs[j := patched_request r t p now]) s in (s', read_request d i s'))))"

text \<open>The command of a transition; the reasons default to the channel and to \<open>failed\<close>.\<close>

definition mark_command :: "string \<Rightarrow> dispatch_status \<Rightarrow> dispatch_patch \<Rightarrow> runtime_command option" where
  "mark_command i t p =
     (case t of
        DNotified \<Rightarrow> Some (MarkNotified i (case pa_last_reason p of None \<Rightarrow> ''tmux'' | Some x \<Rightarrow> x))
      | DDelivered \<Rightarrow> Some (MarkDelivered i)
      | DFailed \<Rightarrow> Some (MarkFailed i (case pa_last_reason p of None \<Rightarrow> ''failed'' | Some x \<Rightarrow> x))
      | DPending \<Rightarrow> None)"

definition counted_patch :: "dispatch_patch \<Rightarrow> int \<Rightarrow> dispatch_patch" where
  "counted_patch p n =
     p\<lparr> pa_attempts := (case pa_attempts p of Some (Fin q) \<Rightarrow> Some (Fin q) | _ \<Rightarrow> Some (Fin (rat_of_int n))) \<rparr>"

definition transition_dispatch_request ::
    "('s, 'm) dispatch_deps_scheme \<Rightarrow> string \<Rightarrow> dispatch_status \<Rightarrow> dispatch_status \<Rightarrow> dispatch_patch \<Rightarrow> string \<Rightarrow> 's
      \<Rightarrow> 's \<times> (dispatch_error + dispatch_request option)" where
  "transition_dispatch_request d i f t p now s =
     (case read_request d i s of
        None \<Rightarrow> (s, Inr None)
      | Some r \<Rightarrow>
          (if dr_status r \<noteq> f \<and> dr_status r \<noteq> t \<or> \<not> can_transition_dispatch (dr_status r) t then (s, Inr None)
           else
             (case (if dr_status r = t then NotExecuted
                    else case mark_command i t p of None \<Rightarrow> NotExecuted | Some c \<Rightarrow> dd_exec d c s) of
                BridgeThrew \<Rightarrow> (s, Inl BridgeFailed)
              | Executed s1 \<Rightarrow> map_prod id Inr (transition_locked d i t t (counted_patch p (dr_attempts r + 1)) now s1)
              | NotExecuted \<Rightarrow> map_prod id Inr (transition_locked d i f t p now s))))"

text \<open>After an executed command the request is read again, with the old one as a fallback.\<close>

definition after_bridge :: "('s, 'm) dispatch_deps_scheme \<Rightarrow> string \<Rightarrow> dispatch_request \<Rightarrow> 's
    \<Rightarrow> 's \<times> (dispatch_error + dispatch_request option)" where
  "after_bridge d i r s1 = (s1, Inr (or_else (read_request d i s1) (Some r)))"

definition mark_dispatch_request_notified ::
    "('s, 'm) dispatch_deps_scheme \<Rightarrow> string \<Rightarrow> dispatch_patch \<Rightarrow> string \<Rightarrow> 's
      \<Rightarrow> 's \<times> (dispatch_error + dispatch_request option)" where
  "mark_dispatch_request_notified d i p now s =
     (case read_request d i s of
        None \<Rightarrow> (s, Inr None)
      | Some r \<Rightarrow>
          (if dr_status r = DNotified \<or> dr_status r = DDelivered then (s, Inr (Some r))
           else if dr_status r = DFailed then (s, Inr None)
           else
             (case dd_exec d (MarkNotified i (case or_else (pa_last_reason p) (pa_message_id p) of
                                                None \<Rightarrow> ''tmux'' | Some x \<Rightarrow> x)) s of
                BridgeThrew \<Rightarrow> (s, Inl BridgeFailed)
              | Executed s1 \<Rightarrow> after_bridge d i r s1
              | NotExecuted \<Rightarrow> map_prod id Inr (transition_locked d i (dr_status r) DNotified p now s))))"

definition mark_dispatch_request_delivered ::
    "('s, 'm) dispatch_deps_scheme \<Rightarrow> string \<Rightarrow> dispatch_patch \<Rightarrow> string \<Rightarrow> 's
      \<Rightarrow> 's \<times> (dispatch_error + dispatch_request option)" where
  "mark_dispatch_request_delivered d i p now s =
     (case read_request d i s of
        None \<Rightarrow> (s, Inr None)
      | Some r \<Rightarrow>
          (if dr_status r = DDelivered then (s, Inr (Some r))
           else if \<not> can_transition_dispatch (dr_status r) DDelivered then (s, Inr None)
           else
             (case dd_exec d (MarkDelivered i) s of
                BridgeThrew \<Rightarrow> (s, Inl BridgeFailed)
              | Executed s1 \<Rightarrow> after_bridge d i r s1
              | NotExecuted \<Rightarrow> map_prod id Inr (transition_locked d i (dr_status r) DDelivered p now s))))"

definition mark_dispatch_request_failed ::
    "('s, 'm) dispatch_deps_scheme \<Rightarrow> string \<Rightarrow> string \<Rightarrow> string \<Rightarrow> 's \<Rightarrow> 's \<times> dispatch_error option" where
  "mark_dispatch_request_failed d i reason now s =
     (case read_request d i s of
        None \<Rightarrow> (s, None)
      | Some _ \<Rightarrow>
          (case dd_exec d (MarkFailed i reason) s of
             BridgeThrew \<Rightarrow> (s, Some BridgeFailed)
           | Executed s1 \<Rightarrow> (s1, None)
           | NotExecuted \<Rightarrow>
               (fst (transition_locked d i DPending DFailed (no_patch\<lparr> pa_last_reason := Some reason \<rparr>) now s), None)))"

subsection \<open>The records of the bridge\<close>

text \<open>\<open>String(v)\<close> of a status: the text, also of an array that holds nothing else.\<close>

fun status_text :: "js \<Rightarrow> string" where
  "status_text (JStr s) = s"
| "status_text (JArr [v]) = status_text v"
| "status_text v = []"

definition null_or_text :: "js \<Rightarrow> bool" where
  "null_or_text v \<longleftrightarrow> v = JNull \<or> js_string v \<noteq> None"

definition strict_text :: "js \<Rightarrow> bool" where
  "strict_text v \<longleftrightarrow> (case js_string v of None \<Rightarrow> False | Some s \<Rightarrow> js_trim s \<noteq> [] \<and> js_trim s = s)"

definition is_strict_dispatch_record :: "js \<Rightarrow> bool" where
  "is_strict_dispatch_record v \<longleftrightarrow>
     (case v of
        JObj r \<Rightarrow>
          list_all (\<lambda>k. k \<in> fst ` set r)
            [''request_id'', ''target'', ''status'', ''created_at'', ''notified_at'', ''delivered_at'', ''failed_at'', ''reason'', ''metadata'']
          \<and> strict_text (rec_get r ''request_id'') \<and> strict_text (rec_get r ''target'')
          \<and> status_text (rec_get r ''status'') \<in> set (map dispatch_status_name team_dispatch_statuses)
          \<and> js_string (rec_get r ''created_at'') \<noteq> None
          \<and> null_or_text (rec_get r ''notified_at'') \<and> null_or_text (rec_get r ''delivered_at'')
          \<and> null_or_text (rec_get r ''failed_at'') \<and> null_or_text (rec_get r ''reason'')
          \<and> (rec_get r ''metadata'' = JNull \<or> (\<exists>m. rec_get r ''metadata'' = JObj m))
      | _ \<Rightarrow> False)"

text \<open>\<open>a ?? b ?? ...\<close>, as an optional property.\<close>

definition first_present :: "js list \<Rightarrow> js" where
  "first_present vs = (case List.find (\<lambda>v. v \<noteq> JUndef \<and> v \<noteq> JNull) vs of None \<Rightarrow> JUndef | Some v \<Rightarrow> v)"

definition normalize_bridge_dispatch_record :: "string \<Rightarrow> js \<Rightarrow> string \<Rightarrow> string \<Rightarrow> dispatch_request option" where
  "normalize_bridge_dispatch_record team v fresh now =
     (let m = js_get (js_get v ''metadata''); get = js_get v;
          kind = (case dispatch_kind_of (m ''kind'') of None \<Rightarrow> ''inbox'' | Some k \<Rightarrow> dispatch_kind_name k)
      in if trimmed (m ''team_name'') = [] \<or> trimmed (m ''team_name'') \<noteq> team then None
         else normalize_dispatch_request team (JObj
           [(''request_id'', get ''request_id''), (''kind'', JStr kind), (''to_worker'', get ''target''),
            (''worker_index'', m ''worker_index''), (''pane_id'', m ''pane_id''),
            (''trigger_message'', if trimmed (m ''trigger_message'') \<noteq> [] then m ''trigger_message''
                                  else first_present [get ''reason'', get ''request_id'']),
            (''intent'', m ''intent''), (''message_id'', m ''message_id''),
            (''inbox_correlation_key'', m ''inbox_correlation_key''), (''transport_preference'', m ''transport_preference''),
            (''fallback_allowed'', m ''fallback_allowed''), (''status'', get ''status''),
            (''attempt_count'', m ''attempt_count''), (''created_at'', get ''created_at''),
            (''updated_at'', first_present [get ''delivered_at'', get ''failed_at'', get ''notified_at'', get ''created_at'', JStr now]),
            (''notified_at'', first_present [get ''notified_at'']), (''delivered_at'', first_present [get ''delivered_at'']),
            (''failed_at'', first_present [get ''failed_at'']), (''last_reason'', first_present [get ''reason''])]) fresh now)"

text \<open>The journal of commands the file took over; the lines that do not parse as an object are
  skipped. \<open>parse\<close> is \<open>JSON.parse\<close>.\<close>

definition parse_finalization_journal :: "(string \<Rightarrow> js option) \<Rightarrow> string \<Rightarrow> js list" where
  "parse_finalization_journal parse raw =
     List.map_filter (\<lambda>l. if js_trim l = [] then None
                          else case parse l of Some (JObj r) \<Rightarrow> Some (JObj r) | _ \<Rightarrow> None)
       (js_split (char_of (10 :: nat)) raw)"

definition receipt_of :: "js \<Rightarrow> (string \<times> dispatch_status) option" where
  "receipt_of c =
     (case (js_string (js_get c ''request_id''),
            List.find (\<lambda>s. js_get c ''command'' = JStr (case s of DNotified \<Rightarrow> ''MarkNotified'' | DDelivered \<Rightarrow> ''MarkDelivered''
                                                    | DFailed \<Rightarrow> ''MarkFailed'' | DPending \<Rightarrow> [])) [DNotified, DDelivered, DFailed]) of
        (Some i, Some s) \<Rightarrow> Some (i, s)
      | _ \<Rightarrow> None)"

definition receipts :: "js list \<Rightarrow> (string \<times> dispatch_status) list" where
  "receipts journal = List.map_filter receipt_of journal"

text \<open>One authoritative request with its shadow in the file.\<close>

definition merge_request :: "dispatch_request list \<Rightarrow> (string \<times> dispatch_status) list \<Rightarrow> dispatch_request \<Rightarrow> dispatch_request" where
  "merge_request local rc r =
     (case List.find (\<lambda>q. dr_request_id q = dr_request_id r) (rev local) of
        None \<Rightarrow> r
      | Some q \<Rightarrow>
          (if dr_to_worker q \<noteq> dr_to_worker r \<or> dr_kind q \<noteq> dr_kind r \<or> dr_trigger q \<noteq> dr_trigger r then r
           else
             (let attempts = max (dr_attempts r) (dr_attempts q);
                  kept = (if dr_status r = dr_status q
                          then r\<lparr> dr_attempts := attempts, dr_last_reason := or_else (dr_last_reason q) (dr_last_reason r),
                                 dr_updated_at := dr_updated_at q \<rparr>
                          else r\<lparr> dr_attempts := attempts \<rparr>)
              in if dr_status r = DDelivered \<or> dr_status r = DFailed then kept
                 else if (dr_request_id r, dr_status q) \<in> set rc
                 then r\<lparr> dr_status := dr_status q, dr_attempts := attempts, dr_updated_at := dr_updated_at q,
                         dr_notified_at := dr_notified_at q, dr_delivered_at := dr_delivered_at q,
                         dr_failed_at := dr_failed_at q, dr_last_reason := dr_last_reason q \<rparr>
                 else kept)))"

text \<open>What the bridge contributes when it is enabled and has the authority: its records (the value
  found in its file, or nothing), the journal and the identity ledger.\<close>

record dispatch_authority =
  da_records :: "js option"
  da_journal :: "js list"
  da_ledger :: "string list option"

text \<open>\<open>fresh n\<close> is the identifier drawn for the entry at position \<open>n\<close>.\<close>

definition normalized_entries :: "string \<Rightarrow> js list \<Rightarrow> (nat \<Rightarrow> string) \<Rightarrow> string \<Rightarrow> dispatch_request list" where
  "normalized_entries team vs fresh now =
     List.map_filter (\<lambda>(n, v). normalize_dispatch_request team v (fresh n) now) (zip [0..<length vs] vs)"

definition normalized_requests :: "string \<Rightarrow> json_file \<Rightarrow> (nat \<Rightarrow> string) \<Rightarrow> string \<Rightarrow> dispatch_request list" where
  "normalized_requests team f fresh now =
     (case f of JsonFile (JArr vs) \<Rightarrow> normalized_entries team vs fresh now | _ \<Rightarrow> [])"

text \<open>A strict record has its identifier, so none is drawn.\<close>

definition authoritative_requests :: "string \<Rightarrow> dispatch_authority \<Rightarrow> string \<Rightarrow> dispatch_request list" where
  "authoritative_requests team a now =
     (case da_records a of
        Some (JArr vs) \<Rightarrow>
          (if list_all is_strict_dispatch_record vs
           then List.map_filter (\<lambda>v. normalize_bridge_dispatch_record team v [] now) vs else [])
      | _ \<Rightarrow> [])"

text \<open>\<open>readDispatchRequests\<close>; \<open>None\<close> is the error of an unreadable file that nothing replaces.\<close>

definition read_dispatch_requests ::
    "string \<Rightarrow> json_file \<Rightarrow> dispatch_authority option \<Rightarrow> (nat \<Rightarrow> string) \<Rightarrow> string \<Rightarrow> dispatch_request list option" where
  "read_dispatch_requests team f authority fresh now =
     (let local = normalized_requests team f fresh now
      in case authority of
           None \<Rightarrow> (if f = BadFile then None else Some local)
         | Some a \<Rightarrow>
             (if da_records a = None \<and> f = BadFile then None
              else
                (let auth = authoritative_requests team a now;
                     merged = map (merge_request local (receipts (da_journal a))) auth;
                     unmatched = filter (\<lambda>q. dr_legacy q \<and> dr_request_id q \<notin> set (map dr_request_id auth)) local
                 in Some (merged @ filter (\<lambda>q. case da_ledger a of None \<Rightarrow> True | Some l \<Rightarrow> dr_request_id q \<notin> set l) unmatched))))"

subsection \<open>Well-formed requests\<close>

definition opt_nonempty :: "string option \<Rightarrow> bool" where
  "opt_nonempty x \<longleftrightarrow> x \<noteq> Some []"

definition request_wf :: "string \<Rightarrow> dispatch_request \<Rightarrow> bool" where
  "request_wf team r \<longleftrightarrow>
     dr_team r = team \<and> js_trim (dr_request_id r) \<noteq> [] \<and> js_trim (dr_to_worker r) \<noteq> [] \<and> js_trim (dr_trigger r) \<noteq> []
     \<and> (\<forall>n. dr_worker_index r = Some n \<longrightarrow> js_finite (JNum n)) \<and> opt_nonempty (dr_pane_id r)
     \<and> (\<forall>i. dr_intent r = Some i \<longrightarrow> i \<in> set team_reminder_intents) \<and> opt_nonempty (dr_message_id r)
     \<and> opt_nonempty (dr_inbox_key r) \<and> 0 \<le> dr_attempts r \<and> dr_created_at r \<noteq> [] \<and> dr_updated_at r \<noteq> []
     \<and> opt_nonempty (dr_notified_at r) \<and> opt_nonempty (dr_delivered_at r) \<and> opt_nonempty (dr_failed_at r)
     \<and> opt_nonempty (dr_last_reason r) \<and> sanitize_for_status r = r"

lemma nonempty_text_opt [simp]: "nonempty_text (opt_js x) = (if x = Some [] then None else x)"
  by (cases x) (auto simp: nonempty_text_def opt_js_def split: list.split)

lemma nonempty_text_JStr [simp]: "nonempty_text (JStr s) = (if s = [] then None else Some s)"
  by (auto simp: nonempty_text_def split: list.split)

lemma nonempty_textD: "opt_nonempty (nonempty_text v)"
  by (auto simp: nonempty_text_def opt_nonempty_def split: option.split list.split)

lemma text_or_nonempty: "d \<noteq> [] \<Longrightarrow> text_or v d \<noteq> []"
  by (auto simp: text_or_def nonempty_text_def split: option.splits list.splits)

lemma kind_read_back [simp]: "dispatch_kind_of (JStr (dispatch_kind_name k)) = Some k"
  by (cases k) (simp_all add: dispatch_kind_of_def)

lemma transport_read_back [simp]: "transport_of (JStr (transport_name p)) = p"
  by (cases p) (simp_all add: transport_of_def)

lemma status_read_back [simp]: "status_of_js (JStr (dispatch_status_name s)) = s"
  by (cases s) (simp_all add: status_of_js_def team_dispatch_statuses_def)

lemma attempts_read_back [simp]: "attempts_of (JInt n) = max 0 n"
  by (simp add: attempts_of_def)

lemma intent_read_back:
  "\<forall>i. x = Some i \<longrightarrow> i \<in> set team_reminder_intents \<Longrightarrow>
     (if is_team_reminder_intent (opt_js x) then js_string (opt_js x) else None) = x"
  by (cases x) (auto simp: opt_js_def is_team_reminder_intent_def)

lemma index_read_back:
  "\<forall>n. x = Some n \<longrightarrow> js_finite (JNum n) \<Longrightarrow> (case number_js x of JNum n \<Rightarrow> Some n | _ \<Rightarrow> None) = x"
  by (cases x) (auto simp: number_js_def split: jsnum.splits)

lemma request_js_get:
  "js_get (request_js r) ''request_id'' = JStr (dr_request_id r)"
  "js_get (request_js r) ''kind'' = JStr (dispatch_kind_name (dr_kind r))"
  "js_get (request_js r) ''to_worker'' = JStr (dr_to_worker r)"
  "js_get (request_js r) ''worker_index'' = number_js (dr_worker_index r)"
  "js_get (request_js r) ''pane_id'' = opt_js (dr_pane_id r)"
  "js_get (request_js r) ''trigger_message'' = JStr (dr_trigger r)"
  "js_get (request_js r) ''intent'' = opt_js (dr_intent r)"
  "js_get (request_js r) ''message_id'' = opt_js (dr_message_id r)"
  "js_get (request_js r) ''inbox_correlation_key'' = opt_js (dr_inbox_key r)"
  "js_get (request_js r) ''transport_preference'' = JStr (transport_name (dr_transport r))"
  "js_get (request_js r) ''fallback_allowed'' = JBool (dr_fallback r)"
  "js_get (request_js r) ''creation_transport'' = (if dr_legacy r then JStr ''legacy-json'' else JUndef)"
  "js_get (request_js r) ''status'' = JStr (dispatch_status_name (dr_status r))"
  "js_get (request_js r) ''attempt_count'' = JInt (dr_attempts r)"
  "js_get (request_js r) ''created_at'' = JStr (dr_created_at r)"
  "js_get (request_js r) ''updated_at'' = JStr (dr_updated_at r)"
  "js_get (request_js r) ''notified_at'' = opt_js (dr_notified_at r)"
  "js_get (request_js r) ''delivered_at'' = opt_js (dr_delivered_at r)"
  "js_get (request_js r) ''failed_at'' = opt_js (dr_failed_at r)"
  "js_get (request_js r) ''last_reason'' = opt_js (dr_last_reason r)"
  by (simp_all add: request_js_def rec_get_def)

lemma request_eta: "\<lparr> dr_request_id = dr_request_id r, dr_kind = dr_kind r, dr_team = dr_team r, dr_to_worker = dr_to_worker r,
       dr_worker_index = dr_worker_index r, dr_pane_id = dr_pane_id r, dr_trigger = dr_trigger r, dr_intent = dr_intent r,
       dr_message_id = dr_message_id r, dr_inbox_key = dr_inbox_key r, dr_transport = dr_transport r, dr_fallback = dr_fallback r,
       dr_legacy = dr_legacy r, dr_status = dr_status r, dr_attempts = dr_attempts r, dr_created_at = dr_created_at r,
       dr_updated_at = dr_updated_at r, dr_notified_at = dr_notified_at r, dr_delivered_at = dr_delivered_at r,
       dr_failed_at = dr_failed_at r, dr_last_reason = dr_last_reason r \<rparr> = r"
  by (cases r) simp

lemma request_read_back:
  assumes "request_wf team r"
  shows "normalize_dispatch_request team (request_js r) fresh now = Some r"
proof -
  have s: "sanitize_for_status r = r" and o: "opt_nonempty x \<Longrightarrow> (if x = Some [] then None else x) = x" for x
    using assms by (auto simp: request_wf_def opt_nonempty_def)
  have t: "js_trim [] = []" by simp
  have n: "dr_request_id r \<noteq> []" "dr_created_at r \<noteq> []" "dr_updated_at r \<noteq> []" using assms t by (auto simp: request_wf_def)
  have i: "(if is_team_reminder_intent (opt_js (dr_intent r)) then js_string (opt_js (dr_intent r)) else None) = dr_intent r"
    and x: "(case number_js (dr_worker_index r) of JNum n \<Rightarrow> Some n | _ \<Rightarrow> None) = dr_worker_index r"
    using assms by (intro intent_read_back index_read_back; simp add: request_wf_def)+
  have "normalize_dispatch_request team (request_js r) fresh now = Some (sanitize_for_status
     \<lparr> dr_request_id = dr_request_id r, dr_kind = dr_kind r, dr_team = dr_team r, dr_to_worker = dr_to_worker r,
       dr_worker_index = dr_worker_index r, dr_pane_id = dr_pane_id r, dr_trigger = dr_trigger r, dr_intent = dr_intent r,
       dr_message_id = dr_message_id r, dr_inbox_key = dr_inbox_key r, dr_transport = dr_transport r, dr_fallback = dr_fallback r,
       dr_legacy = dr_legacy r, dr_status = dr_status r, dr_attempts = dr_attempts r, dr_created_at = dr_created_at r,
       dr_updated_at = dr_updated_at r, dr_notified_at = dr_notified_at r, dr_delivered_at = dr_delivered_at r,
       dr_failed_at = dr_failed_at r, dr_last_reason = dr_last_reason r \<rparr>)"
    using assms n o unfolding normalize_dispatch_request_def Let_def request_js_get
    by (simp add: request_wf_def i x text_or_def)
  then show ?thesis unfolding request_eta s .
qed

lemma sanitize_idem [simp]: "sanitize_for_status (sanitize_for_status r) = sanitize_for_status r"
  by (simp add: sanitize_for_status_def split: dispatch_status.split)

lemma sanitize_frame [simp]:
  "dr_team (sanitize_for_status r) = dr_team r" "dr_request_id (sanitize_for_status r) = dr_request_id r"
  "dr_kind (sanitize_for_status r) = dr_kind r" "dr_status (sanitize_for_status r) = dr_status r"
  "dr_to_worker (sanitize_for_status r) = dr_to_worker r" "dr_trigger (sanitize_for_status r) = dr_trigger r"
  "dr_worker_index (sanitize_for_status r) = dr_worker_index r" "dr_pane_id (sanitize_for_status r) = dr_pane_id r"
  "dr_intent (sanitize_for_status r) = dr_intent r" "dr_message_id (sanitize_for_status r) = dr_message_id r"
  "dr_inbox_key (sanitize_for_status r) = dr_inbox_key r" "dr_attempts (sanitize_for_status r) = dr_attempts r"
  "dr_created_at (sanitize_for_status r) = dr_created_at r" "dr_updated_at (sanitize_for_status r) = dr_updated_at r"
  "dr_last_reason (sanitize_for_status r) = dr_last_reason r" "dr_legacy (sanitize_for_status r) = dr_legacy r"
  by (simp_all add: sanitize_for_status_def split: dispatch_status.split)

lemma sanitize_times:
  "opt_nonempty (dr_notified_at r) \<Longrightarrow> opt_nonempty (dr_notified_at (sanitize_for_status r))"
  "opt_nonempty (dr_delivered_at r) \<Longrightarrow> opt_nonempty (dr_delivered_at (sanitize_for_status r))"
  "opt_nonempty (dr_failed_at r) \<Longrightarrow> opt_nonempty (dr_failed_at (sanitize_for_status r))"
  by (simp_all add: sanitize_for_status_def opt_nonempty_def split: dispatch_status.split)

definition opt_texts_ok :: "dispatch_patch \<Rightarrow> bool" where
  "opt_texts_ok p \<longleftrightarrow> list_all opt_nonempty
     [pa_message_id p, pa_last_reason p, pa_notified_at p, pa_delivered_at p, pa_failed_at p]"

text \<open>A patch a caller may give for a target status: no empty texts, and no failure time for a
  notification.\<close>

definition patch_ok :: "dispatch_status \<Rightarrow> dispatch_patch \<Rightarrow> bool" where
  "patch_ok t p \<longleftrightarrow> opt_texts_ok p \<and> (t = DNotified \<longrightarrow> pa_failed_at p = None)"

lemma or_else_nonempty: "opt_nonempty a \<Longrightarrow> opt_nonempty b \<Longrightarrow> opt_nonempty (or_else a b)"
  by (cases a) (simp_all add: or_else_def)

lemma patched_frame [simp]:
  "dr_request_id (patched_request r t p now) = dr_request_id r" "dr_kind (patched_request r t p now) = dr_kind r"
  "dr_team (patched_request r t p now) = dr_team r" "dr_to_worker (patched_request r t p now) = dr_to_worker r"
  "dr_trigger (patched_request r t p now) = dr_trigger r" "dr_intent (patched_request r t p now) = dr_intent r"
  "dr_pane_id (patched_request r t p now) = dr_pane_id r" "dr_inbox_key (patched_request r t p now) = dr_inbox_key r"
  "dr_worker_index (patched_request r t p now) = dr_worker_index r" "dr_created_at (patched_request r t p now) = dr_created_at r"
  "dr_status (patched_request r t p now) = t" "dr_updated_at (patched_request r t p now) = now"
  "dr_attempts (patched_request r t p now) = max 0 (next_attempts r t (pa_attempts p))"
  "dr_last_reason (patched_request r t p now) = or_else (pa_last_reason p) (dr_last_reason r)"
  "dr_message_id (patched_request r t p now) = or_else (pa_message_id p) (dr_message_id r)"
  by (simp_all add: patched_request_def Let_def split: dispatch_status.split)

lemma patched_sanitized:
  "patch_ok t p \<Longrightarrow> sanitize_for_status (patched_request r t p now) = patched_request r t p now"
  by (cases t) (simp_all add: patched_request_def sanitize_for_status_def Let_def patch_ok_def)

lemma patched_times:
  assumes "patch_ok t p" "request_wf team r" "now \<noteq> []"
  shows "opt_nonempty (dr_notified_at (patched_request r t p now)) \<and> opt_nonempty (dr_delivered_at (patched_request r t p now))
    \<and> opt_nonempty (dr_failed_at (patched_request r t p now))"
proof -
  have o: "opt_nonempty (or_else (pa_notified_at p) (dr_notified_at r))" "opt_nonempty (or_else (pa_delivered_at p) (dr_delivered_at r))"
    "opt_nonempty (or_else (pa_failed_at p) (dr_failed_at r))" "opt_nonempty (or_else (pa_notified_at p) (Some now))"
    "opt_nonempty (or_else (pa_delivered_at p) (Some now))" "opt_nonempty (or_else (pa_failed_at p) (Some now))" "opt_nonempty (pa_failed_at p)"
    "opt_nonempty None"
    using assms by (auto intro!: or_else_nonempty simp: patch_ok_def opt_texts_ok_def request_wf_def) (simp_all add: opt_nonempty_def)
  show ?thesis by (cases t) (simp_all add: patched_request_def sanitize_for_status_def Let_def o)
qed

lemma patched_wf:
  assumes "request_wf team r" "patch_ok t p" "now \<noteq> []"
  shows "request_wf team (patched_request r t p now)"
proof -
  have "opt_nonempty (or_else (pa_last_reason p) (dr_last_reason r))" "opt_nonempty (or_else (pa_message_id p) (dr_message_id r))"
    using assms by (auto intro!: or_else_nonempty simp: patch_ok_def opt_texts_ok_def request_wf_def)
  then show ?thesis
    using assms patched_times [OF assms(2,1,3)] patched_sanitized [OF assms(2)]
    by (simp add: request_wf_def)
qed

subsection \<open>New requests\<close>

text \<open>An input whose texts are present or absent, never empty, and whose intent is a known one.\<close>

definition input_ok :: "dispatch_input \<Rightarrow> bool" where
  "input_ok i \<longleftrightarrow>
     js_trim (di_to_worker i) \<noteq> [] \<and> js_trim (di_trigger i) \<noteq> []
     \<and> (\<forall>n. di_worker_index i = Some n \<longrightarrow> js_finite (JNum n))
     \<and> (\<forall>x. di_intent i = Some x \<longrightarrow> x \<in> set team_reminder_intents)
     \<and> list_all opt_nonempty [di_pane_id i, di_message_id i, di_inbox_key i, di_last_reason i]"

definition new_request :: "string \<Rightarrow> dispatch_input \<Rightarrow> string \<Rightarrow> string \<Rightarrow> dispatch_request" where
  "new_request team i fresh now =
     \<lparr> dr_request_id = fresh, dr_kind = di_kind i, dr_team = team, dr_to_worker = di_to_worker i,
       dr_worker_index = di_worker_index i, dr_pane_id = di_pane_id i, dr_trigger = di_trigger i, dr_intent = di_intent i,
       dr_message_id = di_message_id i, dr_inbox_key = di_inbox_key i,
       dr_transport = (case di_transport i of None \<Rightarrow> HookPreferred | Some p \<Rightarrow> p),
       dr_fallback = (di_fallback i \<noteq> Some False), dr_legacy = False, dr_status = DPending, dr_attempts = 0,
       dr_created_at = now, dr_updated_at = now, dr_notified_at = None, dr_delivered_at = None, dr_failed_at = None,
       dr_last_reason = di_last_reason i \<rparr>"

lemma new_request_js_get:
  "js_get (new_request_js i fresh now) ''request_id'' = JStr fresh"
  "js_get (new_request_js i fresh now) ''kind'' = JStr (dispatch_kind_name (di_kind i))"
  "js_get (new_request_js i fresh now) ''to_worker'' = JStr (di_to_worker i)"
  "js_get (new_request_js i fresh now) ''worker_index'' = (case di_worker_index i of None \<Rightarrow> JUndef | Some n \<Rightarrow> JNum n)"
  "js_get (new_request_js i fresh now) ''pane_id'' = opt_js (di_pane_id i)"
  "js_get (new_request_js i fresh now) ''trigger_message'' = JStr (di_trigger i)"
  "js_get (new_request_js i fresh now) ''intent'' = opt_js (di_intent i)"
  "js_get (new_request_js i fresh now) ''message_id'' = opt_js (di_message_id i)"
  "js_get (new_request_js i fresh now) ''inbox_correlation_key'' = opt_js (di_inbox_key i)"
  "js_get (new_request_js i fresh now) ''transport_preference'' = (case di_transport i of None \<Rightarrow> JUndef | Some p \<Rightarrow> JStr (transport_name p))"
  "js_get (new_request_js i fresh now) ''fallback_allowed'' = (case di_fallback i of None \<Rightarrow> JUndef | Some b \<Rightarrow> JBool b)"
  "js_get (new_request_js i fresh now) ''creation_transport'' = JUndef"
  "js_get (new_request_js i fresh now) ''status'' = JStr (dispatch_status_name DPending)"
  "js_get (new_request_js i fresh now) ''attempt_count'' = JInt 0"
  "js_get (new_request_js i fresh now) ''created_at'' = JStr now" "js_get (new_request_js i fresh now) ''updated_at'' = JStr now"
  "js_get (new_request_js i fresh now) ''notified_at'' = JUndef" "js_get (new_request_js i fresh now) ''delivered_at'' = JUndef"
  "js_get (new_request_js i fresh now) ''failed_at'' = JUndef" "js_get (new_request_js i fresh now) ''last_reason'' = opt_js (di_last_reason i)"
  by (simp_all add: new_request_js_def rec_get_def)

lemma nonempty_text_JUndef [simp]: "nonempty_text JUndef = None"
  by (simp add: nonempty_text_def)

lemma new_request_normalized:
  assumes "input_ok i" "js_trim fresh \<noteq> []" "now \<noteq> []"
  shows "normalize_dispatch_request team (new_request_js i fresh now) fresh now = Some (new_request team i fresh now)"
proof -
  have o: "opt_nonempty x \<Longrightarrow> (if x = Some [] then None else x) = x" for x by (simp add: opt_nonempty_def)
  have f: "fresh \<noteq> []" using assms(2) by auto
  have i: "(if is_team_reminder_intent (opt_js (di_intent i)) then js_string (opt_js (di_intent i)) else None) = di_intent i"
    using assms(1) by (intro intent_read_back) (simp add: input_ok_def)
  have x: "(case (case di_worker_index i of None \<Rightarrow> JUndef | Some n \<Rightarrow> JNum n) of JNum n \<Rightarrow> Some n | _ \<Rightarrow> None) = di_worker_index i"
    by (cases "di_worker_index i") simp_all
  have t: "transport_of (case di_transport i of None \<Rightarrow> JUndef | Some p \<Rightarrow> JStr (transport_name p))
      = (case di_transport i of None \<Rightarrow> HookPreferred | Some p \<Rightarrow> p)"
    by (cases "di_transport i") (simp_all, simp add: transport_of_def)
  have b: "((case di_fallback i of None \<Rightarrow> JUndef | Some b \<Rightarrow> JBool b) \<noteq> JBool False) = (di_fallback i \<noteq> Some False)"
    by (cases "di_fallback i") simp_all
  show ?thesis
    using assms f o unfolding normalize_dispatch_request_def Let_def new_request_js_get i x t b status_read_back attempts_read_back
    by (simp add: input_ok_def text_or_def new_request_def sanitize_for_status_def)
qed

lemma new_request_wf:
  "input_ok i \<Longrightarrow> js_trim fresh \<noteq> [] \<Longrightarrow> now \<noteq> [] \<Longrightarrow> request_wf team (new_request team i fresh now\<lparr> dr_legacy := True \<rparr>)"
  by (auto simp: request_wf_def new_request_def input_ok_def sanitize_for_status_def opt_nonempty_def)

lemma new_request_equivalent: "equivalent_pending_dispatch (new_request team i fresh now\<lparr> dr_legacy := True \<rparr>) i"
  by (simp add: equivalent_pending_dispatch_def same_mailbox_wake_target_def new_request_def)

subsection \<open>Runs of operations\<close>

datatype dispatch_op =
    OpEnqueue dispatch_input string
  | OpTransition string dispatch_status dispatch_status dispatch_patch
  | OpNotified string dispatch_patch
  | OpDelivered string dispatch_patch
  | OpFailed string string

fun exec_dispatch :: "('s, 'm) dispatch_deps_scheme \<Rightarrow> string \<Rightarrow> dispatch_op \<Rightarrow> 's \<Rightarrow> 's" where
  "exec_dispatch d now (OpEnqueue i fresh) s = fst (enqueue_dispatch_request d i fresh now s)"
| "exec_dispatch d now (OpTransition i f t p) s = fst (transition_dispatch_request d i f t p now s)"
| "exec_dispatch d now (OpNotified i p) s = fst (mark_dispatch_request_notified d i p now s)"
| "exec_dispatch d now (OpDelivered i p) s = fst (mark_dispatch_request_delivered d i p now s)"
| "exec_dispatch d now (OpFailed i reason) s = fst (mark_dispatch_request_failed d i reason now s)"

definition run_dispatch :: "('s, 'm) dispatch_deps_scheme \<Rightarrow> string \<Rightarrow> dispatch_op list \<Rightarrow> 's \<Rightarrow> 's" where
  "run_dispatch d now ops s = fold (exec_dispatch d now) ops s"

fun op_ok :: "dispatch_op \<Rightarrow> bool" where
  "op_ok (OpEnqueue i fresh) \<longleftrightarrow> input_ok i \<and> js_trim fresh \<noteq> []"
| "op_ok (OpTransition i f t p) \<longleftrightarrow> patch_ok t p"
| "op_ok (OpNotified i p) \<longleftrightarrow> patch_ok DNotified p"
| "op_ok (OpDelivered i p) \<longleftrightarrow> patch_ok DDelivered p"
| "op_ok (OpFailed i reason) \<longleftrightarrow> reason \<noteq> []"

text \<open>How a request may change: its address and its message never, its status along the table, its
  attempts upwards.\<close>

definition evolves :: "dispatch_request \<Rightarrow> dispatch_request \<Rightarrow> bool" where
  "evolves r r' \<longleftrightarrow>
     dr_request_id r' = dr_request_id r \<and> dr_kind r' = dr_kind r \<and> dr_team r' = dr_team r \<and> dr_to_worker r' = dr_to_worker r
     \<and> dr_trigger r' = dr_trigger r \<and> dr_pane_id r' = dr_pane_id r \<and> dr_intent r' = dr_intent r
     \<and> can_transition_dispatch_status\<^sup>*\<^sup>* (dr_status r) (dr_status r') \<and> dr_attempts r \<le> dr_attempts r'"

lemma evolves_refl: "evolves r r"
  by (simp add: evolves_def)

lemma evolves_trans: "evolves r r' \<Longrightarrow> evolves r' r'' \<Longrightarrow> evolves r r''"
  unfolding evolves_def by (elim conjE, intro conjI) (simp_all add: rtranclp_trans)

lemma evolves_patched: "can_transition_dispatch (dr_status r) t \<Longrightarrow> evolves r (patched_request r t p now)"
  by (auto simp: evolves_def can_transition_dispatch_def next_attempts_def)

text \<open>A mailbox request without a message.\<close>

definition refused :: "dispatch_input \<Rightarrow> bool" where
  "refused i \<longleftrightarrow> di_kind i = KMailbox \<and> js_trim (case di_message_id i of None \<Rightarrow> [] | Some m \<Rightarrow> m) = []"

subsection \<open>The interface of the operations\<close>

text \<open>What the operations need of the functions they are given: every request that is read is
  well formed, and writing well-formed requests makes them the ones that are read.\<close>

locale dispatch_store =
  fixes d :: "'s dispatch_deps"
  assumes read_write: "\<forall>r \<in> set rs. request_wf (dd_team d) r \<Longrightarrow> dd_read d (dd_write d rs s) = rs"
begin

definition ok :: "'s \<Rightarrow> bool" where
  "ok s \<longleftrightarrow> (\<forall>r \<in> set (dd_read d s). request_wf (dd_team d) r)"

lemma transition_locked_cases:
  assumes "ok s" "patch_ok t p" "now \<noteq> []"
  shows "transition_locked d i f t p now s = (s, None)
    \<or> (\<exists>j s'. find_index (\<lambda>r. dr_request_id r = i) (dd_read d s) = Some j
        \<and> can_transition_dispatch (dr_status (dd_read d s ! j)) t
        \<and> dd_read d s' = (dd_read d s)[j := patched_request (dd_read d s ! j) t p now]
        \<and> transition_locked d i f t p now s = (s', Some (patched_request (dd_read d s ! j) t p now)) \<and> ok s')"
proof (cases "find_index (\<lambda>r. dr_request_id r = i) (dd_read d s)")
  case None
  then show ?thesis by (simp add: transition_locked_def)
next
  case (Some j)
  let ?r = "dd_read d s ! j"
  have j: "j < length (dd_read d s)" "dr_request_id ?r = i" using find_index_Some [OF Some] by auto
  show ?thesis
  proof (cases "dr_status ?r \<noteq> f \<and> dr_status ?r \<noteq> t \<or> \<not> can_transition_dispatch (dr_status ?r) t")
    case True
    then show ?thesis using Some by (simp add: transition_locked_def Let_def)
  next
    case False
    let ?new = "patched_request ?r t p now"
    let ?rs = "(dd_read d s)[j := ?new]"
    define s' where "s' = dd_write d ?rs s"
    have "request_wf (dd_team d) ?r" using assms(1) j(1) by (simp add: ok_def)
    then have "request_wf (dd_team d) ?new" by (rule patched_wf [OF _ assms(2,3)])
    then have wf: "\<forall>r \<in> set ?rs. request_wf (dd_team d) r"
      using assms(1) by (auto simp: ok_def dest!: set_update_subset_insert [THEN subsetD])
    then have rd: "dd_read d s' = ?rs" unfolding s'_def by (rule read_write)
    have "find_index (\<lambda>r. dr_request_id r = i) ?rs = Some j"
      using Some j by (intro find_index_update) simp_all
    then have "read_request d i s' = Some ?new"
      using j(1) by (simp add: read_request_def rd find_eq_find_index)
    moreover have "ok s'" using wf by (simp add: ok_def rd)
    moreover have "transition_locked d i f t p now s =
        (if dr_status ?r \<noteq> f \<and> dr_status ?r \<noteq> t \<or> \<not> can_transition_dispatch (dr_status ?r) t then (s, None)
         else (s', read_request d i s'))"
      using Some by (simp add: transition_locked_def Let_def s'_def)
    then have "transition_locked d i f t p now s = (s', read_request d i s')" unfolding if_not_P [OF False] .
    ultimately show ?thesis using Some False rd by auto
  qed
qed

lemma locked_step:
  assumes "ok s" "patch_ok t p" "now \<noteq> []" "transition_locked d i f t p now s = (s', res)"
  shows "ok s' \<and> (\<forall>k r. read_request d k s = Some r \<longrightarrow> (\<exists>r'. read_request d k s' = Some r' \<and> evolves r r'))"
proof -
  from transition_locked_cases [OF assms(1-3), of i f] consider
      "transition_locked d i f t p now s = (s, None)"
    | j s'' where "find_index (\<lambda>r. dr_request_id r = i) (dd_read d s) = Some j"
        "can_transition_dispatch (dr_status (dd_read d s ! j)) t"
        "dd_read d s'' = (dd_read d s)[j := patched_request (dd_read d s ! j) t p now]"
        "transition_locked d i f t p now s = (s'', Some (patched_request (dd_read d s ! j) t p now))" "ok s''"
    by blast
  then show ?thesis
  proof cases
    case 1
    then show ?thesis using assms(1,4) by (auto simp: evolves_refl)
  next
    case (2 j s'')
    let ?r = "dd_read d s ! j"
    have s': "s' = s''" using 2(4) assms(4) by simp
    have j: "j < length (dd_read d s)" "dr_request_id ?r = i" using find_index_Some [OF 2(1)] by auto
    have fj: "List.find (\<lambda>r. dr_request_id r = i) (dd_read d s) = Some ?r"
      using 2(1) by (simp add: find_eq_find_index)
    have "\<exists>r'. read_request d k s'' = Some r' \<and> evolves r r'" if k: "read_request d k s = Some r" for k r
    proof (cases "k = i")
      case True
      then have "r = ?r" using k fj by (simp add: read_request_def)
      moreover have "read_request d k s'' = Some (patched_request ?r t p now)"
        using True 2(3) j find_index_update [OF 2(1), of "patched_request ?r t p now"]
        by (simp add: read_request_def find_eq_find_index)
      ultimately show ?thesis using evolves_patched [OF 2(2)] by blast
    next
      case False
      have "read_request d k s'' = read_request d k s"
        unfolding read_request_def 2(3) using False j by (intro find_update_other) simp_all
      then show ?thesis using k evolves_refl by auto
    qed
    then show ?thesis using 2(5) s' by blast
  qed
qed

end

text \<open>The deployment without a bridge: every command is left to the file.\<close>

locale fallback_dispatch = dispatch_store +
  assumes exec: "dd_exec d c s = NotExecuted"
begin

lemma enqueue_value:
  assumes "input_ok i" "js_trim fresh \<noteq> []" "now \<noteq> []"
  shows "enqueue_dispatch_request d i fresh now s =
     (if refused i then (s, Inl MessageIdRequired)
      else if \<not> dd_valid_worker d (di_to_worker i) then (s, Inl InvalidWorker)
      else case List.find (\<lambda>r. equivalent_pending_dispatch r i) (dd_read d s) of
             Some r \<Rightarrow> (s, Inr (r, True))
           | None \<Rightarrow> (let r = new_request (dd_team d) i fresh now\<lparr> dr_legacy := True \<rparr>
                      in (dd_write d (dd_read d s @ [r]) s, Inr (r, False))))"
  unfolding enqueue_dispatch_request_def new_request_normalized [OF assms] exec Let_def option.case bridge_result.case
    refused_def by (rule refl)

lemma enqueue_accepted:
  assumes "input_ok i" "js_trim fresh \<noteq> []" "now \<noteq> []" "enqueue_dispatch_request d i fresh now s = (s', Inr x)"
  shows "\<not> refused i" "dd_valid_worker d (di_to_worker i)"
proof -
  note v = assms(4) [unfolded enqueue_value [OF assms(1-3)]]
  show a: "\<not> refused i"
  proof
    assume "refused i"
    then show False using v by simp
  qed
  show "dd_valid_worker d (di_to_worker i)"
  proof (rule ccontr)
    assume "\<not> dd_valid_worker d (di_to_worker i)"
    with a show False using v by simp
  qed
qed

lemma enqueue_existing:
  assumes "input_ok i" "js_trim fresh \<noteq> []" "now \<noteq> []" "\<not> refused i" "dd_valid_worker d (di_to_worker i)"
    and "r \<in> set (dd_read d s)" "equivalent_pending_dispatch r i"
  shows "\<exists>q. enqueue_dispatch_request d i fresh now s = (s, Inr (q, True)) \<and> equivalent_pending_dispatch q i"
proof -
  obtain q where q: "List.find (\<lambda>r. equivalent_pending_dispatch r i) (dd_read d s) = Some q"
    using assms(6,7) by (metis find_None_iff option.exhaust)
  then have "equivalent_pending_dispatch q i" using find_SomeD by metis
  then show ?thesis using q assms(4,5) by (simp add: enqueue_value [OF assms(1-3)])
qed

lemma enqueue_cases:
  assumes "ok s" "input_ok i" "js_trim fresh \<noteq> []" "now \<noteq> []"
  shows "(\<exists>e. enqueue_dispatch_request d i fresh now s = (s, Inl e) \<and> e \<noteq> NormalizeFailed \<and> e \<noteq> BridgeFailed)
    \<or> (\<exists>r \<in> set (dd_read d s). equivalent_pending_dispatch r i \<and> enqueue_dispatch_request d i fresh now s = (s, Inr (r, True)))
    \<or> (let r = new_request (dd_team d) i fresh now\<lparr> dr_legacy := True \<rparr>
       in (\<forall>q \<in> set (dd_read d s). \<not> equivalent_pending_dispatch q i)
          \<and> (\<exists>s'. enqueue_dispatch_request d i fresh now s = (s', Inr (r, False)) \<and> dd_read d s' = dd_read d s @ [r] \<and> ok s'))"
proof -
  let ?r = "new_request (dd_team d) i fresh now\<lparr> dr_legacy := True \<rparr>"
  have wf: "request_wf (dd_team d) ?r" by (rule new_request_wf [OF assms(2-4)])
  have rd: "dd_read d (dd_write d (dd_read d s @ [?r]) s) = dd_read d s @ [?r]"
    using assms(1) wf by (intro read_write) (auto simp: ok_def)
  let ?F = "List.find (\<lambda>r. equivalent_pending_dispatch r i) (dd_read d s)"
  note val = enqueue_value [OF assms(2-4), of s]
  consider (err) e where "enqueue_dispatch_request d i fresh now s = (s, Inl e)" "e = MessageIdRequired \<or> e = InvalidWorker"
    | (dup) r where "?F = Some r" "enqueue_dispatch_request d i fresh now s = (s, Inr (r, True))"
    | (new) "?F = None" "enqueue_dispatch_request d i fresh now s = (dd_write d (dd_read d s @ [?r]) s, Inr (?r, False))"
  proof (cases "refused i \<or> \<not> dd_valid_worker d (di_to_worker i)")
    case True
    then show ?thesis using err val by (cases "refused i") simp_all
  next
    case False
    then show ?thesis using dup new val by (cases ?F) (simp_all add: Let_def)
  qed
  then show ?thesis
  proof cases
    case err
    then show ?thesis by auto
  next
    case dup
    then show ?thesis using find_SomeD by metis
  next
    case new
    have "\<forall>q \<in> set (dd_read d s). \<not> equivalent_pending_dispatch q i"
      using new(1) by (simp add: find_None_iff)
    moreover have "ok (dd_write d (dd_read d s @ [?r]) s)" using assms(1) wf by (auto simp: ok_def rd)
    ultimately show ?thesis using new(2) rd unfolding Let_def by blast
  qed
qed

lemma step:
  assumes "ok s" "op_ok op" "now \<noteq> []"
  shows "ok (exec_dispatch d now op s)
    \<and> (\<forall>k r. read_request d k s = Some r \<longrightarrow> (\<exists>r'. read_request d k (exec_dispatch d now op s) = Some r' \<and> evolves r r'))"
proof -
  have same: "ok s \<and> (\<forall>k r. read_request d k s = Some r \<longrightarrow> (\<exists>r'. read_request d k s = Some r' \<and> evolves r r'))"
    using assms(1) evolves_refl by blast
  have locked: "ok (fst (transition_locked d i f t p now s)) \<and> (\<forall>k r. read_request d k s = Some r \<longrightarrow>
      (\<exists>r'. read_request d k (fst (transition_locked d i f t p now s)) = Some r' \<and> evolves r r'))" if "patch_ok t p" for i f t p
    using locked_step [OF assms(1) that assms(3), of i f] by (metis prod.collapse)
  show ?thesis
  proof (cases op)
    case (OpEnqueue i fresh)
    have f: "js_trim fresh \<noteq> []" "input_ok i" using assms(2) OpEnqueue by simp_all
    from enqueue_cases [OF assms(1) f(2,1) assms(3)] consider
        "fst (enqueue_dispatch_request d i fresh now s) = s"
      | q s' where "fst (enqueue_dispatch_request d i fresh now s) = s'" "dd_read d s' = dd_read d s @ [q]" "ok s'"
      unfolding Let_def by fastforce
    then show ?thesis
    proof cases
      case 1
      then show ?thesis using same OpEnqueue by simp
    next
      case (2 q s')
      have "read_request d k s' = Some r" if "read_request d k s = Some r" for k r
        using that by (simp add: read_request_def 2(2) find_append)
      then show ?thesis using 2(1,3) OpEnqueue evolves_refl by auto
    qed
  next
    case (OpTransition i f t p)
    have e: "(case (if dr_status r = t then NotExecuted else case mark_command i t p of None \<Rightarrow> NotExecuted | Some c \<Rightarrow> dd_exec d c s) of
        Executed x \<Rightarrow> a x | NotExecuted \<Rightarrow> b | BridgeThrew \<Rightarrow> c') = b" for r a b c'
      by (simp add: exec split: option.split)
    have "exec_dispatch d now op s = s \<or> exec_dispatch d now op s = fst (transition_locked d i f t p now s)"
      unfolding OpTransition exec_dispatch.simps transition_dispatch_request_def e by (auto split: option.split)
    then show ?thesis using same locked assms(2) OpTransition by fastforce
  next
    case (OpNotified i p)
    have "exec_dispatch d now op s = s \<or> (\<exists>f. exec_dispatch d now op s = fst (transition_locked d i f DNotified p now s))"
      unfolding OpNotified exec_dispatch.simps mark_dispatch_request_notified_def exec by (auto split: option.split)
    then show ?thesis using same locked assms(2) OpNotified by fastforce
  next
    case (OpDelivered i p)
    have "exec_dispatch d now op s = s \<or> (\<exists>f. exec_dispatch d now op s = fst (transition_locked d i f DDelivered p now s))"
      unfolding OpDelivered exec_dispatch.simps mark_dispatch_request_delivered_def exec by (auto split: option.split)
    then show ?thesis using same locked assms(2) OpDelivered by fastforce
  next
    case (OpFailed i reason)
    let ?p = "no_patch\<lparr> pa_last_reason := Some reason \<rparr>"
    have "patch_ok DFailed ?p" using assms(2) OpFailed by (simp add: patch_ok_def opt_texts_ok_def no_patch_def opt_nonempty_def)
    moreover have "exec_dispatch d now op s = s \<or> exec_dispatch d now op s = fst (transition_locked d i DPending DFailed ?p now s)"
      unfolding OpFailed exec_dispatch.simps mark_dispatch_request_failed_def exec by (auto split: option.split)
    ultimately show ?thesis using same locked by fastforce
  qed
qed

lemma run:
  assumes "ok s" "\<forall>op \<in> set ops. op_ok op" "now \<noteq> []" "read_request d k s = Some r"
  shows "\<exists>r'. read_request d k (run_dispatch d now ops s) = Some r' \<and> evolves r r'"
  using assms
proof (induction ops arbitrary: s r)
  case Nil
  then show ?case by (simp add: evolves_refl run_dispatch_def)
next
  case (Cons op ops)
  have "op_ok op" "\<forall>op \<in> set ops. op_ok op" using Cons.prems(2) by simp_all
  note st = step [OF Cons.prems(1) this(1) Cons.prems(3)] this(2)
  obtain r1 where r1: "read_request d k (exec_dispatch d now op s) = Some r1" "evolves r r1"
    using st(1) Cons.prems(4) by blast
  have "\<exists>r'. read_request d k (run_dispatch d now ops (exec_dispatch d now op s)) = Some r' \<and> evolves r1 r'"
    using Cons.IH [OF _ st(2) Cons.prems(3) r1(1)] st(1) by blast
  then obtain r2 where "read_request d k (run_dispatch d now ops (exec_dispatch d now op s)) = Some r2" "evolves r1 r2"
    by blast
  then show ?case using evolves_trans [OF r1(2)] by (auto simp: run_dispatch_def)
qed

end

subsection \<open>The file of a team\<close>

text \<open>The operations over the request file, as its array of values, with the bridge left out.\<close>

definition file_deps :: "string \<Rightarrow> (nat \<Rightarrow> string) \<Rightarrow> string \<Rightarrow> (string \<Rightarrow> bool) \<Rightarrow> js list dispatch_deps" where
  "file_deps team fresh now valid =
     \<lparr> dd_team = team, dd_read = (\<lambda>vs. normalized_entries team vs fresh now), dd_write = (\<lambda>rs _. map request_js rs),
       dd_exec = (\<lambda>_ _. NotExecuted), dd_valid_worker = valid \<rparr>"

lemma entries_read_back:
  "\<forall>r \<in> set rs. request_wf team r \<Longrightarrow>
     List.map_filter (\<lambda>(n, v). normalize_dispatch_request team v (fresh n) now) (zip [k..<k + length rs] (map request_js rs)) = rs"
proof (induction rs arbitrary: k)
  case (Cons r rs)
  have "[k..<k + length (r # rs)] = k # [Suc k..<Suc k + length rs]" by (simp add: upt_rec)
  moreover have "normalize_dispatch_request team (request_js r) (fresh k) now = Some r"
    using Cons.prems by (intro request_read_back) simp
  ultimately show ?case using Cons.IH [of "Suc k"] Cons.prems by (simp add: List.map_filter_simps)
qed (simp add: List.map_filter_simps)

interpretation file_store: fallback_dispatch "file_deps team fresh now valid" for team fresh now valid
proof unfold_locales
  fix rs :: "dispatch_request list" and s
  assume "\<forall>r \<in> set rs. request_wf (dd_team (file_deps team fresh now valid)) r"
  then show "dd_read (file_deps team fresh now valid) (dd_write (file_deps team fresh now valid) rs s) = rs"
    using entries_read_back [of rs team fresh now 0] by (simp add: file_deps_def normalized_entries_def)
qed (simp add: file_deps_def)

lemma file_deps_fields [simp]:
  "dd_team (file_deps team fresh now valid) = team"
  "dd_read (file_deps team fresh now valid) vs = normalized_entries team vs fresh now"
  "dd_exec (file_deps team fresh now valid) c vs = NotExecuted"
  by (simp_all add: file_deps_def)

lemma file_ok: "\<forall>r \<in> set rs. request_wf team r \<Longrightarrow> normalized_entries team (map request_js rs) fresh now = rs"
  using entries_read_back [of rs team fresh now 0] by (simp add: normalized_entries_def)

subsection \<open>Properties\<close>

text \<open>C32. A request survives its file: the value written for a well-formed request is normalised to
  the same request, and so is the whole array of requests.\<close>

theorem dispatch_file_round_trip:
  assumes "\<forall>r \<in> set rs. request_wf team r"
  shows "read_dispatch_requests team (JsonFile (JArr (map request_js rs))) None fresh now = Some rs"
  using file_ok [OF assms] by (simp add: read_dispatch_requests_def normalized_requests_def)

definition demo_input :: dispatch_input where
  "demo_input = \<lparr> di_kind = KInbox, di_to_worker = ''w1'', di_worker_index = None, di_pane_id = None,
     di_trigger = ''go'', di_intent = None, di_message_id = None, di_inbox_key = None, di_transport = None,
     di_fallback = None, di_last_reason = None \<rparr>"

definition demo_request :: dispatch_request where
  "demo_request = new_request ''t'' demo_input ''r1'' ''now''\<lparr> dr_legacy := True \<rparr>"

lemma demo_ok: "input_ok demo_input" "js_trim ''r1'' \<noteq> []" "request_wf ''t'' demo_request"
proof -
  have t: "js_trim ''w1'' \<noteq> []" "js_trim ''go'' \<noteq> []" "js_trim ''r1'' \<noteq> []" by code_simp+
  then show i: "input_ok demo_input" "js_trim ''r1'' \<noteq> []"
    by (simp_all add: input_ok_def demo_input_def opt_nonempty_def)
  show "request_wf ''t'' demo_request" unfolding demo_request_def by (rule new_request_wf [OF i]) simp
qed

theorem dispatch_file_round_trip_witness:
  "read_dispatch_requests ''t'' (JsonFile (JArr [request_js demo_request])) None (\<lambda>_. ''x'') ''now'' = Some [demo_request]"
  using dispatch_file_round_trip [of "[demo_request]" "''t''" "\<lambda>_. ''x''" "''now''"] demo_ok(3) by simp

text \<open>C9. Over any run of enqueues, transitions and marks on the file, a request keeps its identity,
  its status moves only along the transition table, its attempts never decrease, and a
  delivered or failed request never changes its status again.\<close>

theorem dispatch_status_monotone:
  fixes team fresh now valid
  defines "d \<equiv> file_deps team fresh now valid"
  assumes "\<forall>r \<in> set (dd_read d s). request_wf team r" "\<forall>op \<in> set ops. op_ok op" "now \<noteq> []"
    and "read_request d k s = Some r"
  shows "\<exists>r'. read_request d k (run_dispatch d now ops s) = Some r' \<and> evolves r r'
    \<and> (is_terminal_dispatch_status (dr_status r) \<longrightarrow> dr_status r' = dr_status r)"
proof -
  have "file_store.ok team fresh now valid s" using assms(2) by (simp add: file_store.ok_def d_def)
  from file_store.run [OF this assms(3,4) assms(5) [unfolded d_def]] obtain r' where
    r': "read_request d k (run_dispatch d now ops s) = Some r'" "evolves r r'" unfolding d_def by blast
  have "dr_status r' = dr_status r" if "is_terminal_dispatch_status (dr_status r)"
    using dispatch_machine.terminal_reach [OF _ that] r'(2) by (simp add: evolves_def)
  then show ?thesis using r' by blast
qed

theorem dispatch_status_monotone_witness:
  "\<exists>r'. read_request (file_deps ''t'' (\<lambda>_. ''x'') ''now'' (\<lambda>_. True)) ''r1''
       (run_dispatch (file_deps ''t'' (\<lambda>_. ''x'') ''now'' (\<lambda>_. True)) ''now''
         [OpNotified ''r1'' no_patch, OpFailed ''r1'' ''why''] [request_js demo_request]) = Some r'
     \<and> evolves demo_request r'"
proof -
  let ?d = "file_deps ''t'' (\<lambda>_. ''x'') ''now'' (\<lambda>_. True)"
  have rd: "normalized_entries ''t'' [request_js demo_request] (\<lambda>_. ''x'') ''now'' = [demo_request]"
    using file_ok [of "[demo_request]" "''t''"] demo_ok(3) by simp
  then have "read_request ?d ''r1'' [request_js demo_request] = Some demo_request"
    by (simp add: read_request_def demo_request_def new_request_def)
  moreover have "\<forall>op \<in> set [OpNotified ''r1'' no_patch, OpFailed ''r1'' ''why'']. op_ok op"
    by (simp add: patch_ok_def opt_texts_ok_def no_patch_def opt_nonempty_def)
  moreover have "\<forall>r \<in> set (dd_read ?d [request_js demo_request]). request_wf ''t'' r"
    using rd demo_ok(3) by simp
  ultimately show ?thesis using dispatch_status_monotone [of "''t''" "\<lambda>_. ''x''" "''now''" "\<lambda>_. True"] by fastforce
qed

text \<open>Enqueueing is idempotent: the first enqueue either finds an equivalent live request or
  appends exactly one pending request with no attempts, and enqueueing the same input again
  returns a request that is equivalent to it and changes nothing.\<close>

theorem enqueue_deduplicates:
  fixes team fresh now valid
  defines "d \<equiv> file_deps team fresh now valid"
  assumes "\<forall>r \<in> set (dd_read d s). request_wf team r" "input_ok i" "js_trim x \<noteq> []" "now \<noteq> []" "js_trim y \<noteq> []"
    and first: "enqueue_dispatch_request d i x now s = (s', Inr (r, deduped))"
  shows "equivalent_pending_dispatch r i
    \<and> (deduped \<longrightarrow> s' = s \<and> r \<in> set (dd_read d s))
    \<and> (\<not> deduped \<longrightarrow> dd_read d s' = dd_read d s @ [r] \<and> dr_request_id r = x \<and> dr_status r = DPending \<and> dr_attempts r = 0
          \<and> (\<forall>q \<in> set (dd_read d s). \<not> equivalent_pending_dispatch q i))
    \<and> (\<exists>q. enqueue_dispatch_request d i y now s' = (s', Inr (q, True)) \<and> equivalent_pending_dispatch q i)"
proof -
  let ?r = "new_request team i x now\<lparr> dr_legacy := True \<rparr>"
  let ?F = "List.find (\<lambda>r. equivalent_pending_dispatch r i) (dd_read d s)"
  have team: "dd_team d = team" by (simp add: d_def)
  note acc = file_store.enqueue_accepted [OF assms(3,4,5) first [unfolded d_def], folded d_def]
  note val = file_store.enqueue_value [OF assms(3,4,5), of team fresh now valid, folded d_def]
  have again: "\<exists>q. enqueue_dispatch_request d i y now s' = (s', Inr (q, True)) \<and> equivalent_pending_dispatch q i"
    if "q \<in> set (dd_read d s')" "equivalent_pending_dispatch q i" for q
    using file_store.enqueue_existing [OF assms(3) assms(6) assms(5) acc [unfolded d_def] that [unfolded d_def]] unfolding d_def .
  show ?thesis
  proof (cases ?F)
    case (Some q)
    then have "s' = s" "r = q" "deduped" using first acc by (simp_all add: val)
    moreover have "q \<in> set (dd_read d s)" "equivalent_pending_dispatch q i" using find_SomeD [OF Some] by auto
    ultimately show ?thesis using again by blast
  next
    case None
    then have r: "s' = dd_write d (dd_read d s @ [?r]) s" "r = ?r" "\<not> deduped"
      using first acc by (auto simp: val Let_def team)
    have "\<forall>q \<in> set (dd_read d s @ [?r]). request_wf (dd_team d) q"
      using assms(2) new_request_wf [OF assms(3-5)] by (simp add: team)
    then have rd: "dd_read d s' = dd_read d s @ [?r]" unfolding r(1) d_def by (rule file_store.read_write)
    have eq: "equivalent_pending_dispatch ?r i" by (rule new_request_equivalent)
    have "?r \<in> set (dd_read d s')" by (simp add: rd)
    moreover have "\<forall>q \<in> set (dd_read d s). \<not> equivalent_pending_dispatch q i" using None by (simp add: find_None_iff)
    moreover have "dr_request_id ?r = x" "dr_status ?r = DPending" "dr_attempts ?r = 0" by (simp_all add: new_request_def)
    ultimately show ?thesis using again eq rd r(2,3) by blast
  qed
qed

theorem enqueue_deduplicates_witness:
  "\<exists>s' r. enqueue_dispatch_request (file_deps ''t'' (\<lambda>_. ''x'') ''now'' (\<lambda>_. True)) demo_input ''r1'' ''now'' [] = (s', Inr (r, False))
     \<and> dr_status r = DPending"
proof -
  let ?d = "file_deps ''t'' (\<lambda>_. ''x'') ''now'' (\<lambda>_. True)"
  have rd: "dd_read ?d [] = []" by (simp add: normalized_entries_def List.map_filter_simps)
  obtain s' r where e: "enqueue_dispatch_request ?d demo_input ''r1'' ''now'' [] = (s', Inr (r, False))"
    using file_store.enqueue_value [OF demo_ok(1,2), of "''now''" "''t''" "\<lambda>_. ''x''" "''now''" "\<lambda>_. True" "[]"]
    by (simp add: rd refused_def demo_input_def Let_def file_deps_def normalized_entries_def List.map_filter_simps)
  have "\<forall>r \<in> set (dd_read ?d []). request_wf ''t'' r" unfolding rd by simp
  from enqueue_deduplicates [OF this demo_ok(1,2) _ demo_ok(2) e] show ?thesis using e by auto
qed

text \<open>Marking a request as failed does nothing once it was notified, when the bridge does not take
  the command: the store is unchanged, although the transition table lets a notified request
  fail and a direct transition does so.\<close>

theorem failed_mark_ignores_notified:
  fixes d :: "('s, 'm) dispatch_deps_scheme"
  assumes "read_request d i s = Some r" "dr_status r = DNotified" "dd_exec d (MarkFailed i reason) s = NotExecuted"
  shows "mark_dispatch_request_failed d i reason now s = (s, None)
    \<and> can_transition_dispatch_status DNotified DFailed
    \<and> transition_locked d i DNotified DFailed p now s
        = (let s' = dd_write d ((dd_read d s)[the (find_index (\<lambda>q. dr_request_id q = i) (dd_read d s)) := patched_request r DFailed p now]) s
           in (s', read_request d i s'))"
proof -
  obtain j where j: "find_index (\<lambda>q. dr_request_id q = i) (dd_read d s) = Some j" "dd_read d s ! j = r"
    using assms(1) by (auto simp: read_request_def find_eq_find_index split: option.splits)
  show ?thesis
    using assms j by (simp add: mark_dispatch_request_failed_def transition_locked_def Let_def can_transition_dispatch_def
        can_transition_dispatch_status_def)
qed

theorem failed_mark_ignores_notified_witness:
  "mark_dispatch_request_failed (file_deps ''t'' (\<lambda>_. ''x'') ''now'' (\<lambda>_. True)) ''r1'' ''why'' ''now''
     [request_js (patched_request demo_request DNotified no_patch ''now'')]
   = ([request_js (patched_request demo_request DNotified no_patch ''now'')], None)"
proof -
  let ?r = "patched_request demo_request DNotified no_patch ''now''"
  have "patch_ok DNotified no_patch" by (simp add: patch_ok_def opt_texts_ok_def no_patch_def opt_nonempty_def)
  then have "request_wf ''t'' ?r" by (intro patched_wf demo_ok) simp_all
  then have "normalized_entries ''t'' [request_js ?r] (\<lambda>_. ''x'') ''now'' = [?r]"
    using file_ok [of "[?r]" "''t''"] by simp
  then have "read_request (file_deps ''t'' (\<lambda>_. ''x'') ''now'' (\<lambda>_. True)) ''r1'' [request_js ?r] = Some ?r"
    by (simp add: read_request_def demo_request_def new_request_def)
  from failed_mark_ignores_notified [OF this] show ?thesis by simp
qed

text \<open>C33. The bridge has the last word on what it knows: in the merged reading every request of the
  bridge appears once, in order, with its identity; one that is delivered or failed keeps that
  status whatever the file says, another one takes the status of the file only with a receipt
  for it, and a request of the file alone is shown only when it was created there and the
  ledger of the bridge has never seen it.\<close>

theorem merged_reading_sound:
  assumes "read_dispatch_requests team f (Some a) fresh now = Some rs"
  defines "auth \<equiv> authoritative_requests team a now"
  shows "map dr_request_id (take (length auth) rs) = map dr_request_id auth
    \<and> (\<forall>j < length auth.
          dr_attempts (auth ! j) \<le> dr_attempts (rs ! j)
          \<and> dr_to_worker (rs ! j) = dr_to_worker (auth ! j) \<and> dr_trigger (rs ! j) = dr_trigger (auth ! j)
          \<and> (dr_status (rs ! j) = dr_status (auth ! j)
             \<or> \<not> is_terminal_dispatch_status (dr_status (auth ! j))
                \<and> (dr_request_id (auth ! j), dr_status (rs ! j)) \<in> set (receipts (da_journal a))))
    \<and> (\<forall>q \<in> set (drop (length auth) rs).
          dr_legacy q \<and> dr_request_id q \<notin> set (map dr_request_id auth)
          \<and> (\<forall>l. da_ledger a = Some l \<longrightarrow> dr_request_id q \<notin> set l))"
proof -
  let ?local = "normalized_requests team f fresh now"
  let ?m = "merge_request ?local (receipts (da_journal a))"
  let ?rest = "filter (\<lambda>q. case da_ledger a of None \<Rightarrow> True | Some l \<Rightarrow> dr_request_id q \<notin> set l)
     (filter (\<lambda>q. dr_legacy q \<and> dr_request_id q \<notin> set (map dr_request_id auth)) ?local)"
  have rs: "rs = map ?m auth @ ?rest"
    using assms(1) unfolding read_dispatch_requests_def auth_def Let_def by (simp split: if_splits)
  have m: "dr_request_id (?m r) = dr_request_id r \<and> dr_attempts r \<le> dr_attempts (?m r)
      \<and> dr_to_worker (?m r) = dr_to_worker r \<and> dr_trigger (?m r) = dr_trigger r
      \<and> (dr_status (?m r) = dr_status r
         \<or> \<not> is_terminal_dispatch_status (dr_status r) \<and> (dr_request_id r, dr_status (?m r)) \<in> set (receipts (da_journal a)))" for r
    by (auto simp: merge_request_def Let_def is_terminal_dispatch_status_def split: option.split)
  have "map dr_request_id (take (length auth) rs) = map dr_request_id auth"
    using m by (simp add: rs)
  moreover have "rs ! j = ?m (auth ! j)" if "j < length auth" for j using that by (simp add: rs nth_append)
  moreover have "\<forall>q \<in> set (drop (length auth) rs). dr_legacy q \<and> dr_request_id q \<notin> set (map dr_request_id auth)
          \<and> (\<forall>l. da_ledger a = Some l \<longrightarrow> dr_request_id q \<notin> set l)"
    by (auto simp: rs split: option.splits)
  ultimately show ?thesis using m by simp
qed

theorem merged_reading_sound_witness:
  "\<exists>rs. read_dispatch_requests ''t'' (JsonFile (JArr [request_js demo_request]))
       (Some \<lparr> da_records = None, da_journal = [], da_ledger = Some [''r2''] \<rparr>) (\<lambda>_. ''x'') ''now'' = Some rs
     \<and> (\<forall>q \<in> set rs. dr_legacy q \<and> dr_request_id q \<noteq> ''r2'')"
proof -
  let ?a = "\<lparr> da_records = None, da_journal = [], da_ledger = Some [''r2''] \<rparr>"
  have auth: "authoritative_requests ''t'' ?a ''now'' = []" by (simp add: authoritative_requests_def)
  have "\<exists>rs. read_dispatch_requests ''t'' (JsonFile (JArr [request_js demo_request])) (Some ?a) (\<lambda>_. ''x'') ''now'' = Some rs"
    by (simp add: read_dispatch_requests_def Let_def)
  then obtain rs where rs: "read_dispatch_requests ''t'' (JsonFile (JArr [request_js demo_request])) (Some ?a) (\<lambda>_. ''x'') ''now'' = Some rs"
    by blast
  from merged_reading_sound [OF rs] rs show ?thesis by (auto simp: auth)
qed

end
