(* ===== verification/TeamLocks.thy ===== *)
theory TeamLocks
  imports Prelude
begin

text \<open>
  The directory locks of the team state (\<open>src/team/state/locks.ts\<close> and \<open>dispatch-lock.ts\<close>) as an
  interleaving of processes. A lock is a directory with the token of its owner and, for the
  scaling and membership locks, a lease whose time the owner refreshes; a process that finds
  the directory looks at its age and removes a stale one. Each file system call is one step:
  making the directory, writing a file, looking at the times, removing the directory. Times
  are milliseconds and a token is the number of its process.
\<close>

record lock_config =
  lc_leased :: bool
  lc_stale_ms :: int
  lc_timeout_ms :: int

definition scaling_lock :: "int \<Rightarrow> lock_config" where
  "scaling_lock stale = \<lparr> lc_leased = True, lc_stale_ms = stale, lc_timeout_ms = 10000 \<rparr>"

definition membership_lock :: "int \<Rightarrow> lock_config" where
  "membership_lock stale = \<lparr> lc_leased = True, lc_stale_ms = stale, lc_timeout_ms = 5000 \<rparr>"

definition task_claim_lock :: "int \<Rightarrow> lock_config" where
  "task_claim_lock stale = \<lparr> lc_leased = False, lc_stale_ms = stale, lc_timeout_ms = 5000 \<rparr>"

definition mailbox_lock :: "int \<Rightarrow> lock_config" where
  "mailbox_lock stale = \<lparr> lc_leased = False, lc_stale_ms = stale, lc_timeout_ms = 5000 \<rparr>"

text \<open>The time-out of the dispatch lock: the number \<open>Number(raw)\<close> of the environment variable,
  \<open>None\<close> when it is not set or empty, floored and clamped.\<close>

definition resolve_dispatch_lock_timeout_ms :: "rat option option \<Rightarrow> int" where
  "resolve_dispatch_lock_timeout_ms parsed =
     (case parsed of
        Some (Some q) \<Rightarrow> max 1000 (min 120000 \<lfloor>q\<rfloor>)
      | _ \<Rightarrow> 15000)"

definition dispatch_lock :: "rat option option \<Rightarrow> lock_config" where
  "dispatch_lock parsed =
     \<lparr> lc_leased = False, lc_stale_ms = 5 * 60 * 1000, lc_timeout_ms = resolve_dispatch_lock_timeout_ms parsed \<rparr>"

record lock_dir =
  ld_owner :: "nat option"
  ld_lease :: "int option"
  ld_mtime :: int

text \<open>Where a process is: before \<open>mkdir\<close>, after \<open>EEXIST\<close>, before the removal of a stale lock, with
  the directory made, with the owner written, in the critical section, before reading the
  owner again, before removing its own lock, before the clean-up after a failed write, and at
  the end, with or without having held it.\<close>

datatype lock_pc =
    Trying | Checking | Recovering | DirMade | OwnerWritten | Critical | Leaving | Removing | Aborting | Finished | GaveUp

record lock_state =
  ls_dir :: "lock_dir option"
  ls_pc :: "nat \<Rightarrow> lock_pc"
  ls_deadline :: "nat \<Rightarrow> int"
  ls_clock :: int

definition is_stale_lock :: "lock_config \<Rightarrow> lock_dir \<Rightarrow> int \<Rightarrow> bool" where
  "is_stale_lock c d now \<longleftrightarrow> now - (case ld_lease d of Some t \<Rightarrow> t | None \<Rightarrow> ld_mtime d) > lc_stale_ms c"

definition at_pc :: "nat \<Rightarrow> lock_pc \<Rightarrow> lock_state \<Rightarrow> lock_state" where
  "at_pc p x s = s\<lparr> ls_pc := (ls_pc s)(p := x) \<rparr>"

definition put_dir :: "lock_dir option \<Rightarrow> lock_state \<Rightarrow> lock_state" where
  "put_dir d s = s\<lparr> ls_dir := d \<rparr>"

text \<open>The next file system call of a process. Writing the owner over an existing file leaves the
  time of the directory alone.\<close>

definition write_owner :: "nat \<Rightarrow> int \<Rightarrow> lock_dir \<Rightarrow> lock_dir" where
  "write_owner p now d =
     d\<lparr> ld_owner := Some p, ld_mtime := (if ld_owner d = None then now else ld_mtime d) \<rparr>"

definition write_lease :: "int \<Rightarrow> lock_dir \<Rightarrow> lock_dir" where
  "write_lease now d = d\<lparr> ld_lease := Some now, ld_mtime := (if ld_lease d = None then now else ld_mtime d) \<rparr>"

definition process_step :: "lock_config \<Rightarrow> nat \<Rightarrow> lock_state \<Rightarrow> lock_state option" where
  "process_step c p s =
     (case ls_pc s p of
        Trying \<Rightarrow>
          (case ls_dir s of
             None \<Rightarrow> Some (at_pc p DirMade (put_dir (Some \<lparr> ld_owner = None, ld_lease = None, ld_mtime = ls_clock s \<rparr>) s))
           | Some _ \<Rightarrow> Some (at_pc p Checking s))
      | Checking \<Rightarrow>
          (case ls_dir s of
             Some d \<Rightarrow>
               (if is_stale_lock c d (ls_clock s) then Some (at_pc p Recovering s)
                else if ls_clock s > ls_deadline s p then Some (at_pc p GaveUp s) else Some (at_pc p Trying s))
           | None \<Rightarrow> (if ls_clock s > ls_deadline s p then Some (at_pc p GaveUp s) else Some (at_pc p Trying s)))
      | Recovering \<Rightarrow> Some (at_pc p Trying (put_dir None s))
      | DirMade \<Rightarrow>
          (case ls_dir s of
             None \<Rightarrow> Some (at_pc p Aborting s)
           | Some d \<Rightarrow> Some (at_pc p (if lc_leased c then OwnerWritten else Critical)
                              (put_dir (Some (write_owner p (ls_clock s) d)) s)))
      | OwnerWritten \<Rightarrow>
          (case ls_dir s of
             None \<Rightarrow> Some (at_pc p Aborting s)
           | Some d \<Rightarrow> Some (at_pc p Critical (put_dir (Some (write_lease (ls_clock s) d)) s)))
      | Critical \<Rightarrow> Some (at_pc p Leaving s)
      | Leaving \<Rightarrow>
          (case ls_dir s of
             Some d \<Rightarrow> Some (at_pc p (if ld_owner d = Some p then Removing else Finished) s)
           | None \<Rightarrow> Some (at_pc p Finished s))
      | Removing \<Rightarrow> Some (at_pc p Finished (put_dir None s))
      | Aborting \<Rightarrow> Some (at_pc p GaveUp (put_dir None s))
      | Finished \<Rightarrow> None
      | GaveUp \<Rightarrow> None)"

text \<open>The timer of the lease: it runs while the owner is in the critical section and touches the
  lease only when the lock still names the owner.\<close>

definition heartbeat :: "lock_config \<Rightarrow> nat \<Rightarrow> lock_state \<Rightarrow> lock_state option" where
  "heartbeat c p s =
     (if lc_leased c \<and> ls_pc s p = Critical
      then (case ls_dir s of
              Some d \<Rightarrow>
                (if ld_owner d = Some p \<and> ld_lease d \<noteq> None
                 then Some (put_dir (Some (d\<lparr> ld_lease := Some (ls_clock s) \<rparr>)) s) else Some s)
            | None \<Rightarrow> Some s)
      else None)"

datatype lock_action = Act nat | Beat nat | Tick nat

fun lock_exec :: "lock_config \<Rightarrow> lock_action \<Rightarrow> lock_state \<Rightarrow> lock_state option" where
  "lock_exec c (Act p) s = process_step c p s"
| "lock_exec c (Beat p) s = heartbeat c p s"
| "lock_exec c (Tick n) s = Some (s\<lparr> ls_clock := ls_clock s + int n \<rparr>)"

fun lock_run :: "lock_config \<Rightarrow> lock_action list \<Rightarrow> lock_state \<Rightarrow> lock_state option" where
  "lock_run c [] s = Some s"
| "lock_run c (a # as) s = (case lock_exec c a s of None \<Rightarrow> None | Some s' \<Rightarrow> lock_run c as s')"

text \<open>The states that can be reached; \<open>allowed\<close> restricts the states in which a step is taken.\<close>

inductive lock_reach :: "lock_config \<Rightarrow> (lock_state \<Rightarrow> bool) \<Rightarrow> lock_state \<Rightarrow> lock_state \<Rightarrow> bool"
  for c allowed s0 where
  start: "lock_reach c allowed s0 s0"
| step: "lock_reach c allowed s0 s \<Longrightarrow> allowed s \<Longrightarrow> lock_exec c a s = Some s' \<Longrightarrow> lock_reach c allowed s0 s'"

inductive_cases lock_reachE: "lock_reach c allowed s0 s"

text \<open>All processes before their first call, with no lock on disk, or with one left by a process that
  is gone (the token of no process).\<close>

definition fresh_start :: "lock_config \<Rightarrow> int \<Rightarrow> lock_state" where
  "fresh_start c now =
     \<lparr> ls_dir = None, ls_pc = (\<lambda>_. Trying), ls_deadline = (\<lambda>_. now + lc_timeout_ms c), ls_clock = now \<rparr>"

definition abandoned_start :: "lock_config \<Rightarrow> nat \<Rightarrow> int \<Rightarrow> lock_state" where
  "abandoned_start c gone now =
     \<lparr> ls_dir = Some \<lparr> ld_owner = Some gone, ld_lease = (if lc_leased c then Some 0 else None), ld_mtime = 0 \<rparr>,
       ls_pc = (\<lambda>p. if p = gone then GaveUp else Trying),
       ls_deadline = (\<lambda>_. now + lc_timeout_ms c), ls_clock = now \<rparr>"

subsection \<open>The holder\<close>

definition holding :: "lock_pc \<Rightarrow> bool" where
  "holding x \<longleftrightarrow> x \<in> {DirMade, OwnerWritten, Critical, Leaving, Removing}"

definition named_owner :: "lock_pc \<Rightarrow> bool" where
  "named_owner x \<longleftrightarrow> x \<in> {OwnerWritten, Critical, Leaving, Removing}"

text \<open>No lock on disk is old enough to be removed.\<close>

definition no_stale :: "lock_config \<Rightarrow> lock_state \<Rightarrow> bool" where
  "no_stale c s \<longleftrightarrow> (\<forall>d. ls_dir s = Some d \<longrightarrow> \<not> is_stale_lock c d (ls_clock s))"

definition lock_inv :: "lock_state \<Rightarrow> bool" where
  "lock_inv s \<longleftrightarrow>
     (\<forall>p. ls_pc s p \<notin> {Recovering, Aborting})
     \<and> (\<forall>p q. holding (ls_pc s p) \<longrightarrow> holding (ls_pc s q) \<longrightarrow> p = q)
     \<and> (ls_dir s = None \<longleftrightarrow> (\<forall>p. \<not> holding (ls_pc s p)))
     \<and> (\<forall>p d. named_owner (ls_pc s p) \<longrightarrow> ls_dir s = Some d \<longrightarrow> ld_owner d = Some p)"

lemma at_pc_simps [simp]:
  "ls_pc (at_pc p x s) q = (if q = p then x else ls_pc s q)" "ls_dir (at_pc p x s) = ls_dir s" "ls_clock (at_pc p x s) = ls_clock s"
  "ls_pc (put_dir d s) = ls_pc s" "ls_dir (put_dir d s) = d" "ls_clock (put_dir d s) = ls_clock s"
  "ls_deadline (at_pc p x s) = ls_deadline s" "ls_deadline (put_dir d s) = ls_deadline s"
  by (simp_all add: at_pc_def put_dir_def)

lemma holding_simps [simp]:
  "holding DirMade" "holding OwnerWritten" "holding Critical" "holding Leaving" "holding Removing"
  "\<not> holding Trying" "\<not> holding Checking" "\<not> holding Recovering" "\<not> holding Aborting" "\<not> holding Finished" "\<not> holding GaveUp"
  by (simp_all add: holding_def)

lemma named_simps [simp]:
  "\<not> named_owner DirMade" "named_owner OwnerWritten" "named_owner Critical" "named_owner Leaving" "named_owner Removing"
  "\<not> named_owner Trying" "\<not> named_owner Checking" "\<not> named_owner Recovering" "\<not> named_owner Aborting"
  "\<not> named_owner Finished" "\<not> named_owner GaveUp"
  by (simp_all add: named_owner_def)

lemma write_fields [simp]:
  "ld_owner (write_owner p now d) = Some p" "ld_owner (write_lease now d) = ld_owner d"
  by (simp_all add: write_owner_def write_lease_def)

lemma named_holding: "named_owner x \<Longrightarrow> holding x"
  by (auto simp: named_owner_def holding_def)

text \<open>A process that does not hold the lock moves to another state without it.\<close>

lemma inv_outside:
  assumes "lock_inv s" "\<not> holding (ls_pc s p)" "\<not> holding x" "x \<notin> {Recovering, Aborting}"
  shows "lock_inv (at_pc p x s)"
proof -
  have "\<not> named_owner x" using assms(3) named_holding by blast
  with assms show ?thesis unfolding lock_inv_def by simp metis
qed

text \<open>The holder moves on, with the directory still there and naming it.\<close>

lemma inv_holder:
  assumes "lock_inv s" "holding (ls_pc s p)" "holding x" "ld_owner d = Some p"
  shows "lock_inv (at_pc p x (put_dir (Some d) s))"
proof -
  have "x \<notin> {Recovering, Aborting}" using assms(3) by auto
  with assms named_holding show ?thesis unfolding lock_inv_def by simp metis
qed

lemma inv_holder_same:
  assumes "lock_inv s" "holding (ls_pc s p)" "holding x" "ls_dir s = Some d" "ld_owner d = Some p"
  shows "lock_inv (at_pc p x s)"
proof -
  have "put_dir (Some d) s = s" using assms(4) by (simp add: put_dir_def)
  with inv_holder [OF assms(1-3,5)] show ?thesis by metis
qed

lemma inv_leave:
  assumes "lock_inv s" "holding (ls_pc s p)" "\<not> holding x" "x \<notin> {Recovering, Aborting}"
  shows "lock_inv (at_pc p x (put_dir None s))"
proof -
  have "\<not> named_owner x" using assms(3) named_holding by blast
  with assms show ?thesis unfolding lock_inv_def by simp metis
qed

lemma process_step_inv:
  assumes inv: "lock_inv s" and ns: "no_stale c s" and st: "process_step c p s = Some s'"
  shows "lock_inv s'"
proof (cases "ls_pc s p")
  case Trying
  show ?thesis
  proof (cases "ls_dir s")
    case None
    let ?d = "\<lparr> ld_owner = None, ld_lease = None, ld_mtime = ls_clock s \<rparr>"
    have s': "s' = at_pc p DirMade (put_dir (Some ?d) s)" using st Trying None by (simp add: process_step_def)
    have "\<forall>q. \<not> holding (ls_pc s q)" using inv None unfolding lock_inv_def by blast
    then show ?thesis using inv named_holding unfolding s' lock_inv_def by simp metis
  next
    case (Some d)
    then have "s' = at_pc p Checking s" using st Trying by (simp add: process_step_def)
    then show ?thesis using inv_outside [OF inv] Trying by simp
  qed
next
  case Checking
  then have "s' = at_pc p Trying s \<or> s' = at_pc p GaveUp s"
    using st ns by (auto simp: process_step_def no_stale_def split: option.splits if_splits)
  then show ?thesis using inv_outside [OF inv, of p] Checking by auto
next
  case DirMade
  then obtain d where d: "ls_dir s = Some d" using inv unfolding lock_inv_def by (metis holding_simps(1) option.exhaust)
  then have "s' = at_pc p (if lc_leased c then OwnerWritten else Critical) (put_dir (Some (write_owner p (ls_clock s) d)) s)"
    using st DirMade by (simp add: process_step_def)
  then show ?thesis using inv_holder [OF inv, of p] DirMade by simp
next
  case OwnerWritten
  then obtain d where d: "ls_dir s = Some d" using inv unfolding lock_inv_def by (metis holding_simps(2) option.exhaust)
  moreover have "ld_owner d = Some p" using inv OwnerWritten d unfolding lock_inv_def by simp
  ultimately show ?thesis
    using st OwnerWritten inv_holder [OF inv, of p Critical "write_lease (ls_clock s) d"] by (simp add: process_step_def)
next
  case Critical
  then obtain d where d: "ls_dir s = Some d" using inv unfolding lock_inv_def by (metis holding_simps(3) option.exhaust)
  moreover have "ld_owner d = Some p" using inv Critical d unfolding lock_inv_def by simp
  ultimately show ?thesis using st Critical inv_holder_same [OF inv, of p Leaving d] by (simp add: process_step_def)
next
  case Leaving
  then obtain d where d: "ls_dir s = Some d" using inv unfolding lock_inv_def by (metis holding_simps(4) option.exhaust)
  moreover have "ld_owner d = Some p" using inv Leaving d unfolding lock_inv_def by simp
  ultimately show ?thesis using st Leaving inv_holder_same [OF inv, of p Removing d] by (simp add: process_step_def)
next
  case Removing
  then show ?thesis using st inv_leave [OF inv, of p Finished] by (simp add: process_step_def)
next
  case Recovering
  then show ?thesis using inv unfolding lock_inv_def by auto
next
  case Aborting
  then show ?thesis using inv unfolding lock_inv_def by auto
qed (use st in \<open>simp_all add: process_step_def\<close>)

lemma lock_exec_inv:
  assumes "lock_inv s" "no_stale c s" "lock_exec c a s = Some s'"
  shows "lock_inv s'"
proof (cases a)
  case (Act p)
  then show ?thesis using process_step_inv [OF assms(1,2)] assms(3) by simp
next
  case (Beat p)
  then have "s' = s \<or> (\<exists>d. ls_dir s = Some d \<and> s' = put_dir (Some (d\<lparr> ld_lease := Some (ls_clock s) \<rparr>)) s)"
    using assms(3) by (auto simp: heartbeat_def split: if_splits option.splits)
  then show ?thesis using assms(1) unfolding lock_inv_def by auto
next
  case (Tick n)
  then show ?thesis using assms(1,3) by (auto simp: lock_inv_def)
qed

subsection \<open>Properties\<close>

text \<open>C21. As long as no lock grows old enough to be removed, the directory is a mutual exclusion:
  in every interleaving at most one process is between making and removing it, the lock on
  disk names a process in its critical section, no write of a holder fails, and the lock is
  free exactly when nobody holds it.\<close>

theorem lock_mutual_exclusion:
  assumes "lock_reach c (no_stale c) (fresh_start c now) s"
  shows "(\<forall>p q. ls_pc s p = Critical \<and> ls_pc s q = Critical \<longrightarrow> p = q)
    \<and> (\<forall>p. ls_pc s p = Critical \<longrightarrow> (\<exists>d. ls_dir s = Some d \<and> ld_owner d = Some p))
    \<and> (\<forall>p. ls_pc s p \<noteq> Aborting)
    \<and> (ls_dir s = None \<longleftrightarrow> (\<forall>p. \<not> holding (ls_pc s p)))"
proof -
  have inv: "lock_inv s"
    using assms
  proof induction
    case start
    show ?case by (simp add: lock_inv_def fresh_start_def)
  next
    case (step s a s')
    then show ?case by (blast intro: lock_exec_inv)
  qed
  have h: "ls_pc s p = Critical \<Longrightarrow> holding (ls_pc s p) \<and> named_owner (ls_pc s p)" for p by simp
  have "\<exists>d. ls_dir s = Some d \<and> ld_owner d = Some p" if "ls_pc s p = Critical" for p
    using inv h [OF that] unfolding lock_inv_def by (metis option.exhaust)
  then show ?thesis using inv h unfolding lock_inv_def by auto
qed

theorem lock_mutual_exclusion_witness:
  "\<exists>s d. lock_reach (task_claim_lock 100) (no_stale (task_claim_lock 100)) (fresh_start (task_claim_lock 100) 7) s
     \<and> ls_pc s 1 = Critical \<and> ls_dir s = Some d \<and> ld_owner d = Some 1"
proof -
  let ?c = "task_claim_lock 100"
  define s0 where "s0 = fresh_start ?c 7"
  define s1 where "s1 = at_pc 1 DirMade (put_dir (Some \<lparr> ld_owner = None, ld_lease = None, ld_mtime = 7 \<rparr>) s0)"
  define s2 where "s2 = at_pc 1 Critical (put_dir (Some (write_owner 1 7 \<lparr> ld_owner = None, ld_lease = None, ld_mtime = 7 \<rparr>)) s1)"
  have "no_stale ?c s0" "lock_exec ?c (Act 1) s0 = Some s1"
    by (simp_all add: s0_def s1_def fresh_start_def no_stale_def process_step_def)
  moreover have "no_stale ?c s1" "lock_exec ?c (Act 1) s1 = Some s2"
    by (simp_all add: s0_def s1_def s2_def fresh_start_def no_stale_def process_step_def is_stale_lock_def task_claim_lock_def)
  ultimately have r: "lock_reach ?c (no_stale ?c) (fresh_start ?c 7) s2"
    unfolding s0_def by (blast intro: lock_reach.intros)
  have "ls_pc s2 1 = Critical" by (simp add: s2_def)
  with lock_mutual_exclusion [OF r] r show ?thesis by blast
qed

text \<open>Removing a stale lock is not safe: two processes that both saw the lock of a dead owner as
  stale can each enter the critical section, because the second removal deletes the fresh
  lock of the first, which is neither stale nor looked at again.\<close>

theorem stale_recovery_race:
  assumes "0 \<le> lc_stale_ms c" "lc_stale_ms c < now"
  shows "\<exists>as bs s1 s2 d. lock_run c as (abandoned_start c 0 now) = Some s1
    \<and> ls_pc s1 1 = Critical \<and> ls_pc s1 2 = Recovering
    \<and> ls_dir s1 = Some d \<and> ld_owner d = Some 1 \<and> \<not> is_stale_lock c d (ls_clock s1)
    \<and> lock_run c bs s1 = Some s2 \<and> ls_pc s2 1 = Critical \<and> ls_pc s2 2 = Critical"
proof -
  define s0 where "s0 = abandoned_start c 0 now"
  define lease where "lease = (if lc_leased c then [Act 1] else [])"
  define lease2 where "lease2 = (if lc_leased c then [Act 2] else [])"
  let ?as = "[Act 1, Act 2, Act 1, Act 2, Act 1, Act 1, Act 1] @ lease"
  let ?bs = "[Act 2, Act 2, Act 2] @ lease2"
  define free where "free = at_pc 1 Trying (put_dir None (at_pc 2 Recovering (at_pc 1 Recovering (at_pc 2 Checking (at_pc 1 Checking s0)))))"
  have stale: "is_stale_lock c \<lparr> ld_owner = Some 0, ld_lease = (if lc_leased c then Some 0 else None), ld_mtime = 0 \<rparr> now"
    using assms by (simp add: is_stale_lock_def)
  have s0: "ls_dir s0 = Some \<lparr> ld_owner = Some 0, ld_lease = (if lc_leased c then Some 0 else None), ld_mtime = 0 \<rparr>"
    "ls_pc s0 1 = Trying" "ls_pc s0 2 = Trying" "ls_clock s0 = now"
    by (simp_all add: s0_def abandoned_start_def)
  have a: "lock_run c (?as) s0 = lock_run c ([Act 1, Act 1] @ lease) free"
    using stale by (simp add: process_step_def s0 free_def del: One_nat_def)
  have free: "ls_dir free = None" "ls_pc free 1 = Trying" "ls_pc free 2 = Recovering" "ls_clock free = now"
    by (simp_all add: free_def s0 del: One_nat_def)
  have "\<exists>s1 d. lock_run c ([Act 1, Act 1] @ lease) free = Some s1 \<and> ls_pc s1 1 = Critical \<and> ls_pc s1 2 = Recovering
      \<and> ls_clock s1 = now \<and> ls_dir s1 = Some d \<and> ld_owner d = Some 1 \<and> \<not> is_stale_lock c d now"
    using assms(1) by (simp add: process_step_def free lease_def is_stale_lock_def write_owner_def write_lease_def del: One_nat_def)
  then obtain s1 d where s1: "lock_run c ([Act 1, Act 1] @ lease) free = Some s1" "ls_pc s1 1 = Critical"
    "ls_pc s1 2 = Recovering" "ls_clock s1 = now" "ls_dir s1 = Some d" "ld_owner d = Some 1" "\<not> is_stale_lock c d now" by blast
  have "\<exists>s2. lock_run c ?bs s1 = Some s2 \<and> ls_pc s2 1 = Critical \<and> ls_pc s2 2 = Critical"
    by (simp add: process_step_def s1 lease2_def del: One_nat_def)
  then show ?thesis using a s1 unfolding s0_def by metis
qed

theorem stale_recovery_race_witness:
  "\<exists>as s. lock_run (dispatch_lock None) as (abandoned_start (dispatch_lock None) 0 400000) = Some s
     \<and> ls_pc s 1 = Critical"
proof -
  have "0 \<le> lc_stale_ms (dispatch_lock None)" "lc_stale_ms (dispatch_lock None) < 400000"
    by (simp_all add: dispatch_lock_def)
  from stale_recovery_race [OF this] show ?thesis by blast
qed

end
