(* ===== verification/Workflow.thy ===== *)
theory Workflow
  imports JsValue StatusMachine
begin

text \<open>
  The decision which workflow modes stay active when one is requested
  (\<open>src/state/workflow-transition.ts\<close>). A mode is its name, and the active modes are an
  array of names, of which the decision keeps the tracked ones.
\<close>

definition tracked_workflow_modes :: "string list" where
  "tracked_workflow_modes =
     [''autopilot'', ''autoresearch'', ''team'', ''ultragoal'', ''ralph'', ''ultrawork'', ''ultraqa'',
      ''ralplan'', ''deep-interview'']"

datatype transition_kind = KAllow | KOverlap | KAutoComplete

definition auto_complete_transitions :: "string list" where
  "auto_complete_transitions =
     [''deep-interview->autopilot'', ''deep-interview->autoresearch'', ''deep-interview->ralph'',
      ''deep-interview->team'', ''deep-interview->ultragoal'', ''deep-interview->ultrawork'',
      ''deep-interview->ralplan'', ''ralplan->team'', ''ralplan->ultragoal'', ''ralplan->ralph'',
      ''ralplan->autopilot'', ''ralplan->autoresearch'', ''ultragoal->ultraqa'']"

definition is_tracked_workflow_mode :: "string \<Rightarrow> bool" where
  "is_tracked_workflow_mode m \<longleftrightarrow> m \<in> set tracked_workflow_modes"

definition normalize_tracked_modes :: "string list \<Rightarrow> string list" where
  "normalize_tracked_modes modes = dedup (filter is_tracked_workflow_mode modes)"

definition is_auto_complete_transition :: "string \<Rightarrow> string \<Rightarrow> bool" where
  "is_auto_complete_transition a b \<longleftrightarrow> a @ ''->'' @ b \<in> set auto_complete_transitions"

definition build_workflow_transition_message :: "string \<Rightarrow> string \<Rightarrow> string" where
  "build_workflow_transition_message source requested = ''mode transiting: '' @ source @ '' -> '' @ requested"

record workflow_decision =
  wd_allowed :: bool
  wd_kind :: transition_kind
  wd_current :: "string list"
  wd_requested :: string
  wd_resulting :: "string list"
  wd_auto_complete :: "string list"
  wd_message :: "string option"

definition evaluate_workflow_transition :: "string list \<Rightarrow> string \<Rightarrow> workflow_decision" where
  "evaluate_workflow_transition active requested =
     (let current = normalize_tracked_modes active;
          auto = filter (\<lambda>m. is_auto_complete_transition m requested) current;
          survivable = filter (\<lambda>m. m \<notin> set auto) current
      in if requested \<in> set current
         then \<lparr> wd_allowed = True, wd_kind = KAllow, wd_current = current, wd_requested = requested,
                wd_resulting = current, wd_auto_complete = [], wd_message = None \<rparr>
         else if current = []
         then \<lparr> wd_allowed = True, wd_kind = KAllow, wd_current = current, wd_requested = requested,
                wd_resulting = [requested], wd_auto_complete = [], wd_message = None \<rparr>
         else if auto \<noteq> []
         then \<lparr> wd_allowed = True, wd_kind = KAutoComplete, wd_current = current, wd_requested = requested,
                wd_resulting = normalize_tracked_modes (survivable @ [requested]), wd_auto_complete = auto,
                wd_message = Some (build_workflow_transition_message (hd auto) requested) \<rparr>
         else \<lparr> wd_allowed = True, wd_kind = KOverlap, wd_current = current, wd_requested = requested,
                wd_resulting = normalize_tracked_modes (current @ [requested]), wd_auto_complete = [],
                wd_message = None \<rparr>)"

text \<open>\<open>readActiveWorkflowModes\<close>: the candidate files of every mode, in their order, with the
  routing overlay of ralplan as an argument. The first file that exists decides; an unreadable
  one ends the reading with the name of the mode.\<close>

fun read_candidate :: "(js_record option) \<Rightarrow> json_file list \<Rightarrow> bool option" where
  "read_candidate overlay [] = Some False"
| "read_candidate overlay (NoFile # fs) = read_candidate overlay fs"
| "read_candidate overlay (BadFile # fs) = None"
| "read_candidate overlay (JsonFile v # fs) =
     (case overlay of
        Some o' \<Rightarrow> Some (rec_get o' ''active'' = JBool True)
      | None \<Rightarrow> (if v = JNull then None else Some (js_get v ''active'' = JBool True)))"

fun read_modes :: "string list \<Rightarrow> (string \<Rightarrow> json_file list) \<Rightarrow> js_record option \<Rightarrow> string + string list" where
  "read_modes [] files overlay = Inr []"
| "read_modes (m # ms) files overlay =
     (case read_candidate (if m = ''ralplan'' then overlay else None) (files m) of
        None \<Rightarrow> Inl m
      | Some active \<Rightarrow>
          (case read_modes ms files overlay of
             Inl e \<Rightarrow> Inl e
           | Inr rest \<Rightarrow> Inr (if active then m # rest else rest)))"

definition read_active_workflow_modes :: "(string \<Rightarrow> json_file list) \<Rightarrow> js_record option \<Rightarrow> string + string list" where
  "read_active_workflow_modes files overlay = read_modes tracked_workflow_modes files overlay"

definition pick_primary_workflow_mode :: "js \<Rightarrow> string list \<Rightarrow> string \<Rightarrow> string" where
  "pick_primary_workflow_mode current modes fallback =
     (if trimmed current \<noteq> [] \<and> trimmed current \<in> set modes then trimmed current
      else (case modes of [] \<Rightarrow> fallback | m # _ \<Rightarrow> (if m = [] then fallback else m)))"

subsection \<open>Hand-offs\<close>

definition handoff :: "string \<Rightarrow> string \<Rightarrow> bool" where
  "handoff a b \<longleftrightarrow> is_tracked_workflow_mode a \<and> is_tracked_workflow_mode b \<and> is_auto_complete_transition a b"

definition handoff_rank :: "string \<Rightarrow> nat" where
  "handoff_rank m =
     (if m = ''deep-interview'' then 0 else if m = ''ralplan'' then 1 else if m = ''ultragoal'' then 2 else 3)"

definition handoff_final :: "string \<Rightarrow> bool" where
  "handoff_final m \<longleftrightarrow> m \<notin> {''deep-interview'', ''ralplan'', ''ultragoal''}"

lemma handoff_checked:
  "handoff a b \<Longrightarrow> handoff_rank a < handoff_rank b \<and> \<not> handoff_final a"
proof -
  have "list_all (\<lambda>a. list_all (\<lambda>b. is_auto_complete_transition a b \<longrightarrow>
      handoff_rank a < handoff_rank b \<and> \<not> handoff_final a) tracked_workflow_modes) tracked_workflow_modes"
    by code_simp
  then show "handoff a b \<Longrightarrow> handoff_rank a < handoff_rank b \<and> \<not> handoff_final a"
    unfolding handoff_def is_tracked_workflow_mode_def list_all_iff by blast
qed

interpretation handoffs: ranked_status_machine handoff handoff_final handoff_rank
  using handoff_checked by unfold_locales blast+

subsection \<open>Facts on the decision\<close>

lemma normalize_tracked_simps [simp]:
  "set (normalize_tracked_modes ms) = {m \<in> set ms. is_tracked_workflow_mode m}"
  "distinct (normalize_tracked_modes ms)"
  by (auto simp: normalize_tracked_modes_def)

lemma normalize_tracked_id: "distinct ms \<Longrightarrow> \<forall>m \<in> set ms. is_tracked_workflow_mode m \<Longrightarrow> normalize_tracked_modes ms = ms"
  by (simp add: normalize_tracked_modes_def dedup_distinct filter_id_conv)

lemma auto_complete_irrefl: "is_tracked_workflow_mode m \<Longrightarrow> \<not> is_auto_complete_transition m m"
  using handoffs.no_cycle [of m] by (auto simp: handoff_def)

lemma decision_resulting:
  assumes "is_tracked_workflow_mode requested"
  shows "wd_resulting (evaluate_workflow_transition active requested) =
    (if requested \<in> set (normalize_tracked_modes active) then normalize_tracked_modes active
     else filter (\<lambda>m. \<not> is_auto_complete_transition m requested) (normalize_tracked_modes active) @ [requested])"
proof -
  let ?cur = "normalize_tracked_modes active"
  have all: "normalize_tracked_modes (filter p ?cur @ [requested]) = filter p ?cur @ [requested]" if "requested \<notin> set ?cur" for p
    using assms that by (intro normalize_tracked_id) auto
  have none: "normalize_tracked_modes (?cur @ [requested]) = ?cur @ [requested]" if "requested \<notin> set ?cur"
    using all [OF that, of "\<lambda>_. True"] by simp
  have f: "filter (\<lambda>m. m \<notin> set (filter q ?cur)) ?cur = filter (\<lambda>m. \<not> q m) ?cur" for q
    by (rule filter_cong) auto
  show ?thesis
  proof (cases "requested \<in> set ?cur")
    case True
    then show ?thesis by (simp add: evaluate_workflow_transition_def Let_def del: normalize_tracked_simps)
  next
    case False
    show ?thesis
    proof (cases "filter (\<lambda>m. is_auto_complete_transition m requested) ?cur = []")
      case True
      then have "filter (\<lambda>m. \<not> is_auto_complete_transition m requested) ?cur = ?cur"
        by (simp add: filter_empty_conv filter_id_conv del: normalize_tracked_simps)
      with True False none show ?thesis
        by (simp add: evaluate_workflow_transition_def Let_def del: normalize_tracked_simps)
    next
      case nonempty: False
      have ne: "?cur \<noteq> []" using nonempty by auto
      show ?thesis
        using False nonempty ne f [of "\<lambda>m. is_auto_complete_transition m requested"] all [OF False]
        by (simp add: evaluate_workflow_transition_def Let_def del: normalize_tracked_simps)
    qed
  qed
qed

lemma decision_auto:
  "wd_auto_complete (evaluate_workflow_transition active requested) =
    (if requested \<in> set (normalize_tracked_modes active) then []
     else filter (\<lambda>m. is_auto_complete_transition m requested) (normalize_tracked_modes active))"
  by (simp add: evaluate_workflow_transition_def Let_def del: normalize_tracked_simps)

subsection \<open>Properties\<close>



text \<open>Hand-offs form a pipeline: a chain of modes each of which auto-completes when the next one
  is requested never returns to a mode and has at most four modes.\<close>

theorem handoff_chain_bounded:
  assumes "\<forall>i. Suc i < length ms \<longrightarrow> handoff (ms ! i) (ms ! Suc i)"
  shows "length ms \<le> 4 \<and> distinct ms"
proof -
  have h: "handoffs.history ms"
    using assms
  proof (induction ms rule: handoffs.history.induct)
    case (3 s t ss)
    then have "handoff s t" "\<forall>i. Suc i < length (t # ss) \<longrightarrow> handoff ((t # ss) ! i) ((t # ss) ! Suc i)"
      by (fastforce, fastforce)
    with 3 show ?case by simp
  qed simp_all
  have "distinct (map handoff_rank ms)" using handoffs.history_rank [OF h] strict_sorted_iff by blast
  then show ?thesis
    using handoffs.history_length [OF h, of 4] by (simp add: handoff_rank_def distinct_map)
qed

theorem handoff_chain_bounded_witness:
  "distinct [''deep-interview'', ''ralplan'', ''ultragoal'', ''ultraqa'']"
proof -
  have "handoff ''deep-interview'' ''ralplan'' \<and> handoff ''ralplan'' ''ultragoal'' \<and> handoff ''ultragoal'' ''ultraqa''"
    by code_simp
  then have "\<forall>i. Suc i < length [''deep-interview'', ''ralplan'', ''ultragoal'', ''ultraqa''] \<longrightarrow>
      handoff ([''deep-interview'', ''ralplan'', ''ultragoal'', ''ultraqa''] ! i)
              ([''deep-interview'', ''ralplan'', ''ultragoal'', ''ultraqa''] ! Suc i)"
    by (simp add: less_Suc_eq nth_Cons')
  from handoff_chain_bounded [OF this] show ?thesis by blast
qed

text \<open>No request is ever refused, although the transition contract of the documentation keeps
  autopilot and autoresearch standalone: each of them overlaps with every other tracked mode
  that does not hand off to the requested one.\<close>

theorem standalone_modes_overlap:
  assumes "m \<in> {''autopilot'', ''autoresearch''}" "is_tracked_workflow_mode r" "r \<noteq> m"
  shows "wd_allowed (evaluate_workflow_transition active r)
    \<and> wd_resulting (evaluate_workflow_transition [m] r) = [m, r]
    \<and> wd_kind (evaluate_workflow_transition [m] r) = KOverlap"
proof -
  have m: "is_tracked_workflow_mode m" "handoff_final m"
    using assms(1) by (auto simp: is_tracked_workflow_mode_def tracked_workflow_modes_def handoff_final_def)
  have n: "\<not> is_auto_complete_transition m r"
    using handoff_checked [of m r] m assms(2) by (auto simp: handoff_def)
  have c: "normalize_tracked_modes [m] = [m]" using m by (simp add: normalize_tracked_modes_def)
  show ?thesis
    using n c assms(3) decision_resulting [OF assms(2), of "[m]"]
    by (simp add: evaluate_workflow_transition_def Let_def)
qed

theorem standalone_modes_overlap_witness:
  "wd_resulting (evaluate_workflow_transition [''autopilot''] ''ralph'') = [''autopilot'', ''ralph'']"
proof -
  have "is_tracked_workflow_mode ''ralph''" by code_simp
  from standalone_modes_overlap [OF _ this, of "''autopilot''"] show ?thesis by simp
qed

end
