(* ===== verification/RunOutcome.thy ===== *)
theory RunOutcome
  imports JsValue JsDate
begin

text \<open>
  The outcome vocabulary of a run and its contract (\<open>src/runtime/run-outcome.ts\<close>): what a raw
  value means, which lifecycle a state record implies, and the normal form every stored state
  is brought to. The alias tables are plain objects, so a lookup also finds the properties
  every object inherits: \<open>HostOutcome n\<close> and \<open>HostLifecycle n\<close> are what the tables return for
  \<open>constructor\<close> and \<open>__proto__\<close>, the two inherited names that survive the conversion to lower
  case.
\<close>

subsection \<open>Outcomes\<close>

datatype run_outcome = Finish | BlockedOnUser | RunFailed | RunCancelled | Progress | Continue | HostOutcome string

datatype lifecycle = LFinished | LBlocked | LFailed | LUserInterlude | LAskUser | HostLifecycle string

definition terminal_run_outcomes :: "run_outcome list" where
  "terminal_run_outcomes = [Finish, BlockedOnUser, RunFailed, RunCancelled]"

definition non_terminal_run_outcomes :: "run_outcome list" where
  "non_terminal_run_outcomes = [Progress, Continue]"

definition run_outcomes :: "run_outcome list" where
  "run_outcomes = non_terminal_run_outcomes @ terminal_run_outcomes"

definition lifecycles :: "lifecycle list" where
  "lifecycles = [LFinished, LBlocked, LFailed, LUserInterlude, LAskUser]"

fun run_outcome_name :: "run_outcome \<Rightarrow> string" where
  "run_outcome_name Finish = ''finish''"
| "run_outcome_name BlockedOnUser = ''blocked_on_user''"
| "run_outcome_name RunFailed = ''failed''"
| "run_outcome_name RunCancelled = ''cancelled''"
| "run_outcome_name Progress = ''progress''"
| "run_outcome_name Continue = ''continue''"
| "run_outcome_name (HostOutcome n) =
     (if n = ''constructor'' then ''function Object() { [native code] }'' else ''[object Object]'')"

fun lifecycle_name :: "lifecycle \<Rightarrow> string" where
  "lifecycle_name LFinished = ''finished''"
| "lifecycle_name LBlocked = ''blocked''"
| "lifecycle_name LFailed = ''failed''"
| "lifecycle_name LUserInterlude = ''userinterlude''"
| "lifecycle_name LAskUser = ''askuserQuestion''"
| "lifecycle_name (HostLifecycle n) =
     (if n = ''constructor'' then ''function Object() { [native code] }'' else ''[object Object]'')"

fun run_outcome_js :: "run_outcome \<Rightarrow> js" where
  "run_outcome_js (HostOutcome n) = JHost n"
| "run_outcome_js r = JStr (run_outcome_name r)"

fun lifecycle_js :: "lifecycle \<Rightarrow> js" where
  "lifecycle_js (HostLifecycle n) = JHost n"
| "lifecycle_js l = JStr (lifecycle_name l)"

definition run_outcome_aliases :: "(string \<times> run_outcome) list" where
  "run_outcome_aliases =
     [(''finish'', Finish), (''finished'', Finish), (''complete'', Finish), (''completed'', Finish),
      (''done'', Finish), (''blocked'', BlockedOnUser), (''blocked-on-user'', BlockedOnUser),
      (''blocked_on_user'', BlockedOnUser), (''failed'', RunFailed), (''fail'', RunFailed),
      (''error'', RunFailed), (''cancelled'', RunCancelled), (''canceled'', RunCancelled),
      (''cancel'', RunCancelled), (''aborted'', RunCancelled), (''abort'', RunCancelled),
      (''progress'', Progress), (''continue'', Continue), (''continued'', Continue)]"

definition lifecycle_aliases :: "(string \<times> lifecycle) list" where
  "lifecycle_aliases =
     [(''finished'', LFinished), (''finish'', LFinished), (''complete'', LFinished),
      (''completed'', LFinished), (''done'', LFinished), (''blocked'', LBlocked), (''failed'', LFailed),
      (''fail'', LFailed), (''error'', LFailed), (''userinterlude'', LUserInterlude),
      (''user-interlude'', LUserInterlude), (''interrupted'', LUserInterlude),
      (''interrupt'', LUserInterlude), (''cancelled'', LUserInterlude), (''canceled'', LUserInterlude),
      (''cancel'', LUserInterlude), (''aborted'', LUserInterlude), (''abort'', LUserInterlude),
      (''askuserquestion'', LAskUser), (''ask-user-question'', LAskUser), (''askuser'', LAskUser),
      (''question'', LAskUser)]"

definition terminal_phase_outcomes :: "(string \<times> run_outcome) list" where
  "terminal_phase_outcomes =
     [(''complete'', Finish), (''completed'', Finish), (''blocked'', BlockedOnUser),
      (''blocked_on_user'', BlockedOnUser), (''blocked-on-user'', BlockedOnUser), (''failed'', RunFailed),
      (''cancelled'', RunCancelled), (''cancel'', RunCancelled)]"

definition inherited_names :: "string list" where
  "inherited_names = [''constructor'', ''__proto__'']"

text \<open>Reading a table object: an own property, or one inherited from \<open>Object.prototype\<close>.\<close>

definition table_get :: "(string \<times> 'a) list \<Rightarrow> (string \<Rightarrow> 'a) \<Rightarrow> string \<Rightarrow> 'a option" where
  "table_get table host k =
     (case map_of table k of
        Some v \<Rightarrow> Some v
      | None \<Rightarrow> (if k \<in> set inherited_names then Some (host k) else None))"

datatype block_strategy = StratBlocked | StratAskUser | StratUserInterlude

record 'o norm_result =
  nr_outcome :: "'o option"
  nr_warning :: "string option"
  nr_error :: "string option"

definition no_result :: "'o norm_result" where
  "no_result = \<lparr> nr_outcome = None, nr_warning = None, nr_error = None \<rparr>"

definition normalize_run_outcome_value :: "js \<Rightarrow> string" where
  "normalize_run_outcome_value v = (case js_string v of None \<Rightarrow> [] | Some s \<Rightarrow> js_lower (js_trim s))"

fun resolve_blocked :: "block_strategy \<Rightarrow> lifecycle" where
  "resolve_blocked StratBlocked = LBlocked"
| "resolve_blocked StratAskUser = LAskUser"
| "resolve_blocked StratUserInterlude = LUserInterlude"

definition has_pending_question_enforcement :: "js_record \<Rightarrow> bool" where
  "has_pending_question_enforcement candidate =
     (let e = rec_get candidate ''question_enforcement''
      in js_truthy e \<and> is_object e \<and> trimmed (js_get e ''obligation_id'') \<noteq> []
         \<and> js_lower (trimmed (js_get e ''status'')) = ''pending'')"

fun run_of_lifecycle :: "lifecycle \<Rightarrow> run_outcome option" where
  "run_of_lifecycle LFinished = Some Finish"
| "run_of_lifecycle LBlocked = Some BlockedOnUser"
| "run_of_lifecycle LFailed = Some RunFailed"
| "run_of_lifecycle LUserInterlude = Some RunCancelled"
| "run_of_lifecycle LAskUser = Some BlockedOnUser"
| "run_of_lifecycle (HostLifecycle n) = None"

text \<open>\<open>None\<close> for an outcome that is not terminal, which the type of the source rules out.\<close>

fun lifecycle_of_run :: "run_outcome \<Rightarrow> block_strategy \<Rightarrow> lifecycle option" where
  "lifecycle_of_run Finish st = Some LFinished"
| "lifecycle_of_run BlockedOnUser st = Some (resolve_blocked st)"
| "lifecycle_of_run RunFailed st = Some LFailed"
| "lifecycle_of_run RunCancelled st = Some LUserInterlude"
| "lifecycle_of_run _ st = None"

definition legacy_warning :: "string \<Rightarrow> js \<Rightarrow> string \<Rightarrow> string" where
  "legacy_warning what v to =
     ''normalized legacy '' @ what @ '' '' @ [CHR 0x22] @ (case js_string v of None \<Rightarrow> [] | Some s \<Rightarrow> s)
       @ [CHR 0x22] @ '' -> '' @ [CHR 0x22] @ to @ [CHR 0x22]"

definition normalize_run_outcome :: "js \<Rightarrow> run_outcome norm_result" where
  "normalize_run_outcome v =
     (let n = normalize_run_outcome_value v
      in if n = [] then no_result
         else (case List.find (\<lambda>r. run_outcome_name r = n) run_outcomes of
                 Some r \<Rightarrow> no_result\<lparr> nr_outcome := Some r \<rparr>
               | None \<Rightarrow>
                   (case table_get run_outcome_aliases HostOutcome n of
                      Some a \<Rightarrow> no_result\<lparr> nr_outcome := Some a,
                                  nr_warning := Some (legacy_warning ''run outcome'' v (run_outcome_name a)) \<rparr>
                    | None \<Rightarrow> no_result\<lparr> nr_error :=
                        Some (''run_outcome must be one of: '' @ js_join '', '' (map run_outcome_name run_outcomes)) \<rparr>)))"

definition normalize_lifecycle :: "js \<Rightarrow> block_strategy \<Rightarrow> lifecycle norm_result" where
  "normalize_lifecycle v st =
     (let n = normalize_run_outcome_value v
      in if n = [] then no_result
         else (case List.find (\<lambda>l. lifecycle_name l = n) lifecycles of
                 Some l \<Rightarrow> no_result\<lparr> nr_outcome := Some l \<rparr>
               | None \<Rightarrow>
                   (if n = ''blocked_on_user'' \<or> n = ''blocked-on-user''
                    then no_result\<lparr> nr_outcome := Some (resolve_blocked st),
                           nr_warning := Some (legacy_warning ''terminal lifecycle outcome'' v
                                                (lifecycle_name (resolve_blocked st))) \<rparr>
                    else (case table_get lifecycle_aliases HostLifecycle n of
                            Some a \<Rightarrow> no_result\<lparr> nr_outcome := Some a,
                                        nr_warning := Some (legacy_warning ''terminal lifecycle outcome'' v
                                                             (lifecycle_name a)) \<rparr>
                          | None \<Rightarrow> no_result\<lparr> nr_error :=
                              Some (''lifecycle_outcome must be one of: ''
                                    @ js_join '', '' (map lifecycle_name lifecycles)) \<rparr>))))"

definition classify_run_outcome :: "js \<Rightarrow> run_outcome" where
  "classify_run_outcome v = (case nr_outcome (normalize_run_outcome v) of None \<Rightarrow> Progress | Some r \<Rightarrow> r)"

definition is_terminal_run_outcome :: "js \<Rightarrow> bool" where
  "is_terminal_run_outcome v \<longleftrightarrow>
     (case nr_outcome (normalize_run_outcome v) of None \<Rightarrow> False | Some r \<Rightarrow> r \<in> set terminal_run_outcomes)"

definition is_terminal_lifecycle :: "js \<Rightarrow> block_strategy \<Rightarrow> bool" where
  "is_terminal_lifecycle v st \<longleftrightarrow>
     (case nr_outcome (normalize_lifecycle v st) of None \<Rightarrow> False | Some l \<Rightarrow> l \<in> set lifecycles)"

definition is_non_terminal_run_outcome :: "js \<Rightarrow> bool" where
  "is_non_terminal_run_outcome v \<longleftrightarrow>
     (case nr_outcome (normalize_run_outcome v) of None \<Rightarrow> False | Some r \<Rightarrow> r \<in> set non_terminal_run_outcomes)"

definition is_non_terminal_run_state :: "js \<Rightarrow> bool" where
  "is_non_terminal_run_state v \<longleftrightarrow> is_non_terminal_run_outcome (run_outcome_js (classify_run_outcome v))"

definition is_terminal_run_state :: "js \<Rightarrow> bool" where
  "is_terminal_run_state v \<longleftrightarrow> is_terminal_run_outcome (run_outcome_js (classify_run_outcome v))"

subsection \<open>Inference from a state record\<close>

definition blocked_strategy :: "js_record \<Rightarrow> bool \<Rightarrow> block_strategy option \<Rightarrow> block_strategy" where
  "blocked_strategy candidate include_question st =
     (case st of
        Some x \<Rightarrow> x
      | None \<Rightarrow> (if include_question \<and> has_pending_question_enforcement candidate then StratAskUser else StratBlocked))"

definition infer_lifecycle :: "js_record \<Rightarrow> bool \<Rightarrow> block_strategy option \<Rightarrow> lifecycle option" where
  "infer_lifecycle candidate include_question strategy =
     (let st = blocked_strategy candidate include_question strategy;
          explicit = normalize_lifecycle
            (js_coalesce (rec_get candidate ''lifecycle_outcome'') (rec_get candidate ''terminal_outcome'')) st;
          run = nr_outcome (normalize_run_outcome (rec_get candidate ''run_outcome''));
          phase = js_lower (trimmed (rec_get candidate ''current_phase''));
          of_phase = (if phase = [] then None else nr_outcome (normalize_lifecycle (JStr phase) st))
      in if nr_outcome explicit \<noteq> None then nr_outcome explicit
         else if run \<noteq> None \<and> is_terminal_run_outcome (run_outcome_js (the run))
         then lifecycle_of_run (the run) st
         else if of_phase \<noteq> None then of_phase
         else if include_question \<and> has_pending_question_enforcement candidate then Some LAskUser
         else if rec_get candidate ''active'' = JBool True then None
         else if trimmed (rec_get candidate ''completed_at'') \<noteq> [] then Some LFinished
         else if rec_get candidate ''active'' = JBool False then Some LFinished
         else None)"

text \<open>\<open>None\<close> is the \<open>undefined\<close> of a lifecycle that is no own key of the table.\<close>

definition infer_run_outcome :: "js_record \<Rightarrow> run_outcome option" where
  "infer_run_outcome candidate =
     (let explicit = nr_outcome (normalize_run_outcome (rec_get candidate ''run_outcome''));
          lifecycle = infer_lifecycle candidate False None;
          phase = js_lower (trimmed (rec_get candidate ''current_phase''))
      in if explicit \<noteq> None then explicit
         else if lifecycle \<noteq> None then run_of_lifecycle (the lifecycle)
         else if phase \<noteq> [] \<and> table_get terminal_phase_outcomes HostOutcome phase \<noteq> None
         then table_get terminal_phase_outcomes HostOutcome phase
         else if rec_get candidate ''active'' = JBool True then Some Continue
         else if trimmed (rec_get candidate ''completed_at'') \<noteq> [] then Some Finish
         else if rec_get candidate ''active'' = JBool False then Some Finish
         else Some Continue)"

subsection \<open>The contract\<close>

datatype contract_error =
    BadLifecycle string
  | BadRunOutcome string
  | TerminalActive string
  | NonTerminalInactive string

definition outcome_js :: "run_outcome option \<Rightarrow> js" where
  "outcome_js r = (case r of None \<Rightarrow> JUndef | Some x \<Rightarrow> run_outcome_js x)"

definition with_lifecycle :: "lifecycle option \<Rightarrow> js_record \<Rightarrow> js_record" where
  "with_lifecycle l next =
     (case l of None \<Rightarrow> rec_delete ''lifecycle_outcome'' next
      | Some x \<Rightarrow> rec_set ''lifecycle_outcome'' (lifecycle_js x) next)"

definition contract_lifecycle :: "js_record \<Rightarrow> lifecycle option" where
  "contract_lifecycle candidate =
     (let explicit = nr_outcome (normalize_lifecycle
            (js_coalesce (rec_get candidate ''lifecycle_outcome'') (rec_get candidate ''terminal_outcome'')) StratBlocked)
      in if explicit \<noteq> None then explicit else infer_lifecycle candidate False None)"

definition contract_outcome :: "js_record \<Rightarrow> run_outcome option" where
  "contract_outcome candidate =
     (let explicit = nr_outcome (normalize_lifecycle
            (js_coalesce (rec_get candidate ''lifecycle_outcome'') (rec_get candidate ''terminal_outcome'')) StratBlocked);
          run = nr_outcome (normalize_run_outcome (rec_get candidate ''run_outcome''))
      in if explicit \<noteq> None then run_of_lifecycle (the explicit)
         else if run \<noteq> None then run else infer_run_outcome candidate)"

definition contract_terminal :: "js_record \<Rightarrow> bool" where
  "contract_terminal candidate \<longleftrightarrow>
     contract_lifecycle candidate \<noteq> None \<or> is_terminal_run_outcome (outcome_js (contract_outcome candidate))"

definition outcome_text :: "run_outcome option \<Rightarrow> string" where
  "outcome_text r = (case r of None \<Rightarrow> ''undefined'' | Some x \<Rightarrow> run_outcome_name x)"

text \<open>The state and the warning, or the error.\<close>

definition apply_run_outcome_contract ::
    "js_record \<Rightarrow> string \<Rightarrow> contract_error + (js_record \<times> string option)" where
  "apply_run_outcome_contract candidate now_iso =
     (let nl = normalize_lifecycle
            (js_coalesce (rec_get candidate ''lifecycle_outcome'') (rec_get candidate ''terminal_outcome'')) StratBlocked;
          nr = normalize_run_outcome (rec_get candidate ''run_outcome'');
          lifecycle = contract_lifecycle candidate;
          outcome = contract_outcome candidate;
          next = with_lifecycle lifecycle
                   (rec_set ''run_outcome'' (outcome_js outcome) (rec_delete ''terminal_outcome'' candidate));
          warning = (if nr_warning nl \<noteq> None then nr_warning nl else nr_warning nr)
      in if nr_error nl \<noteq> None then Inl (BadLifecycle (the (nr_error nl)))
         else if nr_error nr \<noteq> None then Inl (BadRunOutcome (the (nr_error nr)))
         else if contract_terminal candidate
         then (if rec_get next ''active'' = JBool True
               then Inl (TerminalActive (case lifecycle of Some l \<Rightarrow> lifecycle_name l | None \<Rightarrow> outcome_text outcome))
               else (let n1 = rec_set ''active'' (JBool False) next
                     in Inr (if trimmed (rec_get n1 ''completed_at'') = []
                             then rec_set ''completed_at'' (JStr now_iso) n1 else n1, warning)))
         else (if rec_get next ''active'' = JBool False
               then Inl (NonTerminalInactive (outcome_text outcome))
               else (let n1 = rec_set ''active'' (JBool True) next
                     in Inr (if trimmed (rec_get n1 ''completed_at'') \<noteq> []
                             then rec_delete ''completed_at'' n1 else n1, warning))))"

subsection \<open>The names are read back\<close>

lemma find_run_outcome_name:
  "r \<in> set run_outcomes \<Longrightarrow> List.find (\<lambda>q. run_outcome_name q = run_outcome_name r) run_outcomes = Some r"
proof (rule find_key)
  show "distinct (map run_outcome_name run_outcomes)" by code_simp
qed

lemma trim_name:
  assumes "r \<in> set run_outcomes"
  shows "js_lower (js_trim (run_outcome_name r)) = run_outcome_name r
    \<and> run_outcome_name r \<noteq> [] \<and> run_outcome_js r = JStr (run_outcome_name r)"
proof -
  have "list_all (\<lambda>r. lower_word (run_outcome_name r)) run_outcomes"
    by code_simp
  then have "lower_word (run_outcome_name r)" using assms by (simp add: list_all_iff)
  moreover have "run_outcome_name r \<noteq> []" "run_outcome_js r = JStr (run_outcome_name r)"
    using assms by (auto simp: run_outcomes_def terminal_run_outcomes_def non_terminal_run_outcomes_def)
  ultimately show ?thesis by (simp add: js_lower_word js_trim_word)
qed

lemma normalize_canonical:
  "r \<in> set run_outcomes \<Longrightarrow> normalize_run_outcome (run_outcome_js r) = no_result\<lparr> nr_outcome := Some r \<rparr>"
  using trim_name [of r] find_run_outcome_name [of r]
  by (simp add: normalize_run_outcome_def normalize_run_outcome_value_def)

lemma find_set: "List.find p xs = Some x \<Longrightarrow> x \<in> set xs"
  by (induction xs) (auto split: if_splits)

definition plain_value :: "js \<Rightarrow> bool" where
  "plain_value v \<longleftrightarrow> normalize_run_outcome_value v \<notin> set inherited_names"

lemma table_get_plain: "k \<notin> set inherited_names \<Longrightarrow> table_get t h k = map_of t k"
  by (simp add: table_get_def split: option.split)

lemma aliases_canonical:
  "map_of run_outcome_aliases n = Some r \<Longrightarrow> r \<in> set run_outcomes"
  "map_of lifecycle_aliases n = Some l \<Longrightarrow> l \<in> set lifecycles"
proof -
  have "snd ` set run_outcome_aliases \<subseteq> set run_outcomes" "snd ` set lifecycle_aliases \<subseteq> set lifecycles"
    by (auto simp: run_outcome_aliases_def run_outcomes_def terminal_run_outcomes_def
        non_terminal_run_outcomes_def lifecycle_aliases_def lifecycles_def)
  then show "map_of run_outcome_aliases n = Some r \<Longrightarrow> r \<in> set run_outcomes"
    "map_of lifecycle_aliases n = Some l \<Longrightarrow> l \<in> set lifecycles"
    by (auto dest!: map_of_SomeD)
qed

lemma normalize_run_plain:
  "plain_value v \<Longrightarrow> nr_outcome (normalize_run_outcome v) = Some r \<Longrightarrow> r \<in> set run_outcomes"
  by (auto simp: normalize_run_outcome_def Let_def no_result_def plain_value_def table_get_plain
      dest: find_set aliases_canonical split: if_splits option.splits)

lemma resolve_blocked_canonical: "resolve_blocked st \<in> set lifecycles"
  by (cases st) (simp_all add: lifecycles_def)

lemma normalize_lifecycle_plain:
  "plain_value v \<Longrightarrow> nr_outcome (normalize_lifecycle v st) = Some l \<Longrightarrow> l \<in> set lifecycles"
  using resolve_blocked_canonical [of st]
  by (auto simp: normalize_lifecycle_def Let_def no_result_def plain_value_def table_get_plain
      dest: find_set aliases_canonical split: if_splits option.splits)

lemma lifecycle_run_canonical: "l \<in> set lifecycles \<Longrightarrow> \<exists>r \<in> set terminal_run_outcomes. run_of_lifecycle l = Some r"
  by (auto simp: lifecycles_def terminal_run_outcomes_def)

lemma terminal_canonical: "r \<in> set run_outcomes \<Longrightarrow>
    is_terminal_run_outcome (run_outcome_js r) \<longleftrightarrow> r \<in> set terminal_run_outcomes"
  by (simp add: is_terminal_run_outcome_def normalize_canonical no_result_def)

subsection \<open>What the contract infers\<close>

definition explicit_lifecycle_value :: "js_record \<Rightarrow> js" where
  "explicit_lifecycle_value c = js_coalesce (rec_get c ''lifecycle_outcome'') (rec_get c ''terminal_outcome'')"

text \<open>A state whose texts are none of the two inherited names.\<close>

definition plain_state :: "js_record \<Rightarrow> bool" where
  "plain_state c \<longleftrightarrow> plain_value (explicit_lifecycle_value c) \<and> plain_value (rec_get c ''run_outcome'')
     \<and> plain_value (rec_get c ''current_phase'')"

lemma normalize_phase_value:
  "normalize_run_outcome_value (JStr (js_lower (trimmed v))) = normalize_run_outcome_value v"
  by (simp add: normalize_run_outcome_value_def trimmed_def js_trim_lower split: option.split)

lemma plain_phase: "plain_value v \<Longrightarrow> plain_value (JStr (js_lower (trimmed v)))"
  by (simp add: plain_value_def normalize_phase_value)

lemma terminal_run_lifecycle:
  "is_terminal_run_outcome (run_outcome_js r) \<Longrightarrow> \<exists>l \<in> set lifecycles. lifecycle_of_run r st = Some l"
proof -
  assume t: "is_terminal_run_outcome (run_outcome_js r)"
  show ?thesis
  proof (cases "r \<in> set run_outcomes")
    case True
    then have "r \<in> set terminal_run_outcomes" using t by (simp add: terminal_canonical)
    then show ?thesis
      using resolve_blocked_canonical [of st] by (auto simp: terminal_run_outcomes_def lifecycles_def)
  next
    case False
    then obtain n where "r = HostOutcome n"
      by (cases r) (auto simp: run_outcomes_def terminal_run_outcomes_def non_terminal_run_outcomes_def)
    then show ?thesis
      using t by (simp add: is_terminal_run_outcome_def normalize_run_outcome_def
          normalize_run_outcome_value_def no_result_def)
  qed
qed

lemma infer_lifecycle_plain:
  assumes "plain_state c" "infer_lifecycle c q st = Some l"
  shows "l \<in> set lifecycles"
proof -
  have "LFinished \<in> set lifecycles" "LAskUser \<in> set lifecycles" by (simp_all add: lifecycles_def)
  then show ?thesis
    using assms
    by (auto simp: infer_lifecycle_def Let_def plain_state_def explicit_lifecycle_value_def
        dest: normalize_lifecycle_plain plain_phase
        dest!: terminal_run_lifecycle [of _ "blocked_strategy c q st"] split: if_splits)
qed

lemma contract_lifecycle_plain:
  "plain_state c \<Longrightarrow> contract_lifecycle c = Some l \<Longrightarrow> l \<in> set lifecycles"
  by (auto simp: contract_lifecycle_def Let_def plain_state_def explicit_lifecycle_value_def
      dest: normalize_lifecycle_plain intro: infer_lifecycle_plain [unfolded plain_state_def explicit_lifecycle_value_def]
      split: if_splits)

lemma terminal_phase_canonical: "map_of terminal_phase_outcomes p = Some r \<Longrightarrow> r \<in> set run_outcomes"
proof -
  have "snd ` set terminal_phase_outcomes \<subseteq> set run_outcomes"
    by (auto simp: terminal_phase_outcomes_def run_outcomes_def terminal_run_outcomes_def)
  then show "map_of terminal_phase_outcomes p = Some r \<Longrightarrow> r \<in> set run_outcomes"
    by (auto dest!: map_of_SomeD)
qed

lemma terminal_in_run: "r \<in> set terminal_run_outcomes \<Longrightarrow> r \<in> set run_outcomes"
  by (simp add: run_outcomes_def)

lemma infer_run_outcome_plain:
  assumes "plain_state c"
  shows "\<exists>r \<in> set run_outcomes. infer_run_outcome c = Some r"
proof -
  have f: "Finish \<in> set run_outcomes" "Continue \<in> set run_outcomes"
    by (simp_all add: run_outcomes_def terminal_run_outcomes_def non_terminal_run_outcomes_def)
  have ph: "js_lower (trimmed (rec_get c ''current_phase'')) \<notin> set inherited_names
      \<or> js_lower (trimmed (rec_get c ''current_phase'')) = []"
    using assms by (simp add: plain_state_def plain_value_def normalize_run_outcome_value_def trimmed_def split: option.splits)
  show ?thesis
  proof (cases "nr_outcome (normalize_run_outcome (rec_get c ''run_outcome''))")
    case (Some r)
    then show ?thesis
      using assms normalize_run_plain by (auto simp: infer_run_outcome_def Let_def plain_state_def)
  next
    case none: None
    show ?thesis
    proof (cases "infer_lifecycle c False None")
      case (Some l)
      then show ?thesis
        using none lifecycle_run_canonical [OF infer_lifecycle_plain [OF assms Some]] terminal_in_run
        by (auto simp: infer_run_outcome_def Let_def)
    next
      case None
      then show ?thesis
        using none f ph terminal_phase_canonical
        by (auto simp: infer_run_outcome_def Let_def table_get_plain split: option.splits)
    qed
  qed
qed

lemma contract_outcome_plain:
  assumes "plain_state c"
  shows "\<exists>r \<in> set run_outcomes. contract_outcome c = Some r"
proof (cases "nr_outcome (normalize_lifecycle (explicit_lifecycle_value c) StratBlocked)")
  case (Some l)
  then have "l \<in> set lifecycles" using assms normalize_lifecycle_plain by (auto simp: plain_state_def)
  from lifecycle_run_canonical [OF this] show ?thesis
    using Some terminal_in_run by (auto simp: contract_outcome_def Let_def explicit_lifecycle_value_def)
next
  case None
  then show ?thesis
    using infer_run_outcome_plain [OF assms] assms normalize_run_plain
    by (cases "nr_outcome (normalize_run_outcome (rec_get c ''run_outcome''))")
      (auto simp: contract_outcome_def Let_def explicit_lifecycle_value_def plain_state_def)
qed

lemma inactive_terminal: "rec_get c ''active'' = JBool False \<Longrightarrow> contract_terminal c"
  using terminal_run_lifecycle [of "the (nr_outcome (normalize_run_outcome (rec_get c ''run_outcome'')))"
      "blocked_strategy c False None"]
  by (auto simp: contract_terminal_def contract_lifecycle_def infer_lifecycle_def Let_def split: if_splits)

lemma with_lifecycle_get [simp]:
  "rec_get (with_lifecycle l s) k =
     (if k = ''lifecycle_outcome'' then (case l of None \<Rightarrow> JUndef | Some x \<Rightarrow> lifecycle_js x) else rec_get s k)"
  by (simp add: with_lifecycle_def split: option.split)

text \<open>The stored form of an accepted state, key by key.\<close>

lemma contract_result:
  assumes "apply_run_outcome_contract c now = Inr (s, w)"
  shows "rec_get s k =
    (if k = ''terminal_outcome'' then JUndef
     else if k = ''run_outcome'' then outcome_js (contract_outcome c)
     else if k = ''lifecycle_outcome'' then (case contract_lifecycle c of None \<Rightarrow> JUndef | Some l \<Rightarrow> lifecycle_js l)
     else if k = ''active'' then JBool (\<not> contract_terminal c)
     else if k = ''completed_at'' then
       (if contract_terminal c
        then (if trimmed (rec_get c ''completed_at'') = [] then JStr now else rec_get c ''completed_at'')
        else (if trimmed (rec_get c ''completed_at'') = [] then rec_get c ''completed_at'' else JUndef))
     else rec_get c k)"
proof -
  define n where "n = with_lifecycle (contract_lifecycle c)
      (rec_set ''run_outcome'' (outcome_js (contract_outcome c)) (rec_delete ''terminal_outcome'' c))"
  have n: "rec_get n k = (if k = ''lifecycle_outcome'' then (case contract_lifecycle c of None \<Rightarrow> JUndef | Some l \<Rightarrow> lifecycle_js l)
      else if k = ''run_outcome'' then outcome_js (contract_outcome c)
      else if k = ''terminal_outcome'' then JUndef else rec_get c k)" for k
    by (simp add: n_def)
  have ca: "rec_get n ''completed_at'' = rec_get c ''completed_at''" by (simp add: n)
  consider "contract_terminal c" "trimmed (rec_get c ''completed_at'') = []"
        "s = rec_set ''completed_at'' (JStr now) (rec_set ''active'' (JBool False) n)"
    | "contract_terminal c" "trimmed (rec_get c ''completed_at'') \<noteq> []" "s = rec_set ''active'' (JBool False) n"
    | "\<not> contract_terminal c" "trimmed (rec_get c ''completed_at'') \<noteq> []"
        "s = rec_delete ''completed_at'' (rec_set ''active'' (JBool True) n)"
    | "\<not> contract_terminal c" "trimmed (rec_get c ''completed_at'') = []" "s = rec_set ''active'' (JBool True) n"
    using assms ca unfolding apply_run_outcome_contract_def Let_def n_def [symmetric]
    by (simp split: if_split_asm)
  then show ?thesis by cases (simp_all add: n)
qed

lemma contract_accepts:
  assumes "nr_error (normalize_lifecycle (explicit_lifecycle_value c) StratBlocked) = None"
    and "nr_error (normalize_run_outcome (rec_get c ''run_outcome'')) = None"
    and "contract_terminal c \<longrightarrow> rec_get c ''active'' \<noteq> JBool True"
    and "\<not> contract_terminal c \<longrightarrow> rec_get c ''active'' \<noteq> JBool False"
  shows "\<exists>s w. apply_run_outcome_contract c now = Inr (s, w)"
  using assms by (simp add: apply_run_outcome_contract_def Let_def explicit_lifecycle_value_def)

lemma normalize_absent [simp]:
  "normalize_lifecycle JUndef st = no_result" "normalize_run_outcome JUndef = no_result"
  by (simp_all add: normalize_lifecycle_def normalize_run_outcome_def normalize_run_outcome_value_def)

lemma no_result_fields [simp]:
  "nr_outcome no_result = None" "nr_error no_result = None" "nr_warning no_result = None"
  by (simp_all add: no_result_def)

subsection \<open>Properties\<close>



text \<open>The contract rejects a state only for an unknown name or for a terminal state that
  claims to be active: the check that a non-terminal outcome is not inactive can never fail,
  because an inactive state is always classified as terminal.\<close>

theorem contract_errors:
  "apply_run_outcome_contract c now = Inl e \<Longrightarrow>
     (\<exists>m. e = BadLifecycle m) \<or> (\<exists>m. e = BadRunOutcome m)
     \<or> (\<exists>m. e = TerminalActive m) \<and> contract_terminal c \<and> rec_get c ''active'' = JBool True"
proof -
  assume a: "apply_run_outcome_contract c now = Inl e"
  have n: "rec_get (with_lifecycle l (rec_set ''run_outcome'' r (rec_delete ''terminal_outcome'' c))) ''active''
      = rec_get c ''active''" for l r
    by simp
  show ?thesis
  proof (cases "contract_terminal c")
    case True
    then show ?thesis using a n unfolding apply_run_outcome_contract_def Let_def
      by (auto split: if_split_asm)
  next
    case False
    then have "rec_get c ''active'' \<noteq> JBool False" using inactive_terminal by blast
    then show ?thesis using a n False unfolding apply_run_outcome_contract_def Let_def
      by (auto split: if_split_asm)
  qed
qed

theorem contract_errors_witness:
  "\<exists>e. apply_run_outcome_contract [(''run_outcome'', JStr ''nope'')] ''now'' = Inl e \<and> (\<exists>m. e = BadRunOutcome m)"
proof -
  have w: "lower_word ''nope''" "\<not> (\<exists>r \<in> set run_outcomes. run_outcome_name r = ''nope'')"
    "map_of run_outcome_aliases ''nope'' = None"
    by (code_simp, auto simp: run_outcomes_def terminal_run_outcomes_def non_terminal_run_outcomes_def
        run_outcome_aliases_def)
  then have "\<exists>m. nr_error (normalize_run_outcome (JStr ''nope'')) = Some m"
    by (auto simp: normalize_run_outcome_def normalize_run_outcome_value_def js_trim_word js_lower_word
        Let_def table_get_def inherited_names_def no_result_def find_None_iff split: option.split)
  then have a: "apply_run_outcome_contract [(''run_outcome'', JStr ''nope'')] ''now''
      = Inl (BadRunOutcome (the (nr_error (normalize_run_outcome (JStr ''nope'')))))"
    by (auto simp: apply_run_outcome_contract_def Let_def rec_get_def js_coalesce_def)
  from contract_errors [OF a] a show ?thesis by blast
qed

text \<open>Accepting is not the same as agreeing: an inactive state whose run outcome is
  \<open>continue\<close> is accepted, stored as finished with the run outcome \<open>continue\<close>, and the next
  application of the contract to what was stored changes the run outcome to \<open>finish\<close>.\<close>

theorem contract_not_idempotent:
  "\<exists>s w s' w'. apply_run_outcome_contract [(''active'', JBool False), (''run_outcome'', JStr ''continue'')] ''t'' = Inr (s, w)
     \<and> rec_get s ''lifecycle_outcome'' = JStr ''finished'' \<and> rec_get s ''run_outcome'' = JStr ''continue''
     \<and> apply_run_outcome_contract s ''t'' = Inr (s', w') \<and> rec_get s' ''run_outcome'' = JStr ''finish''"
proof -
  let ?c = "[(''active'', JBool False), (''run_outcome'', JStr ''continue'')]"
  have run: "normalize_run_outcome (JStr ''continue'') = no_result\<lparr> nr_outcome := Some Continue \<rparr>"
    using normalize_canonical [of Continue] by (simp add: run_outcomes_def non_terminal_run_outcomes_def)
  have nt: "\<not> is_terminal_run_outcome (run_outcome_js Continue)"
    using terminal_canonical [of Continue] by (simp add: run_outcomes_def non_terminal_run_outcomes_def terminal_run_outcomes_def)
  have ex: "rec_get ?c ''lifecycle_outcome'' = JUndef" "rec_get ?c ''terminal_outcome'' = JUndef"
    "rec_get ?c ''run_outcome'' = JStr ''continue''" "rec_get ?c ''active'' = JBool False"
    "rec_get ?c ''current_phase'' = JUndef" "rec_get ?c ''completed_at'' = JUndef"
    by (simp_all add: rec_get_def)
  have "trimmed JUndef = []" by (simp add: trimmed_def)
  then have cl: "contract_lifecycle ?c = Some LFinished"
    unfolding contract_lifecycle_def infer_lifecycle_def Let_def ex js_coalesce_def run
    using nt by (simp add: no_result_def)
  have co: "contract_outcome ?c = Some Continue"
    unfolding contract_outcome_def Let_def ex js_coalesce_def run by (simp add: no_result_def)
  have t: "contract_terminal ?c" by (rule inactive_terminal) (rule ex)
  have "\<exists>s w. apply_run_outcome_contract ?c ''t'' = Inr (s, w)"
    by (rule contract_accepts) (simp_all add: ex explicit_lifecycle_value_def js_coalesce_def run t no_result_def)
  then obtain s w where s: "apply_run_outcome_contract ?c ''t'' = Inr (s, w)" by blast
  note g = contract_result [OF s]
  have gs: "rec_get s ''lifecycle_outcome'' = JStr ''finished''" "rec_get s ''run_outcome'' = JStr ''continue''"
    "rec_get s ''active'' = JBool False" "rec_get s ''terminal_outcome'' = JUndef"
    using t by (simp_all add: g cl co outcome_js_def)
  have "lower_word ''finished''" by code_simp
  then have fin: "normalize_lifecycle (JStr ''finished'') StratBlocked = no_result\<lparr> nr_outcome := Some LFinished \<rparr>"
    by (simp add: normalize_lifecycle_def normalize_run_outcome_value_def js_trim_word js_lower_word lifecycles_def)
  have t': "contract_terminal s" by (rule inactive_terminal) (rule gs)
  have "\<exists>s' w'. apply_run_outcome_contract s ''t'' = Inr (s', w')"
    by (rule contract_accepts) (simp_all add: gs explicit_lifecycle_value_def js_coalesce_def run fin t' no_result_def)
  then obtain s' w' where s': "apply_run_outcome_contract s ''t'' = Inr (s', w')" by blast
  have "contract_outcome s = Some Finish"
    unfolding contract_outcome_def Let_def gs js_coalesce_def by (simp add: fin no_result_def)
  then have "rec_get s' ''run_outcome'' = JStr ''finish''"
    by (simp add: contract_result [OF s'] outcome_js_def)
  with s gs s' show ?thesis by blast
qed

text \<open>Normalising a run outcome gives a canonical name, and normalising that name gives it
  back without a warning, for every value except the two texts \<open>constructor\<close> and \<open>__proto__\<close>,
  for which the alias table returns an inherited property of every object, accepted as an
  outcome that is neither terminal nor non-terminal.\<close>

theorem run_outcome_closure:
  "(\<forall>v r. plain_value v \<and> nr_outcome (normalize_run_outcome v) = Some r \<longrightarrow>
      r \<in> set run_outcomes \<and> normalize_run_outcome (run_outcome_js r) = no_result\<lparr> nr_outcome := Some r \<rparr>)
   \<and> nr_outcome (normalize_run_outcome (JStr ''constructor'')) = Some (HostOutcome ''constructor'')
   \<and> nr_error (normalize_run_outcome (JStr ''constructor'')) = None
   \<and> \<not> is_terminal_run_state (JStr ''constructor'') \<and> \<not> is_non_terminal_run_state (JStr ''constructor'')"
proof -
  have "lower_word ''constructor''" by code_simp
  then have n: "normalize_run_outcome_value (JStr ''constructor'') = ''constructor''"
    by (simp add: normalize_run_outcome_value_def js_trim_word js_lower_word)
  have f: "List.find (\<lambda>r. run_outcome_name r = ''constructor'') run_outcomes = None"
    "map_of run_outcome_aliases ''constructor'' = None"
    by (simp_all add: run_outcomes_def terminal_run_outcomes_def non_terminal_run_outcomes_def run_outcome_aliases_def)
  have c: "nr_outcome (normalize_run_outcome (JStr ''constructor'')) = Some (HostOutcome ''constructor'')"
    "nr_error (normalize_run_outcome (JStr ''constructor'')) = None"
    by (simp_all add: normalize_run_outcome_def n f table_get_def inherited_names_def no_result_def Let_def)
  have h: "normalize_run_outcome (JHost x) = no_result" for x
    by (simp add: normalize_run_outcome_def normalize_run_outcome_value_def)
  show ?thesis
    using c normalize_run_plain normalize_canonical
    by (auto simp: is_terminal_run_state_def is_non_terminal_run_state_def classify_run_outcome_def
        is_terminal_run_outcome_def is_non_terminal_run_outcome_def h)
qed

theorem run_outcome_closure_witness:
  "nr_outcome (normalize_run_outcome (JStr ''done'')) = Some Finish
     \<and> normalize_run_outcome (run_outcome_js Finish) = no_result\<lparr> nr_outcome := Some Finish \<rparr>"
proof -
  have "lower_word ''done''" by code_simp
  then have n: "normalize_run_outcome_value (JStr ''done'') = ''done''"
    by (simp add: normalize_run_outcome_value_def js_trim_word js_lower_word)
  have o: "nr_outcome (normalize_run_outcome (JStr ''done'')) = Some Finish"
    by (simp add: normalize_run_outcome_def n table_get_def run_outcome_aliases_def no_result_def Let_def
        run_outcomes_def terminal_run_outcomes_def non_terminal_run_outcomes_def)
  have "plain_value (JStr ''done'')" by (simp add: plain_value_def n inherited_names_def)
  with o run_outcome_closure show ?thesis by blast
qed

end
