(* ===== verification/SkillActive.thy ===== *)
theory SkillActive
  imports Workflow RunOutcome
begin

text \<open>
  The canonical list of active skills (\<open>src/state/skill-active.ts\<close>): one root file and one
  file per session. Entries are records, as the code spreads what it read. Reading, the
  visible modes of a session, merging a session into the root, and the synchronisation of a
  mode for one session or for the root. The root lock, which every write holds, and the
  temporary file of the atomic replacement are left out; the neutralised routing overlay of
  a session file is an argument.
\<close>

definition canonical_workflow_skills :: "string list" where
  "canonical_workflow_skills =
     [''autopilot'', ''autoresearch'', ''team'', ''ultragoal'', ''ralph'', ''ultrawork'', ''ultraqa'',
      ''ralplan'', ''deep-interview'']"

datatype skill_error = MalformedRoot

text \<open>\<open>safeString(v).trim() || undefined\<close>\<close>

definition text_or_undef :: "js \<Rightarrow> js" where
  "text_or_undef v = (if trimmed v = [] then JUndef else JStr (trimmed v))"

definition entry_skill :: "js_record \<Rightarrow> string" where
  "entry_skill e = (case js_string (rec_get e ''skill'') of None \<Rightarrow> [] | Some s \<Rightarrow> s)"

definition entry_session :: "js_record \<Rightarrow> string" where
  "entry_session e = trimmed (rec_get e ''session_id'')"

definition entry_key :: "js_record \<Rightarrow> string" where
  "entry_key e = entry_skill e @ ''::'' @ entry_session e"

definition normalize_skill_active_entry :: "js \<Rightarrow> js_record option" where
  "normalize_skill_active_entry raw =
     (case raw of
        JObj r \<Rightarrow>
          (if trimmed (rec_get r ''skill'') = [] then None
           else Some
             (rec_set ''owner_codex_session_id'' (text_or_undef (rec_get r ''owner_codex_session_id''))
             (rec_set ''turn_id'' (text_or_undef (rec_get r ''turn_id''))
             (rec_set ''thread_id'' (text_or_undef (rec_get r ''thread_id''))
             (rec_set ''session_id'' (text_or_undef (rec_get r ''session_id''))
             (rec_set ''updated_at'' (text_or_undef (rec_get r ''updated_at''))
             (rec_set ''activated_at'' (text_or_undef (rec_get r ''activated_at''))
             (rec_set ''active'' (JBool (rec_get r ''active'' \<noteq> JBool False))
             (rec_set ''phase'' (text_or_undef (rec_get r ''phase''))
             (rec_set ''skill'' (JStr (trimmed (rec_get r ''skill''))) r))))))))))
      | _ \<Rightarrow> None)"

subsection \<open>Terminal states\<close>

definition is_terminal_skill_active_phase :: "js \<Rightarrow> bool" where
  "is_terminal_skill_active_phase phase \<longleftrightarrow>
     (let n = js_lower (trimmed phase)
      in n \<noteq> [] \<and> (n = ''cleared''
           \<or> is_terminal_run_outcome (outcome_js (nr_outcome (normalize_run_outcome (JStr n))))
           \<or> nr_outcome (normalize_lifecycle (JStr n) StratBlocked) \<noteq> None))"

definition is_terminal_skill_active_state :: "js_record \<Rightarrow> bool" where
  "is_terminal_skill_active_state s \<longleftrightarrow>
     rec_get s ''active'' = JBool False
     \<or> is_terminal_skill_active_phase (rec_get s ''phase'')
     \<or> trimmed (rec_get s ''completed_at'') \<noteq> []
     \<or> is_terminal_run_outcome (outcome_js (nr_outcome (normalize_run_outcome (rec_get s ''run_outcome''))))
     \<or> nr_outcome (normalize_lifecycle
          (js_coalesce (rec_get s ''lifecycle_outcome'') (rec_get s ''terminal_outcome'')) StratBlocked) \<noteq> None"

definition clear_terminal_skill_active_markers :: "js_record \<Rightarrow> js_record" where
  "clear_terminal_skill_active_markers s =
     (let n = (if is_terminal_skill_active_phase (rec_get s ''phase'') then rec_delete ''phase'' s else s)
      in fold rec_delete
           [''completed_at'', ''cancel_reason'', ''run_outcome'', ''lifecycle_outcome'', ''terminal_outcome'',
            ''terminal_reason''] n)"

subsection \<open>The active entries\<close>

definition top_level_entry :: "js_record \<Rightarrow> js_record" where
  "top_level_entry s =
     [(''skill'', JStr (trimmed (rec_get s ''skill''))), (''phase'', text_or_undef (rec_get s ''phase'')),
      (''active'', JBool True), (''activated_at'', text_or_undef (rec_get s ''activated_at'')),
      (''updated_at'', text_or_undef (rec_get s ''updated_at'')),
      (''session_id'', text_or_undef (rec_get s ''session_id'')),
      (''thread_id'', text_or_undef (rec_get s ''thread_id'')), (''turn_id'', text_or_undef (rec_get s ''turn_id'')),
      (''owner_codex_session_id'', text_or_undef (rec_get s ''owner_codex_session_id''))]"

definition listed_entries :: "js_record \<Rightarrow> js_record list" where
  "listed_entries s =
     (case rec_get s ''active_skills'' of
        JArr xs \<Rightarrow> filter (\<lambda>e. rec_get e ''active'' \<noteq> JBool False) (List.map_filter normalize_skill_active_entry xs)
      | _ \<Rightarrow> [])"

definition keyed :: "js_record list \<Rightarrow> js_record list" where
  "keyed es = map snd (fold (\<lambda>e. dict_put (entry_key e) e) es [])"

definition list_active_skills :: "js \<Rightarrow> js_record list" where
  "list_active_skills raw =
     (case raw of
        JObj s \<Rightarrow>
          (if is_terminal_skill_active_state s then []
           else if keyed (listed_entries s) = [] \<and> rec_get s ''active'' = JBool True
                   \<and> trimmed (rec_get s ''skill'') \<noteq> []
           then [top_level_entry s]
           else keyed (listed_entries s))
      | _ \<Rightarrow> [])"

definition is_transition_canonical_state_owned :: "js \<Rightarrow> string option \<Rightarrow> bool" where
  "is_transition_canonical_state_owned raw session \<longleftrightarrow>
     is_object raw \<and>
     (let outer = trimmed (js_get raw ''session_id'');
          sid = (case session of None \<Rightarrow> [] | Some s \<Rightarrow> js_trim s)
      in if sid \<noteq> [] then outer = [] \<or> outer = sid else outer = [])"

definition list_transition_active_skills :: "js \<Rightarrow> string option \<Rightarrow> js_record list" where
  "list_transition_active_skills raw session =
     (if \<not> is_transition_canonical_state_owned raw session then []
      else
        (let advisory = (trimmed (js_get raw ''workflow_variant'') = ''advisory'');
             entries = filter (\<lambda>e. \<not> (entry_skill e = ''ralplan''
                                 \<and> (advisory \<or> rec_get e ''workflow_variant'' = JStr ''advisory'')))
                         (list_active_skills raw);
             sid = (case session of None \<Rightarrow> [] | Some s \<Rightarrow> js_trim s)
         in filter (\<lambda>e. entry_session e = sid) entries))"

text \<open>An entry belongs to a session by its session, or, without one, by its owner.\<close>

definition ownership_matches :: "js_record \<Rightarrow> string \<Rightarrow> bool" where
  "ownership_matches e sid \<longleftrightarrow>
     entry_session e = sid \<or> (entry_session e = [] \<and> trimmed (rec_get e ''owner_codex_session_id'') = sid)"

definition list_skill_active_owners :: "js \<Rightarrow> string list" where
  "list_skill_active_owners raw =
     (if \<not> is_object raw then []
      else dedup (filter (\<lambda>o'. o' \<noteq> [])
             (trimmed (js_get raw ''owner_codex_session_id'')
              # map (\<lambda>e. trimmed (rec_get e ''owner_codex_session_id'')) (list_active_skills raw))))"

subsection \<open>Reading a state\<close>

text \<open>A text of an optional entry, \<open>entry?.key || \'\'\<close>; the texts of entries are trimmed.\<close>

definition primary_text :: "js_record option \<Rightarrow> string \<Rightarrow> string" where
  "primary_text p k = (case p of None \<Rightarrow> [] | Some e \<Rightarrow> (case js_string (rec_get e k) of None \<Rightarrow> [] | Some s \<Rightarrow> s))"

definition first_text :: "string list \<Rightarrow> string" where
  "first_text xs = (case List.find (\<lambda>x. x \<noteq> []) xs of None \<Rightarrow> [] | Some x \<Rightarrow> x)"

definition undef_if_empty :: "string \<Rightarrow> js" where
  "undef_if_empty s = (if s = [] then JUndef else JStr s)"

definition primary_entry :: "string \<Rightarrow> js_record list \<Rightarrow> js_record option" where
  "primary_entry skill es =
     (case List.find (\<lambda>e. entry_skill e = skill) es of
        Some e \<Rightarrow> Some e
      | None \<Rightarrow> (case es of [] \<Rightarrow> None | e # _ \<Rightarrow> Some e))"

text \<open>The own properties of a parsed object; those of an array are its indices.\<close>

fun js_own :: "js \<Rightarrow> js_record" where
  "js_own (JObj r) = r"
| "js_own (JArr xs) = map2 (\<lambda>i x. (string_of_nat i, x)) [0..<length xs] xs"
| "js_own _ = []"

definition normalized_skill_state :: "js_record \<Rightarrow> js_record list \<Rightarrow> js_record option \<Rightarrow> js_record" where
  "normalized_skill_state s active p =
     (let pick = (\<lambda>k. first_text [trimmed (rec_get s k), primary_text p k])
      in rec_set ''active_skills'' (if active \<noteq> [] then JArr (map JObj active) else JUndef)
        (rec_set ''owner_codex_session_id'' (undef_if_empty (pick ''owner_codex_session_id''))
        (rec_set ''turn_id'' (undef_if_empty (pick ''turn_id''))
        (rec_set ''thread_id'' (undef_if_empty (pick ''thread_id''))
        (rec_set ''session_id'' (undef_if_empty (pick ''session_id''))
        (rec_set ''source'' (text_or_undef (rec_get s ''source''))
        (rec_set ''updated_at'' (JStr (pick ''updated_at''))
        (rec_set ''activated_at'' (JStr (pick ''activated_at''))
        (rec_set ''phase'' (JStr (pick ''phase''))
        (rec_set ''keyword'' (JStr (trimmed (rec_get s ''keyword'')))
        (rec_set ''skill'' (JStr (pick ''skill''))
        (rec_set ''active'' (case rec_get s ''active'' of JBool b \<Rightarrow> JBool b | _ \<Rightarrow> JBool (active \<noteq> []))
        (rec_set ''version'' (case rec_get s ''version'' of JNum n \<Rightarrow> JNum n | _ \<Rightarrow> JInt 1) s)))))))))))))"

definition normalize_skill_active_state :: "js \<Rightarrow> js_record option" where
  "normalize_skill_active_state raw =
     (if \<not> is_object raw then None
      else
        (let s = js_own raw; active = list_active_skills raw;
             p = primary_entry (trimmed (rec_get s ''skill'')) active;
             skill = first_text [trimmed (rec_get s ''skill''), primary_text p ''skill'']
         in if skill = [] \<and> active = [] then None else Some (normalized_skill_state s active p)))"

text \<open>\<open>readSkillActiveState\<close>, with the routing overlay of the file.\<close>

definition read_skill_active_state :: "js_record option \<Rightarrow> json_file \<Rightarrow> js_record option" where
  "read_skill_active_state overlay f =
     (case f of
        JsonFile v \<Rightarrow> normalize_skill_active_state (case overlay of Some o' \<Rightarrow> JObj o' | None \<Rightarrow> v)
      | _ \<Rightarrow> None)"

definition read_root_state_for_write :: "json_file \<Rightarrow> skill_error + js_record option" where
  "read_root_state_for_write f =
     (case f of
        NoFile \<Rightarrow> Inr None
      | BadFile \<Rightarrow> Inl MalformedRoot
      | JsonFile v \<Rightarrow>
          (if \<not> is_object v then Inl MalformedRoot
           else Inr (Some (case normalize_skill_active_state v of Some r \<Rightarrow> r | None \<Rightarrow> js_own v))))"

subsection \<open>Writing entries into a state\<close>

definition base_record :: "js_record option \<Rightarrow> js_record" where
  "base_record b = (case b of None \<Rightarrow> [] | Some r \<Rightarrow> r)"

text \<open>The session a state path names: \<open>.../sessions/<id>/<mode>-state.json\<close>.\<close>

definition extract_session_id_from_path :: "js \<Rightarrow> string option" where
  "extract_session_id_from_path v =
     (let segs = rev (js_split CHR ''/'' (map (\<lambda>c. if c = char_of (92 :: nat) then CHR ''/'' else c) (trimmed v)))
      in case segs of
           f # sid # dir # _ \<Rightarrow>
             (if dir = ''sessions'' \<and> sid \<noteq> [] \<and> js_starts_with (rev f) (rev ''-state.json'')
                 \<and> length ''-state.json'' < length f
              then Some sid else None)
         | _ \<Rightarrow> None)"

definition base_matches_target_session :: "js_record option \<Rightarrow> string option \<Rightarrow> bool" where
  "base_matches_target_session b target \<longleftrightarrow>
     (let sid = (case target of None \<Rightarrow> [] | Some t \<Rightarrow> js_trim t);
          path_sid = extract_session_id_from_path (rec_get (base_record b) ''initialized_state_path'');
          base_sid = trimmed (rec_get (base_record b) ''session_id'')
      in sid = []
         \<or> \<not> (path_sid \<noteq> None \<and> path_sid \<noteq> Some sid) \<and> \<not> (base_sid \<noteq> [] \<and> base_sid \<noteq> sid))"

definition session_bound_keys :: "string list" where
  "session_bound_keys =
     [''initialized_mode'', ''initialized_state_path'', ''input_lock'', ''context_snapshot_path'', ''prd_path'',
      ''test_spec_path'', ''task_slug'', ''task_description'', ''owner_omx_session_id'', ''owner_codex_session_id'',
      ''owner_codex_thread_id'', ''tmux_pane_id'']"

definition sanitize_writer_base :: "js_record option \<Rightarrow> string option \<Rightarrow> js_record" where
  "sanitize_writer_base b target =
     (if base_matches_target_session b target then base_record b
      else fold rec_delete session_bound_keys (base_record b))"

definition state_with_active_entries :: "js_record option \<Rightarrow> js_record list \<Rightarrow> string \<Rightarrow> js_record" where
  "state_with_active_entries b es fallback =
     (let inherited = (if es \<noteq> [] then clear_terminal_skill_active_markers (base_record b) else base_record b);
          skill = pick_primary_workflow_mode (JStr (trimmed (rec_get inherited ''skill''))) (map entry_skill es) fallback;
          p = primary_entry skill es
      in rec_set ''active_skills'' (JArr (map JObj es))
        (rec_set ''activated_at'' (JStr (first_text [primary_text p ''activated_at'', trimmed (rec_get inherited ''activated_at'')]))
        (rec_set ''phase'' (JStr (first_text [primary_text p ''phase'', trimmed (rec_get inherited ''phase'')]))
        (rec_set ''skill'' (JStr (first_text [primary_text p ''skill'', skill, fallback]))
        (rec_set ''active'' (JBool (es \<noteq> []))
        (rec_set ''version'' (JInt 1) inherited))))))"

definition session_fallback :: "js_record \<Rightarrow> string" where
  "session_fallback sess =
     (case js_string (rec_get sess ''skill'') of
        None \<Rightarrow> ''skill-active'' | Some s \<Rightarrow> (if s = [] then ''skill-active'' else s))"

definition merge_root_state_for_session :: "js_record option \<Rightarrow> js_record \<Rightarrow> string \<Rightarrow> js_record" where
  "merge_root_state_for_session rt sess session =
     (let sid = js_trim session;
          current = list_active_skills (JObj (base_record rt));
          incoming = (if list_ex (\<lambda>e. ownership_matches e sid) current
                      then filter (\<lambda>e. ownership_matches e sid) (list_active_skills (JObj sess)) else [])
      in state_with_active_entries (case rt of None \<Rightarrow> Some sess | Some r \<Rightarrow> Some r)
           (filter (\<lambda>e. \<not> ownership_matches e sid) current @ incoming) (session_fallback sess))"

definition merge_root_for_exact_session :: "js_record option \<Rightarrow> js_record \<Rightarrow> string \<Rightarrow> js_record" where
  "merge_root_for_exact_session rt sess session =
     (let sid = js_trim session
      in state_with_active_entries (case rt of None \<Rightarrow> Some sess | Some r \<Rightarrow> Some r)
           (filter (\<lambda>e. \<not> ownership_matches e sid) (list_active_skills (JObj (base_record rt)))
            @ filter (\<lambda>e. ownership_matches e sid) (list_active_skills (JObj sess)))
           (session_fallback sess))"

subsection \<open>Synchronising a mode\<close>

record sync_options =
  sy_mode :: string
  sy_active :: bool
  sy_phase :: "string option"
  sy_thread :: "string option"
  sy_turn :: "string option"
  sy_owner :: "string option"
  sy_now :: string
  sy_source :: string
  sy_all_sessions :: bool

record skill_store =
  sk_root :: json_file
  sk_sessions :: "(string \<times> json_file) list"

definition trimmed_or_undef :: "string option \<Rightarrow> js" where
  "trimmed_or_undef s = (case s of None \<Rightarrow> JUndef | Some t \<Rightarrow> undef_if_empty (js_trim t))"

text \<open>\<open>known\<close> are the entries whose activation time of the mode is kept.\<close>

definition mode_entry :: "sync_options \<Rightarrow> js_record list \<Rightarrow> string \<Rightarrow> js_record" where
  "mode_entry opt known sid =
     [(''skill'', JStr (sy_mode opt)), (''phase'', trimmed_or_undef (sy_phase opt)), (''active'', JBool True),
      (''activated_at'', JStr (first_text
          [primary_text (List.find (\<lambda>e. entry_skill e = sy_mode opt) known) ''activated_at'', sy_now opt])),
      (''updated_at'', JStr (sy_now opt)), (''session_id'', undef_if_empty sid),
      (''thread_id'', trimmed_or_undef (sy_thread opt)), (''turn_id'', trimmed_or_undef (sy_turn opt)),
      (''owner_codex_session_id'', trimmed_or_undef (sy_owner opt))]"

definition apply_entries :: "sync_options \<Rightarrow> js_record option \<Rightarrow> js_record list \<Rightarrow> string \<Rightarrow> string option \<Rightarrow> js_record" where
  "apply_entries opt b es fallback target =
     (let base = sanitize_writer_base b target;
          inherited = (if es \<noteq> [] then clear_terminal_skill_active_markers base else base);
          skill = pick_primary_workflow_mode (JStr (trimmed (rec_get inherited ''skill''))) (map entry_skill es) fallback;
          p = primary_entry skill es;
          pick = (\<lambda>k. first_text [primary_text p k, trimmed (rec_get inherited k)])
      in rec_set ''active_skills'' (JArr (map JObj es))
        (rec_set ''owner_codex_session_id'' (undef_if_empty (pick ''owner_codex_session_id''))
        (rec_set ''turn_id'' (undef_if_empty (pick ''turn_id''))
        (rec_set ''thread_id'' (undef_if_empty (pick ''thread_id''))
        (rec_set ''session_id'' (undef_if_empty (pick ''session_id''))
        (rec_set ''source'' (JStr (first_text [trimmed (rec_get inherited ''source''), sy_source opt]))
        (rec_set ''updated_at'' (JStr (sy_now opt))
        (rec_set ''activated_at'' (JStr (first_text [pick ''activated_at'', sy_now opt]))
        (rec_set ''phase'' (JStr (pick ''phase''))
        (rec_set ''keyword'' (JStr (trimmed (rec_get inherited ''keyword'')))
        (rec_set ''skill'' (JStr (first_text [primary_text p ''skill'', skill, fallback]))
        (rec_set ''active'' (JBool (es \<noteq> []))
        (rec_set ''version'' (JInt 1) inherited)))))))))))))"

text \<open>\<open>{ version: 1, ...state }\<close>\<close>

definition written :: "js_record \<Rightarrow> json_file" where
  "written r =
     JsonFile (JObj ((''version'', case map_of r ''version'' of None \<Rightarrow> JInt 1 | Some v \<Rightarrow> v) # rec_delete ''version'' r))"

text \<open>Writing a session state: the root is merged, then the copy of the session is written. The
  session of the merge is the one the written state names.\<close>

definition write_session_copies :: "skill_store \<Rightarrow> string \<Rightarrow> js_record \<Rightarrow> skill_error + skill_store" where
  "write_session_copies st sid next =
     (case read_root_state_for_write (sk_root st) of
        Inl e \<Rightarrow> Inl e
      | Inr rt \<Rightarrow>
          Inr (st\<lparr> sk_root := written (merge_root_state_for_session rt next (trimmed (rec_get next ''session_id''))),
                  sk_sessions := dict_put sid (written next) (sk_sessions st) \<rparr>))"

definition session_file :: "skill_store \<Rightarrow> string \<Rightarrow> json_file" where
  "session_file st sid = (case map_of (sk_sessions st) sid of None \<Rightarrow> NoFile | Some f \<Rightarrow> f)"

definition session_root_entries :: "js_record option \<Rightarrow> string \<Rightarrow> js_record list" where
  "session_root_entries rt sid =
     filter (\<lambda>e. entry_session e = sid) (list_active_skills (JObj (base_record rt)))"

definition session_only_entries :: "js_record option \<Rightarrow> js_record option \<Rightarrow> string \<Rightarrow> js_record list" where
  "session_only_entries rt sess sid =
     filter (\<lambda>e. entry_session e = sid
               \<and> \<not> list_ex (\<lambda>r. entry_skill r = entry_skill e \<and> entry_session r = entry_session e)
                     (session_root_entries rt sid))
       (list_active_skills (JObj (base_record sess)))"

definition next_session_state :: "sync_options \<Rightarrow> js_record option \<Rightarrow> js_record option \<Rightarrow> string \<Rightarrow> js_record" where
  "next_session_state opt rt sess sid =
     (let only = session_only_entries rt sess sid;
          kept = filter (\<lambda>e. entry_skill e \<noteq> sy_mode opt) only;
          next = (if sy_active opt then kept @ [mode_entry opt only sid] else kept);
          mirrored = filter (\<lambda>e. \<not> (entry_skill e = sy_mode opt \<and> ownership_matches e sid)) (session_root_entries rt sid)
      in rec_set ''session_id'' (JStr sid)
           (apply_entries opt (case sess of None \<Rightarrow> rt | Some s \<Rightarrow> Some s) (mirrored @ next) (sy_mode opt) (Some sid)))"

definition sync_session :: "skill_store \<Rightarrow> sync_options \<Rightarrow> js_record option \<Rightarrow> string \<Rightarrow> skill_error + skill_store" where
  "sync_session st opt overlay session =
     (if sy_mode opt \<notin> set canonical_workflow_skills then Inr st
      else case read_root_state_for_write (sk_root st) of
        Inl e \<Rightarrow> Inl e
      | Inr rt \<Rightarrow>
          (let sid = js_trim session; sess = read_skill_active_state overlay (session_file st sid)
           in if rt = None \<and> sess = None \<and> \<not> sy_active opt \<and> \<not> sy_all_sessions opt then Inr st
              else write_session_copies st sid (next_session_state opt rt sess sid)))"

subsection \<open>Synchronising the rt\<close>

definition next_root_entries :: "sync_options \<Rightarrow> js_record list \<Rightarrow> js_record list" where
  "next_root_entries opt entries =
     (let scoped = filter (\<lambda>e. entry_session e = []) entries;
          mirrors = (if sy_all_sessions opt then [] else filter (\<lambda>e. entry_session e \<noteq> []) entries);
          kept = filter (\<lambda>e. entry_skill e \<noteq> sy_mode opt) scoped
      in if sy_all_sessions opt then filter (\<lambda>e. entry_skill e \<noteq> sy_mode opt) entries
         else mirrors @ (if sy_active opt then kept @ [mode_entry opt scoped []] else kept))"

definition root_mirror_entries :: "js_record list \<Rightarrow> string \<Rightarrow> js_record list" where
  "root_mirror_entries entries sid =
     (if js_trim sid = [] then entries
      else filter (\<lambda>e. entry_session e = [] \<or> entry_session e = js_trim sid) entries)"

definition filter_session_only :: "js_record option \<Rightarrow> js_record list \<Rightarrow> string \<Rightarrow> js_record list" where
  "filter_session_only sess root_entries sid =
     filter (\<lambda>e. entry_session e = sid
               \<and> entry_key e \<notin> set (map entry_key (root_mirror_entries root_entries sid)))
       (list_active_skills (JObj (base_record sess)))"

text \<open>One session file after the root was written; \<open>next\<close> are the entries of the new root,
  \<open>old\<close> those of the old one. A directory whose name is blank is skipped.\<close>

definition cascade_session ::
    "sync_options \<Rightarrow> (string \<Rightarrow> js_record option) \<Rightarrow> js_record option \<Rightarrow> js_record list \<Rightarrow> js_record list
      \<Rightarrow> string \<Rightarrow> skill_store \<Rightarrow> skill_error + skill_store" where
  "cascade_session opt overlay rt old next directory st =
     (let sid = js_trim directory
      in if sid = [] \<or> session_file st sid = NoFile then Inr st
         else
           (let sess = read_skill_active_state (overlay sid) (session_file st sid);
                only = filter (\<lambda>e. \<not> (sy_all_sessions opt \<and> entry_skill e = sy_mode opt))
                         (filter_session_only sess old sid);
                entries = filter (\<lambda>e. entry_session e = sid) next @ only
            in if entries = []
               then Inr (st\<lparr> sk_sessions := dict_put sid NoFile (sk_sessions st) \<rparr>)
               else write_session_copies st sid
                      (apply_entries opt (case sess of None \<Rightarrow> rt | Some s \<Rightarrow> Some s) entries
                         (first_text [entry_skill (hd entries), sy_mode opt]) (Some sid))))"

fun cascade :: "sync_options \<Rightarrow> (string \<Rightarrow> js_record option) \<Rightarrow> js_record option \<Rightarrow> js_record list \<Rightarrow> js_record list
      \<Rightarrow> string list \<Rightarrow> skill_store \<Rightarrow> skill_error + skill_store" where
  "cascade opt overlay rt old next [] st = Inr st"
| "cascade opt overlay rt old next (d # ds) st =
     (case cascade_session opt overlay rt old next d st of
        Inl e \<Rightarrow> Inl e
      | Inr st' \<Rightarrow> cascade opt overlay rt old next ds st')"

definition sync_root :: "skill_store \<Rightarrow> sync_options \<Rightarrow> (string \<Rightarrow> js_record option) \<Rightarrow> skill_error + skill_store" where
  "sync_root st opt overlay =
     (if sy_mode opt \<notin> set canonical_workflow_skills then Inr st
      else case read_root_state_for_write (sk_root st) of
        Inl e \<Rightarrow> Inl e
      | Inr rt \<Rightarrow>
          (if rt = None \<and> \<not> sy_active opt \<and> \<not> sy_all_sessions opt then Inr st
           else if rt \<noteq> None \<and> \<not> is_transition_canonical_state_owned (JObj (base_record rt)) None then Inr st
           else
             (let old = list_active_skills (JObj (base_record rt));
                  next = next_root_entries opt old;
                  st1 = st\<lparr> sk_root := written (apply_entries opt rt next (sy_mode opt) None) \<rparr>
              in cascade opt overlay rt old next (map fst (sk_sessions st)) st1)))"

definition sync_canonical_skill_state ::
    "skill_store \<Rightarrow> sync_options \<Rightarrow> (string \<Rightarrow> js_record option) \<Rightarrow> string option \<Rightarrow> skill_error + skill_store" where
  "sync_canonical_skill_state st opt overlay session =
     (let sid = (case session of None \<Rightarrow> [] | Some s \<Rightarrow> js_trim s)
      in if sid \<noteq> [] then sync_session st opt (overlay sid) sid else sync_root st opt overlay)"

definition read_visible_skill_active_state :: "skill_store \<Rightarrow> (string \<Rightarrow> js_record option) \<Rightarrow> string option \<Rightarrow> js_record option" where
  "read_visible_skill_active_state st overlay session =
     (let sid = (case session of None \<Rightarrow> [] | Some s \<Rightarrow> js_trim s)
      in if sid \<noteq> [] then read_skill_active_state (overlay sid) (session_file st sid)
         else read_skill_active_state None (sk_root st))"

definition visible_modes :: "skill_store \<Rightarrow> (string \<Rightarrow> js_record option) \<Rightarrow> string option \<Rightarrow> string list" where
  "visible_modes st overlay session =
     map entry_skill (list_transition_active_skills
       (JObj (base_record (read_visible_skill_active_state st overlay session))) session)"

subsection \<open>Entries\<close>

definition entry_texts :: "string list" where
  "entry_texts =
     [''phase'', ''activated_at'', ''updated_at'', ''session_id'', ''thread_id'', ''turn_id'', ''owner_codex_session_id'']"

text \<open>A normalised entry: the texts are trimmed, and present as \<open>undefined\<close> when blank.\<close>

definition skill_entry :: "js_record \<Rightarrow> bool" where
  "skill_entry e \<longleftrightarrow>
     (\<exists>s. map_of e ''skill'' = Some (JStr s) \<and> js_trim s = s \<and> s \<noteq> [])
     \<and> map_of e ''active'' = Some (JBool True)
     \<and> (\<forall>k \<in> set entry_texts. \<exists>t. js_trim t = t \<and> map_of e k = Some (undef_if_empty t))"

lemma text_or_undef_alt: "text_or_undef v = undef_if_empty (trimmed v)"
  by (simp add: text_or_undef_def undef_if_empty_def)

lemma trimmed_undef_if_empty [simp]: "trimmed (undef_if_empty t) = js_trim t"
  by (simp add: undef_if_empty_def)

lemma trim_trimmed [simp]: "js_trim (trimmed v) = trimmed v"
  by (cases v) (simp_all add: trimmed_def)

lemma normalize_entry_good:
  assumes "normalize_skill_active_entry raw = Some e" "rec_get e ''active'' \<noteq> JBool False"
  shows "skill_entry e"
proof -
  obtain r where r: "raw = JObj r" "trimmed (rec_get r ''skill'') \<noteq> []"
    using assms(1) by (auto simp: normalize_skill_active_entry_def split: js.splits if_splits)
  then have e: "e = the (normalize_skill_active_entry (JObj r))" using assms(1) by simp
  have a: "rec_get r ''active'' \<noteq> JBool False"
    using assms(2) r(2) by (simp add: e normalize_skill_active_entry_def)
  have "\<exists>t. js_trim t = t \<and> map_of e k = Some (undef_if_empty t)" if "k \<in> set entry_texts" for k
  proof -
    have "map_of e k = Some (undef_if_empty (trimmed (rec_get r k)))"
      using that r(2) by (auto simp: e normalize_skill_active_entry_def entry_texts_def text_or_undef_alt)
    then show ?thesis using trim_trimmed by blast
  qed
  moreover have "map_of e ''skill'' = Some (JStr (trimmed (rec_get r ''skill'')))" "map_of e ''active'' = Some (JBool True)"
    using r(2) a by (simp_all add: e normalize_skill_active_entry_def)
  ultimately show ?thesis using r(2) unfolding skill_entry_def by (metis trim_trimmed)
qed

lemma skill_entry_get:
  assumes "skill_entry e"
  shows "rec_get e ''skill'' = JStr (entry_skill e)" "js_trim (entry_skill e) = entry_skill e" "entry_skill e \<noteq> []"
    "rec_get e ''active'' = JBool True" "map_of e ''skill'' = Some (JStr (entry_skill e))"
    "map_of e ''active'' = Some (JBool True)"
  using assms by (auto simp: skill_entry_def rec_get_def entry_skill_def)

lemma skill_entry_text: "skill_entry e \<Longrightarrow> k \<in> set entry_texts \<Longrightarrow> map_of e k = Some (text_or_undef (rec_get e k))"
  unfolding skill_entry_def by (force simp: text_or_undef_alt rec_get_def)

lemma normalize_entry_id: "skill_entry e \<Longrightarrow> normalize_skill_active_entry (JObj e) = Some e"
  using skill_entry_get [of e] skill_entry_text [of e]
  by (simp add: normalize_skill_active_entry_def rec_set_same entry_texts_def)

lemma top_level_entry_good: "trimmed (rec_get s ''skill'') \<noteq> [] \<Longrightarrow> skill_entry (top_level_entry s)"
  unfolding skill_entry_def entry_texts_def top_level_entry_def text_or_undef_alt
  by (auto intro: exI [of _ "trimmed (rec_get s _)"])

lemma listed_entries_good: "e \<in> set (listed_entries s) \<Longrightarrow> skill_entry e"
  by (auto simp: listed_entries_def List.map_filter_def intro: normalize_entry_good split: js.splits)

subsection \<open>Keys\<close>

lemma keyed_fold:
  assumes "\<forall>(k, e) \<in> set d. k = entry_key e" "distinct (map fst d)"
  shows "(\<forall>(k, e) \<in> set (fold (\<lambda>e. dict_put (entry_key e) e) es d). k = entry_key e)
    \<and> distinct (map fst (fold (\<lambda>e. dict_put (entry_key e) e) es d))
    \<and> snd ` set (fold (\<lambda>e. dict_put (entry_key e) e) es d) \<subseteq> snd ` set d \<union> set es"
  using assms
proof (induction es arbitrary: d)
  case (Cons e es)
  have sub: "set (dict_put k v d) \<subseteq> insert (k, v) (set d)" for k v and d :: "(string \<times> js_record) list"
    by (induction k v d rule: dict_put.induct) auto
  have "\<forall>(k, e) \<in> set (dict_put (entry_key e) e d). k = entry_key e"
    using sub [of "entry_key e" e d] Cons.prems(1) by blast
  moreover have "snd ` set (dict_put (entry_key e) e d) \<subseteq> insert e (snd ` set d)"
    using sub [of "entry_key e" e d] by auto
  moreover have "distinct (map fst (dict_put (entry_key e) e d))" using Cons.prems(2) by (rule distinct_dict_put)
  moreover note Cons.IH [of "dict_put (entry_key e) e d"]
  ultimately have "(\<forall>(k, e) \<in> set (fold (\<lambda>e. dict_put (entry_key e) e) es (dict_put (entry_key e) e d)). k = entry_key e)
    \<and> distinct (map fst (fold (\<lambda>e. dict_put (entry_key e) e) es (dict_put (entry_key e) e d)))
    \<and> snd ` set (fold (\<lambda>e. dict_put (entry_key e) e) es (dict_put (entry_key e) e d))
        \<subseteq> insert e (snd ` set d) \<union> set es"
    by blast
  then show ?case by simp
qed simp

lemma keyed_facts:
  "distinct (map entry_key (keyed es))" "set (keyed es) \<subseteq> set es"
proof -
  let ?d = "fold (\<lambda>e. dict_put (entry_key e) e) es []"
  have f: "\<forall>(k, e) \<in> set ?d. k = entry_key e" "distinct (map fst ?d)" "snd ` set ?d \<subseteq> set es"
    using keyed_fold [of "[]" es] by auto
  have "map entry_key (map snd ?d) = map fst ?d" using f(1) by auto
  then show "distinct (map entry_key (keyed es))" using f(2) unfolding keyed_def by metis
  show "set (keyed es) \<subseteq> set es" using f(3) by (simp add: keyed_def)
qed

lemma dict_put_new: "k \<notin> fst ` set d \<Longrightarrow> dict_put k v d = d @ [(k, v)]"
  by (induction k v d rule: dict_put.induct) auto

lemma keyed_distinct: "distinct (map entry_key es) \<Longrightarrow> keyed es = es"
proof -
  have "distinct (map entry_key es) \<Longrightarrow> (\<forall>e \<in> set es. entry_key e \<notin> fst ` set d) \<Longrightarrow>
      fold (\<lambda>e. dict_put (entry_key e) e) es d = d @ map (\<lambda>e. (entry_key e, e)) es" for d
  proof (induction es arbitrary: d)
    case (Cons e es)
    have "fold (\<lambda>e. dict_put (entry_key e) e) es (d @ [(entry_key e, e)])
        = (d @ [(entry_key e, e)]) @ map (\<lambda>e. (entry_key e, e)) es"
      using Cons.prems by (intro Cons.IH) (auto, metis imageI)
    then show ?case using Cons.prems by (simp add: dict_put_new)
  qed simp
  from this [of "[]"] show "distinct (map entry_key es) \<Longrightarrow> keyed es = es"
    by (simp add: keyed_def comp_def)
qed

lemma list_active_good:
  "\<forall>e \<in> set (list_active_skills raw). skill_entry e"
  "distinct (map entry_key (list_active_skills raw))"
proof -
  have a: "skill_entry e" if "e \<in> set (keyed (listed_entries s))" for e s
    using that keyed_facts(2) listed_entries_good by blast
  show "\<forall>e \<in> set (list_active_skills raw). skill_entry e"
    by (cases raw) (simp_all add: list_active_skills_def a top_level_entry_good)
  show "distinct (map entry_key (list_active_skills raw))"
    by (cases raw) (simp_all add: list_active_skills_def keyed_facts(1))
qed

lemma list_active_entries:
  assumes "rec_get r ''active_skills'' = JArr (map JObj es)" "\<forall>e \<in> set es. skill_entry e" "distinct (map entry_key es)"
    "es \<noteq> []" "\<not> is_terminal_skill_active_state r"
  shows "list_active_skills (JObj r) = es"
proof -
  have "List.map_filter normalize_skill_active_entry (map JObj es) = es"
    using assms(2) by (induction es) (auto simp: List.map_filter_simps normalize_entry_id)
  moreover have "filter (\<lambda>e. rec_get e ''active'' \<noteq> JBool False) es = es"
    using assms(2) skill_entry_get(4) by (simp add: filter_id_conv)
  ultimately have "listed_entries r = es" using assms(1) by (simp add: listed_entries_def)
  then show ?thesis using assms(3-5) by (simp add: list_active_skills_def keyed_distinct)
qed

subsection \<open>States built from entries\<close>

lemma terminal_phase_trimmed: "is_terminal_skill_active_phase (JStr (trimmed v)) = is_terminal_skill_active_phase v"
  by (simp add: is_terminal_skill_active_phase_def)

lemma terminal_phase_Nil [simp]: "\<not> is_terminal_skill_active_phase (JStr [])" "\<not> is_terminal_skill_active_phase JUndef"
  by (simp_all add: is_terminal_skill_active_phase_def)

lemma terminal_phase_blank: "trimmed v = [] \<Longrightarrow> \<not> is_terminal_skill_active_phase v"
  by (simp add: is_terminal_skill_active_phase_def)

lemma fold_rec_delete_get:
  "rec_get (fold rec_delete ks r) k = (if k \<in> set ks then JUndef else rec_get r k)"
  by (induction ks arbitrary: r) auto

lemma cleared_get:
  "rec_get (clear_terminal_skill_active_markers s) k =
     (if k \<in> {''completed_at'', ''cancel_reason'', ''run_outcome'', ''lifecycle_outcome'', ''terminal_outcome'', ''terminal_reason''}
         \<or> (k = ''phase'' \<and> is_terminal_skill_active_phase (rec_get s ''phase'')) then JUndef
      else rec_get s k)"
  by (simp add: clear_terminal_skill_active_markers_def Let_def fold_rec_delete_get)

lemma cleared_phase: "\<not> is_terminal_skill_active_phase (rec_get (clear_terminal_skill_active_markers s) ''phase'')"
  by (simp add: cleared_get)

lemma not_terminal_state:
  assumes "rec_get r ''active'' = JBool True" "rec_get r ''completed_at'' = JUndef" "rec_get r ''run_outcome'' = JUndef"
    "rec_get r ''lifecycle_outcome'' = JUndef" "rec_get r ''terminal_outcome'' = JUndef"
  shows "is_terminal_skill_active_state r = is_terminal_skill_active_phase (rec_get r ''phase'')"
  using assms by (simp add: is_terminal_skill_active_state_def js_coalesce_def outcome_js_def is_terminal_run_outcome_def)

lemma first_text_pair [simp]: "first_text [x, y] = (if x \<noteq> [] then x else y)"
  by (simp add: first_text_def)

text \<open>What the two builders of a state have in common.\<close>

definition holds_entries :: "js_record \<Rightarrow> js_record list \<Rightarrow> bool" where
  "holds_entries r es \<longleftrightarrow>
     rec_get r ''active_skills'' = JArr (map JObj es) \<and> rec_get r ''active'' = JBool (es \<noteq> [])
     \<and> (es \<noteq> [] \<longrightarrow> rec_get r ''completed_at'' = JUndef \<and> rec_get r ''run_outcome'' = JUndef
          \<and> rec_get r ''lifecycle_outcome'' = JUndef \<and> rec_get r ''terminal_outcome'' = JUndef
          \<and> (is_terminal_skill_active_phase (rec_get r ''phase'') \<longrightarrow>
               (\<exists>e \<in> set es. rec_get r ''phase'' = JStr (primary_text (Some e) ''phase''))))"

lemma primary_in: "es \<noteq> [] \<Longrightarrow> \<exists>e \<in> set es. primary_entry skill es = Some e"
  by (cases es) (auto simp: primary_entry_def dest: find_SomeD split: option.splits)

lemma state_with_holds: "holds_entries (state_with_active_entries b es fb) es"
proof (cases "es = []")
  case True
  then show ?thesis by (simp add: holds_entries_def state_with_active_entries_def Let_def)
next
  case False
  let ?inh = "clear_terminal_skill_active_markers (base_record b)"
  define skill where "skill = pick_primary_workflow_mode (JStr (trimmed (rec_get ?inh ''skill''))) (map entry_skill es) fb"
  obtain e where e: "e \<in> set es" "primary_entry skill es = Some e" using primary_in [OF False] by blast
  have p: "rec_get (state_with_active_entries b es fb) ''phase'' =
      JStr (first_text [primary_text (Some e) ''phase'', trimmed (rec_get ?inh ''phase'')])"
    using False e by (simp add: state_with_active_entries_def Let_def skill_def [symmetric])
  have "is_terminal_skill_active_phase (rec_get (state_with_active_entries b es fb) ''phase'') \<Longrightarrow>
      rec_get (state_with_active_entries b es fb) ''phase'' = JStr (primary_text (Some e) ''phase'')"
    using cleared_phase [of "base_record b"] terminal_phase_trimmed unfolding p by (simp split: if_splits)
  with False e(1) show ?thesis
    by (auto simp: holds_entries_def state_with_active_entries_def Let_def cleared_get)
qed

lemma apply_entries_holds: "holds_entries (apply_entries opt b es fb target) es"
proof (cases "es = []")
  case True
  then show ?thesis by (simp add: holds_entries_def apply_entries_def Let_def)
next
  case False
  let ?inh = "clear_terminal_skill_active_markers (sanitize_writer_base b target)"
  define skill where "skill = pick_primary_workflow_mode (JStr (trimmed (rec_get ?inh ''skill''))) (map entry_skill es) fb"
  obtain e where e: "e \<in> set es" "primary_entry skill es = Some e" using primary_in [OF False] by blast
  have p: "rec_get (apply_entries opt b es fb target) ''phase'' =
      JStr (first_text [primary_text (Some e) ''phase'', trimmed (rec_get ?inh ''phase'')])"
    using False e by (simp add: apply_entries_def Let_def skill_def [symmetric])
  have "is_terminal_skill_active_phase (rec_get (apply_entries opt b es fb target) ''phase'') \<Longrightarrow>
      rec_get (apply_entries opt b es fb target) ''phase'' = JStr (primary_text (Some e) ''phase'')"
    using cleared_phase [of "sanitize_writer_base b target"] terminal_phase_trimmed unfolding p by (simp split: if_splits)
  with False e(1) show ?thesis
    by (auto simp: holds_entries_def apply_entries_def Let_def cleared_get)
qed

lemma holds_list:
  assumes "holds_entries r es" "\<forall>e \<in> set es. skill_entry e" "distinct (map entry_key es)"
  shows "list_active_skills (JObj r) = (if is_terminal_skill_active_phase (rec_get r ''phase'') then [] else es)"
proof (cases "es = []")
  case True
  then have "is_terminal_skill_active_state r"
    using assms(1) by (simp add: holds_entries_def is_terminal_skill_active_state_def)
  with True show ?thesis by (simp add: list_active_skills_def)
next
  case False
  then have t: "is_terminal_skill_active_state r = is_terminal_skill_active_phase (rec_get r ''phase'')"
    using assms(1) by (intro not_terminal_state) (simp_all add: holds_entries_def)
  show ?thesis
  proof (cases "is_terminal_skill_active_phase (rec_get r ''phase'')")
    case True
    with t show ?thesis by (simp add: list_active_skills_def)
  next
    case nt: False
    have "rec_get r ''active_skills'' = JArr (map JObj es)" using assms(1) by (simp add: holds_entries_def)
    from list_active_entries [OF this assms(2,3) False] t nt show ?thesis by simp
  qed
qed

text \<open>An entry whose phase is not terminal and whose skill has no colon.\<close>

definition live_entry :: "js_record \<Rightarrow> bool" where
  "live_entry e \<longleftrightarrow> \<not> is_terminal_skill_active_phase (rec_get e ''phase'') \<and> CHR '':'' \<notin> set (entry_skill e)"

lemma primary_text_phase: "skill_entry e \<Longrightarrow> JStr (primary_text (Some e) ''phase'') = JStr (trimmed (rec_get e ''phase''))"
proof -
  assume "skill_entry e"
  then obtain t where "js_trim t = t" "map_of e ''phase'' = Some (undef_if_empty t)"
    unfolding skill_entry_def entry_texts_def by force
  then show "JStr (primary_text (Some e) ''phase'') = JStr (trimmed (rec_get e ''phase''))"
    by (auto simp: primary_text_def rec_get_def undef_if_empty_def)
qed

lemma holds_phase_live:
  assumes "holds_entries r es" "\<forall>e \<in> set es. skill_entry e \<and> live_entry e" "es \<noteq> []"
  shows "\<not> is_terminal_skill_active_phase (rec_get r ''phase'')"
  using assms unfolding holds_entries_def live_entry_def
  by (metis primary_text_phase terminal_phase_trimmed)

lemma holds_list_live:
  assumes "holds_entries r es" "\<forall>e \<in> set es. skill_entry e \<and> live_entry e" "distinct (map entry_key es)"
  shows "list_active_skills (JObj r) = es"
  using holds_list [OF assms(1) _ assms(3)] holds_phase_live [OF assms(1,2)] assms(2) by (cases "es = []") auto

subsection \<open>Reading back\<close>

lemma map_of_delete: "map_of (rec_delete k r) l = (if l = k then None else map_of r l)"
  unfolding rec_delete_def by (induction r) auto

lemma written_get: "k \<noteq> ''version'' \<Longrightarrow>
    rec_get ((''version'', v) # rec_delete ''version'' r) k = rec_get r k"
  by (simp add: rec_get_def map_of_delete)

lemma list_cong:
  assumes "\<And>k. k \<noteq> ''version'' \<Longrightarrow> rec_get r k = rec_get s k"
  shows "list_active_skills (JObj r) = list_active_skills (JObj s)"
proof -
  have "is_terminal_skill_active_state r = is_terminal_skill_active_state s"
    by (simp add: is_terminal_skill_active_state_def assms)
  moreover have "listed_entries r = listed_entries s" by (simp add: listed_entries_def assms)
  moreover have "top_level_entry r = top_level_entry s" by (simp add: top_level_entry_def assms)
  ultimately show ?thesis by (simp add: list_active_skills_def assms)
qed

lemma normalize_state_get:
  assumes "normalize_skill_active_state (JObj s) = Some r"
  defines "es \<equiv> list_active_skills (JObj s)"
  defines "p \<equiv> primary_entry (trimmed (rec_get s ''skill'')) es"
  shows "rec_get r ''active_skills'' = (if es \<noteq> [] then JArr (map JObj es) else JUndef)"
    "rec_get r ''active'' = (case rec_get s ''active'' of JBool b \<Rightarrow> JBool b | _ \<Rightarrow> JBool (es \<noteq> []))"
    "rec_get r ''phase'' = JStr (first_text [trimmed (rec_get s ''phase''), primary_text p ''phase''])"
    "rec_get r ''skill'' = JStr (first_text [trimmed (rec_get s ''skill''), primary_text p ''skill''])"
    "rec_get r ''session_id'' = undef_if_empty (first_text [trimmed (rec_get s ''session_id''), primary_text p ''session_id''])"
    "k \<in> {''completed_at'', ''run_outcome'', ''lifecycle_outcome'', ''terminal_outcome'', ''workflow_variant''} \<Longrightarrow> rec_get r k = rec_get s k"
proof -
  have r: "r = normalized_skill_state s es p"
    using assms(1) unfolding es_def p_def by (simp add: normalize_skill_active_state_def Let_def split: if_splits)
  show "rec_get r ''active_skills'' = (if es \<noteq> [] then JArr (map JObj es) else JUndef)"
    "rec_get r ''active'' = (case rec_get s ''active'' of JBool b \<Rightarrow> JBool b | _ \<Rightarrow> JBool (es \<noteq> []))"
    "rec_get r ''phase'' = JStr (first_text [trimmed (rec_get s ''phase''), primary_text p ''phase''])"
    "rec_get r ''skill'' = JStr (first_text [trimmed (rec_get s ''skill''), primary_text p ''skill''])"
    "rec_get r ''session_id'' = undef_if_empty (first_text [trimmed (rec_get s ''session_id''), primary_text p ''session_id''])"
    unfolding r normalized_skill_state_def Let_def by (simp_all del: first_text_pair)
  show "rec_get r k = rec_get s k"
    if "k \<in> {''completed_at'', ''run_outcome'', ''lifecycle_outcome'', ''terminal_outcome'', ''workflow_variant''}"
    using that unfolding r normalized_skill_state_def Let_def
    by (elim insertE emptyE) (simp_all del: first_text_pair)
qed

lemma normalize_lists:
  assumes "\<forall>e \<in> set (list_active_skills (JObj s)). live_entry e"
    and "normalize_skill_active_state (JObj s) = Some r"
  shows "list_active_skills (JObj r) = list_active_skills (JObj s)"
proof -
  define es where "es = list_active_skills (JObj s)"
  define p where "p = primary_entry (trimmed (rec_get s ''skill'')) es"
  note g = normalize_state_get [OF assms(2), folded es_def, folded p_def]
  have good: "\<forall>e \<in> set es. skill_entry e" "distinct (map entry_key es)"
    using list_active_good unfolding es_def by blast+
  show ?thesis
  proof (cases "es = []")
    case False
    then have nt: "\<not> is_terminal_skill_active_state s"
      by (auto simp: es_def list_active_skills_def split: if_splits)
    have "rec_get s ''active'' \<noteq> JBool False" using nt by (simp add: is_terminal_skill_active_state_def)
    then have a: "rec_get r ''active'' = JBool True"
      using False unfolding g(2) by (cases "rec_get s ''active''") auto
    obtain e where e: "e \<in> set es" "p = Some e" using primary_in [OF False] unfolding p_def by blast
    have "\<not> is_terminal_skill_active_phase (JStr (primary_text p ''phase''))"
      using assms(1) e good(1) primary_text_phase [of e] terminal_phase_trimmed [of "rec_get e ''phase''"]
      by (simp add: es_def [symmetric] live_entry_def)
    then have "\<not> is_terminal_skill_active_phase (rec_get r ''phase'')"
      using nt terminal_phase_trimmed by (simp add: g(3) is_terminal_skill_active_state_def)
    with a nt g(6) have "\<not> is_terminal_skill_active_state r"
      by (simp add: is_terminal_skill_active_state_def)
    with False g(1) good show ?thesis by (simp add: es_def [symmetric] list_active_entries)
  next
    case True
    have "p = None" using True by (simp add: p_def primary_entry_def)
    then have ph: "is_terminal_skill_active_phase (rec_get r ''phase'') = is_terminal_skill_active_phase (rec_get s ''phase'')"
      using terminal_phase_blank [of "rec_get s ''phase''"] by (simp add: g(3) primary_text_def terminal_phase_trimmed)
    have l: "listed_entries r = []" using True g(1) by (simp add: listed_entries_def)
    have "is_terminal_skill_active_state r \<or> rec_get r ''active'' \<noteq> JBool True \<or> trimmed (rec_get r ''skill'') = []"
    proof (cases "is_terminal_skill_active_state s")
      case t: True
      show ?thesis
      proof (cases "rec_get s ''active'' = JBool False")
        case True
        then show ?thesis by (simp add: g(2) is_terminal_skill_active_state_def)
      next
        case False
        with t have "is_terminal_skill_active_state r" by (simp add: is_terminal_skill_active_state_def ph g(6))
        then show ?thesis ..
      qed
    next
      case nt: False
      have "rec_get s ''active'' \<noteq> JBool True \<or> trimmed (rec_get s ''skill'') = []"
      proof (rule ccontr)
        assume "\<not> ?thesis"
        then have "es \<noteq> []" using nt by (simp add: es_def list_active_skills_def)
        with True show False by simp
      qed
      with True \<open>p = None\<close> show ?thesis
        by (auto simp: g(2,4) primary_text_def split: js.splits)
    qed
    then have "list_active_skills (JObj r) = []" using l by (auto simp: list_active_skills_def keyed_def)
    then show ?thesis using True by (simp add: es_def)
  qed
qed

lemma normalize_none_lists:
  assumes "normalize_skill_active_state (JObj s) = None"
  shows "list_active_skills (JObj s) = []"
  using assms by (auto simp: normalize_skill_active_state_def Let_def split: if_splits)

lemma read_written:
  assumes "\<forall>e \<in> set (list_active_skills (JObj r)). live_entry e"
  shows "\<exists>r'. read_root_state_for_write (written r) = Inr (Some r') \<and> list_active_skills (JObj r') = list_active_skills (JObj r)"
    "list_active_skills (JObj (base_record (read_skill_active_state None (written r)))) = list_active_skills (JObj r)"
proof -
  obtain w where w: "written r = JsonFile (JObj w)" "\<And>k. k \<noteq> ''version'' \<Longrightarrow> rec_get w k = rec_get r k"
    unfolding written_def using written_get by blast
  have l: "list_active_skills (JObj w) = list_active_skills (JObj r)" by (rule list_cong) (rule w(2))
  have n: "list_active_skills (JObj w') = list_active_skills (JObj r)" if "normalize_skill_active_state (JObj w) = Some w'" for w'
    using normalize_lists [OF _ that] assms l by simp
  show "\<exists>r'. read_root_state_for_write (written r) = Inr (Some r') \<and> list_active_skills (JObj r') = list_active_skills (JObj r)"
    using n l by (cases "normalize_skill_active_state (JObj w)") (auto simp: read_root_state_for_write_def w(1))
  show "list_active_skills (JObj (base_record (read_skill_active_state None (written r)))) = list_active_skills (JObj r)"
  proof (cases "normalize_skill_active_state (JObj w)")
    case None
    then have "list_active_skills (JObj r) = []" using normalize_none_lists l by simp
    moreover have "list_active_skills (JObj []) = []" by (simp add: list_active_skills_def listed_entries_def keyed_def)
    ultimately show ?thesis using None by (simp add: read_skill_active_state_def w(1) base_record_def)
  next
    case (Some w')
    then show ?thesis using n by (simp add: read_skill_active_state_def w(1) base_record_def)
  qed
qed

subsection \<open>The entries of a synchronised session\<close>

lemma key_inj:
  assumes "entry_key d = entry_key e" "CHR '':'' \<notin> set (entry_skill d)" "CHR '':'' \<notin> set (entry_skill e)"
  shows "entry_skill d = entry_skill e \<and> entry_session d = entry_session e"
proof -
  have t: "takeWhile (\<lambda>c. c \<noteq> CHR '':'') (xs @ ''::'' @ ys) = xs" if "CHR '':'' \<notin> set xs" for xs ys
    using that by (subst takeWhile_append2) auto
  have "entry_skill d = entry_skill e"
    using t [OF assms(2), of "entry_session d"] t [OF assms(3), of "entry_session e"] assms(1)
    by (simp add: entry_key_def)
  with assms(1) show ?thesis by (simp add: entry_key_def)
qed

lemma canonical_skill: "m \<in> set canonical_workflow_skills \<Longrightarrow> js_trim m = m \<and> m \<noteq> [] \<and> CHR '':'' \<notin> set m"
proof -
  have "list_all (\<lambda>m. js_trim m = m \<and> m \<noteq> [] \<and> CHR '':'' \<notin> set m) canonical_workflow_skills" by code_simp
  then show "m \<in> set canonical_workflow_skills \<Longrightarrow> js_trim m = m \<and> m \<noteq> [] \<and> CHR '':'' \<notin> set m"
    by (auto simp: list_all_iff)
qed

lemma entry_text_of: "skill_entry e \<Longrightarrow> k \<in> set entry_texts \<Longrightarrow> js_trim (primary_text (Some e) k) = primary_text (Some e) k"
proof -
  assume "skill_entry e" "k \<in> set entry_texts"
  then obtain t where "js_trim t = t" "map_of e k = Some (undef_if_empty t)" unfolding skill_entry_def by blast
  then show ?thesis by (simp add: primary_text_def rec_get_def undef_if_empty_def)
qed

lemma trimmed_or_undef_alt: "\<exists>t. js_trim t = t \<and> trimmed_or_undef v = undef_if_empty t"
proof (cases v)
  case None
  then show ?thesis by (intro exI [of _ "[]"]) (simp add: trimmed_or_undef_def undef_if_empty_def)
next
  case (Some w)
  then show ?thesis by (intro exI [of _ "js_trim w"]) (simp add: trimmed_or_undef_def)
qed

lemma mode_entry_facts:
  assumes "sy_mode opt \<in> set canonical_workflow_skills" "js_trim (sy_now opt) = sy_now opt" "sy_now opt \<noteq> []"
    "js_trim sid = sid" "\<forall>e \<in> set known. skill_entry e"
  shows "skill_entry (mode_entry opt known sid)" "entry_skill (mode_entry opt known sid) = sy_mode opt"
    "entry_session (mode_entry opt known sid) = sid"
    "\<not> is_terminal_skill_active_phase (trimmed_or_undef (sy_phase opt)) \<Longrightarrow> live_entry (mode_entry opt known sid)"
proof -
  let ?e = "mode_entry opt known sid"
  define act where "act = first_text [primary_text (List.find (\<lambda>e. entry_skill e = sy_mode opt) known) ''activated_at'', sy_now opt]"
  have act: "js_trim act = act" "act \<noteq> []"
  proof -
    have "js_trim (primary_text p ''activated_at'') = primary_text p ''activated_at''"
      if "p = List.find (\<lambda>e. entry_skill e = sy_mode opt) known" for p
    proof (cases p)
      case None
      then show ?thesis by (simp add: primary_text_def)
    next
      case (Some e)
      then have "skill_entry e" using that assms(5) find_SomeD by metis
      then show ?thesis using entry_text_of Some by (simp add: entry_texts_def)
    qed
    then show "js_trim act = act" "act \<noteq> []" using assms(2,3) by (simp_all add: act_def)
  qed
  note e = mode_entry_def [of opt known sid, folded act_def]
  obtain tp tt tu tc where t:
    "js_trim tp = tp" "trimmed_or_undef (sy_phase opt) = undef_if_empty tp"
    "js_trim tt = tt" "trimmed_or_undef (sy_thread opt) = undef_if_empty tt"
    "js_trim tu = tu" "trimmed_or_undef (sy_turn opt) = undef_if_empty tu"
    "js_trim tc = tc" "trimmed_or_undef (sy_owner opt) = undef_if_empty tc"
    using trimmed_or_undef_alt by metis
  have v: "map_of ?e ''phase'' = Some (undef_if_empty tp)" "map_of ?e ''activated_at'' = Some (undef_if_empty act)"
    "map_of ?e ''updated_at'' = Some (undef_if_empty (sy_now opt))" "map_of ?e ''session_id'' = Some (undef_if_empty sid)"
    "map_of ?e ''thread_id'' = Some (undef_if_empty tt)" "map_of ?e ''turn_id'' = Some (undef_if_empty tu)"
    "map_of ?e ''owner_codex_session_id'' = Some (undef_if_empty tc)"
    using act(2) assms(3) by (simp_all add: e t undef_if_empty_def)
  have texts: "\<exists>t. js_trim t = t \<and> map_of ?e k = Some (undef_if_empty t)" if "k \<in> set entry_texts" for k
    using that unfolding entry_texts_def
    by (simp only: list.set insert_iff empty_iff) (elim disjE FalseE; use v t act(1) assms(2,4) in blast)
  show "skill_entry ?e"
    unfolding skill_entry_def using texts canonical_skill [OF assms(1)] by (simp add: e)
  show s: "entry_skill ?e = sy_mode opt" by (simp add: e entry_skill_def rec_get_def)
  show "entry_session ?e = sid" using assms(4) by (simp add: e entry_session_def rec_get_def)
  show "live_entry ?e" if "\<not> is_terminal_skill_active_phase (trimmed_or_undef (sy_phase opt))"
    using that canonical_skill [OF assms(1)] by (simp add: live_entry_def s) (simp add: e rec_get_def)
qed

lemma distinct_keys_same_session:
  assumes "\<forall>e \<in> set es. entry_session e = sid"
  shows "distinct (map entry_key es) = distinct (map entry_skill es)"
  using assms by (induction es) (auto simp: entry_key_def image_iff)

lemma filter_distinct_map: "distinct (map f xs) \<Longrightarrow> distinct (map f (filter p xs))"
  by (induction xs) auto

text \<open>The entries of the next session state.\<close>

definition next_entries :: "sync_options \<Rightarrow> js_record option \<Rightarrow> js_record option \<Rightarrow> string \<Rightarrow> js_record list" where
  "next_entries opt rt sess sid =
     filter (\<lambda>e. \<not> (entry_skill e = sy_mode opt \<and> ownership_matches e sid)) (session_root_entries rt sid)
     @ (let only = session_only_entries rt sess sid; kept = filter (\<lambda>e. entry_skill e \<noteq> sy_mode opt) only
        in if sy_active opt then kept @ [mode_entry opt only sid] else kept)"

lemma next_session_holds: "holds_entries (next_session_state opt rt sess sid) (next_entries opt rt sess sid)"
proof -
  have "holds_entries r es \<Longrightarrow> holds_entries (rec_set ''session_id'' v r) es" for r es v
    by (simp add: holds_entries_def)
  then show ?thesis
    using apply_entries_holds by (auto simp: next_session_state_def next_entries_def Let_def)
qed

lemma next_entries_facts:
  assumes "sy_mode opt \<in> set canonical_workflow_skills" "js_trim (sy_now opt) = sy_now opt" "sy_now opt \<noteq> []"
    and sid: "js_trim sid = sid"
    and live: "\<forall>e \<in> set (list_active_skills (JObj (base_record rt))). live_entry e"
      "\<forall>e \<in> set (list_active_skills (JObj (base_record sess))). live_entry e"
      "sy_active opt \<longrightarrow> \<not> is_terminal_skill_active_phase (trimmed_or_undef (sy_phase opt))"
  defines "es \<equiv> next_entries opt rt sess sid"
  shows "\<forall>e \<in> set es. skill_entry e \<and> live_entry e \<and> entry_session e = sid"
    "distinct (map entry_key es)"
    "entry_skill ` set es =
       (entry_skill ` set (session_root_entries rt sid)
        \<union> entry_skill ` {e \<in> set (list_active_skills (JObj (base_record sess))). entry_session e = sid}) - {sy_mode opt}
       \<union> (if sy_active opt then {sy_mode opt} else {})"
proof -
  let ?R = "session_root_entries rt sid" and ?S = "session_only_entries rt sess sid"
  define mirrored where "mirrored = filter (\<lambda>e. entry_skill e \<noteq> sy_mode opt) ?R"
  define kept where "kept = filter (\<lambda>e. entry_skill e \<noteq> sy_mode opt) ?S"
  have R: "\<forall>e \<in> set ?R. skill_entry e \<and> live_entry e \<and> entry_session e = sid" "distinct (map entry_skill ?R)"
  proof -
    show a: "\<forall>e \<in> set ?R. skill_entry e \<and> live_entry e \<and> entry_session e = sid"
      using list_active_good(1) live(1) by (auto simp: session_root_entries_def)
    have "distinct (map entry_key ?R)"
      using filter_distinct_map list_active_good(2) by (auto simp: session_root_entries_def)
    then show "distinct (map entry_skill ?R)" using a distinct_keys_same_session [of ?R sid] by simp
  qed
  have S: "\<forall>e \<in> set ?S. skill_entry e \<and> live_entry e \<and> entry_session e = sid" "distinct (map entry_skill ?S)"
    "entry_skill ` set ?S \<inter> entry_skill ` set ?R = {}"
  proof -
    show a: "\<forall>e \<in> set ?S. skill_entry e \<and> live_entry e \<and> entry_session e = sid"
      using list_active_good(1) live(2) by (auto simp: session_only_entries_def)
    have "distinct (map entry_key ?S)"
      using filter_distinct_map list_active_good(2) by (auto simp: session_only_entries_def)
    then show "distinct (map entry_skill ?S)" using a distinct_keys_same_session [of ?S sid] by simp
    show "entry_skill ` set ?S \<inter> entry_skill ` set ?R = {}"
      using R(1) by (fastforce simp: session_only_entries_def list_ex_iff)
  qed
  have known: "\<forall>e \<in> set ?S. skill_entry e" using S(1) by blast
  note m = mode_entry_facts [OF assms(1-3) sid known]
  have "ownership_matches e sid" if "e \<in> set ?R" for e using R(1) that by (simp add: ownership_matches_def)
  then have mi: "filter (\<lambda>e. \<not> (entry_skill e = sy_mode opt \<and> ownership_matches e sid)) ?R = mirrored"
    unfolding mirrored_def by (intro filter_cong refl) blast
  have es: "es = mirrored @ kept @ (if sy_active opt then [mode_entry opt ?S sid] else [])"
    unfolding es_def next_entries_def Let_def mi kept_def by simp
  show good: "\<forall>e \<in> set es. skill_entry e \<and> live_entry e \<and> entry_session e = sid"
    using R(1) S(1) m live(3) unfolding es mirrored_def kept_def by auto
  have "distinct (map entry_skill es)"
    using R(2) S(2,3) m(2) filter_distinct_map [of entry_skill] unfolding es mirrored_def kept_def
    by (auto simp: distinct_map inj_on_def)
  then show "distinct (map entry_key es)" using good distinct_keys_same_session [of es sid] by simp
  have A: "entry_skill ` set ?S \<union> entry_skill ` set ?R =
      entry_skill ` {e \<in> set (list_active_skills (JObj (base_record sess))). entry_session e = sid} \<union> entry_skill ` set ?R"
    using R(1) by (fastforce simp: session_only_entries_def list_ex_iff image_iff)
  have C: "entry_skill ` set es =
      (entry_skill ` set ?S \<union> entry_skill ` set ?R) - {sy_mode opt} \<union> (if sy_active opt then {sy_mode opt} else {})"
    using m(2) by (auto simp: es mirrored_def kept_def)
  show "entry_skill ` set es =
       (entry_skill ` set ?R
        \<union> entry_skill ` {e \<in> set (list_active_skills (JObj (base_record sess))). entry_session e = sid}) - {sy_mode opt}
       \<union> (if sy_active opt then {sy_mode opt} else {})"
    unfolding C A by (simp only: Un_commute)
qed

subsection \<open>The root after a session was merged\<close>

lemma state_of_current:
  "list_active_skills (JObj (base_record None)) = []"
  by (simp add: list_active_skills_def listed_entries_def keyed_def base_record_def)

lemma merge_root_list:
  assumes sid: "js_trim sid = sid"
    and live: "\<forall>e \<in> set (list_active_skills (JObj (base_record rt))). live_entry e"
      "\<forall>e \<in> set (list_active_skills (JObj sess)). live_entry e \<and> entry_session e = sid"
  defines "cur \<equiv> list_active_skills (JObj (base_record rt))"
  shows "list_active_skills (JObj (merge_root_state_for_session rt sess sid)) =
    filter (\<lambda>e. \<not> ownership_matches e sid) cur
    @ (if list_ex (\<lambda>e. ownership_matches e sid) cur then list_active_skills (JObj sess) else [])"
proof -
  define foreign where "foreign = filter (\<lambda>e. \<not> ownership_matches e sid) cur"
  define inc where "inc = (if list_ex (\<lambda>e. ownership_matches e sid) cur then list_active_skills (JObj sess) else [])"
  have ids: "filter (\<lambda>e. ownership_matches e sid) (list_active_skills (JObj sess)) = list_active_skills (JObj sess)"
    using live(2) by (auto simp: filter_id_conv ownership_matches_def)
  have merged: "holds_entries (merge_root_state_for_session rt sess sid) (foreign @ inc)"
    unfolding merge_root_state_for_session_def Let_def sid cur_def [symmetric] foreign_def inc_def ids
    by (rule state_with_holds)
  have g: "\<forall>e \<in> set (foreign @ inc). skill_entry e \<and> live_entry e"
    using list_active_good(1) live by (auto simp: foreign_def inc_def cur_def)
  have d: "distinct (map entry_key foreign)" "distinct (map entry_key inc)"
    using list_active_good(2) filter_distinct_map by (auto simp: foreign_def inc_def cur_def)
  have "entry_key a \<noteq> entry_key b" if "a \<in> set foreign" "b \<in> set inc" for a b
  proof
    assume k: "entry_key a = entry_key b"
    have "live_entry a" "live_entry b" "ownership_matches b sid" "\<not> ownership_matches a sid" "entry_session b = sid"
      using that live by (auto simp: foreign_def inc_def cur_def ownership_matches_def split: if_splits)
    then show False using key_inj [OF k] by (auto simp: live_entry_def ownership_matches_def)
  qed
  then have "distinct (map entry_key (foreign @ inc))" using d by auto
  from holds_list_live [OF merged g this] show ?thesis by (simp add: foreign_def inc_def)
qed

subsection \<open>Properties\<close>

text \<open>A state built from normalised entries reads back as these entries, from the record and
  from the file it is written to, unless its phase is terminal; that happens only when an
  active entry carries a terminal phase, and then no entry of any session is listed.\<close>

theorem active_entries_read_back:
  fixes b :: "js_record option" and fallback :: string
  assumes "\<forall>e \<in> set es. skill_entry e" "distinct (map entry_key es)"
  defines "r \<equiv> state_with_active_entries b es fallback"
  shows "list_active_skills (JObj r) = (if is_terminal_skill_active_phase (rec_get r ''phase'') then [] else es)
    \<and> (is_terminal_skill_active_phase (rec_get r ''phase'') \<longrightarrow> es \<noteq> [] \<longrightarrow>
         (\<exists>e \<in> set es. is_terminal_skill_active_phase (rec_get e ''phase'')))
    \<and> ((\<forall>e \<in> set es. live_entry e) \<longrightarrow>
         list_active_skills (JObj (base_record (read_skill_active_state None (written r)))) = es)"
proof (intro conjI impI)
  have h: "holds_entries r es" unfolding r_def by (rule state_with_holds)
  show "list_active_skills (JObj r) = (if is_terminal_skill_active_phase (rec_get r ''phase'') then [] else es)"
    using holds_list [OF h] assms(1,2) by blast
  show "\<exists>e \<in> set es. is_terminal_skill_active_phase (rec_get e ''phase'')"
    if "is_terminal_skill_active_phase (rec_get r ''phase'')" "es \<noteq> []"
    using h that assms(1) primary_text_phase terminal_phase_trimmed unfolding holds_entries_def by metis
  show "list_active_skills (JObj (base_record (read_skill_active_state None (written r)))) = es"
    if "\<forall>e \<in> set es. live_entry e"
    using holds_list_live [OF h _ assms(2)] that assms(1) read_written(2) [of r] by simp
qed

text \<open>The modes a session holds: those of the root and of its own file.\<close>

definition session_modes :: "skill_store \<Rightarrow> string \<Rightarrow> string set" where
  "session_modes st sid =
     (case read_root_state_for_write (sk_root st) of
        Inl _ \<Rightarrow> {} | Inr rt \<Rightarrow> entry_skill ` set (session_root_entries rt sid))
     \<union> entry_skill ` {e \<in> set (list_active_skills (JObj (base_record (read_skill_active_state None (session_file st sid))))).
          entry_session e = sid}"

lemma sync_session_result:
  assumes mode: "sy_mode opt \<in> set canonical_workflow_skills" and now: "js_trim (sy_now opt) = sy_now opt" "sy_now opt \<noteq> []"
    and sid: "js_trim sid = sid" "sid \<noteq> []"
    and rt: "read_root_state_for_write (sk_root st) = Inr rt"
    and live: "\<forall>e \<in> set (list_active_skills (JObj (base_record rt))). live_entry e"
      "\<forall>e \<in> set (list_active_skills (JObj (base_record (read_skill_active_state None (session_file st sid))))). live_entry e"
      "sy_active opt \<longrightarrow> \<not> is_terminal_skill_active_phase (trimmed_or_undef (sy_phase opt))"
    and quiet: "\<not> (rt = None \<and> read_skill_active_state None (session_file st sid) = None \<and> \<not> sy_active opt \<and> \<not> sy_all_sessions opt)"
  defines "sess \<equiv> read_skill_active_state None (session_file st sid)"
  defines "es \<equiv> next_entries opt rt sess sid"
  defines "cur \<equiv> list_active_skills (JObj (base_record rt))"
  shows "\<exists>st' rt'. sync_canonical_skill_state st opt (\<lambda>_. None) (Some sid) = Inr st'
    \<and> session_file st' sid = written (next_session_state opt rt sess sid)
    \<and> (\<forall>s. s \<noteq> sid \<longrightarrow> session_file st' s = session_file st s)
    \<and> list_active_skills (JObj (base_record (read_skill_active_state None (session_file st' sid)))) = es
    \<and> read_root_state_for_write (sk_root st') = Inr (Some rt')
    \<and> list_active_skills (JObj rt') = filter (\<lambda>e. \<not> ownership_matches e sid) cur
        @ (if list_ex (\<lambda>e. ownership_matches e sid) cur then es else [])"
proof -
  let ?next = "next_session_state opt rt sess sid"
  note nf = next_entries_facts [OF mode now sid(1) live(1) live(2) live(3), folded sess_def, folded es_def]
  have h: "holds_entries ?next es" unfolding es_def by (rule next_session_holds)
  have le: "list_active_skills (JObj ?next) = es"
    by (rule holds_list_live [OF h _ nf(2)]) (use nf(1) in blast)
  have own: "trimmed (rec_get ?next ''session_id'') = sid" using sid by (simp add: next_session_state_def Let_def)
  let ?root = "merge_root_state_for_session rt ?next sid"
  have ml: "list_active_skills (JObj ?root) = filter (\<lambda>e. \<not> ownership_matches e sid) cur
        @ (if list_ex (\<lambda>e. ownership_matches e sid) cur then es else [])"
    using merge_root_list [OF sid(1) live(1), of ?next] nf(1) unfolding le cur_def by blast
  have "\<forall>e \<in> set (list_active_skills (JObj ?root)). live_entry e"
    using live(1) nf(1) by (auto simp: ml cur_def)
  from read_written(1) [OF this] obtain rt' where
    rt': "read_root_state_for_write (written ?root) = Inr (Some rt')" "list_active_skills (JObj rt') = list_active_skills (JObj ?root)"
    by blast
  define st' where "st' = st\<lparr> sk_root := written ?root, sk_sessions := dict_put sid (written ?next) (sk_sessions st) \<rparr>"
  have "sync_session st opt None sid =
      (if rt = None \<and> sess = None \<and> \<not> sy_active opt \<and> \<not> sy_all_sessions opt then Inr st
       else write_session_copies st sid ?next)"
    using mode rt sid by (simp add: sync_session_def Let_def sess_def)
  also have "\<dots> = write_session_copies st sid ?next" by (rule if_not_P [OF quiet [folded sess_def]])
  also have "\<dots> = Inr st'" using rt own by (simp add: write_session_copies_def st'_def)
  finally have "sync_canonical_skill_state st opt (\<lambda>_. None) (Some sid) = Inr st'"
    using sid by (simp add: sync_canonical_skill_state_def)
  moreover have "session_file st' sid = written ?next" "\<forall>s. s \<noteq> sid \<longrightarrow> session_file st' s = session_file st s"
    by (simp_all add: session_file_def st'_def)
  moreover have "list_active_skills (JObj (base_record (read_skill_active_state None (written ?next)))) = es"
    using read_written(2) [of ?next] nf(1) le by simp
  moreover have "read_root_state_for_write (sk_root st') = Inr (Some rt')" using rt'(1) by (simp add: st'_def)
  ultimately show ?thesis using rt'(2) ml by metis
qed

text \<open>The states the synchronisation works on: a readable root, and live entries in it and in the
  session file.\<close>

definition skills_live :: "skill_store \<Rightarrow> string \<Rightarrow> bool" where
  "skills_live st sid \<longleftrightarrow>
     (\<exists>rt. read_root_state_for_write (sk_root st) = Inr rt \<and> (\<forall>e \<in> set (list_active_skills (JObj (base_record rt))). live_entry e))
     \<and> (\<forall>e \<in> set (list_active_skills (JObj (base_record (read_skill_active_state None (session_file st sid))))). live_entry e)"

lemma sync_session_step:
  assumes mode: "sy_mode opt \<in> set canonical_workflow_skills" and now: "js_trim (sy_now opt) = sy_now opt" "sy_now opt \<noteq> []"
    and sid: "js_trim sid = sid" "sid \<noteq> []"
    and rt: "read_root_state_for_write (sk_root st) = Inr rt"
    and live: "\<forall>e \<in> set (list_active_skills (JObj (base_record rt))). live_entry e"
      "\<forall>e \<in> set (list_active_skills (JObj (base_record (read_skill_active_state None (session_file st sid))))). live_entry e"
      "sy_active opt \<longrightarrow> \<not> is_terminal_skill_active_phase (trimmed_or_undef (sy_phase opt))"
  shows "\<exists>st'. sync_canonical_skill_state st opt (\<lambda>_. None) (Some sid) = Inr st'
    \<and> session_modes st' sid = session_modes st sid - {sy_mode opt} \<union> (if sy_active opt then {sy_mode opt} else {})
    \<and> (\<forall>m. m \<noteq> ''ralplan'' \<longrightarrow> m \<in> set (visible_modes st' (\<lambda>_. None) (Some sid)) \<longleftrightarrow> m \<in> session_modes st' sid)
    \<and> skills_live st' sid"
proof -
  let ?sess = "read_skill_active_state None (session_file st sid)"
  have old: "session_modes st sid = entry_skill ` set (session_root_entries rt sid)
      \<union> entry_skill ` {e \<in> set (list_active_skills (JObj (base_record ?sess))). entry_session e = sid}"
    by (simp add: session_modes_def rt)
  show ?thesis
  proof (cases "rt = None \<and> ?sess = None \<and> \<not> sy_active opt \<and> \<not> sy_all_sessions opt")
    case True
    then have "sync_canonical_skill_state st opt (\<lambda>_. None) (Some sid) = Inr st"
      using sid mode rt by (simp add: sync_canonical_skill_state_def Let_def sync_session_def)
    moreover have "session_modes st sid = {}"
      using True by (simp add: old session_root_entries_def state_of_current)
    moreover have "visible_modes st (\<lambda>_. None) (Some sid) = []"
      using True sid by (simp add: visible_modes_def read_visible_skill_active_state_def list_transition_active_skills_def
          Let_def state_of_current)
    moreover have "skills_live st sid" using rt live by (auto simp: skills_live_def)
    ultimately show ?thesis using True by auto
  next
    case False
    define es where "es = next_entries opt rt ?sess sid"
    note nf = next_entries_facts [OF mode now sid(1) live, folded es_def]
    obtain st' rt' where s:
      "sync_canonical_skill_state st opt (\<lambda>_. None) (Some sid) = Inr st'"
      "session_file st' sid = written (next_session_state opt rt ?sess sid)"
      "list_active_skills (JObj (base_record (read_skill_active_state None (session_file st' sid)))) = es"
      "read_root_state_for_write (sk_root st') = Inr (Some rt')"
      "list_active_skills (JObj rt') = filter (\<lambda>e. \<not> ownership_matches e sid) (list_active_skills (JObj (base_record rt)))
          @ (if list_ex (\<lambda>e. ownership_matches e sid) (list_active_skills (JObj (base_record rt))) then es else [])"
      using sync_session_result [OF mode now sid rt live False] unfolding es_def by blast
    have "entry_skill ` set (session_root_entries (Some rt') sid) \<subseteq> entry_skill ` set es"
      by (auto simp: session_root_entries_def base_record_def s(5) ownership_matches_def split: if_splits)
    moreover have "{e \<in> set es. entry_session e = sid} = set es" using nf(1) by blast
    ultimately have new: "session_modes st' sid = entry_skill ` set es"
      unfolding session_modes_def s(3,4) by auto
    define w where "w = read_skill_active_state None (session_file st' sid)"
    have lw: "list_active_skills (JObj (base_record w)) = es" using s(3) by (simp add: w_def)
    have V: "m \<in> set (visible_modes st' (\<lambda>_. None) (Some sid)) \<longleftrightarrow> m \<in> entry_skill ` set es" if "m \<noteq> ''ralplan''" for m
    proof -
      have owned: "is_transition_canonical_state_owned (JObj (base_record w)) (Some sid)"
      proof (cases w)
        case None
        then show ?thesis using sid by (simp add: is_transition_canonical_state_owned_def base_record_def Let_def)
      next
        case (Some r)
        let ?n = "next_session_state opt rt ?sess sid"
        obtain v where v: "session_file st' sid = JsonFile (JObj ((''version'', v) # rec_delete ''version'' ?n))"
          unfolding s(2) written_def by blast
        have nn: "normalize_skill_active_state (JObj ((''version'', v) # rec_delete ''version'' ?n)) = Some r"
          using Some unfolding w_def v by (simp add: read_skill_active_state_def)
        have "rec_get ((''version'', v) # rec_delete ''version'' ?n) ''session_id'' = JStr sid"
          by (simp add: written_get next_session_state_def Let_def)
        then have "rec_get r ''session_id'' = undef_if_empty sid"
          using normalize_state_get(5) [OF nn] sid by simp
        then show ?thesis using Some sid by (simp add: is_transition_canonical_state_owned_def base_record_def Let_def)
      qed
      have v: "visible_modes st' (\<lambda>_. None) (Some sid) =
          map entry_skill (list_transition_active_skills (JObj (base_record w)) (Some sid))"
        using sid by (simp add: visible_modes_def read_visible_skill_active_state_def w_def)
      show ?thesis
        using that nf(1) sid unfolding v list_transition_active_skills_def Let_def lw using owned by auto
    qed
    have M: "session_modes st' sid =
        session_modes st sid - {sy_mode opt} \<union> (if sy_active opt then {sy_mode opt} else {})"
      unfolding new old by (rule nf(3))
    have L: "skills_live st' sid"
    proof -
      have "\<forall>e \<in> set (list_active_skills (JObj (base_record (Some rt')))). live_entry e"
        using live(1) nf(1) by (auto simp: s(5) base_record_def split: if_splits)
      then show ?thesis using s(4) nf(1) unfolding skills_live_def s(3) by blast
    qed
    show ?thesis
      by (intro exI [of _ st'] conjI allI impI) (rule s(1), rule M, simp add: V new, rule L)
  qed
qed


text \<open>A store that was never written, and activating a mode in it.\<close>

definition empty_store :: skill_store where
  "empty_store = \<lparr> sk_root = NoFile, sk_sessions = [] \<rparr>"

definition activate :: "string \<Rightarrow> sync_options" where
  "activate m = \<lparr> sy_mode = m, sy_active = True, sy_phase = None, sy_thread = None, sy_turn = None, sy_owner = None,
     sy_now = ''now'', sy_source = ''test'', sy_all_sessions = False \<rparr>"

lemma empty_store_reads:
  "read_root_state_for_write (sk_root empty_store) = Inr None" "read_skill_active_state None (session_file empty_store s) = None"
  by (simp_all add: empty_store_def read_root_state_for_write_def read_skill_active_state_def session_file_def)

lemma activate_ok:
  "m \<in> set canonical_workflow_skills \<Longrightarrow> sy_mode (activate m) \<in> set canonical_workflow_skills"
  "js_trim (sy_now (activate m)) = sy_now (activate m)" "sy_now (activate m) \<noteq> []"
  "sy_active (activate m) \<longrightarrow> \<not> is_terminal_skill_active_phase (trimmed_or_undef (sy_phase (activate m)))"
proof -
  have "js_trim ''now'' = ''now''" by code_simp
  then show "js_trim (sy_now (activate m)) = sy_now (activate m)" by (simp add: activate_def)
qed (simp_all add: activate_def trimmed_or_undef_def)




theorem active_entries_read_back_witness:
  "list_active_skills (JObj (base_record (read_skill_active_state None
     (written (state_with_active_entries None [mode_entry (activate ''ralph'') [] ''s1''] ''ralph'')))))
   = [mode_entry (activate ''ralph'') [] ''s1'']"
proof -
  have m: "''ralph'' \<in> set canonical_workflow_skills" and t: "js_trim ''s1'' = ''s1''" by code_simp+
  note f = mode_entry_facts [OF activate_ok(1) [OF m] activate_ok(2,3) t, of "[]"]
  show ?thesis
    using active_entries_read_back [of "[mode_entry (activate ''ralph'') [] ''s1'']" None "''ralph''"] f(1) f(4) activate_ok(4) [of "''ralph''"]
    by (simp add: activate_def)
qed

end
