(* ===== verification/RunState.thy ===== *)
theory RunState
  imports RunOutcome
begin

text \<open>
  What is built on the outcome vocabulary: the canonical run state (\<open>src/runtime/run-state.ts\<close>),
  the run loop and the continuation decision (\<open>src/runtime/run-loop.ts\<close>), the lifecycle view
  of \<open>src/runtime/terminal-lifecycle.ts\<close> and the clean-up of terminal workflow states
  (\<open>src/state/terminal-normalization.ts\<close>). Reading and writing the state file is left out:
  the state on disk is the argument \<open>existing\<close>.
\<close>

subsection \<open>The run state\<close>

definition optional_string :: "js \<Rightarrow> string option" where
  "optional_string v = (if trimmed v = [] then None else Some (trimmed v))"

definition optional_finite :: "js \<Rightarrow> js option" where
  "optional_finite v = (if js_finite v then Some v else None)"

definition terminal_outcome_from_phase :: "string option \<Rightarrow> run_outcome option" where
  "terminal_outcome_from_phase phase =
     (case phase of
        None \<Rightarrow> None
      | Some p \<Rightarrow>
          (case nr_outcome (normalize_run_outcome (JStr p)) of
             None \<Rightarrow> None
           | Some r \<Rightarrow> (if is_terminal_run_outcome (run_outcome_js r) then Some r else None)))"

definition derive_run_outcome :: "js_record \<Rightarrow> run_outcome option" where
  "derive_run_outcome state =
     (if rec_get state ''active'' = JBool True then Some Continue
      else
        (let lifecycle = infer_lifecycle state True None;
             explicit = nr_outcome (normalize_run_outcome
                          (js_coalesce (rec_get state ''outcome'') (rec_get state ''run_outcome'')));
             of_phase = terminal_outcome_from_phase (optional_string (rec_get state ''current_phase''))
         in if lifecycle \<noteq> None then run_of_lifecycle (the lifecycle)
            else if explicit \<noteq> None then explicit
            else if of_phase \<noteq> None then of_phase
            else if optional_string (rec_get state ''error'') \<noteq> None then Some RunFailed
            else if optional_string (rec_get state ''completed_at'') \<noteq> None then Some Finish
            else Some (classify_run_outcome (rec_get state ''current_phase''))))"

definition opt_set :: "string \<Rightarrow> js option \<Rightarrow> js_record \<Rightarrow> js_record" where
  "opt_set k v r = (case v of None \<Rightarrow> r | Some x \<Rightarrow> rec_set k x r)"

definition existing_get :: "js_record option \<Rightarrow> string \<Rightarrow> js" where
  "existing_get e k = (case e of None \<Rightarrow> JUndef | Some r \<Rightarrow> rec_get r k)"

definition first_some :: "'a option \<Rightarrow> 'a option \<Rightarrow> 'a option" where
  "first_some a b = (case a of None \<Rightarrow> b | Some _ \<Rightarrow> a)"

text \<open>The lifecycle of the new state, as a value: explicit, inferred, or that of the state on disk.\<close>

definition run_state_lifecycle :: "js_record \<Rightarrow> js_record option \<Rightarrow> js" where
  "run_state_lifecycle state existing =
     (let explicit = nr_outcome (normalize_lifecycle
            (js_coalesce (rec_get state ''lifecycle_outcome'') (rec_get state ''terminal_outcome'')) StratBlocked);
          inferred = infer_lifecycle state True None
      in if explicit \<noteq> None then lifecycle_js (the explicit)
         else if inferred \<noteq> None then lifecycle_js (the inferred)
         else existing_get existing ''lifecycle_outcome'')"

definition run_state_completed_at :: "js_record \<Rightarrow> js_record option \<Rightarrow> string \<Rightarrow> string option" where
  "run_state_completed_at state existing now =
     (if rec_get state ''active'' = JBool True then None
      else first_some (optional_string (rec_get state ''completed_at''))
             (if is_terminal_run_outcome (outcome_js (derive_run_outcome state))
              then first_some (optional_string (existing_get existing ''completed_at'')) (Some now)
              else None))"

definition build_run_state :: "js_record \<Rightarrow> js_record option \<Rightarrow> string \<Rightarrow> js_record" where
  "build_run_state state existing now =
     (let mode = first_some (optional_string (rec_get state ''mode''))
                   (first_some (optional_string (existing_get existing ''mode'')) (Some ''unknown''));
          lifecycle = run_state_lifecycle state existing;
          completed = run_state_completed_at state existing now;
          base = [(''version'', JInt 1), (''mode'', JStr (the mode)),
                  (''active'', JBool (rec_get state ''active'' = JBool True)),
                  (''outcome'', outcome_js (derive_run_outcome state)), (''updated_at'', JStr now)]
      in opt_set ''owner_omx_session_id'' (map_option JStr (optional_string (rec_get state ''owner_omx_session_id'')))
        (opt_set ''error'' (map_option JStr (optional_string (rec_get state ''error'')))
        (opt_set ''max_iterations'' (optional_finite (rec_get state ''max_iterations''))
        (opt_set ''iteration'' (optional_finite (rec_get state ''iteration''))
        (opt_set ''completed_at'' (if truthy_str completed then map_option JStr completed else None)
        (opt_set ''started_at'' (map_option JStr (first_some (optional_string (rec_get state ''started_at''))
                                                    (optional_string (existing_get existing ''started_at''))))
        (opt_set ''task_description'' (map_option JStr (optional_string (rec_get state ''task_description'')))
        (opt_set ''current_phase'' (map_option JStr (optional_string (rec_get state ''current_phase'')))
        (opt_set ''lifecycle_outcome'' (if js_truthy lifecycle then Some lifecycle else None) base)))))))))"

subsection \<open>The run loop\<close>

text \<open>\<open>runUntilTerminal\<close>: the step is a function of the iteration; the result is the iteration
  that ended the run, its outcome and state, and the outcomes so far. The bounded loop throws
  (\<open>None\<close>) when the limit is passed, the unbounded one may run for ever.\<close>

fun run_bounded :: "(nat \<Rightarrow> js \<times> 's) \<Rightarrow> nat \<Rightarrow> nat \<Rightarrow> run_outcome list
    \<Rightarrow> (nat \<times> run_outcome \<times> 's \<times> run_outcome list) option" where
  "run_bounded step i 0 history = None"
| "run_bounded step i (Suc left) history =
     (let (raw, s) = step i; outcome = classify_run_outcome raw; h = history @ [outcome]
      in if is_terminal_run_outcome (run_outcome_js outcome) then Some (i, outcome, s, h)
         else run_bounded step (Suc i) left h)"

definition run_until_terminal :: "(nat \<Rightarrow> js \<times> 's) \<Rightarrow> nat \<Rightarrow> (nat \<times> run_outcome \<times> 's \<times> run_outcome list) option" where
  "run_until_terminal step max_iterations = run_bounded step 1 max_iterations []"

partial_function (option) run_unbounded ::
    "(nat \<Rightarrow> js \<times> 's) \<Rightarrow> nat \<Rightarrow> run_outcome list \<Rightarrow> (nat \<times> run_outcome \<times> 's \<times> run_outcome list) option" where
  "run_unbounded step i history =
     (if is_terminal_run_outcome (run_outcome_js (classify_run_outcome (fst (step i))))
      then Some (i, classify_run_outcome (fst (step i)), snd (step i), history @ [classify_run_outcome (fst (step i))])
      else run_unbounded step (Suc i) (history @ [classify_run_outcome (fst (step i))]))"

record continuation =
  co_outcome :: "run_outcome option"
  co_lifecycle :: "lifecycle option"
  co_terminal :: bool
  co_phase :: string

definition run_continuation_snapshot :: "js_record option \<Rightarrow> string option \<Rightarrow> continuation option" where
  "run_continuation_snapshot candidate fallback =
     (case candidate of
        None \<Rightarrow> None
      | Some c \<Rightarrow>
          (let outcome = infer_run_outcome c; lifecycle = infer_lifecycle c True None;
               phase = trimmed (rec_get c ''current_phase'')
           in Some \<lparr> co_outcome = outcome, co_lifecycle = lifecycle,
                     co_terminal = (lifecycle \<noteq> None \<or> is_terminal_run_outcome (outcome_js outcome)),
                     co_phase = (if phase \<noteq> [] then phase else if truthy_str fallback then the fallback else ''active'') \<rparr>))"

definition should_continue_run :: "js_record option \<Rightarrow> bool" where
  "should_continue_run candidate \<longleftrightarrow>
     (case run_continuation_snapshot candidate None of None \<Rightarrow> False | Some c \<Rightarrow> \<not> co_terminal c)"

subsection \<open>The lifecycle view\<close>

text \<open>The result of the wrapper: a canonical text, in its own case, is accepted as it is.\<close>

definition view_lifecycle :: "js \<Rightarrow> lifecycle norm_result" where
  "view_lifecycle v =
     (case (case js_string v of None \<Rightarrow> None | Some s \<Rightarrow> List.find (\<lambda>l. lifecycle_name l = js_trim s) lifecycles) of
        Some l \<Rightarrow> no_result\<lparr> nr_outcome := Some l \<rparr>
      | None \<Rightarrow>
          (let r = normalize_lifecycle v StratBlocked
           in r\<lparr> nr_warning := map_option (\<lambda>_. legacy_warning ''lifecycle outcome'' v
                                   (case nr_outcome r of None \<Rightarrow> [] | Some l \<Rightarrow> lifecycle_name l)) (nr_warning r) \<rparr>))"

definition view_infer_lifecycle :: "js_record \<Rightarrow> lifecycle norm_result" where
  "view_infer_lifecycle c =
     (let explicit = view_lifecycle (rec_get c ''lifecycle_outcome'');
          run = normalize_run_outcome (rec_get c ''run_outcome'')
      in if nr_outcome explicit \<noteq> None \<or> nr_error explicit \<noteq> None then explicit
         else if nr_error run \<noteq> None then no_result\<lparr> nr_error := nr_error run \<rparr>
         else (case nr_outcome run of
                 Some RunCancelled \<Rightarrow>
                   no_result\<lparr> nr_outcome := lifecycle_of_run RunCancelled StratBlocked,
                     nr_warning := Some (legacy_warning ''run outcome'' (JStr ''cancelled'') ''userinterlude'') \<rparr>
               | Some r \<Rightarrow> no_result\<lparr> nr_outcome := lifecycle_of_run r StratBlocked \<rparr>
               | None \<Rightarrow> no_result))"

subsection \<open>Terminal workflow states\<close>

definition terminal_phase_names :: "string list" where
  "terminal_phase_names =
     [''complete'', ''completed'', ''cancelled'', ''canceled'', ''failed'', ''blocked'', ''cleared'']"

definition lock_keys :: "string list" where
  "lock_keys = [''input_lock'', ''inputLock'', ''approval_lock'', ''approvalLock'', ''approval_locks'', ''approvalLocks'']"

definition approval_marker_keys :: "string list" where
  "approval_marker_keys = [''approval'', ''approval_request'', ''approvalRequest'']"

definition pending_words :: "string list" where
  "pending_words = [''active'', ''pending'', ''waiting'', ''waiting_for_user'', ''requested'', ''required'']"

definition is_terminal_state :: "js_record \<Rightarrow> bool" where
  "is_terminal_state s \<longleftrightarrow>
     (let phase = js_lower (trimmed (js_coalesce (rec_get s ''current_phase'') (rec_get s ''currentPhase'')))
      in rec_get s ''active'' = JBool False \<and> phase \<in> set terminal_phase_names
         \<or> rec_get s ''active'' = JBool False \<and> trimmed (rec_get s ''completed_at'') \<noteq> []
         \<or> infer_lifecycle s False None \<noteq> None
         \<or> is_terminal_run_outcome (outcome_js (infer_run_outcome s)))"

definition is_active_lock :: "js_record \<Rightarrow> bool" where
  "is_active_lock r \<longleftrightarrow>
     rec_get r ''active'' = JBool True \<or> rec_get r ''locked'' = JBool True \<or> rec_get r ''pending'' = JBool True
     \<or> js_lower (trimmed (rec_get r ''status'')) \<in> set pending_words
     \<or> js_lower (trimmed (rec_get r ''phase'')) \<in> set pending_words"

definition or_default :: "string \<Rightarrow> string \<Rightarrow> js" where
  "or_default s d = JStr (if s = [] then d else s)"

definition released_lock :: "js_record \<Rightarrow> string \<Rightarrow> js_record" where
  "released_lock r ts =
     rec_set ''release_reason'' (or_default (trimmed (rec_get r ''release_reason'')) ''terminal_state_normalization'')
      (rec_set ''released_at'' (or_default (trimmed (rec_get r ''released_at'')) ts)
      (rec_set ''status'' (JStr ''released'')
      (rec_set ''pending'' (JBool False)
      (rec_set ''locked'' (JBool False)
      (rec_set ''active'' (JBool False) r)))))"

text \<open>The released value, or \<open>None\<close> when nothing changed.\<close>

fun release_lock_value :: "js \<Rightarrow> string \<Rightarrow> js option" where
  "release_lock_value (JArr xs) ts =
     (let rs = map (\<lambda>x. release_lock_value x ts) xs
      in if list_all (\<lambda>r. r = None) rs then None
         else Some (JArr (map2 (\<lambda>x r. case r of None \<Rightarrow> x | Some y \<Rightarrow> y) xs rs)))"
| "release_lock_value (JObj r) ts = (if is_active_lock r then Some (JObj (released_lock r ts)) else None)"
| "release_lock_value _ ts = None"

definition release_entry :: "string \<Rightarrow> string \<times> js \<Rightarrow> string \<times> js" where
  "release_entry ts kv =
     (if fst kv \<in> set lock_keys \<or> fst kv \<in> set approval_marker_keys
      then (case release_lock_value (snd kv) ts of None \<Rightarrow> kv | Some v \<Rightarrow> (fst kv, v))
      else kv)"

definition release_terminal_locks :: "js_record \<Rightarrow> string \<Rightarrow> js_record" where
  "release_terminal_locks r ts = map (release_entry ts) r"

definition locks_changed :: "js_record \<Rightarrow> string \<Rightarrow> bool" where
  "locks_changed r ts \<longleftrightarrow>
     list_ex (\<lambda>(k, v). (k \<in> set lock_keys \<or> k \<in> set approval_marker_keys) \<and> release_lock_value v ts \<noteq> None) r"

text \<open>\<open>clearDeepInterviewQuestionObligation\<close> with the time \<open>new Date(ts)\<close>: \<open>None\<close> is the
  \<open>RangeError\<close> of \<open>toISOString\<close> on an invalid date.\<close>

definition clear_obligation :: "js_record \<Rightarrow> string \<Rightarrow> string \<Rightarrow> js_record option" where
  "clear_obligation e reason ts =
     (if rec_get e ''status'' \<noteq> JStr ''pending'' then Some e
      else (case date_parse ts of
              None \<Rightarrow> None
            | Some t \<Rightarrow> Some (rec_set ''clear_reason'' (JStr reason)
                           (rec_set ''cleared_at'' (JStr (iso_of_ms t)) (rec_set ''status'' (JStr ''cleared'') e)))))"

definition nested_release :: "js_record \<Rightarrow> string \<Rightarrow> js_record" where
  "nested_release s ts =
     (case rec_get s ''state'' of
        JObj n \<Rightarrow> (if locks_changed n ts then rec_set ''state'' (JObj (release_terminal_locks n ts)) s else s)
      | _ \<Rightarrow> s)"

definition settle_question :: "js_record \<Rightarrow> string \<Rightarrow> (js_record \<times> bool) option" where
  "settle_question s ts =
     (case rec_get s ''question_enforcement'' of
        JObj e \<Rightarrow>
          (if js_lower (trimmed (rec_get e ''status'')) = ''pending''
           then (let phase = js_lower (trimmed (rec_get s ''current_phase''));
                     reason = (if phase = ''completed'' \<or> phase = ''complete'' then ''handoff'' else ''abort'')
                 in map_option (\<lambda>e'. (rec_set ''question_enforcement'' (JObj e') s, True)) (clear_obligation e reason ts))
           else Some (s, False))
      | _ \<Rightarrow> Some (s, False))"

text \<open>\<open>normalizeTerminalWorkflowState\<close>: the state and whether it changed. \<open>now\<close> is the
  option \<open>nowIso\<close> or the clock.\<close>

definition settle_active :: "js_record \<Rightarrow> js_record" where
  "settle_active s = (if rec_get s ''active'' \<noteq> JBool False then rec_set ''active'' (JBool False) s else s)"

definition settle_completed :: "js_record \<Rightarrow> string \<Rightarrow> js_record" where
  "settle_completed s ts = (if trimmed (rec_get s ''completed_at'') = [] then rec_set ''completed_at'' (JStr ts) s else s)"

definition completion_time :: "js_record \<Rightarrow> string \<Rightarrow> string" where
  "completion_time s now = (if trimmed (rec_get s ''completed_at'') \<noteq> [] then trimmed (rec_get s ''completed_at'') else now)"

definition normalize_terminal_workflow_state :: "js_record \<Rightarrow> string \<Rightarrow> string \<Rightarrow> (js_record \<times> bool) option" where
  "normalize_terminal_workflow_state s mode now =
     (if \<not> is_terminal_state s then Some (s, False)
      else
        (let ts = completion_time s now;
             s2 = settle_completed (settle_active s) ts;
             s3 = release_terminal_locks s2 ts;
             s4 = nested_release s3 ts;
             changed = (rec_get s ''active'' \<noteq> JBool False \<or> trimmed (rec_get s ''completed_at'') = []
                        \<or> locks_changed s2 ts
                        \<or> (case rec_get s3 ''state'' of JObj n \<Rightarrow> locks_changed n ts | _ \<Rightarrow> False))
         in if mode = ''deep-interview''
            then map_option (\<lambda>(s5, c5). (s5, changed \<or> c5)) (settle_question s4 ts)
            else Some (s4, changed)))"

subsection \<open>Facts on the loop\<close>

definition terminal_iteration :: "(nat \<Rightarrow> js \<times> 's) \<Rightarrow> nat \<Rightarrow> bool" where
  "terminal_iteration step i \<longleftrightarrow> is_terminal_run_outcome (run_outcome_js (classify_run_outcome (fst (step i))))"

definition outcomes_upto :: "(nat \<Rightarrow> js \<times> 's) \<Rightarrow> nat \<Rightarrow> nat \<Rightarrow> run_outcome list" where
  "outcomes_upto step i n = map (\<lambda>j. classify_run_outcome (fst (step j))) [i..<n]"

lemma run_bounded_first:
  assumes "terminal_iteration step k" "i \<le> k" "k < i + left" "\<forall>j. i \<le> j \<and> j < k \<longrightarrow> \<not> terminal_iteration step j"
  shows "run_bounded step i left h =
           Some (k, classify_run_outcome (fst (step k)), snd (step k), h @ outcomes_upto step i (Suc k))"
  using assms(2-4)
proof (induction left arbitrary: i h)
  case 0
  then show ?case by simp
next
  case (Suc left)
  show ?case
  proof (cases "i = k")
    case True
    then show ?thesis using assms(1)
      by (simp add: terminal_iteration_def outcomes_upto_def Let_def split_beta)
  next
    case False
    then have "\<not> terminal_iteration step i" "Suc i \<le> k" using Suc.prems by simp_all
    moreover have "outcomes_upto step i (Suc k) = classify_run_outcome (fst (step i)) # outcomes_upto step (Suc i) (Suc k)"
      using \<open>Suc i \<le> k\<close> by (simp add: outcomes_upto_def upt_conv_Cons)
    ultimately show ?thesis using Suc
      by (simp add: terminal_iteration_def Let_def split_beta)
  qed
qed

lemma run_bounded_none:
  "\<forall>j. i \<le> j \<and> j < i + left \<longrightarrow> \<not> terminal_iteration step j \<Longrightarrow> run_bounded step i left h = None"
  by (induction left arbitrary: i h) (auto simp: terminal_iteration_def Let_def split_beta)

lemma run_unbounded_first:
  "terminal_iteration step k \<Longrightarrow> i \<le> k \<Longrightarrow> \<forall>j. i \<le> j \<and> j < k \<longrightarrow> \<not> terminal_iteration step j \<Longrightarrow>
     run_unbounded step i h =
       Some (k, classify_run_outcome (fst (step k)), snd (step k), h @ outcomes_upto step i (Suc k))"
proof (induction "k - i" arbitrary: i h)
  case 0
  then have "i = k" by simp
  with 0 show ?case
    by (subst run_unbounded.simps) (simp add: terminal_iteration_def outcomes_upto_def)
next
  case (Suc n)
  then have "Suc i \<le> k" "\<not> terminal_iteration step i" by simp_all
  moreover have "outcomes_upto step i (Suc k) = classify_run_outcome (fst (step i)) # outcomes_upto step (Suc i) (Suc k)"
    using \<open>Suc i \<le> k\<close> by (simp add: outcomes_upto_def upt_conv_Cons)
  moreover have "run_unbounded step (Suc i) (h @ [classify_run_outcome (fst (step i))]) =
      Some (k, classify_run_outcome (fst (step k)), snd (step k),
            (h @ [classify_run_outcome (fst (step i))]) @ outcomes_upto step (Suc i) (Suc k))"
    using Suc calculation by simp
  ultimately show ?case
    by (subst run_unbounded.simps) (simp add: terminal_iteration_def)
qed

lemma run_unbounded_terminal:
  assumes "run_unbounded step i h = Some r"
  shows "\<exists>k \<ge> i. terminal_iteration step k"
proof (rule run_unbounded.raw_induct [where P = "\<lambda>step i h r. \<exists>k \<ge> i. terminal_iteration step k", OF _ assms])
  fix ru :: "(nat \<Rightarrow> js \<times> 'a) \<Rightarrow> nat \<Rightarrow> run_outcome list \<Rightarrow> (nat \<times> run_outcome \<times> 'a \<times> run_outcome list) option"
  fix step i h r
  assume ih: "\<And>step i h r. ru step i h = Some r \<Longrightarrow> \<exists>k \<ge> i. terminal_iteration step k"
    and e: "(if is_terminal_run_outcome (run_outcome_js (classify_run_outcome (fst (step i))))
      then Some (i, classify_run_outcome (fst (step i)), snd (step i), h @ [classify_run_outcome (fst (step i))])
      else ru step (Suc i) (h @ [classify_run_outcome (fst (step i))])) = Some r"
  show "\<exists>k \<ge> i. terminal_iteration step k"
  proof (cases "terminal_iteration step i")
    case True
    then show ?thesis by blast
  next
    case False
    then have "ru step (Suc i) (h @ [classify_run_outcome (fst (step i))]) = Some r"
      using e by (simp add: terminal_iteration_def)
    from ih [OF this] obtain k where "Suc i \<le> k" "terminal_iteration step k" by blast
    then show ?thesis by (intro exI [of _ k]) simp
  qed
qed

subsection \<open>Facts on the locks\<close>

definition settled_value :: "string \<Rightarrow> js \<Rightarrow> js" where
  "settled_value ts v = (case release_lock_value v ts of None \<Rightarrow> v | Some w \<Rightarrow> w)"

lemma settled_array: "settled_value ts (JArr xs) = JArr (map (settled_value ts) xs)"
proof -
  have m: "map2 (\<lambda>x r. case r of None \<Rightarrow> x | Some y \<Rightarrow> y) xs (map (\<lambda>x. release_lock_value x ts) xs)
      = map (settled_value ts) xs"
    by (induction xs) (simp_all add: settled_value_def)
  moreover have "list_all (\<lambda>r. r = None) (map (\<lambda>x. release_lock_value x ts) xs) \<Longrightarrow> map (settled_value ts) xs = xs"
    by (induction xs) (simp_all add: settled_value_def)
  ultimately show ?thesis by (simp add: settled_value_def Let_def)
qed

lemma released_lock_get:
  "rec_get (released_lock r ts) k =
    (if k = ''release_reason'' then or_default (trimmed (rec_get r ''release_reason'')) ''terminal_state_normalization''
     else if k = ''released_at'' then or_default (trimmed (rec_get r ''released_at'')) ts
     else if k = ''status'' then JStr ''released''
     else if k = ''pending'' \<or> k = ''locked'' \<or> k = ''active'' then JBool False
     else rec_get r k)"
  by (simp add: released_lock_def)

lemma or_default_trimmed: "js_trim d = d \<Longrightarrow> or_default (trimmed (or_default (js_trim s) d)) d = or_default (js_trim s) d"
  by (simp add: or_default_def)

lemma trimmed_trim: "js_trim (trimmed v) = trimmed v"
  by (simp add: trimmed_def split: option.split)

lemma released_lock_idem:
  assumes "js_trim ts = ts"
  shows "released_lock (released_lock r ts) ts = released_lock r ts"
proof -
  have "lower_word ''terminal_state_normalization''" by code_simp
  then have w: "js_trim ''terminal_state_normalization'' = ''terminal_state_normalization''" by (rule js_trim_word)
  have o: "or_default (trimmed (or_default (trimmed v) d)) d = or_default (trimmed v) d" if "js_trim d = d" for v d
    using or_default_trimmed [OF that, of "trimmed v"] by (simp add: trimmed_trim)
  have nu: "or_default a b \<noteq> JUndef" for a b by (simp add: or_default_def)
  let ?r = "released_lock r ts"
  show ?thesis
    unfolding released_lock_def [of ?r]
    by (simp add: released_lock_get o w assms rec_set_get nu del: rec_get_set)
qed

lemma settled_value_idem: "js_trim ts = ts \<Longrightarrow> settled_value ts (settled_value ts v) = settled_value ts v"
proof (induction v)
  case (JArr xs)
  then show ?case by (simp add: settled_array)
next
  case (JObj r)
  then show ?case
    by (cases "is_active_lock r") (simp_all add: settled_value_def released_lock_idem)
qed (simp_all add: settled_value_def)

lemma release_entry_settled:
  "release_entry ts kv = (if fst kv \<in> set lock_keys \<or> fst kv \<in> set approval_marker_keys
     then (fst kv, settled_value ts (snd kv)) else kv)"
  by (cases kv) (simp add: release_entry_def settled_value_def split: option.split)

lemma release_locks_idem:
  "js_trim ts = ts \<Longrightarrow> release_terminal_locks (release_terminal_locks r ts) ts = release_terminal_locks r ts"
  by (simp add: release_terminal_locks_def release_entry_settled settled_value_idem comp_def)

lemma release_locks_set:
  "k \<notin> set lock_keys \<Longrightarrow> k \<notin> set approval_marker_keys \<Longrightarrow>
     release_terminal_locks (rec_set k v r) ts = rec_set k v (release_terminal_locks r ts)"
  by (induction k v r rule: rec_set.induct) (auto simp: release_terminal_locks_def release_entry_settled)

lemma release_locks_get:
  "k \<notin> set lock_keys \<Longrightarrow> k \<notin> set approval_marker_keys \<Longrightarrow>
     rec_get (release_terminal_locks r ts) k = rec_get r k"
proof -
  assume k: "k \<notin> set lock_keys" "k \<notin> set approval_marker_keys"
  have "map_of (release_terminal_locks r ts) k = map_of r k"
    using k by (induction r) (auto simp: release_terminal_locks_def release_entry_settled)
  then show ?thesis by (simp add: rec_get_def)
qed

lemma not_lock_keys [simp]:
  "''active'' \<notin> set lock_keys" "''completed_at'' \<notin> set lock_keys" "''state'' \<notin> set lock_keys"
  "''active'' \<notin> set approval_marker_keys" "''completed_at'' \<notin> set approval_marker_keys"
  "''state'' \<notin> set approval_marker_keys"
  by (simp_all add: lock_keys_def approval_marker_keys_def)

lemma locks_unchanged: "\<not> locks_changed r ts \<Longrightarrow> release_terminal_locks r ts = r"
  by (induction r) (auto simp: locks_changed_def release_terminal_locks_def release_entry_def split: option.split)

lemma nested_release_alt:
  "nested_release s ts = (case rec_get s ''state'' of JObj n \<Rightarrow> rec_set ''state'' (JObj (release_terminal_locks n ts)) s | _ \<Rightarrow> s)"
  using locks_unchanged by (auto simp: nested_release_def rec_set_get split: js.split)

subsection \<open>Properties\<close>

text \<open>The run loop ends at the first terminal iteration: when the limit covers it, the
  result is its number, outcome and state with the outcomes of all iterations so far; with no
  terminal iteration within the limit the loop throws. Without a limit the loop returns exactly
  when some iteration is terminal, and then with the same result.\<close>

theorem run_loop_first_terminal:
  "(\<forall>k. terminal_iteration step k \<and> 1 \<le> k \<and> (\<forall>j. 1 \<le> j \<and> j < k \<longrightarrow> \<not> terminal_iteration step j) \<longrightarrow>
      (let res = Some (k, classify_run_outcome (fst (step k)), snd (step k), outcomes_upto step 1 (Suc k))
       in (k \<le> m \<longrightarrow> run_until_terminal step m = res) \<and> run_unbounded step 1 [] = res))
   \<and> ((\<forall>j. 1 \<le> j \<and> j \<le> m \<longrightarrow> \<not> terminal_iteration step j) \<longrightarrow> run_until_terminal step m = None)
   \<and> (run_unbounded step 1 [] \<noteq> None \<longleftrightarrow> (\<exists>k \<ge> 1. terminal_iteration step k))"
proof -
  have a: "run_until_terminal step m = Some (k, classify_run_outcome (fst (step k)), snd (step k), outcomes_upto step 1 (Suc k))"
    if "terminal_iteration step k" "1 \<le> k" "\<forall>j. 1 \<le> j \<and> j < k \<longrightarrow> \<not> terminal_iteration step j" "k \<le> m" for k
    using run_bounded_first [OF that(1,2) _ that(3), of m "[]"] that(4) by (simp add: run_until_terminal_def)
  have b: "run_unbounded step 1 [] = Some (k, classify_run_outcome (fst (step k)), snd (step k), outcomes_upto step 1 (Suc k))"
    if "terminal_iteration step k" "1 \<le> k" "\<forall>j. 1 \<le> j \<and> j < k \<longrightarrow> \<not> terminal_iteration step j" for k
    using run_unbounded_first [OF that, of "[]"] by simp
  have c: "run_until_terminal step m = None" if "\<forall>j. 1 \<le> j \<and> j \<le> m \<longrightarrow> \<not> terminal_iteration step j"
    using run_bounded_none [of 1 m step "[]"] that by (simp add: run_until_terminal_def)
  have d: "run_unbounded step 1 [] \<noteq> None" if "\<exists>k \<ge> 1. terminal_iteration step k"
  proof -
    define k where "k = (LEAST k. 1 \<le> k \<and> terminal_iteration step k)"
    have "1 \<le> k \<and> terminal_iteration step k"
      unfolding k_def by (rule LeastI_ex) (use that in blast)
    moreover have "\<forall>j. 1 \<le> j \<and> j < k \<longrightarrow> \<not> terminal_iteration step j"
      unfolding k_def using not_less_Least by blast
    ultimately have "run_unbounded step 1 [] = Some (k, classify_run_outcome (fst (step k)), snd (step k), outcomes_upto step 1 (Suc k))"
      by (intro b) blast+
    then show ?thesis by simp
  qed
  have e: "run_unbounded step 1 [] \<noteq> None \<longleftrightarrow> (\<exists>k \<ge> 1. terminal_iteration step k)"
    using d run_unbounded_terminal [of step 1 "[]"] by blast
  show ?thesis unfolding Let_def
  proof (intro conjI allI impI)
    fix k
    assume k: "terminal_iteration step k \<and> 1 \<le> k \<and> (\<forall>j. 1 \<le> j \<and> j < k \<longrightarrow> \<not> terminal_iteration step j)"
    show "run_unbounded step 1 [] = Some (k, classify_run_outcome (fst (step k)), snd (step k), outcomes_upto step 1 (Suc k))"
      by (rule b) (rule k [THEN conjunct1], rule k [THEN conjunct2, THEN conjunct1], rule k [THEN conjunct2, THEN conjunct2])
    assume m: "k \<le> m"
    show "run_until_terminal step m = Some (k, classify_run_outcome (fst (step k)), snd (step k), outcomes_upto step 1 (Suc k))"
      by (rule a) (rule k [THEN conjunct1], rule k [THEN conjunct2, THEN conjunct1],
          rule k [THEN conjunct2, THEN conjunct2], rule m)
  next
    assume "\<forall>j. 1 \<le> j \<and> j \<le> m \<longrightarrow> \<not> terminal_iteration step j"
    then show "run_until_terminal step m = None" by (rule c)
  next
    show "run_unbounded step 1 [] \<noteq> None \<longleftrightarrow> (\<exists>k \<ge> 1. terminal_iteration step k)" by (rule e)
  qed
qed

theorem run_loop_first_terminal_witness:
  "\<exists>h. run_until_terminal (\<lambda>i. (if i < 3 then JStr ''continue'' else JStr ''finish'', i)) 10 = Some (3, Finish, 3, h)"
proof -
  let ?st = "\<lambda>i :: nat. (if i < 3 then JStr ''continue'' else JStr ''finish'', i)"
  have n: "normalize_run_outcome (JStr ''continue'') = no_result\<lparr> nr_outcome := Some Continue \<rparr>"
    "normalize_run_outcome (JStr ''finish'') = no_result\<lparr> nr_outcome := Some Finish \<rparr>"
    using normalize_canonical [of Continue] normalize_canonical [of Finish]
    by (simp_all add: run_outcomes_def non_terminal_run_outcomes_def terminal_run_outcomes_def)
  have cl: "classify_run_outcome (JStr ''continue'') = Continue" "classify_run_outcome (JStr ''finish'') = Finish"
    by (simp_all add: classify_run_outcome_def n no_result_def)
  have c: "classify_run_outcome (fst (?st j)) = (if j < 3 then Continue else Finish)" for j
    by (simp add: cl)
  have t: "terminal_iteration ?st j \<longleftrightarrow> 3 \<le> j" for j
    unfolding terminal_iteration_def c
    by (simp add: is_terminal_run_outcome_def n no_result_def terminal_run_outcomes_def)
  have "(3 :: nat) \<le> 10" "terminal_iteration ?st 3 \<and> 1 \<le> (3 :: nat) \<and> (\<forall>j. 1 \<le> j \<and> j < 3 \<longrightarrow> \<not> terminal_iteration ?st j)"
    by (simp_all add: t)
  then show ?thesis
    using run_loop_first_terminal [of ?st 10] c [of 3] by (auto simp: Let_def)
qed

lemma opt_set_get [simp]:
  "rec_get (opt_set k v r) l = (if l = k \<and> v \<noteq> None then the v else rec_get r l)"
  by (auto simp: opt_set_def split: option.split)

lemma build_run_state_get:
  "rec_get (build_run_state state existing now) ''active'' = JBool (rec_get state ''active'' = JBool True)"
  "rec_get (build_run_state state existing now) ''outcome'' = outcome_js (derive_run_outcome state)"
  "rec_get (build_run_state state existing now) ''completed_at'' =
     (if truthy_str (run_state_completed_at state existing now) then JStr (the (run_state_completed_at state existing now)) else JUndef)"
  "rec_get (build_run_state state existing now) ''lifecycle_outcome'' =
     (if js_truthy (run_state_lifecycle state existing) then run_state_lifecycle state existing else JUndef)"
  "rec_get (build_run_state state existing now) ''run_outcome'' = JUndef"
  "rec_get (build_run_state state existing now) ''terminal_outcome'' = JUndef"
  by (simp_all add: build_run_state_def Let_def) (simp_all add: rec_get_def truthy_str_def split: option.splits)

lemma derive_active: "rec_get state ''active'' = JBool True \<Longrightarrow> derive_run_outcome state = Some Continue"
  by (simp add: derive_run_outcome_def)



text \<open>The lifecycle of an earlier run leaks into the next one: when a mode starts again with
  nothing but its active flag, and the run state on disk still has the lifecycle of a run that
  ended, the new run state is active with the outcome \<open>continue\<close> and keeps that lifecycle, so
  the continuation decision treats the active run as over.\<close>

theorem stale_lifecycle_ends_active_run:
  fixes now :: string
  assumes "l \<in> set lifecycles"
  defines "s \<equiv> build_run_state [(''active'', JBool True)] (Some [(''lifecycle_outcome'', JStr (lifecycle_name l))]) now"
  shows "rec_get s ''active'' = JBool True \<and> rec_get s ''outcome'' = JStr ''continue''
    \<and> rec_get s ''lifecycle_outcome'' = JStr (lifecycle_name l) \<and> \<not> should_continue_run (Some s)"
proof -
  let ?m = "[(''active'', JBool True)]"
  have m: "rec_get ?m k = (if k = ''active'' then JBool True else JUndef)" for k
    by (simp add: rec_get_def)
  have inf: "infer_lifecycle ?m True None = None"
    by (simp add: infer_lifecycle_def Let_def m js_coalesce_def has_pending_question_enforcement_def)
  have lc: "run_state_lifecycle ?m (Some [(''lifecycle_outcome'', JStr (lifecycle_name l))]) = JStr (lifecycle_name l)"
    by (simp add: run_state_lifecycle_def Let_def m js_coalesce_def inf existing_get_def rec_get_def)
  have g: "rec_get s ''active'' = JBool True" "rec_get s ''outcome'' = JStr ''continue''"
    "rec_get s ''lifecycle_outcome'' = JStr (lifecycle_name l)"
    using assms(1) by (auto simp: s_def build_run_state_get m derive_active outcome_js_def lc lifecycles_def)
  have "\<exists>l'. nr_outcome (normalize_lifecycle (JStr (lifecycle_name l)) st) = Some l'" for st
  proof (cases "l = LAskUser")
    case False
    have "list_all (\<lambda>l. l = LAskUser \<or> lower_word (lifecycle_name l)) lifecycles" by code_simp
    then have "lower_word (lifecycle_name l)" using assms(1) False by (auto simp: list_all_iff)
    moreover have "List.find (\<lambda>k. lifecycle_name k = lifecycle_name l) lifecycles = Some l"
      by (rule find_key [OF _ assms(1)]) code_simp
    moreover have "lifecycle_name l \<noteq> []" using assms(1) by (auto simp: lifecycles_def)
    ultimately show ?thesis
      by (simp add: normalize_lifecycle_def normalize_run_outcome_value_def js_trim_word js_lower_word no_result_def)
  next
    case True
    have "js_lower (js_trim ''askuserQuestion'') = ''askuserquestion''"
      by (simp add: js_trim_def js_trim_end_def js_ws_def js_lower_def js_lower_char_def char_of_eq_iff)
    then show ?thesis
      by (simp add: True normalize_lifecycle_def normalize_run_outcome_value_def lifecycles_def Let_def
          table_get_def lifecycle_aliases_def no_result_def)
  qed
  then have "infer_lifecycle s True None \<noteq> None"
    by (auto simp: infer_lifecycle_def Let_def g js_coalesce_def)
  then show ?thesis
    using g by (simp add: should_continue_run_def run_continuation_snapshot_def Let_def)
qed

theorem stale_lifecycle_ends_active_run_witness:
  "\<not> should_continue_run (Some (build_run_state [(''active'', JBool True)]
       (Some [(''lifecycle_outcome'', JStr (lifecycle_name LFinished))]) ''now''))"
  using stale_lifecycle_ends_active_run [of LFinished "''now''"] by (simp add: lifecycles_def)

text \<open>Terminal workflow states settle: a terminal state becomes inactive with a completion
  time, and settling it again changes nothing; a state that is not terminal is returned as it
  is.\<close>

theorem terminal_state_settles:
  assumes "normalize_terminal_workflow_state s mode now = Some (s', c)"
    and "mode \<noteq> ''deep-interview''" "js_trim now = now" "now \<noteq> []"
  shows "if is_terminal_state s
    then rec_get s' ''active'' = JBool False \<and> trimmed (rec_get s' ''completed_at'') \<noteq> [] \<and> is_terminal_state s'
         \<and> (\<exists>c'. normalize_terminal_workflow_state s' mode now' = Some (s', c'))
    else s' = s \<and> \<not> c"
proof (cases "is_terminal_state s")
  case False
  then show ?thesis using assms(1) by (simp add: normalize_terminal_workflow_state_def)
next
  case True
  define ts where "ts = completion_time s now"
  define s2 where "s2 = settle_completed (settle_active s) ts"
  define s3 where "s3 = release_terminal_locks s2 ts"
  have ts: "js_trim ts = ts" "ts \<noteq> []"
    using assms(3,4) by (simp_all add: ts_def completion_time_def trimmed_trim)
  have s': "s' = nested_release s3 ts"
    using assms(1,2) True by (simp add: normalize_terminal_workflow_state_def Let_def ts_def s2_def s3_def)
  have a1: "rec_get (settle_active s) k = (if k = ''active'' then JBool False else rec_get s k)" for k
    by (simp add: settle_active_def)
  have a2: "rec_get s2 ''active'' = JBool False" by (simp add: s2_def settle_completed_def a1)
  have c2: "trimmed (rec_get s2 ''completed_at'') = ts"
    using ts by (cases "trimmed (rec_get s ''completed_at'') = []")
      (simp_all add: s2_def settle_completed_def a1 ts_def completion_time_def)
  have g: "rec_get s' ''active'' = JBool False" "trimmed (rec_get s' ''completed_at'') = ts"
    using a2 c2 by (simp_all add: s' nested_release_def s3_def release_locks_get split: js.split)
  have t': "is_terminal_state s'"
    using g ts by (simp add: is_terminal_state_def Let_def)
  have ts': "completion_time s' now' = ts" using g ts by (simp add: completion_time_def)
  have same: "settle_completed (settle_active s') ts = s'"
    using g ts by (simp add: settle_completed_def settle_active_def)
  have rel: "release_terminal_locks s' ts = s'"
    using release_locks_idem [OF ts(1)] by (simp add: s' nested_release_alt s3_def release_locks_set split: js.split)
  have nest: "nested_release s' ts = s'"
    using release_locks_idem [OF ts(1)]
    by (cases "rec_get s3 ''state''") (simp_all add: s' nested_release_alt rec_set_get)
  show ?thesis
    using True g ts t' assms(2) ts' same rel nest
    by (simp add: normalize_terminal_workflow_state_def Let_def)
qed

theorem terminal_state_settles_witness:
  "\<exists>s' c. normalize_terminal_workflow_state [(''active'', JBool False), (''completed_at'', JStr ''x'')] ''ralph'' ''now'' = Some (s', c)
     \<and> is_terminal_state s'"
proof -
  let ?s = "[(''active'', JBool False), (''completed_at'', JStr ''x'')]"
  have w: "lower_word ''now''" "lower_word ''x''" by code_simp+
  then have n: "js_trim ''now'' = ''now''" "js_trim ''x'' = ''x''" by (simp_all add: js_trim_word)
  have t: "is_terminal_state ?s" using n by (simp add: is_terminal_state_def Let_def rec_get_def)
  obtain s' c where s: "normalize_terminal_workflow_state ?s ''ralph'' ''now'' = Some (s', c)"
    using t by (simp add: normalize_terminal_workflow_state_def Let_def)
  from terminal_state_settles [OF s _ n(1)] t s show ?thesis by auto
qed

text \<open>Releasing a lock does not look at its phase: a lock whose phase reads as pending is
  still counted as pending after it was released, so every later normalisation reports a
  change again.\<close>

theorem released_lock_stays_pending:
  "is_active_lock (released_lock r ts) \<longleftrightarrow> js_lower (trimmed (rec_get r ''phase'')) \<in> set pending_words"
proof -
  have "lower_word ''released''" by code_simp
  then have "js_lower (js_trim ''released'') = ''released''" by (simp add: js_trim_word js_lower_word)
  then show ?thesis by (simp add: is_active_lock_def released_lock_get pending_words_def)
qed

end
