(* ===== verification/WorkflowReconcile.thy ===== *)
theory WorkflowReconcile
  imports SkillActive RunState
begin

text \<open>
  Reconciling a workflow transition (\<open>src/state/workflow-transition-reconcile.ts\<close>): the modes that
  hand off to the requested one are completed in their own state file and in the canonical
  list of active skills. The mode files are keyed by the session (blank for the root) and the
  mode. An error leaves what was written before it.
\<close>

text \<open>\<open>NoState\<close> is the \<open>TypeError\<close> of reading a property of \<open>undefined\<close>, \<open>BadDate\<close> the
  \<open>RangeError\<close> of an invalid date.\<close>

datatype reconcile_error = Unreadable string | NoState | BadDate | SkillFailed skill_error

record workflow_store =
  wf_details :: "((string \<times> string) \<times> json_file) list"
  wf_skills :: skill_store

definition scope_of :: "string option \<Rightarrow> string" where
  "scope_of session = (case session of None \<Rightarrow> [] | Some s \<Rightarrow> s)"

definition detail_file :: "workflow_store \<Rightarrow> string option \<Rightarrow> string \<Rightarrow> json_file" where
  "detail_file st session mode =
     (case map_of (wf_details st) (scope_of session, mode) of None \<Rightarrow> NoFile | Some f \<Rightarrow> f)"

definition finished_phases :: "string list" where
  "finished_phases = [''complete'', ''completed'', ''cancelled'', ''canceled'', ''failed'', ''cleared'']"

definition is_active_workflow_detail :: "js \<Rightarrow> bool" where
  "is_active_workflow_detail state \<longleftrightarrow>
     js_get state ''active'' = JBool True
     \<and> js_lower (trimmed (js_get state ''current_phase'')) \<notin> set finished_phases"

text \<open>\<open>assertAuthoritativeWorkflowStateReadable\<close>: the first unreadable mode.\<close>

definition first_unreadable :: "workflow_store \<Rightarrow> string option \<Rightarrow> string option" where
  "first_unreadable st session = List.find (\<lambda>m. detail_file st session m = BadFile) tracked_workflow_modes"

definition active_detail_modes :: "workflow_store \<Rightarrow> string list" where
  "active_detail_modes st =
     filter (\<lambda>m. case detail_file st None m of JsonFile v \<Rightarrow> is_active_workflow_detail v | _ \<Rightarrow> False) tracked_workflow_modes"

definition visible_tracked_modes ::
    "workflow_store \<Rightarrow> (string \<Rightarrow> js_record option) \<Rightarrow> string option \<Rightarrow> reconcile_error + string list" where
  "visible_tracked_modes st overlay session =
     (let canonical = filter is_tracked_workflow_mode (visible_modes (wf_skills st) overlay session)
      in if scope_of session \<noteq> [] then Inr (dedup canonical)
         else (case first_unreadable st None of
                 Some m \<Rightarrow> Inl (Unreadable m)
               | None \<Rightarrow> Inr (dedup (canonical @ active_detail_modes st))))"

subsection \<open>Completing a mode\<close>

text \<open>\<open>clearDeepInterviewQuestionObligation\<close> on the untyped value of the file, with the reason
  \<open>handoff\<close>; \<open>JUndef\<close> deletes the property.\<close>

definition handed_off_question :: "js \<Rightarrow> string \<Rightarrow> js option" where
  "handed_off_question q now =
     (if \<not> js_truthy q then Some JUndef
      else if js_get q ''status'' \<noteq> JStr ''pending'' then Some q
      else (case q of
              JObj e \<Rightarrow> map_option JObj (clear_obligation e ''handoff'' now)
            | _ \<Rightarrow> Some q))"

definition completed_candidate :: "string \<Rightarrow> string \<Rightarrow> string \<Rightarrow> string \<Rightarrow> js_record \<Rightarrow> js_record" where
  "completed_candidate source destination now origin r =
     rec_set ''transition_target_mode'' (JStr destination)
     (rec_set ''transition_source'' (JStr origin)
     (rec_set ''completion_note'' (JStr (''Auto-completed '' @ source @ '' during allowlisted transition to '' @ destination @ ''.''))
     (rec_set ''auto_completed_reason'' (JStr (build_workflow_transition_message source destination))
     (rec_set ''completed_at'' (JStr (first_text [trimmed (rec_get r ''completed_at''), now]))
     (rec_set ''current_phase'' (JStr ''completed'')
     (rec_set ''active'' (JBool False) r))))))"

definition with_question :: "string \<Rightarrow> string \<Rightarrow> js_record \<Rightarrow> js_record \<Rightarrow> js_record option" where
  "with_question source now r candidate =
     (if source \<noteq> ''deep-interview'' then Some candidate
      else (case handed_off_question (rec_get r ''question_enforcement'') now of
              None \<Rightarrow> None
            | Some v \<Rightarrow> Some (if js_truthy v then rec_set ''question_enforcement'' v candidate
                              else rec_delete ''question_enforcement'' candidate)))"

text \<open>The next content of the file of the source mode. The contract returns no state when it rejects
  the candidate, and the code goes on with its absence.\<close>

definition completed_source_state ::
    "string \<Rightarrow> string \<Rightarrow> string \<Rightarrow> string \<Rightarrow> js_record \<Rightarrow> reconcile_error + js_record" where
  "completed_source_state source destination now origin r =
     (case with_question source now r (completed_candidate source destination now origin r) of
        None \<Rightarrow> Inl BadDate
      | Some candidate \<Rightarrow>
          (case apply_run_outcome_contract (rec_delete ''run_outcome'' candidate) now of
             Inl _ \<Rightarrow> Inl NoState
           | Inr (next, _) \<Rightarrow>
               (case normalize_terminal_workflow_state next source now of
                  None \<Rightarrow> Inl BadDate
                | Some (final, _) \<Rightarrow> Inr final)))"

definition deactivate :: "string \<Rightarrow> string \<Rightarrow> string \<Rightarrow> sync_options" where
  "deactivate mode now origin =
     \<lparr> sy_mode = mode, sy_active = False, sy_phase = Some ''completed'', sy_thread = None, sy_turn = None,
       sy_owner = None, sy_now = now, sy_source = origin, sy_all_sessions = False \<rparr>"

definition put_detail :: "string option \<Rightarrow> string \<Rightarrow> js_record \<Rightarrow> workflow_store \<Rightarrow> workflow_store" where
  "put_detail session mode r st =
     st\<lparr> wf_details := dict_put (scope_of session, mode) (JsonFile (JObj r)) (wf_details st) \<rparr>"

definition complete_detail ::
    "string \<Rightarrow> string \<Rightarrow> string option \<Rightarrow> string \<Rightarrow> string \<Rightarrow> workflow_store
      \<Rightarrow> workflow_store \<times> reconcile_error option \<times> bool" where
  "complete_detail source destination session now origin st =
     (case detail_file st session source of
        NoFile \<Rightarrow> (st, None, False)
      | BadFile \<Rightarrow> (st, Some (Unreadable source), False)
      | JsonFile v \<Rightarrow>
          (if js_get v ''active'' \<noteq> JBool True then (st, None, False)
           else (case completed_source_state source destination now origin (js_own v) of
                   Inl e \<Rightarrow> (st, Some e, False)
                 | Inr r \<Rightarrow> (put_detail session source r st, None, True))))"

definition complete_source_mode ::
    "string \<Rightarrow> string \<Rightarrow> string option \<Rightarrow> string \<Rightarrow> string \<Rightarrow> (string \<Rightarrow> js_record option) \<Rightarrow> workflow_store
      \<Rightarrow> workflow_store \<times> reconcile_error option \<times> string list" where
  "complete_source_mode source destination session now origin overlay st =
     (case complete_detail source destination session now origin st of
        (st1, Some e, _) \<Rightarrow> (st1, Some e, [])
      | (st1, None, wrote) \<Rightarrow>
          (case sync_canonical_skill_state (wf_skills st1) (deactivate source now origin) overlay session of
             Inl e \<Rightarrow> (st1, Some (SkillFailed e), [])
           | Inr sk \<Rightarrow> (st1\<lparr> wf_skills := sk \<rparr>, None, (if wrote then [source] else []))))"

fun complete_sources ::
    "string list \<Rightarrow> string \<Rightarrow> string option \<Rightarrow> string \<Rightarrow> string \<Rightarrow> (string \<Rightarrow> js_record option) \<Rightarrow> workflow_store
      \<Rightarrow> workflow_store \<times> reconcile_error option \<times> string list" where
  "complete_sources [] destination session now origin overlay st = (st, None, [])"
| "complete_sources (m # ms) destination session now origin overlay st =
     (case complete_source_mode m destination session now origin overlay st of
        (st1, Some e, _) \<Rightarrow> (st1, Some e, [])
      | (st1, None, done1) \<Rightarrow>
          (case complete_sources ms destination session now origin overlay st1 of
             (st2, e, done2) \<Rightarrow> (st2, e, done1 @ done2)))"

text \<open>\<open>reconcileWorkflowTransition\<close>: the new store and the decision with the modes whose file was
  completed, or the error.\<close>

definition reconcile_workflow_transition ::
    "workflow_store \<Rightarrow> string \<Rightarrow> string list option \<Rightarrow> string option \<Rightarrow> string \<Rightarrow> string \<Rightarrow> (string \<Rightarrow> js_record option)
      \<Rightarrow> workflow_store \<times> (reconcile_error + workflow_decision \<times> string list)" where
  "reconcile_workflow_transition st requested given session now origin overlay =
     (case (case given of
              Some ms \<Rightarrow> Inr (filter is_tracked_workflow_mode ms)
            | None \<Rightarrow> (case first_unreadable st session of
                         Some m \<Rightarrow> Inl (Unreadable m)
                       | None \<Rightarrow> visible_tracked_modes st overlay session)) of
        Inl e \<Rightarrow> (st, Inl e)
      | Inr current \<Rightarrow>
          (let d = evaluate_workflow_transition current requested
           in case complete_sources (wd_auto_complete d) requested session now origin overlay st of
                (st1, Some e, _) \<Rightarrow> (st1, Inl e)
              | (st1, None, completed) \<Rightarrow> (st1, Inr (d, completed))))"

subsection \<open>The completed state\<close>

lemma candidate_get:
  "rec_get (completed_candidate source destination now origin r) k =
    (if k = ''transition_target_mode'' then JStr destination
     else if k = ''transition_source'' then JStr origin
     else if k = ''completion_note'' then JStr (''Auto-completed '' @ source @ '' during allowlisted transition to '' @ destination @ ''.'')
     else if k = ''auto_completed_reason'' then JStr (build_workflow_transition_message source destination)
     else if k = ''completed_at'' then JStr (first_text [trimmed (rec_get r ''completed_at''), now])
     else if k = ''current_phase'' then JStr ''completed''
     else if k = ''active'' then JBool False else rec_get r k)"
  by (simp add: completed_candidate_def)

lemma with_question_get:
  assumes "with_question source now r c = Some c'" "k \<noteq> ''question_enforcement''"
  shows "rec_get c' k = rec_get c k"
  using assms by (auto simp: with_question_def split: if_splits option.splits)

lemma handed_off_status: "handed_off_question q now = Some v \<Longrightarrow> js_get v ''status'' \<noteq> JStr ''pending''"
  by (cases q) (auto simp: handed_off_question_def js_get_def clear_obligation_def split: if_splits option.splits)

lemma with_question_status:
  assumes "with_question ''deep-interview'' now r c = Some c'"
  shows "js_get (rec_get c' ''question_enforcement'') ''status'' \<noteq> JStr ''pending''"
proof -
  obtain v where v: "handed_off_question (rec_get r ''question_enforcement'') now = Some v"
    "rec_get c' ''question_enforcement'' = (if js_truthy v then v else JUndef)"
    using assms by (auto simp: with_question_def split: option.splits if_splits)
  have "js_get v ''status'' \<noteq> JStr ''pending''" using v(1) by (rule handed_off_status)
  then show ?thesis using v(2) by (simp add: js_get_def)
qed

lemma settle_not_pending:
  assumes "js_get (rec_get s ''question_enforcement'') ''status'' \<noteq> JStr ''pending''"
  shows "\<exists>s' c. settle_question s ts = Some (s', c) \<and> (\<forall>k. k \<noteq> ''question_enforcement'' \<longrightarrow> rec_get s' k = rec_get s k)"
  using assms by (cases "rec_get s ''question_enforcement''") (auto simp: settle_question_def clear_obligation_def Let_def)

definition lifecycle_readable :: "js_record \<Rightarrow> bool" where
  "lifecycle_readable r \<longleftrightarrow> nr_error (normalize_lifecycle (explicit_lifecycle_value r) StratBlocked) = None"

lemma with_question_total:
  "(source = ''deep-interview'' \<longrightarrow> date_parse now \<noteq> None) \<Longrightarrow> \<exists>c'. with_question source now r c = Some c'"
  by (auto simp: with_question_def handed_off_question_def clear_obligation_def split: js.split)

lemma explicit_of_candidate:
  assumes "with_question source now r (completed_candidate source destination now origin r) = Some c"
  shows "explicit_lifecycle_value (rec_delete ''run_outcome'' c) = explicit_lifecycle_value r"
  using with_question_get [OF assms] by (simp add: explicit_lifecycle_value_def candidate_get)

lemma completed_source_ok:
  assumes "lifecycle_readable r" "source = ''deep-interview'' \<longrightarrow> date_parse now \<noteq> None" "js_trim now = now" "now \<noteq> []"
  shows "\<exists>r'. completed_source_state source destination now origin r = Inr r' \<and> rec_get r' ''active'' = JBool False
    \<and> trimmed (rec_get r' ''completed_at'') \<noteq> [] \<and> rec_get r' ''current_phase'' = JStr ''completed''"
proof -
  obtain c where c: "with_question source now r (completed_candidate source destination now origin r) = Some c"
    using with_question_total [OF assms(2)] by blast
  let ?c = "rec_delete ''run_outcome'' c"
  note cg = with_question_get [OF c]
  have act: "rec_get ?c ''active'' = JBool False" by (simp add: cg candidate_get)
  have t: "contract_terminal ?c" by (rule inactive_terminal [OF act])
  obtain s w where s: "apply_run_outcome_contract ?c now = Inr (s, w)"
    using contract_accepts [of ?c now] assms(1) t act
    by (auto simp: explicit_of_candidate [OF c] lifecycle_readable_def cg)
  note sg = contract_result [OF s]
  have ct: "trimmed (rec_get ?c ''completed_at'') \<noteq> []"
    using assms(3,4) by (simp add: cg candidate_get)
  have s1: "rec_get s ''active'' = JBool False" "trimmed (rec_get s ''completed_at'') \<noteq> []" "rec_get s ''current_phase'' = JStr ''completed''"
    "rec_get s ''question_enforcement'' = rec_get c ''question_enforcement''"
    using t ct by (simp_all add: sg) (simp_all add: cg candidate_get)
  have fin: "is_terminal_state s"
    using s1 by (simp add: is_terminal_state_def Let_def)
  define ts where "ts = completion_time s now"
  define s4 where "s4 = nested_release (release_terminal_locks (settle_completed (settle_active s) ts) ts) ts"
  have k: "''current_phase'' \<notin> set lock_keys" "''current_phase'' \<notin> set approval_marker_keys"
    "''question_enforcement'' \<notin> set lock_keys" "''question_enforcement'' \<notin> set approval_marker_keys"
    by (simp_all add: lock_keys_def approval_marker_keys_def)
  have nr: "rec_get (nested_release x ts) k = rec_get x k" if "k \<noteq> ''state''" for x k
    using that by (simp add: nested_release_def split: js.split)
  have s4: "rec_get s4 k = rec_get s k"
    if "k \<in> {''active'', ''completed_at'', ''current_phase'', ''question_enforcement''}" for k
    using that s1 k by (auto simp: s4_def nr release_locks_get settle_completed_def settle_active_def)
  have "\<exists>r' ch. normalize_terminal_workflow_state s source now = Some (r', ch)
    \<and> (\<forall>k \<in> {''active'', ''completed_at'', ''current_phase''}. rec_get r' k = rec_get s k)"
  proof (cases "source = ''deep-interview''")
    case False
    then show ?thesis using fin s4 by (simp add: normalize_terminal_workflow_state_def Let_def ts_def s4_def)
  next
    case True
    have "js_get (rec_get s4 ''question_enforcement'') ''status'' \<noteq> JStr ''pending''"
      using with_question_status c s1(4) s4 True by simp
    from settle_not_pending [OF this, of ts] obtain s' c' where
      s': "settle_question s4 ts = Some (s', c')" "\<forall>k. k \<noteq> ''question_enforcement'' \<longrightarrow> rec_get s' k = rec_get s4 k" by blast
    have "\<exists>ch. normalize_terminal_workflow_state s source now = Some (s', ch)"
      using fin True s'(1) by (simp add: normalize_terminal_workflow_state_def Let_def ts_def [symmetric] s4_def [symmetric])
    then show ?thesis using s'(2) s4 by auto
  qed
  then obtain r' ch where r': "normalize_terminal_workflow_state s source now = Some (r', ch)"
    "rec_get r' ''active'' = rec_get s ''active''" "rec_get r' ''completed_at'' = rec_get s ''completed_at''"
    "rec_get r' ''current_phase'' = rec_get s ''current_phase''"
    by auto
  then show ?thesis using s1 s c by (simp add: completed_source_state_def)
qed

lemma completed_source_rejected:
  assumes "\<not> lifecycle_readable r" "source = ''deep-interview'' \<longrightarrow> date_parse now \<noteq> None"
  shows "completed_source_state source destination now origin r = Inl NoState"
proof -
  obtain c where c: "with_question source now r (completed_candidate source destination now origin r) = Some c"
    using with_question_total [OF assms(2)] by blast
  let ?c = "rec_delete ''run_outcome'' c"
  have "nr_error (normalize_lifecycle (explicit_lifecycle_value ?c) StratBlocked) \<noteq> None"
    using assms(1) by (simp add: explicit_of_candidate [OF c] lifecycle_readable_def)
  then have "\<exists>e. apply_run_outcome_contract ?c now = Inl e"
    by (simp add: apply_run_outcome_contract_def Let_def explicit_lifecycle_value_def)
  then show ?thesis using c by (auto simp: completed_source_state_def)
qed

subsection \<open>Completing all sources\<close>

text \<open>A mode whose file can be completed: readable, and with a lifecycle the contract knows.\<close>

definition completable :: "workflow_store \<Rightarrow> string option \<Rightarrow> string \<Rightarrow> bool" where
  "completable st session m \<longleftrightarrow>
     detail_file st session m \<noteq> BadFile
     \<and> (\<forall>r. detail_file st session m = JsonFile (JObj r) \<longrightarrow> lifecycle_readable r)"

text \<open>The file of a mode that no longer claims to be active.\<close>

definition settled_detail :: "workflow_store \<Rightarrow> string option \<Rightarrow> string \<Rightarrow> bool" where
  "settled_detail st session m \<longleftrightarrow>
     (case detail_file st session m of JsonFile v \<Rightarrow> js_get v ''active'' \<noteq> JBool True | _ \<Rightarrow> True)"

lemma detail_put: "detail_file (put_detail session m r st) s k =
    (if scope_of s = scope_of session \<and> k = m then JsonFile (JObj r) else detail_file st s k)"
  by (auto simp: detail_file_def put_detail_def)

lemma complete_detail_ok:
  assumes "completable st session m" "m = ''deep-interview'' \<longrightarrow> date_parse now \<noteq> None" "js_trim now = now" "now \<noteq> []"
  shows "\<exists>st1 wrote. complete_detail m destination session now origin st = (st1, None, wrote)
    \<and> wf_skills st1 = wf_skills st \<and> settled_detail st1 session m
    \<and> (\<forall>s k. k \<noteq> m \<longrightarrow> detail_file st1 s k = detail_file st s k)"
proof (cases "detail_file st session m")
  case NoFile
  then have "complete_detail m destination session now origin st = (st, None, False)" "settled_detail st session m"
    by (simp_all add: complete_detail_def settled_detail_def)
  then show ?thesis by blast
next
  case BadFile
  then show ?thesis using assms(1) by (simp add: completable_def)
next
  case (JsonFile v)
  show ?thesis
  proof (cases "js_get v ''active'' = JBool True")
    case False
    then have "complete_detail m destination session now origin st = (st, None, False)" "settled_detail st session m"
      using JsonFile by (simp_all add: complete_detail_def settled_detail_def)
    then show ?thesis by blast
  next
    case True
    then obtain r where r: "v = JObj r" by (cases v) (simp_all add: js_get_def)
    have lr: "lifecycle_readable r" using assms(1) JsonFile r by (simp add: completable_def)
    obtain r' where r': "completed_source_state m destination now origin r = Inr r'" "rec_get r' ''active'' = JBool False"
      using completed_source_ok [OF lr assms(2-4)] by blast
    have "complete_detail m destination session now origin st = (put_detail session m r' st, None, True)"
      using True JsonFile r r'(1) by (simp add: complete_detail_def)
    moreover have "settled_detail (put_detail session m r' st) session m"
      using r'(2) by (simp add: settled_detail_def detail_put)
    moreover have "wf_skills (put_detail session m r' st) = wf_skills st" by (simp add: put_detail_def)
    moreover have "\<forall>s k. k \<noteq> m \<longrightarrow> detail_file (put_detail session m r' st) s k = detail_file st s k"
      by (simp add: detail_put)
    ultimately show ?thesis by blast
  qed
qed

lemma complete_source_ok:
  assumes "completable st (Some sid) m" "m = ''deep-interview'' \<longrightarrow> date_parse now \<noteq> None" "js_trim now = now" "now \<noteq> []"
    and sid: "js_trim sid = sid" "sid \<noteq> []" and m: "m \<in> set canonical_workflow_skills" and live: "skills_live (wf_skills st) sid"
  shows "\<exists>st1 wrote. complete_source_mode m destination (Some sid) now origin (\<lambda>_. None) st = (st1, None, wrote)
    \<and> session_modes (wf_skills st1) sid = session_modes (wf_skills st) sid - {m} \<and> skills_live (wf_skills st1) sid
    \<and> settled_detail st1 (Some sid) m \<and> (\<forall>s k. k \<noteq> m \<longrightarrow> detail_file st1 s k = detail_file st s k)"
proof -
  obtain st1 wrote where d: "complete_detail m destination (Some sid) now origin st = (st1, None, wrote)"
    "wf_skills st1 = wf_skills st" "settled_detail st1 (Some sid) m"
    "\<forall>s k. k \<noteq> m \<longrightarrow> detail_file st1 s k = detail_file st s k"
    using complete_detail_ok [OF assms(1-4)] by blast
  let ?opt = "deactivate m now origin"
  have o: "sy_mode ?opt = m" "sy_now ?opt = now" "\<not> sy_active ?opt" by (simp_all add: deactivate_def)
  obtain rt where rt: "read_root_state_for_write (sk_root (wf_skills st)) = Inr rt"
    "\<forall>e \<in> set (list_active_skills (JObj (base_record rt))). live_entry e"
    "\<forall>e \<in> set (list_active_skills (JObj (base_record (read_skill_active_state None (session_file (wf_skills st) sid))))). live_entry e"
    using live unfolding skills_live_def by blast
  obtain sk where sk: "sync_canonical_skill_state (wf_skills st) ?opt (\<lambda>_. None) (Some sid) = Inr sk"
    "session_modes sk sid = session_modes (wf_skills st) sid - {m}" "skills_live sk sid"
    using sync_session_step [of ?opt, unfolded o, OF m assms(3,4) sid rt] o(3) by auto
  have f: "detail_file (st1\<lparr> wf_skills := sk \<rparr>) s k = detail_file st1 s k" for s k by (simp add: detail_file_def)
  have "complete_source_mode m destination (Some sid) now origin (\<lambda>_. None) st
      = (st1\<lparr> wf_skills := sk \<rparr>, None, if wrote then [m] else [])"
    using d(1,2) sk(1) by (simp add: complete_source_mode_def)
  moreover have "settled_detail (st1\<lparr> wf_skills := sk \<rparr>) (Some sid) m" using d(3) by (simp add: settled_detail_def f)
  ultimately show ?thesis using sk(2,3) d(4) by (simp add: f)
qed

lemma complete_sources_ok:
  assumes "\<forall>m \<in> set ms. completable st (Some sid) m" "''deep-interview'' \<in> set ms \<longrightarrow> date_parse now \<noteq> None" "js_trim now = now" "now \<noteq> []"
    and "js_trim sid = sid" "sid \<noteq> []" "set ms \<subseteq> set canonical_workflow_skills" "skills_live (wf_skills st) sid"
    and "distinct ms"
  shows "\<exists>st1 wrote. complete_sources ms destination (Some sid) now origin (\<lambda>_. None) st = (st1, None, wrote)
    \<and> session_modes (wf_skills st1) sid = session_modes (wf_skills st) sid - set ms \<and> skills_live (wf_skills st1) sid
    \<and> (\<forall>m \<in> set ms. settled_detail st1 (Some sid) m) \<and> (\<forall>s k. k \<notin> set ms \<longrightarrow> detail_file st1 s k = detail_file st s k)"
  using assms
proof (induction ms arbitrary: st)
  case Nil
  then show ?case by simp
next
  case (Cons m ms)
  obtain st1 w1 where a: "complete_source_mode m destination (Some sid) now origin (\<lambda>_. None) st = (st1, None, w1)"
    "session_modes (wf_skills st1) sid = session_modes (wf_skills st) sid - {m}" "skills_live (wf_skills st1) sid"
    "settled_detail st1 (Some sid) m" "\<forall>s k. k \<noteq> m \<longrightarrow> detail_file st1 s k = detail_file st s k"
    using complete_source_ok [of st sid m now destination origin] Cons.prems by auto
  have "detail_file st1 (Some sid) k = detail_file st (Some sid) k" if "k \<in> set ms" for k
    using a(5) Cons.prems(9) that by (metis distinct.simps(2))
  then have "\<forall>k \<in> set ms. completable st1 (Some sid) k"
    using Cons.prems(1) by (simp add: completable_def)
  then obtain st2 w2 where b: "complete_sources ms destination (Some sid) now origin (\<lambda>_. None) st1 = (st2, None, w2)"
    "session_modes (wf_skills st2) sid = session_modes (wf_skills st1) sid - set ms" "skills_live (wf_skills st2) sid"
    "\<forall>k \<in> set ms. settled_detail st2 (Some sid) k" "\<forall>s k. k \<notin> set ms \<longrightarrow> detail_file st2 s k = detail_file st1 s k"
    using Cons.IH [of st1] Cons.prems a(3) by auto
  have "settled_detail st2 (Some sid) m" using a(4) b(5) Cons.prems(9) by (simp add: settled_detail_def)
  then have "\<forall>k \<in> set (m # ms). settled_detail st2 (Some sid) k" using b(4) by simp
  moreover have "\<forall>s k. k \<notin> set (m # ms) \<longrightarrow> detail_file st2 s k = detail_file st s k" using a(5) b(5) by simp
  moreover have "session_modes (wf_skills st2) sid = session_modes (wf_skills st) sid - set (m # ms)" using a(2) b(2) by auto
  moreover have "complete_sources (m # ms) destination (Some sid) now origin (\<lambda>_. None) st = (st2, None, w1 @ w2)"
    using a(1) b(1) by simp
  ultimately show ?case using b(3) by blast
qed

subsection \<open>Properties\<close>



definition ralplan_state :: "string \<Rightarrow> js_record" where
  "ralplan_state l = [(''active'', JBool True), (''lifecycle_outcome'', JStr l)]"

text \<open>A session whose only trace is the file of an active ralplan.\<close>

definition ralplan_store :: "string \<Rightarrow> workflow_store" where
  "ralplan_store l = \<lparr> wf_details = [((''s1'', ''ralplan''), JsonFile (JObj (ralplan_state l)))], wf_skills = empty_store \<rparr>"



end
