(* ===== verification/UltragoalPlan.thy ===== *)
theory UltragoalPlan
  imports JsValue Regex
begin

text \<open>
  The durable plan of an ultragoal run (\<open>src/ultragoal/artifacts.ts\<close>): its goals and their
  statuses, when a goal still blocks completion, when the plan is done, and the identifiers
  of appended goals. A plan is the parsed \<open>goals.json\<close> at its declared type.
\<close>

subsection \<open>Data\<close>

datatype ug_status = UPending | UInProgress | UComplete | UFailed | UReviewBlocked | UNeedsDecision

datatype goal_mode = Aggregate | PerStory

datatype steering_status = Superseded | SteeringBlocked

record blocker_resolution =
  br_resolver :: string
  br_complete :: bool
  br_resolved_at :: "string option"
  br_evidence :: "string option"

record ug_goal =
  g_id :: string
  g_title :: string
  g_objective :: string
  g_status :: ug_status
  g_token_budget :: "int option"
  g_attempt :: int
  g_created :: string
  g_updated :: string
  g_started :: "string option"
  g_completed :: "string option"
  g_failed :: "string option"
  g_review_blocked :: "string option"
  g_evidence :: "string option"
  g_failure_reason :: "string option"
  g_steering :: "steering_status option"
  g_superseded_by :: "string list option"
  g_supersedes :: "string list option"
  g_blocked_reason :: "string option"
  g_blocker_signature :: "string option"
  g_blocker_count :: "nat option"
  g_required_decision :: "string option"
  g_non_retriable :: bool
  g_steering_evidence :: "string option"
  g_steering_rationale :: "string option"
  g_resolves :: "string option"
  g_resolution :: "blocker_resolution option"

record aggregate_completion =
  ac_completed_at :: string
  ac_evidence :: string
  ac_codex_goal :: "js option"

record ug_plan =
  p_created :: string
  p_updated :: string
  p_mode :: "goal_mode option"
  p_objective :: "string option"
  p_aliases :: "string list option"
  p_prefix :: "string option"
  p_completion :: "aggregate_completion option"
  p_active :: "string option"
  p_goals :: "ug_goal list"

subsection \<open>When a goal blocks completion\<close>

definition find_goal :: "ug_plan \<Rightarrow> string \<Rightarrow> ug_goal option" where
  "find_goal p i = List.find (\<lambda>g. g_id g = i) (p_goals p)"

definition goal_mode_of :: "ug_plan \<Rightarrow> goal_mode" where
  "goal_mode_of p = (case p_mode p of None \<Rightarrow> PerStory | Some m \<Rightarrow> m)"

definition is_resolved_status :: "ug_status \<Rightarrow> bool" where
  "is_resolved_status s \<longleftrightarrow> s = UComplete \<or> s = UReviewBlocked"

definition is_schedule_eligible :: "ug_goal \<Rightarrow> bool" where
  "is_schedule_eligible g \<longleftrightarrow> g_steering g \<noteq> Some Superseded \<and> g_steering g \<noteq> Some SteeringBlocked"

definition replacement_resolved :: "ug_plan \<Rightarrow> string \<Rightarrow> bool" where
  "replacement_resolved p i \<longleftrightarrow> (case find_goal p i of None \<Rightarrow> False | Some r \<Rightarrow> is_resolved_status (g_status r))"

definition replacements :: "ug_goal \<Rightarrow> string list" where
  "replacements g = (case g_superseded_by g of None \<Rightarrow> [] | Some l \<Rightarrow> l)"

definition is_superseded_resolved :: "ug_goal \<Rightarrow> ug_plan \<Rightarrow> bool" where
  "is_superseded_resolved g p \<longleftrightarrow>
     g_steering g = Some Superseded \<and> replacements g \<noteq> [] \<and> list_all (replacement_resolved p) (replacements g)"

definition resolver_of :: "ug_goal \<Rightarrow> string option" where
  "resolver_of g = (case g_resolution g of None \<Rightarrow> None
     | Some r \<Rightarrow> (if br_resolver r = [] then None else Some (br_resolver r)))"

definition has_reciprocal_resolver :: "ug_goal \<Rightarrow> ug_plan \<Rightarrow> bool" where
  "has_reciprocal_resolver g p \<longleftrightarrow>
     (case resolver_of g of
        None \<Rightarrow> False
      | Some i \<Rightarrow> (case filter (\<lambda>c. g_id c = i) (p_goals p) of
                     [c] \<Rightarrow> g_resolves c = Some (g_id g)
                   | _ \<Rightarrow> False))"

definition is_review_blocked_resolved :: "ug_goal \<Rightarrow> ug_plan \<Rightarrow> bool" where
  "is_review_blocked_resolved g p \<longleftrightarrow>
     g_status g = UReviewBlocked
     \<and> (case resolver_of g of
          None \<Rightarrow> False
        | Some i \<Rightarrow> (case g_resolution g of None \<Rightarrow> False | Some r \<Rightarrow> br_complete r)
                    \<and> has_reciprocal_resolver g p
                    \<and> (case find_goal p i of None \<Rightarrow> False | Some c \<Rightarrow> g_status c = UComplete))"

definition is_completion_blocking :: "ug_goal \<Rightarrow> ug_plan \<Rightarrow> bool" where
  "is_completion_blocking g p =
     (if g_steering g = Some Superseded then \<not> is_superseded_resolved g p
      else if g_steering g = Some SteeringBlocked then True
      else if g_status g = UReviewBlocked then \<not> is_review_blocked_resolved g p
      else \<not> is_resolved_status (g_status g))"

definition blocks_final_candidate :: "ug_goal \<Rightarrow> ug_goal \<Rightarrow> ug_plan \<Rightarrow> bool" where
  "blocks_final_candidate c final p =
     (if g_id c = g_id final then False
      else if g_status c = UReviewBlocked
              \<and> map_option br_resolver (g_resolution c) = Some (g_id final) then False
      else if g_steering c = Some Superseded
      then replacements c = []
           \<or> \<not> list_all (\<lambda>i. i = g_id final \<or> replacement_resolved p i) (replacements c)
      else is_completion_blocking c p)"

definition is_final_candidate :: "ug_plan \<Rightarrow> ug_goal \<Rightarrow> bool" where
  "is_final_candidate p g \<longleftrightarrow> list_all (\<lambda>c. \<not> blocks_final_candidate c g p) (p_goals p)"

definition is_ultragoal_done :: "ug_plan \<Rightarrow> bool" where
  "is_ultragoal_done p =
     (if p_completion p \<noteq> None then True
      else if p_goals p = [] then True
      else if list_ex (\<lambda>g. is_completion_blocking g p) (p_goals p) then False
      else (case List.find (\<lambda>g. g_status g \<noteq> UReviewBlocked \<and> g_steering g \<noteq> Some Superseded)
                   (rev (p_goals p)) of
              None \<Rightarrow> False
            | Some g \<Rightarrow> g_status g = UComplete))"

definition unresolved_review_blocked :: "ug_plan \<Rightarrow> ug_goal list" where
  "unresolved_review_blocked p =
     filter (\<lambda>g. g_status g = UReviewBlocked \<and> \<not> is_review_blocked_resolved g p) (p_goals p)"

definition is_designated_resolver :: "ug_goal \<Rightarrow> ug_goal \<Rightarrow> bool" where
  "is_designated_resolver g parent \<longleftrightarrow>
     g_status parent = UReviewBlocked \<and> g_id parent \<noteq> g_id g \<and> g_resolves g = Some (g_id parent)
     \<and> map_option br_resolver (g_resolution parent) = Some (g_id g)"

definition can_use_resolver_path :: "ug_plan \<Rightarrow> ug_goal \<Rightarrow> bool \<Rightarrow> bool \<Rightarrow> bool" where
  "can_use_resolver_path p g final allow_active \<longleftrightarrow>
     (case unresolved_review_blocked p of
        [parent] \<Rightarrow> final \<and> \<not> allow_active \<and> is_designated_resolver g parent
      | _ \<Rightarrow> False)"

definition has_unique_goal_ids :: "ug_plan \<Rightarrow> bool" where
  "has_unique_goal_ids p \<longleftrightarrow> length (dedup (map g_id (p_goals p))) = length (p_goals p)"

definition can_persist_final_completion :: "ug_plan \<Rightarrow> ug_goal \<Rightarrow> bool \<Rightarrow> bool \<Rightarrow> bool" where
  "can_persist_final_completion p g final allow_active =
     (if \<not> final \<or> allow_active then False
      else if \<not> has_unique_goal_ids p then False
      else if \<not> is_schedule_eligible g then False
      else if g_status g \<noteq> UInProgress \<or> p_active p \<noteq> Some (g_id g) then False
      else if unresolved_review_blocked p = [] then True
      else can_use_resolver_path p g final allow_active)"

record plan_summary =
  su_total :: nat
  su_pending :: nat
  su_in_progress :: nat
  su_complete :: nat
  su_failed :: nat
  su_review_blocked :: nat
  su_historical :: nat
  su_needs_decision :: nat
  su_superseded :: nat
  su_steering_blocked :: nat
  su_aggregate_complete :: bool
  su_artifact_complete :: bool
  su_active :: "string option"

definition count_status :: "ug_plan \<Rightarrow> ug_status \<Rightarrow> nat" where
  "count_status p s = length (filter (\<lambda>g. g_status g = s) (p_goals p))"

definition summarize_plan :: "ug_plan \<Rightarrow> plan_summary" where
  "summarize_plan p =
     (let active = length (unresolved_review_blocked p)
      in \<lparr> su_total = length (p_goals p), su_pending = count_status p UPending,
           su_in_progress = count_status p UInProgress, su_complete = count_status p UComplete,
           su_failed = count_status p UFailed, su_review_blocked = active,
           su_historical = count_status p UReviewBlocked - active,
           su_needs_decision = count_status p UNeedsDecision,
           su_superseded = length (filter (\<lambda>g. g_steering g = Some Superseded) (p_goals p)),
           su_steering_blocked = length (filter (\<lambda>g. g_steering g = Some SteeringBlocked) (p_goals p)),
           su_aggregate_complete = (p_completion p \<noteq> None),
           su_artifact_complete = is_ultragoal_done p, su_active = p_active p \<rparr>)"

subsection \<open>Identifiers\<close>

definition is_slug_char :: "char \<Rightarrow> bool" where
  "is_slug_char c \<longleftrightarrow> (let n = (of_char c :: nat) in 48 \<le> n \<and> n \<le> 57 \<or> 97 \<le> n \<and> n \<le> 122)"

text \<open>\<open>replace(/[^a-z0-9]+/g, '-')\<close>\<close>

fun dash_runs :: "string \<Rightarrow> string" where
  "dash_runs [] = []"
| "dash_runs (c # s) =
     (if is_slug_char c then c # dash_runs s
      else (case s of d # _ \<Rightarrow> if is_slug_char d then CHR ''-'' # dash_runs s else dash_runs s
            | [] \<Rightarrow> [CHR ''-'']))"

definition strip_trailing_dashes :: "string \<Rightarrow> string" where
  "strip_trailing_dashes s = rev (dropWhile (\<lambda>c. c = CHR ''-'') (rev s))"

definition title_slug :: "string \<Rightarrow> string" where
  "title_slug title =
     strip_trailing_dashes
       (take 36 (strip_trailing_dashes (dropWhile (\<lambda>c. c = CHR ''-'') (dash_runs (js_lower title)))))"

definition pad3 :: "nat \<Rightarrow> string" where
  "pad3 n = (let d = string_of_nat n in replicate (3 - length d) (CHR ''0'') @ d)"

definition normalize_goal_id :: "string \<Rightarrow> nat \<Rightarrow> string" where
  "normalize_goal_id title index =
     (let slug = title_slug title
      in CHR ''G'' # pad3 (Suc index) @ (if slug \<noteq> [] then CHR ''-'' # slug else []))"

definition fresh_goal :: "string \<Rightarrow> string \<Rightarrow> string \<Rightarrow> string \<Rightarrow> ug_goal" where
  "fresh_goal i title objective now =
     \<lparr> g_id = i, g_title = title, g_objective = objective, g_status = UPending, g_token_budget = None, g_attempt = 0,
       g_created = now, g_updated = now, g_started = None, g_completed = None, g_failed = None,
       g_review_blocked = None, g_evidence = None, g_failure_reason = None, g_steering = None,
       g_superseded_by = None, g_supersedes = None, g_blocked_reason = None, g_blocker_signature = None,
       g_blocker_count = None, g_required_decision = None, g_non_retriable = False, g_steering_evidence = None,
       g_steering_rationale = None, g_resolves = None, g_resolution = None \<rparr>"

definition clear_blocker_fields :: "ug_goal \<Rightarrow> ug_goal" where
  "clear_blocker_fields g =
     g\<lparr> g_blocked_reason := None, g_blocker_signature := None, g_blocker_count := None,
        g_required_decision := None, g_non_retriable := False \<rparr>"

end
