(* ===== verification/GoalSnapshot.thy ===== *)
theory GoalSnapshot
  imports JsValue Regex
begin

text \<open>
  Snapshots of the goal that the host agent reports (\<open>src/goal-workflows/codex-goal-snapshot.ts\<close>):
  recognising the response of its \<open>get_goal\<close> tool inside the envelopes it may be copied with,
  reading the snapshot, and reconciling it with the objective a workflow expects.
  \<open>JSON.parse\<close> of a text inside an envelope is the argument \<open>parse\<close>, with \<open>None\<close> for a syntax
  error.
\<close>

subsection \<open>Vocabulary\<close>

datatype goal_status = GActive | GComplete | GCancelled | GFailed | GBlocked | GUnknown

datatype unavailable_reason = DbSchemaContext | ToolUnavailable | ToolError

record goal_snapshot =
  gs_available :: bool
  gs_objective :: "string option"
  gs_status :: "goal_status option"
  gs_token_budget :: "jsnum option"
  gs_remaining :: "jsnum option"
  gs_unavailable :: "unavailable_reason option"
  gs_error :: "string option"
  gs_raw :: js

definition safe_object :: "js \<Rightarrow> js_record" where
  "safe_object v = (case v of JObj r \<Rightarrow> r | _ \<Rightarrow> [])"

definition safe_number :: "js \<Rightarrow> jsnum option" where
  "safe_number v = (case v of JNum n \<Rightarrow> (if js_finite v then Some n else None) | _ \<Rightarrow> None)"

definition has_own :: "js_record \<Rightarrow> string \<Rightarrow> bool" where
  "has_own r k \<longleftrightarrow> k \<in> set (map fst r)"

definition normalize_goal_status :: "js \<Rightarrow> goal_status" where
  "normalize_goal_status v =
     (let s = js_lower (trimmed v)
      in if s \<in> {''complete'', ''completed'', ''done''} then GComplete
         else if s \<in> {''cancelled'', ''canceled''} then GCancelled
         else if s \<in> {''failed'', ''failure''} then GFailed
         else if s = ''blocked'' then GBlocked
         else if s \<in> {''active'', ''in_progress'', ''pending'', ''running''} then GActive
         else GUnknown)"

text \<open>\<open>value.replace(/\s+/g, ' ').trim()\<close>\<close>

fun collapse_ws :: "string \<Rightarrow> string" where
  "collapse_ws [] = []"
| "collapse_ws (c # s) =
     (if js_ws c then (case s of d # _ \<Rightarrow> if js_ws d then collapse_ws s else CHR '' '' # collapse_ws s
                       | [] \<Rightarrow> [CHR '' ''])
      else c # collapse_ws s)"

definition normalize_objective :: "string \<Rightarrow> string" where
  "normalize_objective s = js_trim (collapse_ws s)"

subsection \<open>Errors of the goal tool\<close>

text \<open>\<open>candidates.map(safeString).find(Boolean) ?? ''\<close>\<close>

definition first_message :: "js list \<Rightarrow> string" where
  "first_message vs = (case List.find (\<lambda>s. s \<noteq> []) (map trimmed vs) of None \<Rightarrow> [] | Some s \<Rightarrow> s)"

definition error_fields :: "js_record \<Rightarrow> js list" where
  "error_fields r =
     (let e = safe_object (rec_get r ''error'')
      in [rec_get r ''errorMessage'', rec_get r ''stderr'', rec_get e ''message'', rec_get e ''error''])"

definition extract_error_message :: "js \<Rightarrow> string" where
  "extract_error_message v =
     (let r = safe_object v in first_message (rec_get r ''error'' # rec_get r ''message'' # error_fields r))"

definition any_word :: "string list \<Rightarrow> rx" where
  "any_word ws = rx_seq [WordB, rx_words ws, WordB]"

definition is_db_schema_context_error :: "string \<Rightarrow> bool" where
  "is_db_schema_context_error message \<longleftrightarrow>
     (let n = js_lower (js_trim message)
      in n \<noteq> []
         \<and> (js_includes n ''no such table: thread_goals''
            \<or> js_includes n ''thread_goals''
               \<and> rx_test (any_word [''sqlite'', ''sql'', ''schema'', ''table'', ''database'', ''db'']) n
            \<or> rx_test (rx_seq [any_word [''codex goal'', ''goal''], Star rx_dot,
                             any_word [''db'', ''database'', ''schema'', ''context''], Star rx_dot,
                             any_word [''unavailable'', ''missing'', ''failed'', ''error'']]) n))"

definition catalog_record_missing :: "string \<Rightarrow> bool" where
  "catalog_record_missing message \<longleftrightarrow>
     rx_test (rx_lit_i ''native nested tool inventory did not return one matching catalog record'') message"

definition classify_goal_tool_error :: "string \<Rightarrow> unavailable_reason" where
  "classify_goal_tool_error message =
     (if is_db_schema_context_error message then DbSchemaContext
      else if catalog_record_missing message then ToolUnavailable else ToolError)"

subsection \<open>Unwrapping a response\<close>

definition has_goal_shape :: "js \<Rightarrow> bool" where
  "has_goal_shape v \<longleftrightarrow>
     (let r = safe_object v; g = rec_get r ''goal''; goal = safe_object g
      in has_own r ''goal''
           \<and> (g = JNull \<or> g = JBool False
              \<or> trimmed (js_coalesce (rec_get goal ''objective'')
                          (js_coalesce (rec_get goal ''goal'') (rec_get goal ''description''))) \<noteq> []
              \<or> normalize_goal_status (rec_get goal ''status'') \<noteq> GUnknown)
         \<or> trimmed (rec_get r ''objective'') \<noteq> []
         \<or> normalize_goal_status (rec_get r ''status'') \<noteq> GUnknown
         \<or> first_message (rec_get r ''error'' # error_fields r) \<noteq> []
         \<or> (let m = trimmed (rec_get r ''message'')
            in m \<noteq> [] \<and> (is_db_schema_context_error m \<or> catalog_record_missing m)))"

definition text_diagnostic :: "string \<Rightarrow> js option" where
  "text_diagnostic t =
     (let d = JObj [(''message'', JStr (js_trim t))] in if has_goal_shape d then Some d else None)"

definition unwrap_text :: "(string \<Rightarrow> js option) \<Rightarrow> string \<Rightarrow> js option" where
  "unwrap_text parse t =
     (case parse t of
        Some p \<Rightarrow> (if has_goal_shape p then Some p else None)
      | None \<Rightarrow> text_diagnostic t)"

text \<open>The parts of a content array are tried in order.\<close>

fun unwrap_parts :: "(string \<Rightarrow> js option) \<Rightarrow> js list \<Rightarrow> js option" where
  "unwrap_parts parse [] = None"
| "unwrap_parts parse (p # ps) =
     (let item = safe_object p
      in case rec_get item ''text'' of
           JStr t \<Rightarrow>
             (if rec_get item ''type'' = JStr ''text''
              then (case unwrap_text parse t of Some u \<Rightarrow> Some u | None \<Rightarrow> unwrap_parts parse ps)
              else unwrap_parts parse ps)
         | _ \<Rightarrow> unwrap_parts parse ps)"

text \<open>\<open>None\<close> when the value itself is returned.\<close>

definition unwrap_response :: "(string \<Rightarrow> js option) \<Rightarrow> js \<Rightarrow> js option" where
  "unwrap_response parse v =
     (let r = safe_object v
      in if has_own r ''structuredContent'' \<and> has_goal_shape (rec_get r ''structuredContent'')
         then Some (rec_get r ''structuredContent'')
         else if has_goal_shape v then None
         else (case rec_get r ''content'' of
                 JStr t \<Rightarrow> unwrap_text parse t
               | JArr ps \<Rightarrow> unwrap_parts parse ps
               | _ \<Rightarrow> None))"

subsection \<open>Reading a snapshot\<close>

definition no_snapshot :: "js \<Rightarrow> goal_snapshot" where
  "no_snapshot v =
     \<lparr> gs_available = False, gs_objective = None, gs_status = None, gs_token_budget = None, gs_remaining = None,
       gs_unavailable = None, gs_error = None, gs_raw = v \<rparr>"

definition error_snapshot :: "string \<Rightarrow> js \<Rightarrow> goal_snapshot" where
  "error_snapshot m v = (no_snapshot v)\<lparr> gs_unavailable := Some (classify_goal_tool_error m), gs_error := Some m \<rparr>"

definition is_absent :: "js \<Rightarrow> bool" where
  "is_absent v \<longleftrightarrow> v = JNull \<or> v = JUndef \<or> v = JBool False"

definition read_goal_fields :: "js_record \<Rightarrow> js_record \<Rightarrow> js \<Rightarrow> goal_snapshot" where
  "read_goal_fields goal r v =
     (let objective = trimmed (js_coalesce (rec_get goal ''objective'') (js_coalesce (rec_get goal ''goal'')
                        (js_coalesce (rec_get goal ''description'') (rec_get r ''objective''))));
          status = normalize_goal_status (js_coalesce (rec_get goal ''status'') (rec_get r ''status''));
          budget = safe_number (js_coalesce (rec_get goal ''token_budget'') (js_coalesce (rec_get goal ''tokenBudget'')
                     (js_coalesce (rec_get r ''token_budget'') (rec_get r ''tokenBudget''))));
          remaining = safe_number (js_coalesce (rec_get r ''remainingTokens'') (rec_get r ''remaining_tokens''))
      in \<lparr> gs_available = (objective \<noteq> [] \<or> status \<noteq> GUnknown),
           gs_objective = (if objective \<noteq> [] then Some objective else None),
           gs_status = Some status, gs_token_budget = budget, gs_remaining = remaining,
           gs_unavailable = None, gs_error = None, gs_raw = v \<rparr>)"

definition read_snapshot :: "js \<Rightarrow> goal_snapshot" where
  "read_snapshot v =
     (let r = safe_object v;
          own = has_own r ''goal'';
          gv = (if own then rec_get r ''goal'' else v);
          m = (if own \<and> \<not> is_absent gv then [] else extract_error_message v)
      in if \<not> own \<and> m \<noteq> [] then error_snapshot m v
         else if is_absent gv then (if m \<noteq> [] then error_snapshot m v else no_snapshot v)
         else if safe_object gv = [] \<and> \<not> has_own r ''objective'' \<and> \<not> has_own r ''status'' then no_snapshot v
         else read_goal_fields (safe_object gv) r v)"

subsection \<open>The recursion on envelopes ends\<close>

lemma size_rec_get: "has_own r k \<Longrightarrow> size (rec_get r k) < size (JObj r)"
proof (induction r)
  case (Cons kv r)
  obtain l w where kv: "kv = (l, w)" by fastforce
  show ?case
  proof (cases "l = k")
    case True
    then show ?thesis by (simp add: kv rec_get_def)
  next
    case False
    then have "size (rec_get r k) < size (JObj r)" using Cons by (simp add: kv has_own_def)
    with False show ?thesis by (simp add: kv rec_get_def)
  qed
qed (simp add: has_own_def)

lemma unwrap_text_shape: "unwrap_text parse t = Some u \<Longrightarrow> has_goal_shape u"
  by (auto simp: unwrap_text_def text_diagnostic_def Let_def split: option.splits if_splits)

lemma unwrap_parts_shape: "unwrap_parts parse ps = Some u \<Longrightarrow> has_goal_shape u"
proof (induction ps)
  case (Cons p ps)
  then show ?case
    by (auto simp: Let_def dest: unwrap_text_shape split: js.splits if_splits option.splits)
qed simp

lemma unwrap_response_smaller:
  assumes "unwrap_response parse v = Some u" and "has_goal_shape v"
  shows "size u < size v"
proof -
  have *: "has_own (safe_object v) ''structuredContent''" "u = rec_get (safe_object v) ''structuredContent''"
    using assms by (auto simp: unwrap_response_def Let_def split: if_splits)
  then obtain r where "v = JObj r"
    by (cases v) (auto simp: safe_object_def has_own_def)
  with * show ?thesis using size_rec_get [of r "''structuredContent''"] by (simp add: safe_object_def)
qed

lemma unwrap_response_shape: "unwrap_response parse v = Some u \<Longrightarrow> has_goal_shape u"
  by (auto simp: unwrap_response_def Let_def dest: unwrap_text_shape unwrap_parts_shape
      split: if_splits js.splits)

text \<open>Every envelope inside a recognised response is smaller than the response around it, and a text
  is unwrapped only once.\<close>

function parse_codex_goal_snapshot :: "(string \<Rightarrow> js option) \<Rightarrow> js \<Rightarrow> goal_snapshot" where
  "parse_codex_goal_snapshot parse v =
     (case unwrap_response parse v of
        Some u \<Rightarrow> (parse_codex_goal_snapshot parse u)\<lparr> gs_raw := v \<rparr>
      | None \<Rightarrow> read_snapshot v)"
  by pat_completeness auto

termination
proof (relation "measures [\<lambda>(p, v). if has_goal_shape v then 0 else 1, \<lambda>(p, v). size v]", goal_cases)
  case (2 parse v u)
  then show ?case using unwrap_response_shape unwrap_response_smaller by auto
qed simp

declare parse_codex_goal_snapshot.simps [simp del]

subsection \<open>Reconciliation\<close>

record reconcile_options =
  ro_expected :: string
  ro_accepted :: "string list"
  ro_allowed :: "goal_status list option"
  ro_require_snapshot :: bool
  ro_require_complete :: bool

datatype reconcile_issue =
    SnapshotAbsent
  | ObjectiveMissing
  | ObjectiveMismatch string string
  | StatusMismatch "goal_status list" goal_status
  | NotComplete

record reconciliation =
  rc_ok :: bool
  rc_snapshot :: goal_snapshot
  rc_warnings :: "reconcile_issue list"
  rc_errors :: "reconcile_issue list"

definition effective_snapshot :: "goal_snapshot option \<Rightarrow> goal_snapshot" where
  "effective_snapshot snap = (case snap of None \<Rightarrow> no_snapshot JNull | Some s \<Rightarrow> s)"

definition reconcile_errors :: "goal_snapshot \<Rightarrow> reconcile_options \<Rightarrow> reconcile_issue list" where
  "reconcile_errors s opt =
     (let expected = normalize_objective (ro_expected opt);
          accepted = filter (\<lambda>t. t \<noteq> []) (expected # map normalize_objective (ro_accepted opt));
          actual = normalize_objective (case gs_objective s of None \<Rightarrow> [] | Some t \<Rightarrow> t);
          allowed = (case ro_allowed opt of Some l \<Rightarrow> l
                     | None \<Rightarrow> if ro_require_complete opt then [GComplete] else [GActive, GComplete]);
          status = (case gs_status s of None \<Rightarrow> GUnknown | Some t \<Rightarrow> t)
      in (if actual = [] then [ObjectiveMissing]
          else if actual \<notin> set accepted then [ObjectiveMismatch expected actual] else [])
         @ (if status \<notin> set allowed then [StatusMismatch allowed status] else [])
         @ (if ro_require_complete opt \<and> status \<noteq> GComplete then [NotComplete] else []))"

definition reconcile_goal_snapshot :: "goal_snapshot option \<Rightarrow> reconcile_options \<Rightarrow> reconciliation" where
  "reconcile_goal_snapshot snap opt =
     (let s = effective_snapshot snap
      in if \<not> gs_available s
         then (let errors = (if ro_require_snapshot opt then [SnapshotAbsent] else []);
                   warnings = (if ro_require_snapshot opt then [] else [SnapshotAbsent])
               in \<lparr> rc_ok = (errors = []), rc_snapshot = s, rc_warnings = warnings, rc_errors = errors \<rparr>)
         else \<lparr> rc_ok = (reconcile_errors s opt = []), rc_snapshot = s, rc_warnings = [],
                rc_errors = reconcile_errors s opt \<rparr>)"

text \<open>What an accepted snapshot guarantees when one is required.\<close>

lemma reconcile_ok:
  assumes "rc_ok (reconcile_goal_snapshot snap opt)" and "ro_require_snapshot opt"
    and "ro_allowed opt = Some allowed"
  obtains s obj st where "snap = Some s" and "gs_available s" and "gs_objective s = Some obj"
    and "normalize_objective obj \<noteq> []"
    and "normalize_objective obj \<in> set (map normalize_objective (ro_expected opt # ro_accepted opt))"
    and "(case gs_status s of None \<Rightarrow> GUnknown | Some t \<Rightarrow> t) = st" and "st \<in> set allowed"
    and "ro_require_complete opt \<longrightarrow> st = GComplete"
proof -
  have av: "gs_available (effective_snapshot snap)"
    using assms by (auto simp: reconcile_goal_snapshot_def Let_def split: if_splits)
  then obtain s where s: "snap = Some s" "gs_available s"
    by (cases snap) (auto simp: effective_snapshot_def no_snapshot_def)
  with assms(1) have none: "reconcile_errors s opt = []"
    by (simp add: reconcile_goal_snapshot_def effective_snapshot_def Let_def)
  let ?o = "case gs_objective s of None \<Rightarrow> [] | Some t \<Rightarrow> t"
  have ok: "normalize_objective ?o \<noteq> []"
    and acc: "normalize_objective ?o \<in> set (map normalize_objective (ro_expected opt # ro_accepted opt))"
    and st: "(case gs_status s of None \<Rightarrow> GUnknown | Some t \<Rightarrow> t) \<in> set allowed"
    and co: "ro_require_complete opt \<longrightarrow> (case gs_status s of None \<Rightarrow> GUnknown | Some t \<Rightarrow> t) = GComplete"
    using none by (auto simp: reconcile_errors_def Let_def assms(3) split: if_splits)
  obtain obj where obj: "gs_objective s = Some obj"
    using ok by (cases "gs_objective s") (auto simp: normalize_objective_def js_trim_def)
  show thesis
    using that [OF s obj _ _ refl st co] ok acc unfolding obj by simp
qed

subsection \<open>Normalised text\<close>

lemma collapse_ws_no_ws: "\<not> list_ex js_ws s \<Longrightarrow> collapse_ws s = s"
  by (induction s rule: collapse_ws.induct) auto

end
