(* ===== verification/UltragoalStore.thy ===== *)
theory UltragoalStore
  imports UltragoalPlan GoalSnapshot
begin

text \<open>
  The files of an ultragoal run and the transactions on them (\<open>src/ultragoal/artifacts.ts\<close>): the plan
  file, the append-only ledger and the brief; the mutation lock with its two checks of the
  writable authority; the migration of the objective; creating a plan and appending goals.
  An operation returns its result, or the error it throws, and the store it leaves.
  The copies of snapshots, gates and plans that ledger entries carry for the reader, and the
  texts of messages, are left out: no operation reads them.
\<close>

subsection \<open>Errors and the ledger\<close>

datatype missing_field = MissingTitle | MissingObjective | MissingEvidence | MissingGateField string

datatype gate_error =
    GateMissing
  | GatePartMissing string
  | GatePartNotPassed string
  | GateCommandsMissing
  | GateReviewNotClean string
  | GateReviewerMissing string
  | GateSourcesMissing string
  | GateInvariantsMalformed
  | GateProvenance string
  | GateNotProved string
  | GateBlockers string
  | GateProofMissing string
  | GateProofForeign string
  | GateField missing_field

datatype ug_error =
    AuthorityRefused
  | AuthorityUnknown
  | AuthorityDrift
  | LockTimeout
  | PlanNotFound
  | PlanInvalid
  | PlanExists
  | ObjectiveTooLong
  | TooManyImplicitGoals nat
  | Missing missing_field
  | UnknownGoal string
  | CompletedPlan
  | TerminalReceipt
  | NotInProgress ug_status
  | NotFinalCandidate
  | SnapshotRequired
  | SnapshotObjectiveMissing
  | BlockedObjectiveMismatch
  | BlockedStatus "goal_status option"
  | BlockedForMatchingGoal
  | ReconciliationFailed "reconcile_issue list"
  | UnresolvedReviewBlockers
  | BriefUnreadable
  | Gate gate_error

datatype ledger_event =
    PlanCreated | GoalStarted | GoalResumed | GoalCompleted | GoalBlocked | GoalFailed | GoalNeedsDecision
  | GoalRetried | AggregateCompleted | ObjectiveMigrated | GoalAdded | SteeringAccepted | SteeringRejected
  | FinalReviewFailed | GoalReviewBlocked

record steering_audit =
  au_kind :: string
  au_source :: string
  au_targets :: "string list"
  au_evidence :: string
  au_rationale :: string
  au_accepted :: bool
  au_no_easier :: bool
  au_reasons :: "string list"
  au_directive :: "string option"
  au_signature :: "string option"
  au_key :: "string option"
  au_deduped :: bool

record ledger_entry =
  le_ts :: string
  le_event :: ledger_event
  le_goal :: "string option"
  le_status :: "ug_status option"
  le_message :: "string option"
  le_evidence :: "string option"
  le_steering :: "steering_audit option"
  le_key :: "string option"
  le_signature :: "string option"
  le_count :: "nat option"
  le_decision :: "string option"

definition ledger_line :: "string \<Rightarrow> ledger_event \<Rightarrow> ledger_entry" where
  "ledger_line ts ev =
     \<lparr> le_ts = ts, le_event = ev, le_goal = None, le_status = None, le_message = None, le_evidence = None,
       le_steering = None, le_key = None, le_signature = None, le_count = None, le_decision = None \<rparr>"

definition goal_line :: "string \<Rightarrow> ledger_event \<Rightarrow> ug_goal \<Rightarrow> string option \<Rightarrow> ledger_entry" where
  "goal_line ts ev g evidence =
     (ledger_line ts ev)\<lparr> le_goal := Some (g_id g), le_status := Some (g_status g), le_evidence := evidence \<rparr>"

subsection \<open>The store\<close>

datatype plan_file = NoPlan | MalformedPlan | PlanFile ug_plan

record ug_store =
  us_plan :: plan_file
  us_ledger :: "ledger_entry list"
  us_ledger_corrupt :: bool
  us_brief :: "string option"

definition append_ledger :: "ledger_entry \<Rightarrow> ug_store \<Rightarrow> ug_store" where
  "append_ledger e s = s\<lparr> us_ledger := us_ledger s @ [e] \<rparr>"

text \<open>A line that does not parse makes the whole ledger read as empty.\<close>

definition read_ledger :: "ug_store \<Rightarrow> ledger_entry list" where
  "read_ledger s = (if us_ledger_corrupt s then [] else us_ledger s)"

definition write_plan :: "ug_plan \<Rightarrow> ug_store \<Rightarrow> ug_store" where
  "write_plan p s = s\<lparr> us_plan := PlanFile p \<rparr>"

definition read_plan_file :: "ug_store \<Rightarrow> ug_error + ug_plan" where
  "read_plan_file s =
     (case us_plan s of NoPlan \<Rightarrow> Inl PlanNotFound | MalformedPlan \<Rightarrow> Inl PlanInvalid | PlanFile p \<Rightarrow> Inr p)"

subsection \<open>The mutation lock\<close>

datatype writable_authority = Resolved string "string option" string | NoPointerCompat

datatype scope_error = UnboundEnvironment | UnusableSession | OtherScopeError

text \<open>\<open>scope\<close> is what \<open>resolveWritableStateScope\<close> returned, and \<open>supplied\<close> tells whether a session id
  in the environment is absent, usable or not.\<close>

datatype supplied_session = NoSession | UsableSession | UnusableId

definition writable_lifecycle_authority ::
    "(scope_error + string \<times> string option \<times> string) \<Rightarrow> supplied_session \<Rightarrow> bool \<Rightarrow> ug_error + writable_authority" where
  "writable_lifecycle_authority scope supplied allow_unbound =
     (let refuse = (\<lambda>e. if e = UnboundEnvironment \<and> allow_unbound then Inr NoPointerCompat
                        else if e = OtherScopeError then Inl AuthorityUnknown else Inl AuthorityRefused)
      in case scope of
           Inl e \<Rightarrow> refuse e
         | Inr (source, session, dir) \<Rightarrow>
             (if \<not> allow_unbound \<and> supplied = UnusableId then refuse UnboundEnvironment
              else Inr (Resolved source session dir)))"

text \<open>What one transaction meets: the authority before and after waiting for the lock, whether the
  lock was taken within its hundred attempts, the prefix of the state directory in its git
  worktree (\<open>ultragoalStatePathPrefix\<close>), and the clock.\<close>

record lock_env =
  lk_before :: "ug_error + writable_authority"
  lk_acquired :: bool
  lk_after :: "ug_error + writable_authority"
  lk_prefix :: string
  lk_clock :: string

definition with_mutation_lock ::
    "lock_env \<Rightarrow> (ug_store \<Rightarrow> (ug_error + 'a) \<times> ug_store) \<Rightarrow> ug_store \<Rightarrow> (ug_error + 'a) \<times> ug_store" where
  "with_mutation_lock env operation s =
     (case lk_before env of
        Inl e \<Rightarrow> (Inl e, s)
      | Inr auth \<Rightarrow>
          (if \<not> lk_acquired env then (Inl LockTimeout, s)
           else (case lk_after env of
                   Inl e \<Rightarrow> (Inl e, s)
                 | Inr auth' \<Rightarrow> (if auth \<noteq> auth' then (Inl AuthorityDrift, s) else operation s))))"

subsection \<open>The aggregate objective\<close>

definition prefixed_state_path :: "string \<Rightarrow> string \<Rightarrow> string" where
  "prefixed_state_path pfx artifact =
     (if pfx \<noteq> [] then pfx @ ''/'' else []) @ ''.omx/ultragoal/'' @ artifact"

definition build_aggregate_objective :: "string \<Rightarrow> string" where
  "build_aggregate_objective pfx =
     ''Complete the durable ultragoal plan in '' @ prefixed_state_path pfx ''goals.json''
       @ '', including later accepted/appended stories, under the original brief constraints; use ''
       @ prefixed_state_path pfx ''ledger.jsonl'' @ '' as the audit trail.''"

definition aggregate_objective :: "string \<Rightarrow> ug_error + string" where
  "aggregate_objective pfx =
     (let t = build_aggregate_objective pfx in if length t \<le> 4000 then Inr t else Inl ObjectiveTooLong)"

definition is_legacy_objective :: "string option \<Rightarrow> bool" where
  "is_legacy_objective t \<longleftrightarrow>
     (case t of None \<Rightarrow> False
      | Some s \<Rightarrow> s \<noteq> []
          \<and> (js_starts_with s ''Complete all ultragoal stories in .omx/ultragoal/goals.json: ''
             \<or> s = ''Complete all ultragoal stories listed in .omx/ultragoal/goals.json. Use .omx/ultragoal/ledger.jsonl as the durable audit trail.''))"

definition compatible_objectives :: "ug_plan \<Rightarrow> string list" where
  "compatible_objectives p =
     filter (\<lambda>t. is_legacy_objective (Some t) \<or> t = build_aggregate_objective [])
       (case p_aliases p of None \<Rightarrow> [] | Some l \<Rightarrow> l)"

definition expected_objective :: "ug_plan \<Rightarrow> ug_goal \<Rightarrow> ug_error + string" where
  "expected_objective p g =
     (if goal_mode_of p = Aggregate
      then (case p_objective p of Some t \<Rightarrow> Inr t
            | None \<Rightarrow> aggregate_objective (case p_prefix p of None \<Rightarrow> [] | Some x \<Rightarrow> x))
      else Inr (g_objective g))"

definition requires_state_path_migration :: "ug_plan \<Rightarrow> string \<Rightarrow> bool" where
  "requires_state_path_migration p pfx \<longleftrightarrow> pfx \<noteq> [] \<and> p_objective p = Some (build_aggregate_objective [])"

definition requires_objective_migration :: "ug_plan \<Rightarrow> string \<Rightarrow> bool" where
  "requires_objective_migration p pfx \<longleftrightarrow>
     goal_mode_of p = Aggregate \<and> (is_legacy_objective (p_objective p) \<or> requires_state_path_migration p pfx)"

definition migrated_plan :: "ug_plan \<Rightarrow> string \<Rightarrow> string \<Rightarrow> string \<Rightarrow> ug_plan" where
  "migrated_plan p objective pfx now =
     p\<lparr> p_objective := Some objective, p_prefix := (if pfx = [] then None else Some pfx),
        p_aliases := Some (dedup (filter (\<lambda>t. t \<noteq> [])
          ((case p_aliases p of None \<Rightarrow> [] | Some l \<Rightarrow> l) @ (case p_objective p of None \<Rightarrow> [] | Some t \<Rightarrow> [t])))),
        p_updated := now \<rparr>"

definition read_plan_under_lock :: "string \<Rightarrow> string \<Rightarrow> ug_store \<Rightarrow> (ug_error + ug_plan) \<times> ug_store" where
  "read_plan_under_lock pfx now s =
     (case read_plan_file s of
        Inl e \<Rightarrow> (Inl e, s)
      | Inr p \<Rightarrow>
          (if \<not> requires_objective_migration p pfx then (Inr p, s)
           else (case aggregate_objective pfx of
                   Inl e \<Rightarrow> (Inl e, s)
                 | Inr t \<Rightarrow>
                     (let p' = migrated_plan p t pfx now
                      in (Inr p', append_ledger (ledger_line now ObjectiveMigrated) (write_plan p' s))))))"

definition read_ultragoal_plan :: "lock_env \<Rightarrow> ug_store \<Rightarrow> (ug_error + ug_plan) \<times> ug_store" where
  "read_ultragoal_plan env s =
     (case read_plan_file s of
        Inl e \<Rightarrow> (Inl e, s)
      | Inr p \<Rightarrow> (if requires_objective_migration p (lk_prefix env)
                 then with_mutation_lock env (read_plan_under_lock (lk_prefix env) (lk_clock env)) s
                 else (Inr p, s)))"

text \<open>Every mutator starts by reading the plan under the lock.\<close>

definition with_plan ::
    "lock_env \<Rightarrow> (ug_plan \<Rightarrow> ug_store \<Rightarrow> (ug_error + 'a) \<times> ug_store) \<Rightarrow> ug_store \<Rightarrow> (ug_error + 'a) \<times> ug_store" where
  "with_plan env body =
     with_mutation_lock env
       (\<lambda>s. case read_plan_under_lock (lk_prefix env) (lk_clock env) s of
              (Inl e, s') \<Rightarrow> (Inl e, s')
            | (Inr p, s') \<Rightarrow> body p s')"

subsection \<open>Appending goals\<close>

definition assert_non_empty :: "string option \<Rightarrow> missing_field \<Rightarrow> missing_field + string" where
  "assert_non_empty v label =
     (case v of None \<Rightarrow> Inl label | Some t \<Rightarrow> (if js_trim t = [] then Inl label else Inr (js_trim t)))"

definition append_goal ::
    "ug_plan \<Rightarrow> string \<Rightarrow> string \<Rightarrow> string option \<Rightarrow> string option \<Rightarrow> string \<Rightarrow> missing_field + (ug_plan \<times> ug_goal)" where
  "append_goal p title objective evidence resolves now =
     (case assert_non_empty (Some title) MissingTitle of
        Inl e \<Rightarrow> Inl e
      | Inr t \<Rightarrow>
          (case assert_non_empty (Some objective) MissingObjective of
             Inl e \<Rightarrow> Inl e
           | Inr b \<Rightarrow>
               (let g = (fresh_goal (normalize_goal_id t (length (p_goals p))) t b now)
                          \<lparr> g_evidence := evidence, g_resolves := resolves \<rparr>
                in Inr (p\<lparr> p_goals := p_goals p @ [g], p_updated := now \<rparr>, g))))"

definition add_ultragoal_goal ::
    "lock_env \<Rightarrow> string \<Rightarrow> string \<Rightarrow> string option \<Rightarrow> string \<Rightarrow> ug_store
      \<Rightarrow> (ug_error + ug_plan \<times> ug_goal) \<times> ug_store" where
  "add_ultragoal_goal env title objective evidence now =
     with_plan env (\<lambda>p s.
       if p_completion p \<noteq> None then (Inl CompletedPlan, s)
       else (case append_goal p title objective evidence None now of
               Inl e \<Rightarrow> (Inl (Missing e), s)
             | Inr (p', g) \<Rightarrow>
                 (Inr (p', g), append_ledger ((goal_line now GoalAdded g evidence)\<lparr> le_message := Some (g_title g) \<rparr>)
                                 (write_plan p' s))))"

end
