(* ===== verification/UltragoalBrief.thy ===== *)
theory UltragoalBrief
  imports UltragoalStore
begin

text \<open>
  Reading the brief of an ultragoal run (\<open>src/ultragoal/artifacts.ts\<close>): the list items of its
  Markdown and the sections they stand in, the goals derived from them, the plan created from
  the goals, and the architecture invariants that the brief and accepted steering declare.
\<close>

subsection \<open>Lines and patterns\<close>

text \<open>\<open>s.split(/\r?\n/)\<close>\<close>

fun js_lines :: "string \<Rightarrow> string list" where
  "js_lines [] = [[]]"
| "js_lines (c # s) =
     (if c = CHR 0x0A then [] # js_lines s
      else if c = CHR 0x0D \<and> take 1 s = [CHR 0x0A] then [] # js_lines (drop 1 s)
      else (case js_lines s of [] \<Rightarrow> [[c]] | w # ws \<Rightarrow> (c # w) # ws))"

text \<open>At least \<open>m\<close> and at most \<open>m + n\<close> repetitions, greedily; \<open>\s+\<close>; a digit.\<close>

fun rx_upto :: "nat \<Rightarrow> rx \<Rightarrow> rx" where
  "rx_upto 0 r = Eps"
| "rx_upto (Suc n) r = Alt (Seq r (rx_upto n r)) Eps"

definition rx_gap :: rx where
  "rx_gap = rx_plus rx_space"

definition rx_digit :: rx where
  "rx_digit = Cls is_digit"

definition rx_char :: "string \<Rightarrow> rx" where
  "rx_char cs = Cls (\<lambda>c. c \<in> set cs)"

text \<open>The group of the first match of \<open>pre(g)post\<close> when the repetition in \<open>g\<close> is lazy: the ends of
  \<open>g\<close> are tried from the shortest on.\<close>

definition lazy_at :: "rx \<Rightarrow> rx \<Rightarrow> rx \<Rightarrow> string \<Rightarrow> nat \<Rightarrow> string list" where
  "lazy_at pre g post s i =
     concat (map (\<lambda>a. concat (map (\<lambda>b. if ends post s b = [] then [] else [substring s a b]) (rev (ends g s a))))
       (ends pre s i))"

definition lazy_capture :: "rx \<Rightarrow> rx \<Rightarrow> rx \<Rightarrow> string \<Rightarrow> string option" where
  "lazy_capture pre g post s =
     (case lazy_at pre g post s 0 of [] \<Rightarrow> None | w # _ \<Rightarrow> Some w)"

definition strip_prefix_match :: "rx \<Rightarrow> string \<Rightarrow> string" where
  "strip_prefix_match r s = (case ends r s 0 of [] \<Rightarrow> s | j # _ \<Rightarrow> drop j s)"

text \<open>\<open>s.split(r)\<close> for a pattern that matches no empty string.\<close>

fun split_at_matches :: "(nat \<times> nat) list \<Rightarrow> string \<Rightarrow> nat \<Rightarrow> string list" where
  "split_at_matches [] s i = [drop i s]"
| "split_at_matches ((a, b) # ms) s i = substring s i a # split_at_matches ms s b"

definition rx_split :: "rx \<Rightarrow> string \<Rightarrow> string list" where
  "rx_split r s = split_at_matches (rx_scan (Suc (length s)) r s 0) s 0"

subsection \<open>List items and sections\<close>

definition list_marker :: rx where
  "list_marker = rx_seq [Star rx_space,
     rx_alts [Seq (rx_char ''-*+'') rx_gap, rx_seq [rx_plus rx_digit, rx_char ''.)'', rx_gap]]]"

definition clean_line :: "string \<Rightarrow> string" where
  "clean_line line = js_trim (strip_prefix_match list_marker line)"

definition indent_width :: "string \<Rightarrow> nat" where
  "indent_width ws = sum_list (map (\<lambda>c. if c = CHR 0x09 then 2 else 1) ws)"

definition line_indent_width :: "string \<Rightarrow> nat" where
  "line_indent_width line = indent_width (takeWhile js_ws line)"

definition drop_emphasis :: "string \<Rightarrow> string" where
  "drop_emphasis s = filter (\<lambda>c. c \<notin> {CHR 0x60, CHR ''*'', CHR ''_'', CHR ''~''}) s"

definition strip_last :: "char set \<Rightarrow> string \<Rightarrow> string" where
  "strip_last cs s = (if s \<noteq> [] \<and> last s \<in> cs then butlast s else s)"

definition label_text :: "string \<Rightarrow> string" where
  "label_text s = js_lower (js_trim (strip_last {CHR '':''} (drop_emphasis s)))"

definition heading_close :: rx where
  "heading_close = rx_seq [Star rx_space, Star (rx_char ''#''), Star rx_space, Eos]"

definition heading_marks :: rx where
  "heading_marks = Seq (rx_char ''#'') (rx_upto 5 (rx_char ''#''))"

definition normalize_section_label :: "string \<Rightarrow> string option" where
  "normalize_section_label v =
     (if ends list_marker v 0 \<noteq> [] then None
      else (case lazy_capture (rx_seq [Bos, heading_marks, rx_gap]) (rx_plus rx_dot) heading_close v of
              Some t \<Rightarrow> Some (label_text t)
            | None \<Rightarrow>
                map_option label_text
                  (rx_capture Bos (rx_seq [rx_nonspace, rx_dot, rx_upto 99 rx_dot])
                     (rx_seq [rx_char '':'', Star rx_space, Eos]) v)))"

definition whole :: "rx list \<Rightarrow> string \<Rightarrow> bool" where
  "whole rs s \<longleftrightarrow> rx_test (rx_seq [Bos, rx_alts rs, Eos]) s"

definition plural :: "string \<Rightarrow> rx" where
  "plural w = Seq (rx_lit w) (rx_opt (rx_char ''s''))"

fun words_rx :: "string list \<Rightarrow> rx" where
  "words_rx [] = Eps"
| "words_rx [w] = rx_lit w"
| "words_rx (w # v # ws) = rx_seq [rx_lit w, rx_gap, words_rx (v # ws)]"

definition section_text :: "string option \<Rightarrow> string" where
  "section_text sec = (case sec of None \<Rightarrow> [] | Some s \<Rightarrow> s)"

definition section_looks_plan_review :: "string option \<Rightarrow> bool" where
  "section_looks_plan_review sec \<longleftrightarrow> whole
     [Seq (rx_lit ''review'') (rx_opt (Seq rx_gap (rx_lit ''artifact''))), rx_seq [rx_lit ''review'', rx_gap, plural ''finding''],
      plural ''finding'', rx_lit ''verdict'', rx_lit ''status'',
      Seq (rx_lit ''consensus'') (rx_opt (Seq rx_gap (rx_lit ''status''))), words_rx [''decision'', ''log''],
      Seq (rx_lit ''approval'') (rx_opt (Seq rx_gap (rx_lit ''status''))), rx_seq [rx_lit ''implementation'', rx_gap, plural ''note''],
      rx_lit ''handoff'', rx_lit ''context'', rx_lit ''background'', rx_lit ''summary'', rx_lit ''scope''] (section_text sec)"

definition section_looks_non_story :: "string option \<Rightarrow> bool" where
  "section_looks_non_story sec \<longleftrightarrow> whole
     [words_rx [''acceptance'', ''criteria''], Seq (rx_lit ''verification'') (rx_opt (Seq rx_gap (rx_lit ''checklist''))),
      Seq (rx_lit ''validation'') (rx_opt (Seq rx_gap (rx_lit ''checklist''))), rx_lit ''checklist'', rx_lit ''evidence'',
      plural ''constraint'', plural ''risk'', rx_seq [words_rx [''immediate'', ''next''], rx_gap, plural ''action''],
      rx_seq [rx_lit ''next'', rx_gap, plural ''action''], rx_seq [rx_lit ''follow'', rx_opt (rx_char ''-''), plural ''up''],
      plural ''note''] (section_text sec)
     \<or> section_looks_plan_review sec"

definition section_looks_story :: "string option \<Rightarrow> bool" where
  "section_looks_story sec \<longleftrightarrow> whole
     [rx_lit ''story'', rx_lit ''stories'', plural ''goal'', plural ''milestone'', Seq (rx_lit ''p'') (rx_plus rx_digit)]
     (section_text sec)"

definition indented_story_label :: "string \<Rightarrow> string option" where
  "indented_story_label v =
     (case lazy_capture (rx_seq [Bos, rx_space, rx_upto 2 rx_space, heading_marks, rx_gap]) (rx_plus rx_dot)
             heading_close v of
        None \<Rightarrow> None
      | Some t \<Rightarrow> (if section_looks_story (Some (label_text t)) then Some (label_text t) else None))"

record list_item =
  li_line :: nat
  li_indent :: nat
  li_text :: string
  li_section :: "string option"

record item_scan =
  sc_section :: "string option"
  sc_reset :: bool
  sc_blank :: bool
  sc_items :: "list_item list"

definition next_section :: "item_scan \<Rightarrow> string \<Rightarrow> string option" where
  "next_section st line =
     (case normalize_section_label line of
        Some l \<Rightarrow> Some l
      | None \<Rightarrow> (if sc_blank st then indented_story_label line else None))"

definition scan_line :: "nat \<times> string \<Rightarrow> item_scan \<Rightarrow> item_scan" where
  "scan_line nl st =
     (let (n, line) = nl
      in if js_trim line = []
         then st\<lparr> sc_reset := (sc_reset st \<or> section_looks_non_story (sc_section st)), sc_blank := True \<rparr>
         else
           (let st1 = (if truthy_str (next_section st line)
                       then st\<lparr> sc_section := next_section st line, sc_reset := False, sc_blank := False \<rparr>
                       else st\<lparr> sc_blank := False \<rparr>)
            in case rx_capture Bos (Star rx_space)
                      (rx_seq [rx_alts [rx_char ''-*+'', Seq (rx_plus rx_digit) (rx_char ''.)'')], rx_gap,
                               rx_plus rx_dot, Eos]) line of
                 None \<Rightarrow> st1
               | Some ws \<Rightarrow>
                   (let indent = indent_width ws;
                        st2 = st1\<lparr> sc_section := (if sc_reset st1 \<and> indent = 0 then None else sc_section st1),
                                   sc_reset := False \<rparr>;
                        text = clean_line line
                    in if text = [] \<or> length text > 1200 then st2
                       else st2\<lparr> sc_items := sc_items st2 @
                              [\<lparr> li_line = n, li_indent = indent, li_text = text, li_section = sc_section st2 \<rparr>] \<rparr>)))"

definition parse_list_items :: "string list \<Rightarrow> list_item list" where
  "parse_list_items lines =
     sc_items (fold scan_line (zip [0..<length lines] lines)
       \<lparr> sc_section = None, sc_reset = False, sc_blank = False, sc_items = [] \<rparr>)"

subsection \<open>Deriving goals\<close>

text \<open>The lines nested under a list item, up to the next item at its level, a section that holds no
  stories, or the next parent.\<close>

fun nested_parts :: "nat \<Rightarrow> string list \<Rightarrow> string list" where
  "nested_parts parent [] = []"
| "nested_parts parent (line # ls) =
     (let indent = line_indent_width line
      in if indent \<le> parent \<and> section_looks_non_story (normalize_section_label line) then []
         else if ends list_marker line 0 \<noteq> [] \<and> indent \<le> parent then []
         else if indent \<le> parent \<or> js_trim line = [] then nested_parts parent ls
         else (let nested = clean_line line
               in if nested \<noteq> [] \<and> length nested \<le> 1200 then nested # nested_parts parent ls
                  else nested_parts parent ls))"

definition selected_item_objective :: "list_item \<Rightarrow> string list \<Rightarrow> nat option \<Rightarrow> string" where
  "selected_item_objective item lines next =
     (let stop = (case next of None \<Rightarrow> length lines | Some n \<Rightarrow> n)
      in js_join [CHR 0x0A] (li_text item #
           nested_parts (li_indent item) (drop (Suc (li_line item)) (take stop lines))))"

definition top_level_story_items :: "list_item list \<Rightarrow> list_item list" where
  "top_level_story_items items =
     (let story = filter (\<lambda>i. \<not> section_looks_non_story (li_section i)) items;
          sections = filter (\<lambda>i. section_looks_story (li_section i)) story;
          candidates = (if sections \<noteq> [] then sections else story)
      in filter (\<lambda>i. list_all (\<lambda>j. li_indent i \<le> li_indent j) candidates) candidates)"

definition max_implicit_goals :: nat where
  "max_implicit_goals = 20"

definition safe_implicit_goal_count :: "list_item list \<Rightarrow> list_item list \<Rightarrow> bool" where
  "safe_implicit_goal_count items parents \<longleftrightarrow>
     list_ex (\<lambda>i. section_looks_story (li_section i)) items \<or> length parents \<le> max_implicit_goals"

definition title_from_objective :: "string \<Rightarrow> string \<Rightarrow> string" where
  "title_from_objective objective fallback =
     (let first = (case List.find (\<lambda>l. l \<noteq> []) (map js_trim (js_lines objective)) of
                     None \<Rightarrow> fallback | Some l \<Rightarrow> l)
      in if length first > 72 then js_trim_end (take 69 first) @ ''...'' else first)"

text \<open>The objectives of the parent items, each with the line of the next parent.\<close>

fun parent_objectives :: "string list \<Rightarrow> list_item list \<Rightarrow> string list" where
  "parent_objectives lines [] = []"
| "parent_objectives lines [i] = [selected_item_objective i lines None]"
| "parent_objectives lines (i # j # is) =
     selected_item_objective i lines (Some (li_line j)) # parent_objectives lines (j # is)"

definition bullet_lines :: "string list \<Rightarrow> string list" where
  "bullet_lines lines =
     (let all = filter (\<lambda>(o1, c). c \<noteq> [] \<and> length c \<le> 1200) (map (\<lambda>l. (l, clean_line l)) lines)
      in map snd (map (\<lambda>n. all ! n)
           (filter (\<lambda>n. ends list_marker (fst (all ! n)) 0 \<noteq> []
                        \<and> find_index (\<lambda>x. snd x = snd (all ! n)) all = Some n) [0..<length all])))"

definition default_objective :: "string \<Rightarrow> string" where
  "default_objective brief =
     (if js_trim brief \<noteq> [] then js_trim brief else ''Complete the requested project objective.'')"

definition paragraphs :: "string \<Rightarrow> string list" where
  "paragraphs brief =
     filter (\<lambda>t. t \<noteq> [] \<and> \<not> js_starts_with t ''#'')
       (map js_trim (rx_split (rx_seq [Cls (\<lambda>c. c = CHR 0x0A), Star rx_space, Cls (\<lambda>c. c = CHR 0x0A)]) brief))"

definition goal_objectives :: "string \<Rightarrow> string list" where
  "goal_objectives brief =
     (let lines = js_lines brief;
          items = parse_list_items lines;
          from_lists = dedup (parent_objectives lines (top_level_story_items items));
          bullets = (if from_lists \<noteq> [] \<or> items \<noteq> [] then from_lists else bullet_lines lines);
          objectives = (if bullets \<noteq> [] then bullets
                        else if items \<noteq> [] then [default_objective brief] else paragraphs brief)
      in if objectives \<noteq> [] then objectives else [default_objective brief])"

definition derive_goal_candidates :: "string \<Rightarrow> ug_error + (string \<times> string) list" where
  "derive_goal_candidates brief =
     (let items = parse_list_items (js_lines brief);
          parents = top_level_story_items items;
          os = goal_objectives brief
      in if \<not> safe_implicit_goal_count items parents then Inl (TooManyImplicitGoals (length parents))
         else Inr (map (\<lambda>(n, b). (title_from_objective b (''Goal '' @ string_of_nat (Suc n)), b))
                     (zip [0..<length os] os)))"

subsection \<open>Creating a plan\<close>

record goal_input =
  gi_title :: "string option"
  gi_objective :: string
  gi_token_budget :: "int option"

definition candidate_goal :: "string \<Rightarrow> nat \<times> goal_input \<Rightarrow> ug_goal" where
  "candidate_goal now ng =
     (let (n, g) = ng;
          title = (case gi_title g of Some t \<Rightarrow> t
                   | None \<Rightarrow> title_from_objective (gi_objective g) (''Goal '' @ string_of_nat (Suc n)))
      in (fresh_goal (normalize_goal_id title n) title (js_trim (gi_objective g)) now)
           \<lparr> g_token_budget := gi_token_budget g \<rparr>)"

definition source_goals :: "string \<Rightarrow> goal_input list \<Rightarrow> ug_error + goal_input list" where
  "source_goals brief goals =
     (if goals \<noteq> [] then Inr goals
      else (case derive_goal_candidates brief of
              Inl e \<Rightarrow> Inl e
            | Inr cs \<Rightarrow> Inr (map (\<lambda>(t, b). \<lparr> gi_title = Some t, gi_objective = b, gi_token_budget = None \<rparr>) cs)))"

definition initial_plan :: "ug_goal list \<Rightarrow> goal_mode \<Rightarrow> string \<Rightarrow> ug_plan" where
  "initial_plan gs mode now =
     \<lparr> p_created = now, p_updated = now, p_mode = Some mode, p_objective = None, p_aliases = None, p_prefix = None,
       p_completion = None, p_active = None, p_goals = gs \<rparr>"

definition create_ultragoal_plan ::
    "lock_env \<Rightarrow> string \<Rightarrow> goal_input list \<Rightarrow> goal_mode option \<Rightarrow> bool \<Rightarrow> string \<Rightarrow> ug_store
      \<Rightarrow> (ug_error + ug_plan) \<times> ug_store" where
  "create_ultragoal_plan env brief goals mode force now =
     with_mutation_lock env (\<lambda>s.
       if \<not> force \<and> us_plan s \<noteq> NoPlan then (Inl PlanExists, s)
       else (case source_goals brief goals of
               Inl e \<Rightarrow> (Inl e, s)
             | Inr src \<Rightarrow>
                 (let gs = map (candidate_goal now) (zip [0..<length src] src);
                      m = (case mode of None \<Rightarrow> Aggregate | Some m' \<Rightarrow> m');
                      p0 = initial_plan gs m now;
                      pfx = lk_prefix env;
                      finish = (\<lambda>p. (Inr p, append_ledger (ledger_line now PlanCreated)
                                 \<lparr> us_plan = PlanFile p, us_ledger = [], us_ledger_corrupt = False,
                                   us_brief = Some (if brief \<noteq> [] \<and> last brief = CHR 0x0A then brief
                                                    else brief @ [CHR 0x0A]) \<rparr>))
                  in if m = PerStory then finish p0
                     else (case aggregate_objective pfx of
                             Inl e \<Rightarrow> (Inl e, s)
                           | Inr t \<Rightarrow> finish (p0\<lparr> p_prefix := (if pfx = [] then None else Some pfx),
                                                p_objective := Some t \<rparr>)))))"

subsection \<open>Architecture invariants\<close>

record required_invariant =
  ri_text :: string
  ri_artifact :: string

definition normalize_invariant_text :: "string \<Rightarrow> string" where
  "normalize_invariant_text s = js_lower (js_trim (collapse_ws (drop_emphasis s)))"

text \<open>The first invariant for each pair of normalised text and artifact.\<close>

fun unique_invariants :: "required_invariant list \<Rightarrow> required_invariant list" where
  "unique_invariants [] = []"
| "unique_invariants (r # rs) =
     r # filter (\<lambda>q. \<not> (normalize_invariant_text (ri_text q) = normalize_invariant_text (ri_text r)
                        \<and> ri_artifact q = ri_artifact r)) (unique_invariants rs)"

definition any_word_i :: "string list \<Rightarrow> rx" where
  "any_word_i ws = rx_alts (map rx_lit_i ws)"

definition plural_i :: "string \<Rightarrow> rx" where
  "plural_i w = Seq (rx_lit_i w) (rx_opt (rx_lit_i ''s''))"

definition inline_declaration :: "string \<Rightarrow> string option" where
  "inline_declaration t =
     (let colon = [Star rx_space, rx_char '':'', Star rx_space];
          domain = any_word_i [''architecture'', ''architectural'', ''domain''];
          first = rx_seq ([WordB, rx_opt (Seq (any_word_i [''non-negotiable'', ''required'']) rx_gap), domain, rx_gap,
                    rx_alts [plural_i ''invariant'', plural_i ''constraint'', plural_i ''non-negotiable'']] @ colon);
          second = rx_seq ([WordB, plural_i ''non-negotiable'', rx_gap, domain, rx_gap,
                     rx_alts [plural_i ''invariant'', plural_i ''constraint'']] @ colon)
      in case rx_capture first (rx_plus rx_dot) Eos t of
           Some m \<Rightarrow> Some m
         | None \<Rightarrow> rx_capture second (rx_plus rx_dot) Eos t)"

definition strip_quotes :: "string \<Rightarrow> string" where
  "strip_quotes s =
     (let q = {CHR 0x27, CHR 0x22}
      in case s of [] \<Rightarrow> [] | c # t \<Rightarrow> (if c \<in> q then strip_last q t else strip_last q s))"

definition invariant_from_inline :: "string \<Rightarrow> string option" where
  "invariant_from_inline line =
     (case inline_declaration (js_trim (strip_quotes (clean_line line))) of
        None \<Rightarrow> None
      | Some m \<Rightarrow>
          (let t = js_trim (strip_last {CHR ''.'', CHR '';''} (js_trim m)) in if t = [] then None else Some t))"

definition invariant_heading :: "string \<Rightarrow> string option" where
  "invariant_heading line =
     lazy_capture (rx_seq [Bos, rx_upto 3 rx_space, heading_marks, rx_gap]) (rx_plus rx_dot) heading_close line"

definition is_invariant_section :: "string \<Rightarrow> bool" where
  "is_invariant_section label \<longleftrightarrow>
     (let n = js_lower label
      in rx_test (any_word [''architecture'', ''architectural'', ''domain'', ''non-negotiable'']) n
         \<and> rx_test (rx_alts [rx_seq [WordB, plural ''invariant'', WordB], rx_seq [WordB, plural ''constraint'', WordB],
                          rx_seq [WordB, plural ''non-negotiable'', WordB]]) n)"

fun scan_invariants :: "bool \<Rightarrow> string list \<Rightarrow> string list" where
  "scan_invariants inside [] = []"
| "scan_invariants inside (line # ls) =
     (case invariant_heading line of
        Some label \<Rightarrow> scan_invariants (is_invariant_section label) ls
      | None \<Rightarrow>
          (case invariant_from_inline line of
             Some t \<Rightarrow> t # scan_invariants inside ls
           | None \<Rightarrow>
               (let item = clean_line line
                in if \<not> inside \<or> item = [] \<or> item = js_trim line then scan_invariants inside ls
                   else item # scan_invariants inside ls)))"

definition artifact_invariants :: "string \<Rightarrow> string \<Rightarrow> required_invariant list" where
  "artifact_invariants text artifact =
     unique_invariants (map (\<lambda>t. \<lparr> ri_text = t, ri_artifact = artifact \<rparr>)
       (filter (\<lambda>t. t \<noteq> []) (map js_trim (scan_invariants False (js_lines text)))))"

definition steering_texts :: "ledger_entry \<Rightarrow> string list" where
  "steering_texts e =
     (case le_steering e of
        None \<Rightarrow> []
      | Some a \<Rightarrow>
          (if le_event e \<noteq> SteeringAccepted \<or> \<not> au_accepted a then []
           else filter (\<lambda>t. js_trim t \<noteq> [])
                  (List.map_filter id [le_evidence e, le_message e, Some (au_evidence a), Some (au_rationale a), au_directive a])))"

definition steering_invariants :: "ledger_entry list \<Rightarrow> required_invariant list" where
  "steering_invariants es =
     unique_invariants
       (concat (map (\<lambda>t. artifact_invariants t ''.omx/ultragoal/ledger.jsonl'') (concat (map steering_texts es))))"

text \<open>\<open>None\<close> when the brief cannot be read.\<close>

definition required_architecture_invariants :: "ug_store \<Rightarrow> required_invariant list option" where
  "required_architecture_invariants s =
     map_option (\<lambda>brief. unique_invariants (artifact_invariants brief ''.omx/ultragoal/brief.md''
                                         @ steering_invariants (read_ledger s))) (us_brief s)"

end
