(* ===== verification/UltragoalRun.thy ===== *)
theory UltragoalRun
  imports UltragoalBrief
begin

text \<open>
  Running an ultragoal plan (\<open>src/ultragoal/artifacts.ts\<close>): the final quality gate, starting the
  next goal, the checkpoints that complete, fail or block a goal, and recording the blockers of
  a final review. The gate and the snapshot are untyped JSON values.
\<close>

subsection \<open>The quality gate\<close>

definition gate_text :: "js \<Rightarrow> string \<Rightarrow> gate_error + string" where
  "gate_text v label =
     (if trimmed v = [] then Inl (GateField (MissingGateField label)) else Inr (trimmed v))"

definition gate_part :: "js \<Rightarrow> string \<Rightarrow> gate_error + js" where
  "gate_part v label = (if is_object v then Inr v else Inl (GatePartMissing label))"

definition ensure :: "bool \<Rightarrow> gate_error \<Rightarrow> gate_error + unit" where
  "ensure c e = (if c then Inr () else Inl e)"

text \<open>The first check of a list that fails.\<close>

fun first_error :: "(gate_error + 'a) list \<Rightarrow> gate_error + unit" where
  "first_error [] = Inr ()"
| "first_error (Inl e # cs) = Inl e"
| "first_error (Inr _ # cs) = first_error cs"

definition void :: "gate_error + 'a \<Rightarrow> gate_error + unit" where
  "void x = (case x of Inl e \<Rightarrow> Inl e | Inr _ \<Rightarrow> Inr ())"

definition normalize_source_artifact :: "string \<Rightarrow> string" where
  "normalize_source_artifact v =
     map (\<lambda>c. if c = CHR 0x5C then CHR ''/'' else c) (takeWhile (\<lambda>c. c \<noteq> CHR ''#'') (js_trim v))"

definition references_artifact :: "string \<Rightarrow> string \<Rightarrow> bool" where
  "references_artifact source artifact \<longleftrightarrow>
     normalize_source_artifact source = normalize_source_artifact artifact"

text \<open>A proof record of an invariant: its normalised text and its source.\<close>

definition invariant_checks :: "string list \<Rightarrow> js \<Rightarrow> (gate_error + unit) list" where
  "invariant_checks sources v =
     (let text = trimmed (js_get v ''invariant''); source = trimmed (js_get v ''source'')
      in [ensure (is_object v) GateInvariantsMalformed,
          void (gate_text (js_get v ''invariant'') ''invariant''),
          void (gate_text (js_get v ''source'') ''source''),
          ensure (list_ex (references_artifact source) sources) (GateProvenance text),
          ensure (js_get v ''status'' = JStr ''proved'') (GateNotProved text),
          ensure (js_get v ''blockers'' = JUndef) (GateBlockers text),
          void (gate_text (js_get v ''implementationEvidence'') ''implementationEvidence''),
          void (gate_text (js_get v ''testEvidence'') ''testEvidence''),
          void (gate_text (js_get v ''reviewEvidence'') ''reviewEvidence'')])"

definition proof_record :: "js \<Rightarrow> string \<times> string" where
  "proof_record v = (normalize_invariant_text (trimmed (js_get v ''invariant'')), trimmed (js_get v ''source''))"

definition required_check :: "(string \<times> string) list \<Rightarrow> required_invariant \<Rightarrow> gate_error + unit" where
  "required_check proofs r =
     (let matches = filter (\<lambda>(k, _). k = normalize_invariant_text (ri_text r)) proofs
      in if matches = [] then Inl (GateProofMissing (ri_text r))
         else if \<not> list_ex (\<lambda>(_, src). references_artifact src (ri_artifact r)) matches
         then Inl (GateProofForeign (ri_text r)) else Inr ())"

definition array_items :: "js \<Rightarrow> js list" where
  "array_items v = (case v of JArr vs \<Rightarrow> vs | _ \<Rightarrow> [])"

definition is_array :: "js \<Rightarrow> bool" where
  "is_array v \<longleftrightarrow> js_array v \<noteq> None"

definition validate_invariant_gate :: "js \<Rightarrow> required_invariant list \<Rightarrow> gate_error + unit" where
  "validate_invariant_gate gate required =
     (let ig = js_get gate ''architectureInvariantGate'';
          sources = map trimmed (array_items (js_get ig ''sourceArtifacts''));
          records = array_items (js_get ig ''invariants'')
      in first_error
           ([void (gate_part ig ''architectureInvariantGate''),
             ensure (js_get ig ''status'' = JStr ''passed'') (GatePartNotPassed ''architectureInvariantGate''),
             ensure (is_array (js_get ig ''sourceArtifacts'')) (GateSourcesMissing [])]
            @ map (\<lambda>v. void (gate_text v ''sourceArtifacts'')) (array_items (js_get ig ''sourceArtifacts''))
            @ map (\<lambda>r. ensure (list_ex (\<lambda>src. references_artifact src (ri_artifact r)) sources)
                          (GateSourcesMissing (ri_artifact r))) required
            @ [void (gate_text (js_get ig ''evidence'') ''evidence''),
               ensure (is_array (js_get ig ''invariants'')) GateInvariantsMalformed]
            @ concat (map (invariant_checks sources) records)
            @ map (required_check (map proof_record records)) required))"

definition is_command :: "js \<Rightarrow> bool" where
  "is_command v \<longleftrightarrow> (case js_string v of None \<Rightarrow> False | Some t \<Rightarrow> js_trim t \<noteq> [])"

definition strict_gate_checks :: "js \<Rightarrow> (gate_error + unit) list" where
  "strict_gate_checks g =
     (let cleaner = js_get g ''aiSlopCleaner''; verification = js_get g ''verification''; review = js_get g ''codeReview'';
          commands = js_get verification ''commands''; independent = js_get review ''independentReview'';
          reviewer = js_get independent ''codeReviewer''; architect = js_get independent ''architect''
      in [void (gate_part cleaner ''aiSlopCleaner''),
          ensure (js_get cleaner ''status'' = JStr ''passed'') (GatePartNotPassed ''aiSlopCleaner''),
          void (gate_text (js_get cleaner ''evidence'') ''aiSlopCleaner.evidence''),
          void (gate_part verification ''verification''),
          ensure (js_get verification ''status'' = JStr ''passed'') (GatePartNotPassed ''verification''),
          ensure (is_array commands \<and> array_items commands \<noteq> [] \<and> list_all is_command (array_items commands))
            GateCommandsMissing,
          void (gate_text (js_get verification ''evidence'') ''verification.evidence''),
          void (gate_part review ''codeReview''),
          ensure (js_get review ''recommendation'' = JStr ''APPROVE'') (GateReviewNotClean ''recommendation''),
          ensure (js_get review ''architectStatus'' = JStr ''CLEAR'') (GateReviewNotClean ''architectStatus''),
          void (gate_text (js_get review ''evidence'') ''codeReview.evidence''),
          ensure (is_object independent) (GateReviewerMissing ''independentReview''),
          ensure (is_object reviewer) (GateReviewerMissing ''codeReviewer''),
          ensure (js_get reviewer ''agentRole'' = JStr ''code-reviewer'') (GateReviewerMissing ''codeReviewer''),
          void (gate_text (js_get reviewer ''evidence'') ''codeReviewer.evidence''),
          ensure (is_object architect) (GateReviewerMissing ''architect''),
          ensure (js_get architect ''agentRole'' = JStr ''architect'') (GateReviewerMissing ''architect''),
          void (gate_text (js_get architect ''evidence'') ''architect.evidence'')])"

definition ordinary_gate :: "js \<Rightarrow> js option" where
  "ordinary_gate v =
     (let verification = js_get v ''verification''; commands = js_get verification ''commands''
      in if is_object v \<and> is_object verification \<and> js_get verification ''status'' = JStr ''passed''
            \<and> is_array commands \<and> array_items commands \<noteq> [] \<and> trimmed (js_get verification ''evidence'') \<noteq> []
         then Some v else None)"

definition validate_quality_gate :: "js \<Rightarrow> required_invariant list \<Rightarrow> bool \<Rightarrow> gate_error + js option" where
  "validate_quality_gate v required strict =
     (if \<not> strict then Inr (ordinary_gate v)
      else if \<not> is_object v then Inl GateMissing
      else (case first_error (strict_gate_checks v) of
              Inl e \<Rightarrow> Inl e
            | Inr _ \<Rightarrow> (case validate_invariant_gate v required of
                           Inl e \<Rightarrow> Inl e
                         | Inr _ \<Rightarrow> Inr (Some v))))"

subsection \<open>Starting the next goal\<close>

definition started_goal :: "string \<Rightarrow> ug_goal \<Rightarrow> ug_goal" where
  "started_goal now g =
     clear_blocker_fields (g\<lparr> g_status := UInProgress, g_attempt := g_attempt g + 1, g_started := Some now,
       g_failed := None, g_failure_reason := None, g_updated := now \<rparr>)"

record start_result =
  sr_plan :: ug_plan
  sr_goal :: "ug_goal option"
  sr_resumed :: bool
  sr_done :: bool

definition start_result_of :: "ug_plan \<Rightarrow> ug_goal option \<Rightarrow> bool \<Rightarrow> bool \<Rightarrow> start_result" where
  "start_result_of p g r d = \<lparr> sr_plan = p, sr_goal = g, sr_resumed = r, sr_done = d \<rparr>"

definition is_running :: "ug_goal \<Rightarrow> bool" where
  "is_running g \<longleftrightarrow> g_status g = UInProgress \<and> is_schedule_eligible g"

definition is_startable :: "ug_goal \<Rightarrow> bool" where
  "is_startable g \<longleftrightarrow> g_status g = UPending \<and> is_schedule_eligible g"

definition is_retriable :: "ug_goal \<Rightarrow> bool" where
  "is_retriable g \<longleftrightarrow> g_status g = UFailed \<and> \<not> g_non_retriable g \<and> is_schedule_eligible g"

text \<open>The first goal that satisfies \<open>q\<close> is started in place.\<close>

definition begin_goal ::
    "(ug_goal \<Rightarrow> bool) \<Rightarrow> ug_goal \<Rightarrow> ug_plan \<Rightarrow> string \<Rightarrow> ug_store \<Rightarrow> (ug_error + start_result) \<times> ug_store" where
  "begin_goal q g p now s =
     (let g' = started_goal now g;
          p' = p\<lparr> p_goals := update_first q (started_goal now) (p_goals p), p_active := Some (g_id g),
                  p_updated := now \<rparr>
      in (Inr (start_result_of p' (Some g') False False),
          append_ledger (goal_line now GoalStarted g' None) (write_plan p' s)))"

definition start_next_ultragoal ::
    "lock_env \<Rightarrow> bool \<Rightarrow> string \<Rightarrow> ug_store \<Rightarrow> (ug_error + start_result) \<times> ug_store" where
  "start_next_ultragoal env retry_failed now =
     with_plan env (\<lambda>p s.
       if p_completion p \<noteq> None then (Inr (start_result_of p None False True), s)
       else (case List.find is_running (p_goals p) of
               Some g \<Rightarrow> (Inr (start_result_of p (Some g) True False), append_ledger (goal_line now GoalResumed g None) s)
             | None \<Rightarrow>
                 (case List.find is_startable (p_goals p) of
                    Some g \<Rightarrow> begin_goal is_startable g p now s
                  | None \<Rightarrow>
                      (case (if retry_failed then List.find is_retriable (p_goals p) else None) of
                         Some g \<Rightarrow>
                           begin_goal is_retriable g p now (append_ledger ((ledger_line now GoalRetried)
                             \<lparr> le_goal := Some (g_id g), le_status := Some UPending, le_message := g_failure_reason g \<rparr>) s)
                       | None \<Rightarrow> (Inr (start_result_of p None False (is_ultragoal_done p)), s)))))"

subsection \<open>Repeated authorization failures\<close>

text \<open>The punctuation and the URLs of the evidence are replaced by spaces.\<close>

definition normalize_blocker_evidence :: "string option \<Rightarrow> string" where
  "normalize_blocker_evidence v =
     (let t = js_lower (case v of None \<Rightarrow> [] | Some t \<Rightarrow> t);
          url = rx_seq [rx_lit ''http'', rx_opt (rx_char ''s''), rx_lit ''://'', rx_plus rx_nonspace];
          u = rx_replace_all url '' '' t;
          marks = [CHR 0x60, CHR 0x22, CHR 0x27, CHR ''('', CHR '')'', CHR ''['', CHR '']'', CHR ''{'', CHR ''}'',
                   CHR '':'', CHR '','', CHR '';'']
      in js_trim (collapse_ws (map (\<lambda>c. if c \<in> set marks then CHR '' '' else c) u)))"

definition mentions :: "string list \<Rightarrow> string \<Rightarrow> bool" where
  "mentions ws t \<longleftrightarrow> rx_test (any_word ws) t"

record authorization_blocker =
  ab_signature :: string
  ab_decision :: string

definition classify_authorization_blocker :: "string option \<Rightarrow> authorization_blocker option" where
  "classify_authorization_blocker evidence =
     (let n = normalize_blocker_evidence evidence
      in if n = [] then None
         else if \<not> mentions [''auth'', ''authorization'', ''credential'', ''credentials'', ''token'', ''permission'',
                  ''permissions'', ''scope'', ''scopes'', ''access'', ''unauthorized'', ''forbidden'', ''401'', ''403''] n
              \<or> \<not> mentions [''unset'', ''missing'', ''required'', ''requires'', ''without'', ''omit'', ''omits'', ''not set'',
                  ''not available'', ''no read packages'', ''read packages''] n then None
         else if mentions [''ghcr'', ''github container registry'', ''read packages'', ''imagepullsecret'', ''package api'',
                  ''anonymous image'', ''container image''] n
         then
           (let a = (if mentions [''401'', ''unauthorized'', ''anonymous pull'', ''authentication required''] n
                     then [''HTTP_401_ANONYMOUS''] else []);
                b = (if mentions [''403'', ''forbidden'', ''read packages'', ''package api''] n
                     then [''HTTP_403_NO_READ_PACKAGES''] else []);
                status = (if a @ b = [] then ''AUTHORIZATION_REQUIRED'' else js_join ''+'' (a @ b))
            in Some \<lparr> ab_signature = ''GHCR_PULL_ACCESS:'' @ status @ '':GHCR_VISIBILITY_OR_CREDENTIAL_REQUIRED'',
                      ab_decision = ''make the GHCR package public, or provide/authorize a least-privilege read:packages credential and imagePullSecret/SOPS path'' \<rparr>)
         else Some \<lparr> ab_signature = ''EXTERNAL_AUTHORIZATION_REQUIRED'',
                     ab_decision = ''provide the missing external authorization/credential, or explicitly choose a different unblock path'' \<rparr>)"

definition same_blocker_occurrences :: "ledger_entry list \<Rightarrow> string \<Rightarrow> string \<Rightarrow> nat" where
  "same_blocker_occurrences es i sig =
     length (filter (\<lambda>e. le_goal e = Some i \<and> (le_event e = GoalFailed \<or> le_event e = GoalNeedsDecision)
                         \<and> le_signature e = Some sig) es)"

subsection \<open>Checkpoints: what the snapshot allows\<close>

definition update_goal :: "string \<Rightarrow> (ug_goal \<Rightarrow> ug_goal) \<Rightarrow> ug_plan \<Rightarrow> ug_plan" where
  "update_goal i f p = p\<lparr> p_goals := update_first (\<lambda>g. g_id g = i) f (p_goals p) \<rparr>"

datatype checkpoint_status = CkComplete | CkFailed | CkBlocked

record checkpoint_options =
  co_goal :: string
  co_status :: checkpoint_status
  co_evidence :: "string option"
  co_codex_goal :: "js option"
  co_gate :: js
  co_strict :: bool
  co_allow_active :: bool
  co_now :: string

definition evidence_text :: "checkpoint_options \<Rightarrow> string" where
  "evidence_text opt = (case co_evidence opt of None \<Rightarrow> [] | Some t \<Rightarrow> t)"

definition checkpoint_snapshot :: "(string \<Rightarrow> js option) \<Rightarrow> js option \<Rightarrow> goal_snapshot option" where
  "checkpoint_snapshot parse v = map_option (parse_codex_goal_snapshot parse) v"

definition snapshot_objective :: "goal_snapshot \<Rightarrow> string" where
  "snapshot_objective s = (case gs_objective s of None \<Rightarrow> [] | Some t \<Rightarrow> t)"

definition mentions_plan_artifact :: "string \<Rightarrow> bool" where
  "mentions_plan_artifact t \<longleftrightarrow>
     (let n = js_lower t
      in js_includes n ''.omx/ultragoal'' \<or> js_includes n ''goals.json'' \<or> js_includes n ''ledger.jsonl'')"

definition has_completion_validation :: "string \<Rightarrow> bool" where
  "has_completion_validation t \<longleftrightarrow>
     (let n = js_lower t
      in mentions [''planned work'', ''implementation'', ''deliverable'', ''deliverables'', ''scope'', ''task'', ''work''] n
         \<and> mentions [''done'', ''complete'', ''completed'', ''finished'', ''shipped''] n
         \<and> mentions [''validation'', ''verification'', ''test'', ''tests'', ''build'', ''lint'', ''review'', ''quality gate'',
                      ''code-review''] n
         \<and> mentions [''passed'', ''complete'', ''completed'', ''clean'', ''green'', ''approve'', ''approved'', ''clear''] n)"

definition mapping_stop_words :: "string list" where
  "mapping_stop_words =
     [''about'', ''active'', ''aggregate'', ''audit'', ''brief'', ''build'', ''clean'', ''codex'', ''complete'',
      ''completed'', ''different'', ''evidence'', ''fix'', ''goal'', ''goals'', ''implementation'', ''json'', ''ledger'',
      ''omx'', ''plan'', ''planned'', ''reconcile'', ''task'', ''tests'', ''ultragoal'', ''unrelated'', ''validation'', ''work'']"

definition mapping_tokens :: "string \<Rightarrow> string list" where
  "mapping_tokens t =
     dedup (filter (\<lambda>w. 5 \<le> length w \<and> w \<notin> set mapping_stop_words)
       (rx_matches (rx_plus (Cls is_slug_char)) (js_lower t)))"

definition specific_token_overlap :: "string \<Rightarrow> string \<Rightarrow> bool" where
  "specific_token_overlap actual brief \<longleftrightarrow>
     (let a = mapping_tokens actual; b = mapping_tokens brief;
          shared = length (filter (\<lambda>w. w \<in> set b) a)
      in 4 \<le> length a \<and> 4 \<le> length b \<and> 4 \<le> shared \<and> 3 * min (length a) (length b) \<le> 5 * shared)"

definition objective_maps_to_plan :: "string option \<Rightarrow> string \<Rightarrow> bool" where
  "objective_maps_to_plan brief objective \<longleftrightarrow>
     (let actual = js_lower (normalize_objective objective)
      in 24 \<le> length actual
         \<and> (case brief of
              None \<Rightarrow> False
            | Some t \<Rightarrow>
                (let b = js_lower (normalize_objective t)
                 in 24 \<le> length b
                    \<and> (js_includes b actual \<or> js_includes actual b \<or> specific_token_overlap actual b))))"

definition is_active_goal :: "ug_plan \<Rightarrow> ug_goal \<Rightarrow> bool" where
  "is_active_goal p g \<longleftrightarrow> g_status g = UInProgress \<and> p_active p = Some (g_id g)"

definition can_reconcile_task_scoped ::
    "string option \<Rightarrow> ug_plan \<Rightarrow> ug_goal \<Rightarrow> string \<Rightarrow> string \<Rightarrow> bool" where
  "can_reconcile_task_scoped brief p g objective evidence \<longleftrightarrow>
     goal_mode_of p = Aggregate \<and> is_active_goal p g
     \<and> mentions_plan_artifact evidence \<and> js_includes (js_lower evidence) (js_lower (g_id g))
     \<and> has_completion_validation evidence \<and> objective_maps_to_plan brief objective"

definition describes_microgoal_loop :: "string \<Rightarrow> bool" where
  "describes_microgoal_loop evidence \<longleftrightarrow>
     (let n = js_lower (normalize_objective evidence)
      in js_includes n ''aggregate codex goal'' \<and> mentions [''complete'', ''completed''] n \<and> js_includes n ''microgoal''
         \<and> mentions [''unreconcilable'', ''mismatch'', ''loop'', ''already complete'', ''already completed'', ''block'', ''blocks''] n)"

definition is_safe_aggregate_blocker ::
    "ug_plan \<Rightarrow> ug_goal \<Rightarrow> string list \<Rightarrow> goal_snapshot \<Rightarrow> string \<Rightarrow> bool" where
  "is_safe_aggregate_blocker p g objectives snap evidence \<longleftrightarrow>
     goal_mode_of p = Aggregate \<and> is_active_goal p g \<and> gs_status snap = Some GComplete
     \<and> snapshot_objective snap \<noteq> [] \<and> describes_microgoal_loop evidence
     \<and> normalize_objective (snapshot_objective snap) \<in> set (map normalize_objective objectives)"

text \<open>A blocked checkpoint: the new failure reason, when it sets one, and the evidence of its entry.\<close>

definition required_evidence :: "checkpoint_options \<Rightarrow> ug_error + string" where
  "required_evidence opt =
     (case assert_non_empty (co_evidence opt) MissingEvidence of Inl e \<Rightarrow> Inl (Missing e) | Inr t \<Rightarrow> Inr t)"

definition blocked_objective_checkpoint ::
    "checkpoint_options \<Rightarrow> ug_plan \<Rightarrow> ug_goal \<Rightarrow> goal_snapshot \<Rightarrow> string list
      \<Rightarrow> ug_error + (string option \<times> string option)" where
  "blocked_objective_checkpoint opt p g snap objectives =
     (let matching = (normalize_objective (snapshot_objective snap) \<in> set (map normalize_objective objectives))
      in if gs_status snap = Some GBlocked
         then (if \<not> matching then Inl BlockedObjectiveMismatch
               else (case required_evidence opt of Inl e \<Rightarrow> Inl e | Inr t \<Rightarrow> Inr (None, Some t)))
         else if gs_status snap \<noteq> Some GComplete then Inl (BlockedStatus (gs_status snap))
         else if is_safe_aggregate_blocker p g objectives snap (evidence_text opt)
         then (case required_evidence opt of Inl e \<Rightarrow> Inl e | Inr t \<Rightarrow> Inr (Some t, co_evidence opt))
         else if matching then Inl BlockedForMatchingGoal
         else Inr (None, co_evidence opt))"

definition blocked_checkpoint ::
    "(string \<Rightarrow> js option) \<Rightarrow> checkpoint_options \<Rightarrow> ug_plan \<Rightarrow> ug_goal \<Rightarrow> ug_error + (string option \<times> string option)" where
  "blocked_checkpoint parse opt p g =
     (if g_status g \<noteq> UInProgress then Inl (NotInProgress (g_status g))
      else (case checkpoint_snapshot parse (co_codex_goal opt) of
              None \<Rightarrow> Inl SnapshotRequired
            | Some snap \<Rightarrow>
                (if gs_unavailable snap = Some DbSchemaContext \<or> gs_unavailable snap = Some ToolUnavailable
                 then (case required_evidence opt of Inl e \<Rightarrow> Inl e | Inr t \<Rightarrow> Inr (Some t, co_evidence opt))
                 else if \<not> gs_available snap then Inl SnapshotRequired
                 else if snapshot_objective snap = [] then Inl SnapshotObjectiveMissing
                 else (case expected_objective p g of
                         Inl e \<Rightarrow> Inl e
                       | Inr expected \<Rightarrow>
                           blocked_objective_checkpoint opt p g snap (expected # compatible_objectives p)))))"

definition apply_blocked ::
    "checkpoint_options \<Rightarrow> ug_plan \<Rightarrow> ug_goal \<Rightarrow> string option \<times> string option \<Rightarrow> ug_store \<Rightarrow> (ug_error + ug_plan) \<times> ug_store" where
  "apply_blocked opt p g re s =
     (let mark = (\<lambda>g. g\<lparr> g_updated := co_now opt,
                       g_failure_reason := (case fst re of None \<Rightarrow> g_failure_reason g | Some t \<Rightarrow> Some t) \<rparr>);
          p' = (update_goal (g_id g) mark p)\<lparr> p_active := Some (g_id g), p_updated := co_now opt \<rparr>
      in (Inr p', append_ledger (goal_line (co_now opt) GoalBlocked g (snd re)) (write_plan p' s)))"

subsection \<open>Checkpoints: completing and failing\<close>

definition completion_of :: "checkpoint_options \<Rightarrow> ug_error + aggregate_completion" where
  "completion_of opt =
     (case required_evidence opt of
        Inl e \<Rightarrow> Inl e
      | Inr t \<Rightarrow> Inr \<lparr> ac_completed_at = co_now opt, ac_evidence = t, ac_codex_goal = co_codex_goal opt \<rparr>)"

definition checkpoint_reconcile_options ::
    "checkpoint_options \<Rightarrow> ug_plan \<Rightarrow> bool \<Rightarrow> string \<Rightarrow> reconcile_options" where
  "checkpoint_reconcile_options opt p final expected =
     (let aggregate = (goal_mode_of p = Aggregate);
          closing = (final \<and> \<not> co_allow_active opt)
      in \<lparr> ro_expected = expected, ro_accepted = (if aggregate then compatible_objectives p else []),
           ro_allowed = Some (if aggregate then (if closing then [GComplete] else [GActive]) else [GComplete]),
           ro_require_snapshot = True, ro_require_complete = (\<not> aggregate \<or> closing) \<rparr>)"

text \<open>A snapshot that does not reconcile may still close the run when it reports a task scoped goal
  that maps to the brief.\<close>

definition task_scoped_completion ::
    "string option \<Rightarrow> checkpoint_options \<Rightarrow> ug_plan \<Rightarrow> ug_goal \<Rightarrow> goal_snapshot option \<Rightarrow> string \<Rightarrow> reconcile_issue list
      \<Rightarrow> ug_error + aggregate_completion option" where
  "task_scoped_completion brief opt p g snap expected issues =
     (case snap of
        None \<Rightarrow> Inl (ReconciliationFailed issues)
      | Some sn \<Rightarrow>
          (if gs_available sn \<and> gs_status sn = Some GComplete \<and> snapshot_objective sn \<noteq> []
              \<and> normalize_objective (snapshot_objective sn) \<noteq> normalize_objective expected
              \<and> can_reconcile_task_scoped brief p g (snapshot_objective sn) (evidence_text opt)
           then (if unresolved_review_blocked p \<noteq> []
                 then (if can_use_resolver_path p g (is_final_candidate p g) (co_allow_active opt)
                       then Inr None else Inl UnresolvedReviewBlockers)
                 else (case completion_of opt of Inl e \<Rightarrow> Inl e | Inr c \<Rightarrow> Inr (Some c)))
           else Inl (ReconciliationFailed issues)))"

text \<open>The completion that closes the plan by a task scoped goal, and the normal one.\<close>

definition completion_decision ::
    "(string \<Rightarrow> js option) \<Rightarrow> string option \<Rightarrow> checkpoint_options \<Rightarrow> ug_plan \<Rightarrow> ug_goal
      \<Rightarrow> ug_error + (aggregate_completion option \<times> aggregate_completion option)" where
  "completion_decision parse brief opt p g =
     (case expected_objective p g of
        Inl e \<Rightarrow> Inl e
      | Inr expected \<Rightarrow>
          (let final = is_final_candidate p g;
               snap = checkpoint_snapshot parse (co_codex_goal opt);
               rc = reconcile_goal_snapshot snap (checkpoint_reconcile_options opt p final expected)
           in case (if rc_ok rc then Inr None
                    else task_scoped_completion brief opt p g snap expected (rc_errors rc)) of
                Inl e \<Rightarrow> Inl e
              | Inr scoped \<Rightarrow>
                  (if goal_mode_of p = Aggregate \<and> can_persist_final_completion p g final (co_allow_active opt)
                   then (case completion_of opt of Inl e \<Rightarrow> Inl e | Inr c \<Rightarrow> Inr (scoped, Some c))
                   else Inr (scoped, None))))"

definition is_gate_candidate :: "checkpoint_options \<Rightarrow> ug_plan \<Rightarrow> ug_goal \<Rightarrow> aggregate_completion option \<Rightarrow> bool" where
  "is_gate_candidate opt p g scoped \<longleftrightarrow> scoped \<noteq> None \<or> is_final_candidate p g \<and> \<not> co_allow_active opt"

definition checkpoint_gate ::
    "checkpoint_options \<Rightarrow> ug_plan \<Rightarrow> ug_goal \<Rightarrow> aggregate_completion option \<Rightarrow> ug_store \<Rightarrow> ug_error + js option" where
  "checkpoint_gate opt p g scoped s =
     (if \<not> is_gate_candidate opt p g scoped then Inr None
      else (case required_architecture_invariants s of
              None \<Rightarrow> Inl BriefUnreadable
            | Some required \<Rightarrow>
                (case validate_quality_gate (co_gate opt) required (co_strict opt) of
                   Inl e \<Rightarrow> Inl (Gate e)
                 | Inr v \<Rightarrow> (if co_strict opt \<and> v = None then Inl (Gate GateMissing) else Inr v))))"

definition completed_goal :: "checkpoint_options \<Rightarrow> ug_goal \<Rightarrow> ug_goal" where
  "completed_goal opt g =
     clear_blocker_fields (g\<lparr> g_status := UComplete, g_completed := Some (co_now opt), g_updated := co_now opt,
       g_evidence := co_evidence opt, g_failure_reason := None, g_failed := None \<rparr>)"

definition resolved_parent_goal :: "checkpoint_options \<Rightarrow> string \<Rightarrow> ug_goal \<Rightarrow> ug_goal" where
  "resolved_parent_goal opt resolver g =
     clear_blocker_fields (g\<lparr> g_status := UComplete, g_completed := Some (co_now opt), g_updated := co_now opt,
       g_resolution := Some \<lparr> br_resolver = resolver, br_complete = True, br_resolved_at = Some (co_now opt),
                             br_evidence = co_evidence opt \<rparr> \<rparr>)"

definition release_active :: "string \<Rightarrow> ug_plan \<Rightarrow> ug_plan" where
  "release_active i p = (if p_active p = Some i then p\<lparr> p_active := None \<rparr> else p)"

definition resolved_parent :: "ug_plan \<Rightarrow> ug_goal \<Rightarrow> ug_goal option" where
  "resolved_parent p g =
     (case g_resolves g of
        None \<Rightarrow> None
      | Some i \<Rightarrow> (if i = [] then None else find_goal p i))"

definition resolves_parent :: "ug_plan \<Rightarrow> ug_goal \<Rightarrow> ug_goal \<Rightarrow> bool" where
  "resolves_parent p g parent \<longleftrightarrow>
     g_status parent = UReviewBlocked \<and> map_option br_resolver (g_resolution parent) = Some (g_id g)"

text \<open>The plan after a completed goal, and after a goal that closes the plan by a task scoped goal.\<close>

definition complete_plan ::
    "checkpoint_options \<Rightarrow> ug_plan \<Rightarrow> ug_goal \<Rightarrow> aggregate_completion option \<Rightarrow> js option \<Rightarrow> ug_plan" where
  "complete_plan opt p g normal gate =
     (let p1 = update_goal (g_id g) (completed_goal opt) p;
          p2 = (case normal of None \<Rightarrow> p1 | Some c \<Rightarrow> p1\<lparr> p_completion := Some c \<rparr>);
          p3 = (case resolved_parent p2 g of
                  None \<Rightarrow> p2
                | Some parent \<Rightarrow>
                    (if resolves_parent p2 g parent \<and> gate \<noteq> None
                     then update_goal (g_id parent) (resolved_parent_goal opt (g_id g)) p2 else p2))
      in (release_active (g_id g) p3)\<lparr> p_updated := co_now opt \<rparr>)"

definition task_scoped_plan :: "checkpoint_options \<Rightarrow> ug_plan \<Rightarrow> ug_goal \<Rightarrow> aggregate_completion \<Rightarrow> ug_plan" where
  "task_scoped_plan opt p g c =
     (release_active (g_id g) ((update_goal (g_id g) (completed_goal opt) p)\<lparr> p_completion := Some c \<rparr>))
       \<lparr> p_updated := co_now opt \<rparr>"

definition complete_lines ::
    "checkpoint_options \<Rightarrow> ug_plan \<Rightarrow> ug_goal \<Rightarrow> aggregate_completion option \<Rightarrow> ledger_entry list" where
  "complete_lines opt p g normal =
     (let now = co_now opt; g' = completed_goal opt g;
          parent = (case resolved_parent p g of
                      Some q \<Rightarrow> (case g_resolution q of
                                  Some r \<Rightarrow> (if br_complete r \<and> br_resolver r = g_id g
                                            then [goal_line now GoalCompleted q (co_evidence opt)] else [])
                                | None \<Rightarrow> [])
                    | None \<Rightarrow> [])
      in goal_line now GoalCompleted g' (co_evidence opt) # parent
           @ (if normal \<noteq> None then [goal_line now AggregateCompleted g' (co_evidence opt)] else []))"

definition failure_blocker :: "checkpoint_options \<Rightarrow> ug_store \<Rightarrow> (authorization_blocker \<times> nat) option" where
  "failure_blocker opt s =
     map_option (\<lambda>b. (b, Suc (same_blocker_occurrences (read_ledger s) (co_goal opt) (ab_signature b))))
       (classify_authorization_blocker (co_evidence opt))"

definition circuit_breaks :: "(authorization_blocker \<times> nat) option \<Rightarrow> bool" where
  "circuit_breaks b = (case b of None \<Rightarrow> False | Some (_, n) \<Rightarrow> 3 \<le> n)"

definition failed_goal :: "checkpoint_options \<Rightarrow> (authorization_blocker \<times> nat) option \<Rightarrow> ug_goal \<Rightarrow> ug_goal" where
  "failed_goal opt b g =
     g\<lparr> g_status := (if circuit_breaks b then UNeedsDecision else UFailed), g_updated := co_now opt,
        g_failed := Some (co_now opt), g_failure_reason := co_evidence opt,
        g_blocker_signature := map_option (ab_signature \<circ> fst) b, g_blocker_count := map_option snd b,
        g_required_decision := map_option (ab_decision \<circ> fst) b, g_non_retriable := circuit_breaks b,
        g_blocked_reason := (if circuit_breaks b then co_evidence opt else g_blocked_reason g) \<rparr>"

definition failed_plan :: "checkpoint_options \<Rightarrow> ug_plan \<Rightarrow> ug_goal \<Rightarrow> (authorization_blocker \<times> nat) option \<Rightarrow> ug_plan" where
  "failed_plan opt p g b =
     (release_active (g_id g) (update_goal (g_id g) (failed_goal opt b) p))\<lparr> p_updated := co_now opt \<rparr>"

definition failed_line :: "checkpoint_options \<Rightarrow> ug_goal \<Rightarrow> ledger_entry" where
  "failed_line opt g =
     (goal_line (co_now opt) (if g_status g = UNeedsDecision then GoalNeedsDecision else GoalFailed) g (co_evidence opt))
       \<lparr> le_signature := g_blocker_signature g, le_count := g_blocker_count g, le_decision := g_required_decision g \<rparr>"

definition append_all :: "ledger_entry list \<Rightarrow> ug_store \<Rightarrow> ug_store" where
  "append_all es s = fold append_ledger es s"

definition checkpoint_complete ::
    "(string \<Rightarrow> js option) \<Rightarrow> checkpoint_options \<Rightarrow> ug_plan \<Rightarrow> ug_goal \<Rightarrow> ug_store \<Rightarrow> (ug_error + ug_plan) \<times> ug_store" where
  "checkpoint_complete parse opt p g s =
     (case completion_decision parse (us_brief s) opt p g of
        Inl e \<Rightarrow> (Inl e, s)
      | Inr (scoped, normal) \<Rightarrow>
          (case checkpoint_gate opt p g scoped s of
             Inl e \<Rightarrow> (Inl e, s)
           | Inr gate \<Rightarrow>
               (case scoped of
                  Some c \<Rightarrow>
                    (let p' = task_scoped_plan opt p g c
                     in (Inr p', append_all [goal_line (co_now opt) GoalCompleted (completed_goal opt g) (co_evidence opt),
                                             goal_line (co_now opt) AggregateCompleted (completed_goal opt g) (co_evidence opt)]
                                   (write_plan p' s)))
                | None \<Rightarrow>
                    (let p' = complete_plan opt p g normal gate
                     in (Inr p', append_all (complete_lines opt p' g normal) (write_plan p' s))))))"

definition checkpoint_failed :: "checkpoint_options \<Rightarrow> ug_plan \<Rightarrow> ug_goal \<Rightarrow> ug_store \<Rightarrow> (ug_error + ug_plan) \<times> ug_store" where
  "checkpoint_failed opt p g s =
     (let b = failure_blocker opt s; p' = failed_plan opt p g b
      in (Inr p', append_ledger (failed_line opt (failed_goal opt b g)) (write_plan p' s)))"

definition checkpoint_ultragoal ::
    "(string \<Rightarrow> js option) \<Rightarrow> lock_env \<Rightarrow> checkpoint_options \<Rightarrow> ug_store \<Rightarrow> (ug_error + ug_plan) \<times> ug_store" where
  "checkpoint_ultragoal parse env opt =
     with_plan env (\<lambda>p s.
       case find_goal p (co_goal opt) of
         None \<Rightarrow> (Inl (UnknownGoal (co_goal opt)), s)
       | Some g \<Rightarrow>
           (if p_completion p \<noteq> None \<and> co_status opt \<noteq> CkComplete then (Inl TerminalReceipt, s)
            else (case co_status opt of
                    CkBlocked \<Rightarrow>
                      (case blocked_checkpoint parse opt p g of
                         Inl e \<Rightarrow> (Inl e, s)
                       | Inr re \<Rightarrow> apply_blocked opt p g re s)
                  | CkComplete \<Rightarrow> checkpoint_complete parse opt p g s
                  | CkFailed \<Rightarrow> checkpoint_failed opt p g s)))"

subsection \<open>Blockers of the final review\<close>

record blockers_options =
  rb_goal :: string
  rb_title :: string
  rb_objective :: string
  rb_evidence :: "string option"
  rb_codex_goal :: "js option"
  rb_now :: string

definition review_blocked_goal :: "blockers_options \<Rightarrow> string \<Rightarrow> ug_goal \<Rightarrow> ug_goal" where
  "review_blocked_goal opt resolver g =
     g\<lparr> g_status := UReviewBlocked, g_review_blocked := Some (rb_now opt), g_updated := rb_now opt,
        g_completed := None, g_failed := None, g_failure_reason := None, g_evidence := rb_evidence opt,
        g_resolution := Some \<lparr> br_resolver = resolver, br_complete = False, br_resolved_at = None,
                              br_evidence = rb_evidence opt \<rparr> \<rparr>"

definition blockers_reconcile_options :: "ug_plan \<Rightarrow> string \<Rightarrow> reconcile_options" where
  "blockers_reconcile_options p expected =
     \<lparr> ro_expected = expected, ro_accepted = (if goal_mode_of p = Aggregate then compatible_objectives p else []),
       ro_allowed = Some [GActive], ro_require_snapshot = True, ro_require_complete = False \<rparr>"

definition blockers_plan :: "blockers_options \<Rightarrow> ug_plan \<Rightarrow> ug_goal \<Rightarrow> missing_field + ug_plan \<times> ug_goal" where
  "blockers_plan opt p g =
     (case append_goal p (rb_title opt) (rb_objective opt) (rb_evidence opt) (Some (g_id g)) (rb_now opt) of
        Inl e \<Rightarrow> Inl e
      | Inr (p1, added) \<Rightarrow>
          Inr ((release_active (g_id g) (update_goal (g_id g) (review_blocked_goal opt (g_id added)) p1))
                 \<lparr> p_updated := rb_now opt \<rparr>, added))"

definition record_final_review_blockers ::
    "(string \<Rightarrow> js option) \<Rightarrow> lock_env \<Rightarrow> blockers_options \<Rightarrow> ug_store \<Rightarrow> (ug_error + ug_plan \<times> ug_goal) \<times> ug_store" where
  "record_final_review_blockers parse env opt =
     with_plan env (\<lambda>p s.
       case find_goal p (rb_goal opt) of
         None \<Rightarrow> (Inl (UnknownGoal (rb_goal opt)), s)
       | Some g \<Rightarrow>
           (case assert_non_empty (rb_evidence opt) MissingEvidence of
              Inl e \<Rightarrow> (Inl (Missing e), s)
            | Inr _ \<Rightarrow>
                (if g_status g \<noteq> UInProgress then (Inl (NotInProgress (g_status g)), s)
                 else if \<not> is_final_candidate p g then (Inl NotFinalCandidate, s)
                 else (case expected_objective p g of
                         Inl e \<Rightarrow> (Inl e, s)
                       | Inr expected \<Rightarrow>
                           (let rc = reconcile_goal_snapshot (checkpoint_snapshot parse (rb_codex_goal opt))
                                       (blockers_reconcile_options p expected)
                            in if \<not> rc_ok rc then (Inl (ReconciliationFailed (rc_errors rc)), s)
                               else (case blockers_plan opt p g of
                                       Inl e \<Rightarrow> (Inl (Missing e), s)
                                     | Inr (p', added) \<Rightarrow>
                                         (let g' = review_blocked_goal opt (g_id added) g
                                          in (Inr (p', added),
                                              append_all [goal_line (rb_now opt) FinalReviewFailed g' (rb_evidence opt),
                                                          (goal_line (rb_now opt) GoalAdded added (rb_evidence opt))
                                                            \<lparr> le_message := Some (g_title added) \<rparr>,
                                                          goal_line (rb_now opt) GoalReviewBlocked g' (rb_evidence opt)]
                                                (write_plan p' s)))))))))"

end
