(* ===== verification/UltragoalSteering.thy ===== *)
theory UltragoalSteering
  imports UltragoalRun
begin

text \<open>
  Steering an ultragoal plan (\<open>src/ultragoal/artifacts.ts\<close>): validating a proposal against the plan,
  applying an accepted one, and recording every outcome in the ledger. A proposal is modelled at
  its declared type; the payload \<open>after\<close> and the child goals stay untyped JSON, of which the title
  and objective of \<open>after\<close> are read as strings.
\<close>

subsection \<open>Proposals\<close>

datatype steering_kind =
    AddSubgoal | SplitSubgoal | ReorderPending | ReviseWording | AnnotateLedger | MarkBlockedSuperseded

definition steering_kinds :: "(string \<times> steering_kind) list" where
  "steering_kinds =
     [(''add_subgoal'', AddSubgoal), (''split_subgoal'', SplitSubgoal), (''reorder_pending'', ReorderPending),
      (''revise_pending_wording'', ReviseWording), (''annotate_ledger'', AnnotateLedger),
      (''mark_blocked_superseded'', MarkBlockedSuperseded)]"

definition steering_sources :: "string list" where
  "steering_sources = [''user_prompt_submit'', ''finding'', ''cli'']"

record steering_proposal =
  sp_kind :: string
  sp_source :: string
  sp_target :: "string option"
  sp_targets :: "string list option"
  sp_evidence :: string
  sp_rationale :: string
  sp_title :: "string option"
  sp_objective :: "string option"
  sp_children :: "js list option"
  sp_revised_title :: "string option"
  sp_revised_objective :: "string option"
  sp_order :: "string list option"
  sp_blocked_reason :: "string option"
  sp_after :: js
  sp_directive :: "string option"
  sp_signature :: "string option"
  sp_key :: "string option"

definition parse_steering_directive :: "(string \<Rightarrow> js option) \<Rightarrow> string \<Rightarrow> js option" where
  "parse_steering_directive parse raw =
     (let t = js_trim raw; named = (\<lambda>v k. \<exists>s \<in> set_option (js_string (js_get v k)). s \<noteq> [])
      in if length t < 5 then None
         else (case parse t of
                 None \<Rightarrow> None
               | Some v \<Rightarrow>
                   (if is_object v \<and> named v ''kind'' \<and> named v ''source'' \<and> named v ''evidence'' \<and> named v ''rationale''
                       \<and> js_string (js_get v ''kind'') \<in> Some ` set (map fst steering_kinds)
                       \<and> js_string (js_get v ''source'') \<in> Some ` set steering_sources
                    then Some v else None)))"

definition kind_of :: "steering_proposal \<Rightarrow> steering_kind option" where
  "kind_of q = map_of steering_kinds (sp_kind q)"

definition target_ids :: "steering_proposal \<Rightarrow> string list" where
  "target_ids q =
     (case sp_targets q of
        Some (i # is) \<Rightarrow> i # is
      | _ \<Rightarrow> (case sp_target q of None \<Rightarrow> [] | Some i \<Rightarrow> (if i = [] then [] else [i])))"

text \<open>The first target that is not in the plan, or the targets.\<close>

definition steering_targets :: "ug_plan \<Rightarrow> steering_proposal \<Rightarrow> string + ug_goal list" where
  "steering_targets p q =
     (case List.find (\<lambda>i. find_goal p i = None) (target_ids q) of
        Some i \<Rightarrow> Inl i
      | None \<Rightarrow> Inr (List.map_filter (find_goal p) (target_ids q)))"

definition first_target :: "ug_plan \<Rightarrow> steering_proposal \<Rightarrow> ug_goal option" where
  "first_target p q =
     (case steering_targets p q of Inl _ \<Rightarrow> None | Inr ts \<Rightarrow> (case ts of [] \<Rightarrow> None | t # _ \<Rightarrow> Some t))"

definition raw_children :: "steering_proposal \<Rightarrow> js list" where
  "raw_children q =
     (case sp_children q of
        Some (c # cs) \<Rightarrow> c # cs
      | _ \<Rightarrow> array_items (js_get (sp_after q) ''children''))"

definition is_valid_child :: "js \<Rightarrow> bool" where
  "is_valid_child v \<longleftrightarrow>
     is_object v \<and> \<not> is_array v \<and> trimmed (js_get v ''title'') \<noteq> [] \<and> trimmed (js_get v ''objective'') \<noteq> []"

text \<open>A child goal is spread into the options of \<open>appendGoalToPlan\<close>, so a
  \<open>resolvesReviewBlockedGoalId\<close> it carries is taken over.\<close>

definition child_text :: "js \<Rightarrow> string \<times> string \<times> string option" where
  "child_text v = (case js_string (js_get v ''title'') of None \<Rightarrow> [] | Some t \<Rightarrow> t,
                   case js_string (js_get v ''objective'') of None \<Rightarrow> [] | Some t \<Rightarrow> t,
                   js_string (js_get v ''resolvesReviewBlockedGoalId''))"

definition child_goals :: "steering_proposal \<Rightarrow> (string \<times> string \<times> string option) list" where
  "child_goals q = map child_text (filter is_valid_child (raw_children q))"

definition pending_order :: "steering_proposal \<Rightarrow> js list" where
  "pending_order q =
     (case sp_order q of
        Some (i # is) \<Rightarrow> map JStr (i # is)
      | _ \<Rightarrow> array_items (js_get (sp_after q) ''pendingGoalIds''))"

definition ordered_ids :: "steering_proposal \<Rightarrow> string list" where
  "ordered_ids q = List.map_filter js_string (pending_order q)"

definition revised_text :: "string option \<Rightarrow> js \<Rightarrow> string option \<Rightarrow> string option" where
  "revised_text revised after plain =
     (case revised of
        Some t \<Rightarrow> (if js_trim t \<noteq> [] then Some t else (case js_string after of Some a \<Rightarrow> Some a | None \<Rightarrow> plain))
      | None \<Rightarrow> (case js_string after of Some a \<Rightarrow> Some a | None \<Rightarrow> plain))"

definition revised_title :: "steering_proposal \<Rightarrow> string option" where
  "revised_title q = revised_text (sp_revised_title q) (js_get (sp_after q) ''title'') (sp_title q)"

definition revised_objective :: "steering_proposal \<Rightarrow> string option" where
  "revised_objective q = revised_text (sp_revised_objective q) (js_get (sp_after q) ''objective'') (sp_objective q)"

subsection \<open>Protected content\<close>

definition protected_keys :: "string list" where
  "protected_keys =
     [''aggregateCompletion'', ''brief'', ''briefPath'', ''codexObjective'', ''constraints'', ''completedAt'',
      ''statePathPrefix'', ''qualityGate'', ''status'']"

definition is_protected_key :: "string \<Rightarrow> bool" where
  "is_protected_key k \<longleftrightarrow> k \<in> set protected_keys \<or> js_includes (js_lower k) ''complete''"

fun has_protected_payload :: "js \<Rightarrow> bool" where
  "has_protected_payload (JObj r) = list_ex (\<lambda>kv. is_protected_key (fst kv) \<or> has_protected_payload (snd kv)) r"
| "has_protected_payload (JArr vs) = list_ex has_protected_payload vs"
| "has_protected_payload _ = False"

definition opt_list :: "string option \<Rightarrow> string list" where
  "opt_list x = (case x of None \<Rightarrow> [] | Some t \<Rightarrow> [t])"

definition child_texts :: "js \<Rightarrow> string list" where
  "child_texts v =
     (case v of JObj r \<Rightarrow> opt_list (js_string (rec_get r ''title'')) @ opt_list (js_string (rec_get r ''objective''))
      | _ \<Rightarrow> [])"

definition protected_intent_text :: "steering_proposal \<Rightarrow> string" where
  "protected_intent_text q =
     js_lower (js_join [CHR 0x0A]
       (opt_list (sp_title q) @ opt_list (sp_objective q) @ opt_list (sp_revised_title q) @ opt_list (sp_revised_objective q)
        @ opt_list (js_string (js_get (sp_after q) ''title'')) @ opt_list (js_string (js_get (sp_after q) ''objective''))
        @ [sp_rationale q] @ opt_list (sp_directive q) @ concat (map child_texts (raw_children q))))"

definition weakens_gates :: "string \<Rightarrow> bool" where
  "weakens_gates t \<longleftrightarrow>
     rx_test (rx_alts
       [rx_seq [any_word [''skip'', ''bypass'', ''weaken'', ''remove''], Star rx_dot,
                any_word [''test'', ''tests'', ''review'', ''verification'', ''quality gate'', ''complete'', ''completion'']],
        rx_seq [WordB, rx_lit ''auto'', rx_opt (rx_char ''- ''), rx_lit ''complete'', WordB]]) t"

definition mentions_weakened_completion :: "string \<Rightarrow> bool" where
  "mentions_weakened_completion t \<longleftrightarrow>
     rx_test (rx_seq [WordB,
        rx_alts [rx_words [''skip'', ''bypass'', ''weaken'', ''remove'', ''omit''],
                 rx_seq [rx_lit ''auto'', rx_opt (Alt (rx_char ''-'') rx_space), rx_lit ''complete''],
                 rx_words [''mark complete'', ''complete faster'']], WordB]) t
     \<and> mentions [''test'', ''tests'', ''verification'', ''review'', ''quality gate'', ''complete'', ''completion''] t"

subsection \<open>Validation\<close>

definition blank :: "string option \<Rightarrow> bool" where
  "blank t \<longleftrightarrow> (case t of None \<Rightarrow> True | Some s \<Rightarrow> js_trim s = [])"

definition reason_if :: "bool \<Rightarrow> string \<Rightarrow> string list" where
  "reason_if c r = (if c then [r] else [])"

definition general_reasons :: "ug_plan \<Rightarrow> steering_proposal \<Rightarrow> string list" where
  "general_reasons p q =
     reason_if (kind_of q = None) (''Invalid steering mutation kind: '' @ sp_kind q @ ''.'')
     @ reason_if (sp_source q \<notin> set steering_sources) (''Invalid steering source: '' @ sp_source q @ ''.'')
     @ reason_if (blank (Some (sp_evidence q)) \<or> blank (Some (sp_rationale q)))
         ''Steering requires non-empty evidence and rationale.''
     @ reason_if (has_protected_payload (sp_after q))
         ''Steering payload must not edit protected objective, constraint, quality gate, or completion fields.''
     @ reason_if (weakens_gates (protected_intent_text q))
         ''Steering must not weaken completion, quality gates, tests, reviews, or auto-complete work.''
     @ reason_if (p_completion p \<noteq> None) ''Cannot steer an already completed aggregate ultragoal plan.''"

definition needs_target :: "steering_kind \<Rightarrow> bool" where
  "needs_target k \<longleftrightarrow> k = SplitSubgoal \<or> k = ReviseWording \<or> k = MarkBlockedSuperseded"

definition needs_pending_target :: "steering_kind \<Rightarrow> bool" where
  "needs_pending_target k \<longleftrightarrow> k = SplitSubgoal \<or> k = ReviseWording"

definition target_reasons :: "ug_plan \<Rightarrow> steering_proposal \<Rightarrow> steering_kind \<Rightarrow> string list" where
  "target_reasons p q k =
     (let t = first_target p q
      in reason_if (needs_target k \<and> t = None) (sp_kind q @ '' requires a target goal id.'')
         @ reason_if (needs_pending_target k \<and> map_option g_status t \<noteq> Some UPending)
             (sp_kind q @ '' can only target a pending goal.''))"

definition pending_ids :: "ug_plan \<Rightarrow> string list" where
  "pending_ids p = map g_id (filter (\<lambda>g. g_status g = UPending \<and> is_schedule_eligible g) (p_goals p))"

definition kind_reasons :: "ug_plan \<Rightarrow> steering_proposal \<Rightarrow> steering_kind \<Rightarrow> string list" where
  "kind_reasons p q k =
     (case k of
        AddSubgoal \<Rightarrow> reason_if (blank (sp_title q) \<or> blank (sp_objective q)) ''add_subgoal requires title and objective.''
      | SplitSubgoal \<Rightarrow>
          reason_if (raw_children q = []) ''split_subgoal requires replacement child goals.''
          @ reason_if (\<not> list_all is_valid_child (raw_children q)) ''split_subgoal children require title and objective.''
      | MarkBlockedSuperseded \<Rightarrow>
          reason_if (\<not> list_all is_valid_child (raw_children q))
            ''mark_blocked_superseded replacement children require title and objective.''
      | ReorderPending \<Rightarrow>
          reason_if (pending_order q = []) ''reorder_pending requires at least one pending goal id.''
          @ reason_if (\<not> distinct (filter (\<lambda>v. \<not> is_object v) (pending_order q))) ''duplicate goal id in pendingOrder.''
          @ reason_if (\<not> list_all (\<lambda>v. v \<in> JStr ` set (pending_ids p)) (pending_order q))
              ''pendingOrder contains non-pending or unknown goal.''
      | ReviseWording \<Rightarrow>
          reason_if (blank (revised_title q) \<and> blank (revised_objective q)) ''revise_pending_wording requires title or objective.''
      | AnnotateLedger \<Rightarrow> reason_if (blank (Some (sp_evidence q))) ''annotate_ledger requires evidence.'')"

definition rejected_reasons :: "ug_plan \<Rightarrow> steering_proposal \<Rightarrow> string list" where
  "rejected_reasons p q =
     general_reasons p q
     @ (case steering_targets p q of Inl i \<Rightarrow> [''unknown ultragoal id: '' @ i] | Inr _ \<Rightarrow> [])
     @ (case kind_of q of None \<Rightarrow> [] | Some k \<Rightarrow> target_reasons p q k @ kind_reasons p q k)"

record steering_invariant =
  si_accepted :: bool
  si_necessity :: bool
  si_no_easier :: bool
  si_reasons :: "string list"

definition validate_steering_proposal :: "ug_plan \<Rightarrow> steering_proposal \<Rightarrow> steering_invariant" where
  "validate_steering_proposal p q =
     \<lparr> si_accepted = (rejected_reasons p q = []),
       si_necessity = (\<not> blank (Some (sp_evidence q)) \<and> \<not> blank (Some (sp_rationale q))),
       si_no_easier = (\<not> mentions_weakened_completion (protected_intent_text q)),
       si_reasons = rejected_reasons p q \<rparr>"

subsection \<open>Applying a proposal\<close>

text \<open>The children are appended one after another; the ids count the goals already there.\<close>

fun append_children ::
    "ug_plan \<Rightarrow> (string \<times> string \<times> string option) list \<Rightarrow> string \<Rightarrow> string \<Rightarrow> string
      \<Rightarrow> missing_field + (ug_plan \<times> string list)" where
  "append_children p [] target evidence now = Inr (p, [])"
| "append_children p ((t, b, r) # cs) target evidence now =
     (case append_goal p t b (Some evidence) r now of
        Inl e \<Rightarrow> Inl e
      | Inr (p', g) \<Rightarrow>
          (case append_children (p'\<lparr> p_goals := p_goals p @ [g\<lparr> g_supersedes := Some [target] \<rparr>] \<rparr>) cs target evidence now of
             Inl e \<Rightarrow> Inl e
           | Inr (p'', ids) \<Rightarrow> Inr (p'', g_id g # ids)))"

definition move_goals_after :: "string \<Rightarrow> string list \<Rightarrow> ug_plan \<Rightarrow> ug_plan" where
  "move_goals_after target ids p =
     (let moved = List.map_filter (find_goal p) ids;
          rest = filter (\<lambda>g. g_id g \<notin> set ids) (p_goals p);
          k = (case find_index (\<lambda>g. g_id g = target) rest of None \<Rightarrow> length rest | Some n \<Rightarrow> Suc n)
      in if moved = [] then p else p\<lparr> p_goals := take k rest @ moved @ drop k rest \<rparr>)"

definition steered :: "steering_proposal \<Rightarrow> string \<Rightarrow> ug_goal \<Rightarrow> ug_goal" where
  "steered q now g =
     g\<lparr> g_steering_evidence := Some (sp_evidence q), g_steering_rationale := Some (sp_rationale q), g_updated := now \<rparr>"

definition superseded_goal :: "steering_proposal \<Rightarrow> string list \<Rightarrow> string \<Rightarrow> ug_goal \<Rightarrow> ug_goal" where
  "superseded_goal q ids now g = steered q now (g\<lparr> g_steering := Some Superseded, g_superseded_by := Some ids \<rparr>)"

definition replace_by_children ::
    "ug_plan \<Rightarrow> steering_proposal \<Rightarrow> ug_goal \<Rightarrow> string \<Rightarrow> missing_field + ug_plan" where
  "replace_by_children p q target now =
     (case append_children p (child_goals q) (g_id target) (sp_evidence q) now of
        Inl e \<Rightarrow> Inl e
      | Inr (p1, ids) \<Rightarrow>
          Inr ((release_active (g_id target)
                  (move_goals_after (g_id target) ids (update_goal (g_id target) (superseded_goal q ids now) p1)))
                 \<lparr> p_updated := now \<rparr>))"

definition revised_goal :: "steering_proposal \<Rightarrow> string \<Rightarrow> ug_goal \<Rightarrow> ug_goal" where
  "revised_goal q now g =
     (let set_text = (\<lambda>t old. case t of None \<Rightarrow> old | Some s \<Rightarrow> (if js_trim s = [] then old else js_trim s))
      in steered q now (g\<lparr> g_title := set_text (revised_title q) (g_title g),
                          g_objective := set_text (revised_objective q) (g_objective g) \<rparr>))"

definition blocked_goal :: "steering_proposal \<Rightarrow> string \<Rightarrow> ug_goal \<Rightarrow> ug_goal" where
  "blocked_goal q now g =
     steered q now (g\<lparr> g_steering := Some SteeringBlocked,
       g_blocked_reason := Some (case sp_blocked_reason q of None \<Rightarrow> sp_rationale q | Some r \<Rightarrow> r) \<rparr>)"

definition reordered_plan :: "ug_plan \<Rightarrow> string list \<Rightarrow> string \<Rightarrow> ug_plan" where
  "reordered_plan p order now =
     p\<lparr> p_goals := List.map_filter (find_goal p) order @ filter (\<lambda>g. g_id g \<notin> set order) (p_goals p),
        p_updated := now \<rparr>"

datatype steering_failure = TargetLost | FieldMissing missing_field

definition apply_steering :: "ug_plan \<Rightarrow> steering_proposal \<Rightarrow> string \<Rightarrow> steering_failure + ug_plan" where
  "apply_steering p q now =
     (case kind_of q of
        None \<Rightarrow> Inr p
      | Some k \<Rightarrow>
          (case k of
             AddSubgoal \<Rightarrow>
               (case append_goal p (case sp_title q of None \<Rightarrow> [] | Some t \<Rightarrow> t)
                       (case sp_objective q of None \<Rightarrow> [] | Some t \<Rightarrow> t) (Some (sp_evidence q)) None now of
                  Inl e \<Rightarrow> Inl (FieldMissing e)
                | Inr (p', _) \<Rightarrow> Inr p')
           | AnnotateLedger \<Rightarrow> Inr p
           | ReorderPending \<Rightarrow> Inr (reordered_plan p (ordered_ids q) now)
           | _ \<Rightarrow>
               (case first_target p q of
                  None \<Rightarrow> Inl TargetLost
                | Some t \<Rightarrow>
                    (if k = ReviseWording
                     then Inr ((update_goal (g_id t) (revised_goal q now) p)\<lparr> p_updated := now \<rparr>)
                     else if k = SplitSubgoal \<or> child_goals q \<noteq> []
                     then (case replace_by_children p q t now of Inl e \<Rightarrow> Inl (FieldMissing e) | Inr p' \<Rightarrow> Inr p')
                     else Inr ((release_active (g_id t) (update_goal (g_id t) (blocked_goal q now) p))
                                 \<lparr> p_updated := now \<rparr>)))))"

subsection \<open>Steering\<close>

record steering_result =
  sr_plan_after :: ug_plan
  sr_accepted :: bool
  sr_audit :: steering_audit
  sr_reasons :: "string list"
  sr_deduped :: bool

definition accepted_before :: "string \<Rightarrow> ledger_entry \<Rightarrow> bool" where
  "accepted_before key e \<longleftrightarrow>
     le_event e = SteeringAccepted
     \<and> (case le_steering e of None \<Rightarrow> False | Some a \<Rightarrow> le_key e = Some key \<or> au_key a = Some key)"

definition previous_steering :: "steering_proposal \<Rightarrow> ug_store \<Rightarrow> steering_audit option" where
  "previous_steering q s =
     (case sp_key q of
        None \<Rightarrow> None
      | Some key \<Rightarrow> (if key = [] then None
                    else (case List.find (accepted_before key) (read_ledger s) of
                            None \<Rightarrow> None | Some e \<Rightarrow> le_steering e)))"

text \<open>The outcome of applying: whether it was accepted, the reasons against it and the plan.\<close>

definition steering_outcome :: "ug_plan \<Rightarrow> steering_proposal \<Rightarrow> string \<Rightarrow> bool \<times> string list \<times> ug_plan" where
  "steering_outcome p q now =
     (let v = validate_steering_proposal p q
      in if \<not> si_accepted v then (False, si_reasons v, p)
         else (case apply_steering p q now of
                 Inl _ \<Rightarrow> (False, si_reasons v @ [''Steering mutation failed''], p)
               | Inr p' \<Rightarrow> (True, si_reasons v, p')))"

definition audit_of :: "ug_plan \<Rightarrow> steering_proposal \<Rightarrow> bool \<Rightarrow> string list \<Rightarrow> string option \<Rightarrow> steering_audit" where
  "audit_of p q accepted reasons directive =
     \<lparr> au_kind = sp_kind q, au_source = sp_source q, au_targets = target_ids q, au_evidence = sp_evidence q,
       au_rationale = sp_rationale q, au_accepted = accepted,
       au_no_easier = si_no_easier (validate_steering_proposal p q), au_reasons = reasons,
       au_directive = (case directive of None \<Rightarrow> sp_directive q | Some t \<Rightarrow> Some t),
       au_signature = sp_signature q, au_key = sp_key q, au_deduped = False \<rparr>"

definition steering_line :: "steering_proposal \<Rightarrow> steering_audit \<Rightarrow> string \<Rightarrow> ledger_entry" where
  "steering_line q a now =
     (ledger_line now (if au_accepted a then SteeringAccepted else SteeringRejected))
       \<lparr> le_goal := (case target_ids q of [] \<Rightarrow> None | i # _ \<Rightarrow> Some i), le_evidence := Some (sp_evidence q),
         le_message := Some (sp_rationale q), le_steering := Some a \<rparr>"

definition steer_ultragoal ::
    "lock_env \<Rightarrow> steering_proposal \<Rightarrow> string option \<Rightarrow> string \<Rightarrow> ug_store \<Rightarrow> (ug_error + steering_result) \<times> ug_store" where
  "steer_ultragoal env q directive now =
     with_plan env (\<lambda>p s.
       case previous_steering q s of
         Some a \<Rightarrow>
           (Inr \<lparr> sr_plan_after = p, sr_accepted = True, sr_audit = a\<lparr> au_deduped := True \<rparr>, sr_reasons = [],
                  sr_deduped = True \<rparr>, s)
       | None \<Rightarrow>
           (let (accepted, reasons, p') = steering_outcome p q now;
                a = audit_of p q accepted reasons directive
            in (Inr \<lparr> sr_plan_after = p', sr_accepted = accepted, sr_audit = a, sr_reasons = reasons, sr_deduped = False \<rparr>,
                append_ledger (steering_line q a now) (if accepted then write_plan p' s else s))))"

end
