(* ===== verification/UltragoalLifecycle.thy ===== *)
theory UltragoalLifecycle
  imports UltragoalSteering "HOL-Library.Multiset"
begin

text \<open>
  The lifecycle of the goals of an ultragoal plan as an abstract machine, and the simulation of
  the operations of \<open>UltragoalStore\<close>, \<open>UltragoalRun\<close> and \<open>UltragoalSteering\<close> by it. A goal is seen as its
  identifier, its status, and whether steering leaves it to be scheduled.
\<close>

subsection \<open>Identifiers count the goals\<close>

definition id_number :: "string \<Rightarrow> nat" where
  "id_number i = nat_of_digits 0 (takeWhile is_digit (drop 1 i))"

lemma nat_of_digits_zeros: "nat_of_digits 0 (replicate k (CHR ''0'') @ s) = nat_of_digits 0 s"
  by (induction k) (simp_all add: digit_val_def)

lemma is_digit_zero: "is_digit (CHR ''0'')"
  by (simp add: is_digit_def)

lemma not_digit_dash: "\<not> is_digit (CHR ''-'')"
  by (simp add: is_digit_def)

lemma pad3_digits: "c \<in> set (pad3 n) \<Longrightarrow> is_digit c"
  using string_of_nat_digits [of n] is_digit_zero by (auto simp: pad3_def Let_def)

lemma id_number_normalize [simp]: "id_number (normalize_goal_id t n) = Suc n"
proof -
  have "takeWhile is_digit (pad3 (Suc n) @ (if title_slug t \<noteq> [] then CHR ''-'' # title_slug t else [])) = pad3 (Suc n)"
    using pad3_digits [of _ "Suc n"] not_digit_dash by (auto simp: takeWhile_append2 takeWhile_eq_all_conv)
  then show ?thesis
    by (simp add: id_number_def normalize_goal_id_def Let_def pad3_def nat_of_digits_zeros nat_of_digits_string_of_nat)
qed

subsection \<open>The abstract machine\<close>

type_synonym goal_view = "string \<times> ug_status \<times> bool"

definition view :: "ug_goal \<Rightarrow> goal_view" where
  "view g = (g_id g, g_status g, is_schedule_eligible g)"

abbreviation views :: "ug_plan \<Rightarrow> goal_view list" where
  "views p \<equiv> map view (p_goals p)"

definition runs :: "goal_view \<Rightarrow> bool" where
  "runs v \<longleftrightarrow> (case v of (i, s, e) \<Rightarrow> s = UInProgress \<and> e)"

inductive lifecycle_step :: "goal_view list \<Rightarrow> goal_view list \<Rightarrow> bool" where
  start: "\<not> list_ex runs xs \<Longrightarrow> k < length xs \<Longrightarrow> xs ! k = (i, s, True) \<Longrightarrow> s = UPending \<or> s = UFailed
            \<Longrightarrow> lifecycle_step xs (xs[k := (i, UInProgress, True)])"
| settle: "k < length xs \<Longrightarrow> xs ! k = (i, s, e) \<Longrightarrow> t = UComplete \<or> t = UFailed \<or> t = UNeedsDecision
            \<Longrightarrow> lifecycle_step xs (xs[k := (i, t, e)])"
| review: "k < length xs \<Longrightarrow> xs ! k = (i, UInProgress, e) \<Longrightarrow> lifecycle_step xs (xs[k := (i, UReviewBlocked, e)])"
| add: "lifecycle_step xs (xs @ [(normalize_goal_id t (length xs), UPending, True)])"
| exclude: "k < length xs \<Longrightarrow> xs ! k = (i, s, e) \<Longrightarrow> lifecycle_step xs (xs[k := (i, s, False)])"
| reorder: "mset ys = mset xs \<Longrightarrow> lifecycle_step xs ys"

inductive_cases lifecycle_stepE: "lifecycle_step xs ys"

definition lifecycle_ok :: "goal_view list \<Rightarrow> bool" where
  "lifecycle_ok xs \<longleftrightarrow>
     distinct (map (id_number \<circ> fst) xs) \<and> (\<forall>v \<in> set xs. 0 < id_number (fst v) \<and> id_number (fst v) \<le> length xs)
     \<and> length (filter runs xs) \<le> 1"

lemma filter_update_le:
  "\<not> q y \<Longrightarrow> length (filter q (xs[k := y])) \<le> length (filter q xs)"
proof (induction xs arbitrary: k)
  case (Cons x xs)
  show ?case
  proof (cases k)
    case (Suc m)
    then show ?thesis using Cons.IH [OF Cons.prems, of m] by simp
  qed (use Cons.prems in simp)
qed simp

lemma filter_update_none:
  "\<not> list_ex q xs \<Longrightarrow> length (filter q (xs[k := y])) \<le> 1"
proof (induction xs arbitrary: k)
  case (Cons x xs)
  have none: "filter q xs = []" using Cons.prems by (auto simp: filter_empty_conv list_ex_iff)
  show ?case
  proof (cases k)
    case (Suc m)
    then show ?thesis using Cons.IH [of m] Cons.prems by simp
  qed (simp add: none)
qed simp

lemma ok_update:
  assumes "lifecycle_ok xs" and "xs ! k = (i, s, e)" and "k < length xs"
    and "length (filter runs (xs[k := (i, t, f)])) \<le> 1"
  shows "lifecycle_ok (xs[k := (i, t, f)])"
proof -
  have same: "map (id_number \<circ> fst) (xs[k := (i, t, f)]) = map (id_number \<circ> fst) xs"
    using assms(2,3) by (simp add: map_update list_update_same_conv)
  have "(id_number \<circ> fst) ` set (xs[k := (i, t, f)]) = (id_number \<circ> fst) ` set xs"
    unfolding set_map [symmetric] same ..
  moreover have "\<forall>n \<in> (id_number \<circ> fst) ` set xs. 0 < n \<and> n \<le> length xs"
    using assms(1) by (simp add: lifecycle_ok_def)
  ultimately have "\<forall>v \<in> set (xs[k := (i, t, f)]). 0 < id_number (fst v) \<and> id_number (fst v) \<le> length xs"
    by (metis comp_apply image_eqI)
  then show ?thesis using assms(1,4) same by (simp add: lifecycle_ok_def)
qed

lemma lifecycle_ok_step:
  assumes "lifecycle_step xs ys" and ok: "lifecycle_ok xs"
  shows "lifecycle_ok ys"
  using assms(1)
proof cases
  case (start k i s)
  then show ?thesis using ok_update [OF ok] filter_update_none by metis
next
  case (settle k i s e t)
  then have "\<not> runs (i, t, e)" by (auto simp: runs_def)
  with settle show ?thesis
    using ok_update [OF ok, of k i s e t e] filter_update_le [of runs "(i, t, e)" xs k] ok by (auto simp: lifecycle_ok_def)
next
  case (review k i e)
  have "\<not> runs (i, UReviewBlocked, e)" by (simp add: runs_def)
  with review show ?thesis
    using ok_update [OF ok, of k i UInProgress e UReviewBlocked e] filter_update_le [of runs "(i, UReviewBlocked, e)" xs k] ok
    by (auto simp: lifecycle_ok_def)
next
  case (add t)
  have "Suc (length xs) \<notin> (id_number \<circ> fst) ` set xs" using ok by (auto simp: lifecycle_ok_def)
  then show ?thesis using ok unfolding add by (auto simp: lifecycle_ok_def runs_def image_iff)
next
  case (exclude k i s e)
  have "\<not> runs (i, s, False)" by (simp add: runs_def)
  with exclude show ?thesis
    using ok_update [OF ok, of k i s e s False] filter_update_le [of runs "(i, s, False)" xs k] ok by (auto simp: lifecycle_ok_def)
next
  case reorder
  have "mset (map (id_number \<circ> fst) ys) = mset (map (id_number \<circ> fst) xs)"
    and "length (filter runs ys) = length (filter runs xs)"
    using reorder by (simp, metis mset_filter size_mset)
  moreover have "distinct (map (id_number \<circ> fst) ys)"
    using calculation(1) ok unfolding lifecycle_ok_def by (metis mset_eq_imp_distinct_iff)
  ultimately show ?thesis
    using ok mset_eq_setD [OF reorder] mset_eq_length [OF reorder] by (simp add: lifecycle_ok_def)
qed

lemma lifecycle_ok_steps: "lifecycle_step\<^sup>*\<^sup>* xs ys \<Longrightarrow> lifecycle_ok xs \<Longrightarrow> lifecycle_ok ys"
  by (induction rule: rtranclp_induct) (auto intro: lifecycle_ok_step)

subsection \<open>Reading the plan\<close>

definition stored_goals :: "ug_store \<Rightarrow> ug_goal list" where
  "stored_goals s = (case us_plan s of PlanFile p \<Rightarrow> p_goals p | _ \<Rightarrow> [])"

lemma stored_goals_simps [simp]:
  "stored_goals (write_plan p s) = p_goals p"
  "stored_goals (append_ledger e s) = stored_goals s"
  "us_plan (write_plan p s) = PlanFile p"
  "us_plan (append_ledger e s) = us_plan s"
  by (simp_all add: stored_goals_def write_plan_def append_ledger_def)

lemma stored_goals_append_all [simp]: "stored_goals (append_all es s) = stored_goals s"
  by (induction es arbitrary: s) (simp_all add: append_all_def)

lemma us_plan_append_all [simp]: "us_plan (append_all es s) = us_plan s"
  by (induction es arbitrary: s) (simp_all add: append_all_def)

lemma read_plan_under_lock_ok:
  assumes "read_plan_under_lock pfx now s = (Inr p, s')"
  shows "us_plan s' = PlanFile p \<and> p_goals p = stored_goals s"
  using assms unfolding read_plan_under_lock_def read_plan_file_def stored_goals_def
  by (auto simp: migrated_plan_def Let_def split: plan_file.splits sum.splits if_splits)

lemma read_plan_under_lock_error:
  "read_plan_under_lock pfx now s = (Inl e, s') \<Longrightarrow> s' = s"
  unfolding read_plan_under_lock_def by (auto simp: Let_def split: sum.splits if_splits)

text \<open>A mutator either throws before it has a plan, and changes nothing, or runs its body on the
  stored goals.\<close>

lemma with_plan_cases:
  assumes "with_plan env body s = (r, s')"
  obtains (refused) e where "r = Inl e" and "s' = s"
  | (ran) p s1 where "us_plan s1 = PlanFile p" and "p_goals p = stored_goals s" and "body p s1 = (r, s')"
      and "us_ledger_corrupt s1 = us_ledger_corrupt s" and "us_brief s1 = us_brief s"
      and "read_plan_under_lock (lk_prefix env) (lk_clock env) s = (Inr p, s1)"
proof -
  let ?read = "read_plan_under_lock (lk_prefix env) (lk_clock env) s"
  have frame: "us_ledger_corrupt (snd ?read) = us_ledger_corrupt s" "us_brief (snd ?read) = us_brief s"
    unfolding read_plan_under_lock_def
    by (auto simp: Let_def append_ledger_def write_plan_def split: sum.splits if_splits)
  show thesis
  proof (cases "(\<exists>e. r = Inl e) \<and> s' = s")
    case True
    then show thesis using refused by blast
  next
    case False
    then have *: "(case ?read of (Inl e, s') \<Rightarrow> (Inl e, s') | (Inr p, s') \<Rightarrow> body p s') = (r, s')"
      using assms unfolding with_plan_def with_mutation_lock_def by (auto split: sum.splits if_splits)
    obtain o1 s1 where read: "?read = (o1, s1)" by fastforce
    with * False read_plan_under_lock_error obtain p where "o1 = Inr p" by (cases o1) auto
    with * read frame read_plan_under_lock_ok [of _ _ s p s1] show thesis by (intro ran [of s1 p]) auto
  qed
qed

subsection \<open>Updates seen abstractly\<close>

lemma update_first_find:
  assumes "List.find q gs = Some g"
  shows "\<exists>k < length gs. gs ! k = g \<and> update_first q f gs = gs[k := f g]"
  using assms
proof (induction gs)
  case (Cons x gs)
  show ?case
  proof (cases "q x")
    case True
    with Cons.prems show ?thesis by (intro exI [of _ 0]) simp
  next
    case False
    with Cons obtain k where "k < length gs" "gs ! k = g" "update_first q f gs = gs[k := f g]" by auto
    with False show ?thesis by (intro exI [of _ "Suc k"]) simp
  qed
qed simp

lemma update_first_view:
  assumes "List.find q gs = Some g"
  obtains k where "k < length (map view gs)" and "map view gs ! k = view g"
    and "map view (update_first q f gs) = (map view gs)[k := view (f g)]"
  using update_first_find [OF assms, of f] by (auto simp: map_update)

lemma p_goals_update_goal [simp]: "p_goals (update_goal i f p) = update_first (\<lambda>g. g_id g = i) f (p_goals p)"
  by (simp add: update_goal_def)

lemma p_goals_release_active [simp]: "p_goals (release_active i p) = p_goals p"
  by (simp add: release_active_def)

lemma is_schedule_eligible_cong: "g_steering g = g_steering h \<Longrightarrow> is_schedule_eligible g = is_schedule_eligible h"
  by (simp add: is_schedule_eligible_def)

lemma view_same: "map view (update_first q f gs) = map view gs" if "\<And>g. view (f g) = view g"
  using map_update_first_frame [of view f] that by blast

lemma settle_update:
  assumes "find_goal p i = Some g" and "view (f g) = (g_id g, t, is_schedule_eligible g)"
    and "t = UComplete \<or> t = UFailed \<or> t = UNeedsDecision"
  shows "lifecycle_step (views p) (views (update_goal i f p))"
proof -
  obtain k where "k < length (views p)" "views p ! k = view g"
    "map view (update_first (\<lambda>g. g_id g = i) f (p_goals p)) = (views p)[k := view (f g)]"
    using update_first_view [OF assms(1) [unfolded find_goal_def]] by metis
  with assms lifecycle_step.settle [of k "views p" "g_id g" "g_status g" "is_schedule_eligible g" t]
  show ?thesis by (simp add: view_def)
qed

lemma exclude_update:
  assumes "find_goal p i = Some g" and "view (f g) = (g_id g, g_status g, False)"
  shows "lifecycle_step (views p) (views (update_goal i f p))"
proof -
  obtain k where "k < length (views p)" "views p ! k = view g"
    "map view (update_first (\<lambda>g. g_id g = i) f (p_goals p)) = (views p)[k := view (f g)]"
    using update_first_view [OF assms(1) [unfolded find_goal_def]] by metis
  with assms lifecycle_step.exclude [of k "views p" "g_id g" "g_status g" "is_schedule_eligible g"]
  show ?thesis by (simp add: view_def)
qed

lemma review_update:
  assumes "find_goal p i = Some g" and "g_status g = UInProgress"
    and "view (f g) = (g_id g, UReviewBlocked, is_schedule_eligible g)"
  shows "lifecycle_step (views p) (views (update_goal i f p))"
proof -
  obtain k where "k < length (views p)" "views p ! k = view g"
    "map view (update_first (\<lambda>g. g_id g = i) f (p_goals p)) = (views p)[k := view (f g)]"
    using update_first_view [OF assms(1) [unfolded find_goal_def]] by metis
  with assms lifecycle_step.review [of k "views p" "g_id g" "is_schedule_eligible g"]
  show ?thesis by (simp add: view_def)
qed

lemma start_update:
  assumes "List.find is_running gs = None" and "List.find q gs = Some g"
    and "view g = (g_id g, g_status g, True)" and "g_status g = UPending \<or> g_status g = UFailed"
    and "view (f g) = (g_id g, UInProgress, True)"
  shows "lifecycle_step (map view gs) (map view (update_first q f gs))"
proof -
  obtain k where k: "k < length (map view gs)" "map view gs ! k = view g"
    "map view (update_first q f gs) = (map view gs)[k := view (f g)]"
    using update_first_view [OF assms(2)] by metis
  have "\<not> list_ex runs (map view gs)"
    using assms(1) by (auto simp: find_None_iff list_ex_iff runs_def view_def is_running_def)
  with k assms(3-5) lifecycle_step.start [of "map view gs" k "g_id g" "g_status g"] show ?thesis by simp
qed

lemma append_goal_ok:
  assumes "append_goal p t b ev r now = Inr (p', g)"
  shows "p_goals p' = p_goals p @ [g]" and "view g = (normalize_goal_id (js_trim t) (length (p_goals p)), UPending, True)"
    and "g_resolution g = None" and "g_steering g = None" and "g_evidence g = ev" and "g_resolves g = r"
    and "p_completion p' = p_completion p" and "p_active p' = p_active p" and "p_mode p' = p_mode p" and "g_attempt g = 0"
  using assms unfolding append_goal_def
  by (auto simp: fresh_goal_def view_def is_schedule_eligible_def assert_non_empty_def Let_def split: sum.splits if_splits)

lemma add_goal:
  assumes "append_goal p t b ev r now = Inr (p', g)"
  shows "lifecycle_step (views p) (views p')"
  using append_goal_ok [OF assms] lifecycle_step.add [of "views p" "js_trim t"] by simp

subsection \<open>Simulation of the operations\<close>

lemma view_changes [simp]:
  "view (started_goal now g) = (g_id g, UInProgress, is_schedule_eligible g)"
  "view (completed_goal opt g) = (g_id g, UComplete, is_schedule_eligible g)"
  "view (resolved_parent_goal opt i g) = (g_id g, UComplete, is_schedule_eligible g)"
  "view (review_blocked_goal ropt i g) = (g_id g, UReviewBlocked, is_schedule_eligible g)"
  "view (superseded_goal q ids now g) = (g_id g, g_status g, False)"
  "view (blocked_goal q now g) = (g_id g, g_status g, False)"
  "view (revised_goal q now g) = view g"
  "view (g\<lparr> g_updated := u, g_failure_reason := r \<rparr>) = view g"
  "view (g\<lparr> g_supersedes := x \<rparr>) = view g"
  by (simp_all add: view_def started_goal_def clear_blocker_fields_def completed_goal_def resolved_parent_goal_def
      review_blocked_goal_def superseded_goal_def blocked_goal_def revised_goal_def steered_def is_schedule_eligible_def
      Let_def)

lemma view_failed_goal:
  "view (failed_goal opt b g) = (g_id g, if circuit_breaks b then UNeedsDecision else UFailed, is_schedule_eligible g)"
  by (simp add: view_def failed_goal_def is_schedule_eligible_def)

definition simulates :: "ug_plan \<Rightarrow> ug_store \<Rightarrow> bool" where
  "simulates p s \<longleftrightarrow> lifecycle_step\<^sup>*\<^sup>* (views p) (map view (stored_goals s))"

lemma simulates_same [intro]: "us_plan s = PlanFile p \<Longrightarrow> simulates p s"
  by (simp add: simulates_def stored_goals_def)

lemma simulates_step: "lifecycle_step (views p) (map view (stored_goals s)) \<Longrightarrow> simulates p s"
  by (simp add: simulates_def r_into_rtranclp)

text \<open>A mutator simulates when its body does, whatever the stored plan was before.\<close>

lemma with_plan_simulates:
  assumes "with_plan env body s = (r, s')"
    and "\<And>p s1. us_plan s1 = PlanFile p \<Longrightarrow> p_goals p = stored_goals s \<Longrightarrow> simulates p (snd (body p s1))"
  shows "lifecycle_step\<^sup>*\<^sup>* (map view (stored_goals s)) (map view (stored_goals s'))"
  using assms(1)
proof (cases rule: with_plan_cases)
  case (ran p s1)
  with assms(2) [of s1 p] show ?thesis by (simp add: simulates_def)
qed simp

lemma sim_add:
  assumes "add_ultragoal_goal env t b ev now s = (r, s')"
  shows "lifecycle_step\<^sup>*\<^sup>* (map view (stored_goals s)) (map view (stored_goals s'))"
  using assms unfolding add_ultragoal_goal_def
proof (rule with_plan_simulates)
  fix p and s1 :: ug_store assume plan: "us_plan s1 = PlanFile p"
  then have same: "simulates p s1" by auto
  have "simulates p (append_ledger e (write_plan p' s1))" if "append_goal p t b ev None now = Inr (p', g)" for p' g e
    using add_goal [OF that] by (intro simulates_step) simp
  with same show "simulates p (snd (if p_completion p \<noteq> None then (Inl CompletedPlan, s1)
       else (case append_goal p t b ev None now of
               Inl e \<Rightarrow> (Inl (Missing e), s1)
             | Inr (p', g) \<Rightarrow>
                 (Inr (p', g), append_ledger ((goal_line now GoalAdded g ev)\<lparr> le_message := Some (g_title g) \<rparr>)
                                 (write_plan p' s1)))))"
    by (auto split: sum.split)
qed

lemma sim_begin:
  assumes "List.find is_running (p_goals p) = None" and "List.find q (p_goals p) = Some g"
    and "is_schedule_eligible g" and "g_status g = UPending \<or> g_status g = UFailed"
  shows "simulates p (snd (begin_goal q g p now s))"
proof -
  have "view g = (g_id g, g_status g, True)" using assms(3) by (simp add: view_def)
  then show ?thesis
    using start_update [OF assms(1,2), of "started_goal now"] assms(3,4)
    by (intro simulates_step) (simp add: begin_goal_def Let_def)
qed

lemma sim_start:
  assumes "start_next_ultragoal env retry now s = (r, s')"
  shows "lifecycle_step\<^sup>*\<^sup>* (map view (stored_goals s)) (map view (stored_goals s'))"
  using assms unfolding start_next_ultragoal_def
proof (rule with_plan_simulates)
  fix p and s1 :: ug_store assume plan: "us_plan s1 = PlanFile p"
  have same: "simulates p (append_ledger e s1)" "simulates p s1" for e using plan by auto
  have 1: "simulates p (snd (begin_goal is_startable g p now s2))"
    if "List.find is_running (p_goals p) = None" "List.find is_startable (p_goals p) = Some g" for g s2
    using sim_begin [OF that] find_SomeD [OF that(2)] by (simp add: is_startable_def)
  have 2: "simulates p (snd (begin_goal is_retriable g p now s2))"
    if "List.find is_running (p_goals p) = None" "List.find is_retriable (p_goals p) = Some g" for g s2
    using sim_begin [OF that] find_SomeD [OF that(2)] by (simp add: is_retriable_def)
  show "simulates p (snd (if p_completion p \<noteq> None then (Inr (start_result_of p None False True), s1)
       else (case List.find is_running (p_goals p) of
               Some g \<Rightarrow> (Inr (start_result_of p (Some g) True False), append_ledger (goal_line now GoalResumed g None) s1)
             | None \<Rightarrow>
                 (case List.find is_startable (p_goals p) of
                    Some g \<Rightarrow> begin_goal is_startable g p now s1
                  | None \<Rightarrow>
                      (case (if retry then List.find is_retriable (p_goals p) else None) of
                         Some g \<Rightarrow>
                           begin_goal is_retriable g p now (append_ledger ((ledger_line now GoalRetried)
                             \<lparr> le_goal := Some (g_id g), le_status := Some UPending, le_message := g_failure_reason g \<rparr>) s1)
                       | None \<Rightarrow> (Inr (start_result_of p None False (is_ultragoal_done p)), s1))))))"
    using same 1 2 by (auto split: option.splits)
qed

lemma sim_complete_plan:
  assumes "find_goal p (g_id g) = Some g"
  shows "lifecycle_step\<^sup>*\<^sup>* (views p) (views (complete_plan opt p g normal gate))"
proof -
  let ?p1 = "update_goal (g_id g) (completed_goal opt) p"
  let ?p2 = "case normal of None \<Rightarrow> ?p1 | Some c \<Rightarrow> ?p1\<lparr> p_completion := Some c \<rparr>"
  have one: "lifecycle_step (views p) (views ?p2)"
    using settle_update [OF assms, of "completed_goal opt" UComplete] by (auto split: option.splits)
  have two: "lifecycle_step (views ?p2) (views (update_goal (g_id parent) (resolved_parent_goal opt (g_id g)) ?p2))"
    if "resolved_parent ?p2 g = Some parent" for parent
  proof -
    have "find_goal ?p2 (g_id parent) = Some parent"
      using that unfolding resolved_parent_def find_goal_def
      by (auto split: option.splits if_splits dest: find_SomeD)
    then show ?thesis by (rule settle_update) auto
  qed
  show ?thesis
  proof (cases "resolved_parent ?p2 g")
    case None
    then show ?thesis using one by (simp add: complete_plan_def Let_def r_into_rtranclp)
  next
    case (Some parent)
    then show ?thesis using one two [OF Some]
      by (auto simp: complete_plan_def Let_def intro: rtranclp.rtrancl_into_rtrancl)
  qed
qed

lemma find_goal_id: "find_goal p i = Some g \<Longrightarrow> g_id g = i \<and> g \<in> set (p_goals p)"
  unfolding find_goal_def by (drule find_SomeD) simp

lemma sim_checkpoint_complete:
  assumes "us_plan s = PlanFile p" and "find_goal p (g_id g) = Some g"
  shows "simulates p (snd (checkpoint_complete parse opt p g s))"
proof -
  have scoped: "lifecycle_step (views p) (views (task_scoped_plan opt p g c))" for c
    using settle_update [OF assms(2), of "completed_goal opt" UComplete] by (simp add: task_scoped_plan_def)
  show ?thesis
    using sim_complete_plan [OF assms(2)] scoped assms(1) unfolding checkpoint_complete_def
    by (auto simp: simulates_def Let_def stored_goals_def split: sum.splits option.splits)
qed

lemma sim_checkpoint:
  "checkpoint_ultragoal parse env opt s = (r, s')
     \<Longrightarrow> lifecycle_step\<^sup>*\<^sup>* (map view (stored_goals s)) (map view (stored_goals s'))"
  unfolding checkpoint_ultragoal_def
proof (erule with_plan_simulates)
  fix p and s1 :: ug_store assume plan: "us_plan s1 = PlanFile p"
  have same: "simulates p s1" using plan by auto
  have blocked: "simulates p (snd (apply_blocked opt p g re s1))" if "find_goal p (g_id g) = Some g" for g re
    by (simp add: apply_blocked_def simulates_def Let_def view_same)
  have failed: "simulates p (snd (checkpoint_failed opt p g s1))" if "find_goal p (g_id g) = Some g" for g
    using settle_update [OF that, of "failed_goal opt (failure_blocker opt s1)"]
    by (intro simulates_step) (simp add: checkpoint_failed_def failed_plan_def Let_def view_failed_goal)
  show "simulates p (snd (case find_goal p (co_goal opt) of
         None \<Rightarrow> (Inl (UnknownGoal (co_goal opt)), s1)
       | Some g \<Rightarrow>
           (if p_completion p \<noteq> None \<and> co_status opt \<noteq> CkComplete then (Inl TerminalReceipt, s1)
            else (case co_status opt of
                    CkBlocked \<Rightarrow>
                      (case blocked_checkpoint parse opt p g of
                         Inl e \<Rightarrow> (Inl e, s1)
                       | Inr re \<Rightarrow> apply_blocked opt p g re s1)
                  | CkComplete \<Rightarrow> checkpoint_complete parse opt p g s1
                  | CkFailed \<Rightarrow> checkpoint_failed opt p g s1))))"
  proof (cases "find_goal p (co_goal opt)")
    case (Some g)
    then have "find_goal p (g_id g) = Some g" using find_goal_id by metis
    with Some same show ?thesis
      using blocked failed sim_checkpoint_complete [OF plan] by (auto split: checkpoint_status.splits sum.splits)
  qed (use same in simp)
qed

lemma find_append_other:
  "find_goal p i = Some g \<Longrightarrow> p_goals p' = p_goals p @ [h] \<Longrightarrow> find_goal p' i = Some g"
  by (simp add: find_goal_def find_append)

lemma sim_blockers_plan:
  assumes "find_goal p (g_id g) = Some g" and "g_status g = UInProgress" and "blockers_plan opt p g = Inr (p', added)"
  shows "lifecycle_step\<^sup>*\<^sup>* (views p) (views p')"
proof -
  obtain p1 where p1: "append_goal p (rb_title opt) (rb_objective opt) (rb_evidence opt) (Some (g_id g)) (rb_now opt)
      = Inr (p1, added)" and p': "p_goals p' = update_first (\<lambda>h. g_id h = g_id g) (review_blocked_goal opt (g_id added)) (p_goals p1)"
    using assms(3) unfolding blockers_plan_def by (auto split: sum.splits)
  have "find_goal p1 (g_id g) = Some g" using find_append_other [OF assms(1) append_goal_ok(1) [OF p1]] .
  then have "lifecycle_step (views p1) (views p')"
    using review_update [of p1 "g_id g" g "review_blocked_goal opt (g_id added)"] assms(2) p' by simp
  with add_goal [OF p1] show ?thesis by (auto intro: rtranclp.rtrancl_into_rtrancl)
qed

lemma sim_blockers:
  assumes "record_final_review_blockers parse env opt s = (r, s')"
  shows "lifecycle_step\<^sup>*\<^sup>* (map view (stored_goals s)) (map view (stored_goals s'))"
  using assms unfolding record_final_review_blockers_def
proof (rule with_plan_simulates)
  fix p and s1 :: ug_store assume plan: "us_plan s1 = PlanFile p"
  then have same: "simulates p s1" by auto
  have change: "simulates p (append_all es (write_plan p' s1))"
    if "find_goal p (rb_goal opt) = Some g" "g_status g = UInProgress" "blockers_plan opt p g = Inr (p', added)" for g p' added es
  proof -
    have "find_goal p (g_id g) = Some g" using that(1) find_goal_id by metis
    from sim_blockers_plan [OF this that(2,3)] show ?thesis by (simp add: simulates_def)
  qed
  show "simulates p (snd (case find_goal p (rb_goal opt) of
         None \<Rightarrow> (Inl (UnknownGoal (rb_goal opt)), s1)
       | Some g \<Rightarrow>
           (case assert_non_empty (rb_evidence opt) MissingEvidence of
              Inl e \<Rightarrow> (Inl (Missing e), s1)
            | Inr _ \<Rightarrow>
                (if g_status g \<noteq> UInProgress then (Inl (NotInProgress (g_status g)), s1)
                 else if \<not> is_final_candidate p g then (Inl NotFinalCandidate, s1)
                 else (case expected_objective p g of
                         Inl e \<Rightarrow> (Inl e, s1)
                       | Inr expected \<Rightarrow>
                           (let rc = reconcile_goal_snapshot (checkpoint_snapshot parse (rb_codex_goal opt))
                                       (blockers_reconcile_options p expected)
                            in if \<not> rc_ok rc then (Inl (ReconciliationFailed (rc_errors rc)), s1)
                               else (case blockers_plan opt p g of
                                       Inl e \<Rightarrow> (Inl (Missing e), s1)
                                     | Inr (p', added) \<Rightarrow>
                                         (let g' = review_blocked_goal opt (g_id added) g
                                          in (Inr (p', added),
                                              append_all [goal_line (rb_now opt) FinalReviewFailed g' (rb_evidence opt),
                                                          (goal_line (rb_now opt) GoalAdded added (rb_evidence opt))
                                                            \<lparr> le_message := Some (g_title added) \<rparr>,
                                                          goal_line (rb_now opt) GoalReviewBlocked g' (rb_evidence opt)]
                                                (write_plan p' s1))))))))))"
    using same change by (auto simp: Let_def split: option.split sum.split)
qed

subsection \<open>Simulation of steering\<close>

lemma set_map_filter_iff: "y \<in> set (List.map_filter f xs) \<longleftrightarrow> (\<exists>x \<in> set xs. f x = Some y)"
  by (induction xs) (auto simp: List.map_filter_simps split: option.splits)

lemma mset_map_filter_find:
  assumes "distinct (map f gs)" and "distinct is"
  shows "mset (List.map_filter (\<lambda>i. List.find (\<lambda>g. f g = i) gs) is) = mset (filter (\<lambda>g. f g \<in> set is) gs)"
proof -
  let ?find = "\<lambda>i. List.find (\<lambda>g. f g = i) gs"
  have key: "?find i = Some g \<longleftrightarrow> g \<in> set gs \<and> f g = i" for i g
    using find_key [OF assms(1), of g] by (auto dest: find_SomeD)
  have "distinct (List.map_filter ?find js)" if "distinct js" for js
    using that
  proof (induction js)
    case (Cons j js)
    have "g \<notin> set (List.map_filter ?find js)" if "?find j = Some g" for g
      using that Cons.prems key by (auto simp: set_map_filter_iff)
    with Cons show ?case by (auto simp: List.map_filter_simps split: option.split)
  qed (simp add: List.map_filter_simps)
  moreover have "distinct (filter (\<lambda>g. f g \<in> set is) gs)" using assms(1) by (auto simp: distinct_map)
  moreover have "set (List.map_filter ?find is) = set (filter (\<lambda>g. f g \<in> set is) gs)"
    using key by (auto simp: set_map_filter_iff)
  ultimately show ?thesis using assms(2) set_eq_iff_mset_eq_distinct by blast
qed

lemma mset_partition_ids:
  assumes "distinct (map g_id (p_goals p))" and "distinct is"
  shows "mset (List.map_filter (find_goal p) is) + mset (filter (\<lambda>g. g_id g \<notin> set is) (p_goals p)) = mset (p_goals p)"
proof -
  have "mset (List.map_filter (find_goal p) is) = mset (filter (\<lambda>g. g_id g \<in> set is) (p_goals p))"
    using mset_map_filter_find [OF assms] unfolding find_goal_def .
  then show ?thesis by (simp add: multiset_partition [symmetric])
qed

lemma mset_reordered:
  "distinct (map g_id (p_goals p)) \<Longrightarrow> distinct is
     \<Longrightarrow> mset (p_goals (reordered_plan p is now)) = mset (p_goals p)"
  using mset_partition_ids by (simp add: reordered_plan_def)

lemma mset_move_goals_after:
  assumes "distinct (map g_id (p_goals p))" and "distinct is"
  shows "mset (p_goals (move_goals_after t is p)) = mset (p_goals p)"
proof -
  let ?rest = "filter (\<lambda>g. g_id g \<notin> set is) (p_goals p)"
  have "mset (take k ?rest) + mset (drop k ?rest) = mset ?rest" for k
    by (metis append_take_drop_id mset_append)
  with mset_partition_ids [OF assms] show ?thesis
    by (auto simp: move_goals_after_def Let_def add.assoc add.left_commute)
qed

lemma reorder_views: "mset (p_goals p') = mset (p_goals p) \<Longrightarrow> lifecycle_step (views p) (views p')"
  by (rule lifecycle_step.reorder) simp

lemma lifecycle_ok_ids: "lifecycle_ok (map view gs) \<Longrightarrow> distinct (map g_id gs)"
proof -
  assume "lifecycle_ok (map view gs)"
  then have "distinct (map id_number (map g_id gs))"
    by (simp add: lifecycle_ok_def view_def comp_def)
  then show ?thesis using distinct_map by blast
qed

lemma append_children_steps:
  assumes "append_children p cs t ev now = Inr (p', ids)"
  shows "lifecycle_step\<^sup>*\<^sup>* (views p) (views p')
    \<and> p_completion p' = p_completion p \<and> p_mode p' = p_mode p
    \<and> (\<exists>new. p_goals p' = p_goals p @ new \<and> ids = map g_id new
          \<and> (\<forall>g \<in> set new. g_status g = UPending \<and> g_attempt g = 0 \<and> g_evidence g = Some ev))"
  using assms
proof (induction p cs t ev now arbitrary: p' ids rule: append_children.induct)
  case (2 p tt b r cs target evidence now)
  obtain p1 g where one: "append_goal p tt b (Some evidence) r now = Inr (p1, g)"
    using 2(2) by (auto split: sum.splits)
  let ?p2 = "p1\<lparr> p_goals := p_goals p @ [g\<lparr> g_supersedes := Some [target] \<rparr>] \<rparr>"
  obtain ids' where rest: "append_children ?p2 cs target evidence now = Inr (p', ids')" and ids: "ids = g_id g # ids'"
    using 2(2) one by (auto split: sum.splits)
  have "lifecycle_step (views p) (views ?p2)"
    using add_goal [OF one] append_goal_ok(1) [OF one] by simp
  moreover from 2(1) [OF one refl rest] obtain new where
    new: "lifecycle_step\<^sup>*\<^sup>* (views ?p2) (views p')" "p_goals p' = p_goals ?p2 @ new" "ids' = map g_id new"
      "p_completion p' = p_completion ?p2" "p_mode p' = p_mode ?p2"
      "\<forall>g \<in> set new. g_status g = UPending \<and> g_attempt g = 0 \<and> g_evidence g = Some evidence"
    by blast
  ultimately have steps: "lifecycle_step\<^sup>*\<^sup>* (views p) (views p')" by (auto intro: converse_rtranclp_into_rtranclp)
  have "g_status g = UPending" using append_goal_ok(2) [OF one] by (simp add: view_def)
  then show ?case
    using ids append_goal_ok [OF one] new steps
    by (intro conjI exI [of _ "g\<lparr> g_supersedes := Some [target] \<rparr> # new"]) auto
qed auto

lemma replace_by_children_steps:
  assumes "replace_by_children p q t now = Inr p'" and "find_goal p (g_id t) = Some t" and ok: "lifecycle_ok (views p)"
  shows "lifecycle_step\<^sup>*\<^sup>* (views p) (views p')"
proof -
  obtain p1 ids where one: "append_children p (child_goals q) (g_id t) (sp_evidence q) now = Inr (p1, ids)"
    and p': "p_goals p' = p_goals (move_goals_after (g_id t) ids (update_goal (g_id t) (superseded_goal q ids now) p1))"
    using assms(1) unfolding replace_by_children_def by (auto split: sum.splits)
  let ?p2 = "update_goal (g_id t) (superseded_goal q ids now) p1"
  obtain new where grow: "lifecycle_step\<^sup>*\<^sup>* (views p) (views p1)" and new: "p_goals p1 = p_goals p @ new"
    and ids: "ids = map g_id new"
    using append_children_steps [OF one] by blast
  have ok1: "lifecycle_ok (views p1)" using grow ok by (rule lifecycle_ok_steps)
  have "find_goal p1 (g_id t) = Some t" using assms(2) new by (simp add: find_goal_def find_append)
  then have two: "lifecycle_step (views p1) (views ?p2)" by (rule exclude_update) simp
  have "lifecycle_ok (views ?p2)" using lifecycle_ok_step [OF two ok1] .
  then have "distinct (map g_id (p_goals ?p2))" by (rule lifecycle_ok_ids)
  moreover have "distinct ids" using lifecycle_ok_ids [OF ok1] by (simp add: new ids)
  ultimately have "lifecycle_step (views ?p2) (views p')"
    using p' by (intro reorder_views) (simp only: mset_move_goals_after)
  with two grow show ?thesis by (meson rtranclp.rtrancl_into_rtrancl)
qed

lemma ordered_ids_distinct:
  assumes "kind_of q = Some ReorderPending" and "rejected_reasons p q = []"
  shows "distinct (ordered_ids q)" and "set (ordered_ids q) \<subseteq> set (pending_ids p)"
proof -
  have all: "\<forall>v \<in> set (pending_order q). v \<in> JStr ` set (pending_ids p)"
    and d: "distinct (filter (\<lambda>v. \<not> is_object v) (pending_order q))"
    using assms by (auto simp: rejected_reasons_def kind_reasons_def reason_if_def list_all_iff split: if_splits)
  then have "filter (\<lambda>v. \<not> is_object v) (pending_order q) = pending_order q" by (auto simp: filter_id_conv)
  with d have d': "distinct (pending_order q)" by simp
  obtain js where js: "pending_order q = map JStr js"
    using all ex_map_conv [of "pending_order q" JStr] by blast
  have ids: "ordered_ids q = js"
    unfolding ordered_ids_def js by (induction js) auto
  show "distinct (ordered_ids q)" using d' unfolding ids js by (simp add: distinct_map)
  show "set (ordered_ids q) \<subseteq> set (pending_ids p)" using all unfolding ids js by auto
qed

lemma first_target_find: "first_target p q = Some t \<Longrightarrow> find_goal p (g_id t) = Some t"
proof -
  assume *: "first_target p q = Some t"
  then have "t \<in> set (List.map_filter (find_goal p) (target_ids q))"
    by (auto simp: first_target_def steering_targets_def split: sum.splits list.splits option.splits)
  then obtain i where "find_goal p i = Some t" by (auto simp: set_map_filter_iff)
  then show ?thesis using find_goal_id by metis
qed

lemma apply_steering_cases:
  assumes "apply_steering p q now = Inr p'"
  obtains (same) "p' = p"
  | (add) t b g where "kind_of q = Some AddSubgoal" and "append_goal p t b (Some (sp_evidence q)) None now = Inr (p', g)"
  | (reorder) "kind_of q = Some ReorderPending" and "p' = reordered_plan p (ordered_ids q) now"
  | (revise) t where "kind_of q = Some ReviseWording" and "first_target p q = Some t"
      and "p_goals p' = p_goals (update_goal (g_id t) (revised_goal q now) p)" and "p_completion p' = p_completion p"
      and "p_mode p' = p_mode p"
  | (replace) t where "kind_of q = Some SplitSubgoal \<or> kind_of q = Some MarkBlockedSuperseded"
      and "first_target p q = Some t" and "replace_by_children p q t now = Inr p'"
  | (block) t where "kind_of q = Some MarkBlockedSuperseded" and "first_target p q = Some t"
      and "p_goals p' = p_goals (update_goal (g_id t) (blocked_goal q now) p)" and "p_completion p' = p_completion p"
      and "p_mode p' = p_mode p"
proof (cases "kind_of q")
  case None
  then show thesis using assms same by (simp add: apply_steering_def)
next
  case (Some k)
  show thesis
  proof (cases k)
    case AddSubgoal
    then show thesis using assms Some add unfolding apply_steering_def by (auto split: sum.splits)
  next
    case SplitSubgoal
    then show thesis using assms Some replace unfolding apply_steering_def by (auto split: sum.splits option.splits)
  next
    case ReorderPending
    then show thesis using assms Some reorder unfolding apply_steering_def by simp
  next
    case ReviseWording
    then show thesis using assms Some revise unfolding apply_steering_def
      by (auto simp: update_goal_def split: option.splits)
  next
    case AnnotateLedger
    then show thesis using assms Some same unfolding apply_steering_def by simp
  next
    case MarkBlockedSuperseded
    then show thesis using assms Some replace block unfolding apply_steering_def
      by (auto simp: update_goal_def release_active_def split: sum.splits option.splits if_splits)
  qed
qed

lemma apply_steering_steps:
  assumes "apply_steering p q now = Inr p'" and "rejected_reasons p q = []" and ok: "lifecycle_ok (views p)"
  shows "lifecycle_step\<^sup>*\<^sup>* (views p) (views p')"
  using assms(1)
proof (cases rule: apply_steering_cases)
  case (add t b g)
  then show ?thesis using add_goal by (simp add: r_into_rtranclp)
next
  case reorder
  then show ?thesis
    using reorder_views [of "reordered_plan p (ordered_ids q) now" p]
      mset_reordered [OF lifecycle_ok_ids [OF ok] ordered_ids_distinct(1) [OF _ assms(2)]]
    by (simp add: r_into_rtranclp)
next
  case (revise t)
  then show ?thesis by (simp add: view_same)
next
  case (replace t)
  then show ?thesis using replace_by_children_steps first_target_find ok by blast
next
  case (block t)
  then show ?thesis using exclude_update [OF first_target_find [OF block(2)], of "blocked_goal q now"]
    by (simp add: r_into_rtranclp)
qed simp

lemma steering_outcome_cases:
  assumes "steering_outcome p q now = (acc, reasons, p')"
  obtains (rejected) "\<not> acc" and "p' = p"
  | (accepted) "acc" and "rejected_reasons p q = []" and "apply_steering p q now = Inr p'"
  using assms unfolding steering_outcome_def
  by (auto simp: Let_def validate_steering_proposal_def split: if_splits sum.splits)

lemma sim_steering:
  assumes "steer_ultragoal env q directive now s = (r, s')" and ok: "lifecycle_ok (map view (stored_goals s))"
  shows "lifecycle_step\<^sup>*\<^sup>* (map view (stored_goals s)) (map view (stored_goals s'))"
  using assms(1) unfolding steer_ultragoal_def
proof (rule with_plan_simulates)
  fix p and s1 :: ug_store assume plan: "us_plan s1 = PlanFile p" and goals: "p_goals p = stored_goals s"
  then have same: "simulates p s1" "simulates p (append_ledger e s1)" for e by auto
  have change: "simulates p (append_ledger e (write_plan p' s1))"
    if "steering_outcome p q now = (True, reasons, p')" for reasons p' e
    using that
  proof (cases rule: steering_outcome_cases)
    case accepted
    with ok goals show ?thesis using apply_steering_steps [of p q now p'] by (simp add: simulates_def)
  qed simp
  obtain acc reasons p' where out: "steering_outcome p q now = (acc, reasons, p')" by (metis prod.exhaust)
  show "simulates p (snd (case previous_steering q s1 of
         Some a \<Rightarrow>
           (Inr \<lparr> sr_plan_after = p, sr_accepted = True, sr_audit = a\<lparr> au_deduped := True \<rparr>, sr_reasons = [],
                  sr_deduped = True \<rparr>, s1)
       | None \<Rightarrow>
           (let (accepted, reasons, p') = steering_outcome p q now;
                a = audit_of p q accepted reasons directive
            in (Inr \<lparr> sr_plan_after = p', sr_accepted = accepted, sr_audit = a, sr_reasons = reasons, sr_deduped = False \<rparr>,
                append_ledger (steering_line q a now) (if accepted then write_plan p' s1 else s1)))))"
    unfolding out using same change out by (cases acc) (auto simp: Let_def split: option.split)
qed

end
