(* ===== verification/UltragoalProps.thy ===== *)
theory UltragoalProps
  imports UltragoalLifecycle
begin

text \<open>
  The properties of ultragoal plans over runs of their operations: the lifecycle every run
  follows, what a strict close guarantees, when repeated failures stop a goal, and what steering
  may change. Each has a concrete instance.
\<close>

subsection \<open>Runs\<close>

datatype ug_op =
    OpAdd lock_env string string "string option" string
  | OpStart lock_env bool string
  | OpCheckpoint lock_env checkpoint_options
  | OpBlockers lock_env blockers_options
  | OpSteer lock_env steering_proposal "string option" string

fun run_op :: "(string \<Rightarrow> js option) \<Rightarrow> ug_op \<Rightarrow> ug_store \<Rightarrow> ug_store" where
  "run_op parse (OpAdd env t b ev now) s = snd (add_ultragoal_goal env t b ev now s)"
| "run_op parse (OpStart env retry now) s = snd (start_next_ultragoal env retry now s)"
| "run_op parse (OpCheckpoint env opt) s = snd (checkpoint_ultragoal parse env opt s)"
| "run_op parse (OpBlockers env opt) s = snd (record_final_review_blockers parse env opt s)"
| "run_op parse (OpSteer env q directive now) s = snd (steer_ultragoal env q directive now s)"

definition run_plan_ops :: "(string \<Rightarrow> js option) \<Rightarrow> ug_op list \<Rightarrow> ug_store \<Rightarrow> ug_store" where
  "run_plan_ops parse ops s = fold (run_op parse) ops s"

lemma run_op_steps:
  assumes "lifecycle_ok (map view (stored_goals s))"
  shows "lifecycle_step\<^sup>*\<^sup>* (map view (stored_goals s)) (map view (stored_goals (run_op parse ops s)))"
proof (cases ops)
  case (OpAdd env t b ev now)
  then show ?thesis using sim_add [OF prod.collapse [symmetric]] by simp
next
  case (OpStart env retry now)
  then show ?thesis using sim_start [OF prod.collapse [symmetric]] by simp
next
  case (OpCheckpoint env opt)
  then show ?thesis using sim_checkpoint [OF prod.collapse [symmetric]] by simp
next
  case (OpBlockers env opt)
  then show ?thesis using sim_blockers [OF prod.collapse [symmetric]] by simp
next
  case (OpSteer env q directive now)
  then show ?thesis using sim_steering [OF prod.collapse [symmetric] assms] by simp
qed

lemma run_plan_ops_steps:
  assumes "lifecycle_ok (map view (stored_goals s))"
  shows "lifecycle_step\<^sup>*\<^sup>* (map view (stored_goals s)) (map view (stored_goals (run_plan_ops parse ops s)))
    \<and> lifecycle_ok (map view (stored_goals (run_plan_ops parse ops s)))"
  using assms
proof (induction ops arbitrary: s)
  case Nil
  then show ?case by (simp add: run_plan_ops_def)
next
  case (Cons x ops)
  have step: "lifecycle_step\<^sup>*\<^sup>* (map view (stored_goals s)) (map view (stored_goals (run_op parse x s)))"
    using run_op_steps [OF Cons.prems] .
  have "run_plan_ops parse (x # ops) s = run_plan_ops parse ops (run_op parse x s)" by (simp add: run_plan_ops_def)
  with Cons.IH [OF lifecycle_ok_steps [OF step Cons.prems]] step show ?case
    by (metis rtranclp_trans)
qed

lemma candidate_goals_ok:
  "lifecycle_ok (map view (map (candidate_goal now) (zip [0..<length src] src)))"
proof -
  let ?gs = "map (candidate_goal now) (zip [0..<length src] src)"
  have num: "id_number (g_id (candidate_goal now ng)) = Suc (fst ng)" for ng
    by (simp add: candidate_goal_def split_beta Let_def fresh_goal_def)
  have "map (id_number \<circ> fst) (map view ?gs) = map Suc [0..<length src]"
  proof -
    have "map (id_number \<circ> fst) (map view ?gs) = map Suc (map fst (zip [0..<length src] src))"
      unfolding map_map by (rule map_cong [OF refl]) (simp add: view_def num)
    then show ?thesis by (simp add: map_fst_zip)
  qed
  moreover have "filter runs (map view ?gs) = []"
    by (auto simp: filter_empty_conv view_def runs_def candidate_goal_def Let_def fresh_goal_def)
  moreover have "\<forall>v \<in> set (map view ?gs). 0 < id_number (fst v) \<and> id_number (fst v) \<le> length ?gs"
    using num by (auto simp: view_def dest!: set_zip_leftD)
  ultimately show ?thesis by (simp add: lifecycle_ok_def distinct_map)
qed

lemma created_plan_ok:
  assumes "create_ultragoal_plan env brief goals mode force now s0 = (Inr p, s)"
  shows "us_plan s = PlanFile p" and "lifecycle_ok (views p)"
proof -
  obtain src where "us_plan s = PlanFile p \<and> p_goals p = map (candidate_goal now) (zip [0..<length src] src)"
    using assms unfolding create_ultragoal_plan_def with_mutation_lock_def
    by (auto simp: Let_def initial_plan_def append_ledger_def split: sum.splits if_splits)
  then show "us_plan s = PlanFile p" "lifecycle_ok (views p)" using candidate_goals_ok by simp_all
qed

subsection \<open>A small run\<close>

definition demo_lock_env :: lock_env where
  "demo_lock_env = \<lparr> lk_before = Inr NoPointerCompat, lk_acquired = True, lk_after = Inr NoPointerCompat, lk_prefix = [],
                 lk_clock = ''T'' \<rparr>"

definition demo_goals :: "goal_input list" where
  "demo_goals = [\<lparr> gi_title = Some ''A'', gi_objective = ''do a'', gi_token_budget = None \<rparr>,
                 \<lparr> gi_title = Some ''B'', gi_objective = ''do b'', gi_token_budget = None \<rparr>]"

definition empty_ug_store :: ug_store where
  "empty_ug_store = \<lparr> us_plan = NoPlan, us_ledger = [], us_ledger_corrupt = False, us_brief = None \<rparr>"

definition demo_created :: "(ug_error + ug_plan) \<times> ug_store" where
  "demo_created = create_ultragoal_plan demo_lock_env ''b'' demo_goals None False ''T'' empty_ug_store"

definition plan_of :: "ug_store \<Rightarrow> ug_plan" where
  "plan_of s = (case us_plan s of PlanFile p \<Rightarrow> p | _ \<Rightarrow> initial_plan [] Aggregate [])"

definition failing :: "string \<Rightarrow> string \<Rightarrow> checkpoint_options" where
  "failing i evidence =
     \<lparr> co_goal = i, co_status = CkFailed, co_evidence = Some evidence, co_codex_goal = None, co_gate = JUndef,
       co_strict = False, co_allow_active = False, co_now = ''T'' \<rparr>"

definition demo_ops :: "ug_op list" where
  "demo_ops = [OpStart demo_lock_env False ''T'', OpCheckpoint demo_lock_env (failing ''G001-a'' ''x''), OpAdd demo_lock_env ''C'' ''c'' None ''T'',
               OpStart demo_lock_env True ''T'']"

lemma demo_created: "demo_created = (Inr (plan_of (snd demo_created)), snd demo_created)"
proof -
  have "\<not> isl (fst demo_created)" by code_simp
  then obtain p where p: "demo_created = (Inr p, snd demo_created)"
    by (cases "fst demo_created") (auto simp: prod_eq_iff)
  have "us_plan (snd demo_created) = PlanFile p"
    using created_plan_ok(1) [OF p [unfolded demo_created_def]] unfolding demo_created_def by simp
  then have "plan_of (snd demo_created) = p" by (simp add: plan_of_def)
  with p show ?thesis by simp
qed

definition demo_after :: ug_store where
  "demo_after = run_plan_ops (\<lambda>_. None) demo_ops (snd demo_created)"

subsection \<open>The lifecycle of every run\<close>

text \<open>C2. Over every run of operations on a created plan (adding, starting, completing, failing and
  blocking goals, recording review blockers, steering; each possibly refused), the goals follow
  the abstract lifecycle: identifiers stay unique, at most one goal that may be scheduled is in
  progress, and goals are only started from pending or failed, only review-blocked from in
  progress, and never removed.\<close>

theorem goal_lifecycle_refined:
  assumes "create_ultragoal_plan env brief goals mode force now s0 = (Inr p, s)"
    and "us_plan (run_plan_ops parse ops s) = PlanFile p'"
  shows "lifecycle_step\<^sup>*\<^sup>* (views p) (views p') \<and> distinct (map g_id (p_goals p'))
    \<and> length (filter is_running (p_goals p')) \<le> 1"
proof -
  have ok: "lifecycle_ok (map view (stored_goals s))" and p: "stored_goals s = p_goals p"
    using created_plan_ok [OF assms(1)] by (simp_all add: stored_goals_def)
  have p': "stored_goals (run_plan_ops parse ops s) = p_goals p'" using assms(2) by (simp add: stored_goals_def)
  have "runs \<circ> view = is_running" by (auto simp: runs_def view_def is_running_def)
  then have "length (filter is_running gs) = length (filter runs (map view gs))" for gs
    by (simp add: filter_map)
  with run_plan_ops_steps [OF ok, of parse ops] lifecycle_ok_ids [of "p_goals p'"] show ?thesis
    unfolding p p' by (auto simp: lifecycle_ok_def)
qed

lemma goal_lifecycle_refined_witness:
  "lifecycle_step\<^sup>*\<^sup>* (views (plan_of (snd demo_created))) (views (plan_of demo_after))
     \<and> distinct (map g_id (p_goals (plan_of demo_after))) \<and> length (filter is_running (p_goals (plan_of demo_after))) \<le> 1
     \<and> views (plan_of demo_after) = [(''G001-a'', UFailed, True), (''G002-b'', UInProgress, True), (''G003-c'', UPending, True)]"
proof -
  have "(case us_plan demo_after of PlanFile _ \<Rightarrow> True | _ \<Rightarrow> False)" by code_simp
  then have "us_plan demo_after = PlanFile (plan_of demo_after)" by (auto simp: plan_of_def split: plan_file.splits)
  note run = goal_lifecycle_refined [OF demo_created [unfolded demo_created_def] this [unfolded demo_after_def demo_created_def]]
  have "views (plan_of demo_after) = [(''G001-a'', UFailed, True), (''G002-b'', UInProgress, True), (''G003-c'', UPending, True)]"
    by code_simp
  with run show ?thesis unfolding demo_after_def demo_created_def by blast
qed

subsection \<open>The strict gate\<close>

lemma first_error_ok: "first_error cs = Inr u \<longleftrightarrow> (\<forall>c \<in> set cs. \<not> isl c)"
  by (induction cs rule: first_error.induct) auto

lemma check_ok [simp]:
  "isl (ensure c e) \<longleftrightarrow> \<not> c"
  "isl (void x) \<longleftrightarrow> isl x"
  "isl (gate_part v l) \<longleftrightarrow> \<not> is_object v"
  "isl (gate_text v l) \<longleftrightarrow> trimmed v = []"
  by (simp_all add: ensure_def void_def gate_part_def gate_text_def split: sum.split)

text \<open>What an approving gate says, in the words of the code's messages.\<close>

definition gate_approves :: "js \<Rightarrow> bool" where
  "gate_approves v \<longleftrightarrow>
     (let review = js_get v ''codeReview''; independent = js_get review ''independentReview'' in
      js_get (js_get v ''aiSlopCleaner'') ''status'' = JStr ''passed''
      \<and> js_get (js_get v ''verification'') ''status'' = JStr ''passed''
      \<and> (\<exists>cs. js_get (js_get v ''verification'') ''commands'' = JArr cs \<and> cs \<noteq> [] \<and> (\<forall>c \<in> set cs. is_command c))
      \<and> js_get review ''recommendation'' = JStr ''APPROVE'' \<and> js_get review ''architectStatus'' = JStr ''CLEAR''
      \<and> js_get (js_get independent ''codeReviewer'') ''agentRole'' = JStr ''code-reviewer''
      \<and> js_get (js_get independent ''architect'') ''agentRole'' = JStr ''architect'')"

definition gate_proves :: "js \<Rightarrow> required_invariant \<Rightarrow> bool" where
  "gate_proves v r \<longleftrightarrow>
     (\<exists>x \<in> set (array_items (js_get (js_get v ''architectureInvariantGate'') ''invariants'')).
        normalize_invariant_text (trimmed (js_get x ''invariant'')) = normalize_invariant_text (ri_text r)
        \<and> references_artifact (trimmed (js_get x ''source'')) (ri_artifact r)
        \<and> js_get x ''status'' = JStr ''proved'' \<and> js_get x ''blockers'' = JUndef
        \<and> trimmed (js_get x ''implementationEvidence'') \<noteq> [] \<and> trimmed (js_get x ''testEvidence'') \<noteq> []
        \<and> trimmed (js_get x ''reviewEvidence'') \<noteq> [])"

lemma array_items_iff: "is_array v \<Longrightarrow> \<exists>vs. v = JArr vs \<and> array_items v = vs"
  by (cases v) (auto simp: is_array_def array_items_def)

lemma strict_gate_approves:
  assumes "first_error (strict_gate_checks v) = Inr u"
  shows "gate_approves v"
proof -
  have all: "\<forall>c \<in> set (strict_gate_checks v). \<not> isl c" using assms by (simp add: first_error_ok)
  let ?c = "js_get (js_get v ''verification'') ''commands''"
  have "is_array ?c" "array_items ?c \<noteq> []" "list_all is_command (array_items ?c)"
    using all by (simp_all add: strict_gate_checks_def Let_def)
  with array_items_iff [of ?c] have "\<exists>cs. ?c = JArr cs \<and> cs \<noteq> [] \<and> (\<forall>c \<in> set cs. is_command c)"
    by (auto simp: list_all_iff)
  then show ?thesis using all unfolding gate_approves_def by (simp add: strict_gate_checks_def Let_def)
qed

lemma invariant_gate_proves:
  assumes "validate_invariant_gate v required = Inr u" and "r \<in> set required"
  shows "gate_proves v r"
proof -
  let ?ig = "js_get v ''architectureInvariantGate''"
  let ?records = "array_items (js_get ?ig ''invariants'')"
  let ?sources = "map trimmed (array_items (js_get ?ig ''sourceArtifacts''))"
  have all: "\<not> isl (required_check (map proof_record ?records) r)"
    and recs: "\<And>x c. x \<in> set ?records \<Longrightarrow> c \<in> set (invariant_checks ?sources x) \<Longrightarrow> \<not> isl c"
    using assms unfolding validate_invariant_gate_def Let_def first_error_ok by auto
  have ball: "\<forall>c \<in> set (invariant_checks ?sources x). \<not> isl c" if "x \<in> set ?records" for x
    using recs that by blast
  have "\<exists>m \<in> set (map proof_record ?records). fst m = normalize_invariant_text (ri_text r)
      \<and> references_artifact (snd m) (ri_artifact r)"
    using all unfolding required_check_def Let_def list_ex_iff by (auto simp: split_beta split: if_splits)
  then obtain x where x: "x \<in> set ?records"
    and "normalize_invariant_text (trimmed (js_get x ''invariant'')) = normalize_invariant_text (ri_text r)"
    and "references_artifact (trimmed (js_get x ''source'')) (ri_artifact r)"
    unfolding set_map proof_record_def by auto
  moreover have "js_get x ''status'' = JStr ''proved''" "js_get x ''blockers'' = JUndef"
    "trimmed (js_get x ''implementationEvidence'') \<noteq> []" "trimmed (js_get x ''testEvidence'') \<noteq> []"
    "trimmed (js_get x ''reviewEvidence'') \<noteq> []"
    using ball [OF x] by (simp_all add: invariant_checks_def Let_def)
  ultimately show ?thesis unfolding gate_proves_def by blast
qed

lemma strict_gate_sound:
  assumes "validate_quality_gate v required True = Inr g"
  shows "g = Some v \<and> gate_approves v \<and> (\<forall>r \<in> set required. gate_proves v r)"
proof -
  obtain a b where "first_error (strict_gate_checks v) = Inr a" "validate_invariant_gate v required = Inr b" "g = Some v"
    using assms unfolding validate_quality_gate_def by (auto split: if_splits sum.splits)
  then show ?thesis using strict_gate_approves invariant_gate_proves by blast
qed

subsection \<open>What closing a plan leaves\<close>

lemma update_first_distinct:
  "distinct (map f gs) \<Longrightarrow> update_first (\<lambda>g. f g = i) h gs = map (\<lambda>g. if f g = i then h g else g) gs"
proof (induction gs)
  case (Cons g gs)
  have "map (\<lambda>g. if f g = i then h g else g) gs = gs" if "f g = i"
    using that Cons.prems by (intro map_idI) (auto simp: image_iff)
  with Cons show ?case by auto
qed simp

text \<open>The effect of a completion on every goal: \<open>g\<close> is completed, and its parent resolved.\<close>

definition closed_goal :: "checkpoint_options \<Rightarrow> ug_goal \<Rightarrow> string option \<Rightarrow> ug_goal \<Rightarrow> ug_goal" where
  "closed_goal opt g par h =
     (if g_id h = g_id g then completed_goal opt h
      else if par = Some (g_id h) then resolved_parent_goal opt (g_id g) h else h)"

lemma completed_goal_id [simp]: "g_id (completed_goal opt g) = g_id g"
  by (simp add: completed_goal_def clear_blocker_fields_def)

lemma closed_goal_simps [simp]:
  "g_id (closed_goal opt g par h) = g_id h"
  "g_steering (closed_goal opt g par h) = g_steering h"
  "g_superseded_by (closed_goal opt g par h) = g_superseded_by h"
  "g_resolves (closed_goal opt g par h) = g_resolves h"
  by (simp_all add: closed_goal_def completed_goal_def resolved_parent_goal_def clear_blocker_fields_def)

lemma closed_goal_status:
  "g_status (closed_goal opt g par h) = (if g_id h = g_id g \<or> par = Some (g_id h) then UComplete else g_status h)"
  by (simp add: closed_goal_def completed_goal_def resolved_parent_goal_def clear_blocker_fields_def)

definition closing_parent :: "ug_plan \<Rightarrow> ug_goal \<Rightarrow> js option \<Rightarrow> string option" where
  "closing_parent p g gate =
     (case resolved_parent p g of
        None \<Rightarrow> None
      | Some q \<Rightarrow> (if g_id q \<noteq> g_id g \<and> resolves_parent p g q \<and> gate \<noteq> None then Some (g_id q) else None))"

lemma find_goal_map:
  assumes "\<And>h. g_id (u h) = g_id h" and "p_goals p' = map u (p_goals p)"
  shows "find_goal p' i = map_option u (find_goal p i)"
proof -
  have "List.find (\<lambda>g. g_id g = i) (map u gs) = map_option u (List.find (\<lambda>g. g_id g = i) gs)" for gs
    by (induction gs) (auto simp: assms(1))
  then show ?thesis by (simp add: find_goal_def assms(2))
qed

lemma task_scoped_goals:
  assumes "distinct (map g_id (p_goals p))"
  shows "p_goals (task_scoped_plan opt p g c) = map (closed_goal opt g None) (p_goals p)"
  unfolding task_scoped_plan_def using update_first_distinct [OF assms]
  by (simp add: closed_goal_def cong: if_cong)

lemma complete_plan_goals:
  assumes d: "distinct (map g_id (p_goals p))"
  shows "p_goals (complete_plan opt p g normal gate) = map (closed_goal opt g (closing_parent p g gate)) (p_goals p)"
proof -
  let ?c = "\<lambda>h. if g_id h = g_id g then completed_goal opt h else h"
  define p2 where "p2 = (case normal of None \<Rightarrow> update_goal (g_id g) (completed_goal opt) p
    | Some c \<Rightarrow> (update_goal (g_id g) (completed_goal opt) p)\<lparr> p_completion := Some c \<rparr>)"
  have id: "g_id (?c h) = g_id h" for h
    using closed_goal_simps(1) [of opt g None h] by (simp add: closed_goal_def split: if_splits)
  have p2: "p_goals p2 = map ?c (p_goals p)"
    using update_first_distinct [OF d, of "g_id g" "completed_goal opt"] by (simp add: p2_def split: option.split)
  have d2: "distinct (map g_id (p_goals p2))"
    using d unfolding p2 map_map by (simp add: comp_def id)
  have find: "find_goal p2 i = map_option ?c (find_goal p i)" for i
    using find_goal_map [OF id p2] .
  have res: "resolved_parent p2 g = map_option ?c (resolved_parent p g)"
    by (simp add: resolved_parent_def find split: option.split)
  let ?par = "closing_parent p g gate"
  show ?thesis
  proof (cases "resolved_parent p g")
    case None
    then have "?par = None" "p_goals (complete_plan opt p g normal gate) = p_goals p2"
      unfolding closing_parent_def complete_plan_def Let_def p2_def [symmetric] by (simp_all add: res)
    then show ?thesis by (simp add: p2 closed_goal_def)
  next
    case (Some q)
    show ?thesis
    proof (cases "g_id q \<noteq> g_id g \<and> resolves_parent p g q \<and> gate \<noteq> None")
      case True
      then have "?c q = q" "?par = Some (g_id q)" by (simp_all add: closing_parent_def Some)
      moreover have "resolves_parent p2 g q" using True by (simp add: resolves_parent_def)
      ultimately have "p_goals (complete_plan opt p g normal gate)
          = p_goals (update_goal (g_id q) (resolved_parent_goal opt (g_id g)) p2)"
        using True unfolding complete_plan_def Let_def p2_def [symmetric] by (simp add: res Some)
      also have "\<dots> = map (\<lambda>h. if g_id h = g_id q then resolved_parent_goal opt (g_id g) h else h) (map ?c (p_goals p))"
        using update_first_distinct [OF d2] by (simp add: p2)
      also have "\<dots> = map (closed_goal opt g ?par) (p_goals p)"
        unfolding map_map using True \<open>?par = Some (g_id q)\<close>
        by (intro map_cong [OF refl]) (auto simp: closed_goal_def)
      finally show ?thesis .
    next
      case False
      have "\<not> (resolves_parent p2 g (?c q) \<and> gate \<noteq> None)"
      proof (cases "g_id q = g_id g")
        case True
        then show ?thesis by (simp add: resolves_parent_def completed_goal_def clear_blocker_fields_def)
      next
        case other: False
        with False show ?thesis by (simp add: resolves_parent_def)
      qed
      then have "p_goals (complete_plan opt p g normal gate) = p_goals p2"
        unfolding complete_plan_def Let_def p2_def [symmetric] by (auto simp: res Some split: if_splits)
      moreover have "?par = None" using False by (simp add: closing_parent_def Some)
      ultimately show ?thesis by (simp add: p2 closed_goal_def)
    qed
  qed
qed

lemma closed_replacement:
  assumes "p_goals p' = map (closed_goal opt g par) (p_goals p)" and "find_goal p (g_id g) = Some g"
    and "i = g_id g \<or> replacement_resolved p i"
  shows "replacement_resolved p' i"
  using assms find_goal_map [of "closed_goal opt g par" p' p i] find_goal_id [of p i]
  by (auto simp: replacement_resolved_def closed_goal_status is_resolved_status_def split: option.splits)

lemma closed_review_blocked:
  assumes p': "p_goals p' = map (closed_goal opt g par) (p_goals p)" and "is_review_blocked_resolved h p"
  shows "is_review_blocked_resolved h p'"
proof -
  let ?u = "closed_goal opt g par"
  have find: "find_goal p' i = map_option ?u (find_goal p i)" for i
    by (rule find_goal_map [OF _ p']) simp
  have only: "filter (\<lambda>c. g_id c = i) (p_goals p') = map ?u (filter (\<lambda>c. g_id c = i) (p_goals p))" for i
    by (simp add: p' filter_map comp_def)
  have rec: "has_reciprocal_resolver h p \<Longrightarrow> has_reciprocal_resolver h p'"
    unfolding has_reciprocal_resolver_def only by (auto split: option.splits list.splits)
  show ?thesis
    using assms(2) rec unfolding is_review_blocked_resolved_def find
    by (auto simp: closed_goal_status split: option.splits)
qed

text \<open>A goal that keeps the closed plan from being complete was taken out by steering.\<close>

lemma closed_blocking:
  assumes p': "p_goals p' = map (closed_goal opt g par) (p_goals p)" and g: "find_goal p (g_id g) = Some g"
    and d: "distinct (map g_id (p_goals p))" and final: "is_final_candidate p g" and "g_status g = UInProgress"
    and par: "\<And>h. h \<in> set (unresolved_review_blocked p) \<Longrightarrow> par = Some (g_id h)"
    and h: "h0 \<in> set (p_goals p)" "h = closed_goal opt g par h0" and blocking: "is_completion_blocking h p'"
  shows "\<not> is_schedule_eligible h \<and> (g_id h = g_id g \<or> par = Some (g_id h))"
proof (cases "g_id h0 = g_id g \<or> par = Some (g_id h0)")
  case True
  then have "g_status h = UComplete" by (simp add: h closed_goal_status)
  with True blocking h show ?thesis
    by (auto simp: is_completion_blocking_def is_schedule_eligible_def is_resolved_status_def split: if_splits)
next
  case False
  then have same: "h = h0" by (simp add: h closed_goal_def)
  have no: "\<not> blocks_final_candidate h0 g p"
    using final h(1) by (auto simp: is_final_candidate_def list_all_iff)
  have resolved: "is_review_blocked_resolved h0 p" if "g_status h0 = UReviewBlocked"
    using that False par [of h0] h(1) by (auto simp: unresolved_review_blocked_def)
  have notme: "map_option br_resolver (g_resolution h0) \<noteq> Some (g_id g)" if "g_status h0 = UReviewBlocked"
    using resolved [OF that] g assms(5)
    by (auto simp: is_review_blocked_resolved_def resolver_of_def split: option.splits if_splits)
  have "\<not> is_completion_blocking h0 p'"
  proof (cases "g_steering h0 = Some Superseded")
    case True
    then have "replacements h0 \<noteq> [] \<and> list_all (\<lambda>i. i = g_id g \<or> replacement_resolved p i) (replacements h0)"
      using no False notme by (auto simp: blocks_final_candidate_def split: if_splits)
    then have "is_superseded_resolved h0 p'"
      using closed_replacement [OF p' g] True by (auto simp: is_superseded_resolved_def list_all_iff)
    with True show ?thesis by (simp add: is_completion_blocking_def)
  next
    case other: False
    then have "\<not> is_completion_blocking h0 p"
      using no False notme by (auto simp: blocks_final_candidate_def split: if_splits)
    with other show ?thesis
      using closed_review_blocked [OF p', of h0] by (auto simp: is_completion_blocking_def split: if_splits)
  qed
  with blocking same show ?thesis by simp
qed

lemma read_plan_frame:
  assumes "read_plan_under_lock pfx now s = (Inr p, s1)" and "us_plan s = PlanFile p0"
  shows "p_completion p = p_completion p0" and "p_goals p = p_goals p0" and "p_mode p = p_mode p0"
    and "required_architecture_invariants s1 = required_architecture_invariants s"
    and "set (map le_event (us_ledger s1)) \<subseteq> insert ObjectiveMigrated (set (map le_event (us_ledger s)))"
proof -
  have *: "p = p0 \<and> s1 = s \<or> (\<exists>t. p = migrated_plan p0 t pfx now
      \<and> s1 = append_ledger (ledger_line now ObjectiveMigrated) (write_plan p s))"
    using assms unfolding read_plan_under_lock_def read_plan_file_def
    by (auto simp: Let_def split: if_splits sum.splits)
  have texts: "steering_texts (ledger_line now ObjectiveMigrated) = []"
    by (simp add: steering_texts_def ledger_line_def)
  have "required_architecture_invariants (append_ledger (ledger_line now ObjectiveMigrated) (write_plan q s))
      = required_architecture_invariants s" for q
    by (simp add: required_architecture_invariants_def read_ledger_def append_ledger_def write_plan_def
        steering_invariants_def texts)
  with * show "required_architecture_invariants s1 = required_architecture_invariants s" by auto
  show "p_completion p = p_completion p0" "p_goals p = p_goals p0" "p_mode p = p_mode p0"
    using * by (auto simp: migrated_plan_def)
  show "set (map le_event (us_ledger s1)) \<subseteq> insert ObjectiveMigrated (set (map le_event (us_ledger s)))"
    using * by (auto simp: append_ledger_def write_plan_def ledger_line_def)
qed

lemma same_goals:
  assumes "p_goals p = p_goals q"
  shows "find_goal p = find_goal q" and "is_final_candidate p g = is_final_candidate q g"
    and "is_completion_blocking h p = is_completion_blocking h q"
proof -
  have find: "find_goal p = find_goal q" using assms by (simp add: find_goal_def fun_eq_iff)
  have rep: "replacement_resolved p = replacement_resolved q" by (simp add: replacement_resolved_def find fun_eq_iff)
  have rec: "has_reciprocal_resolver c p = has_reciprocal_resolver c q" for c
    unfolding has_reciprocal_resolver_def assms ..
  have block: "is_completion_blocking c p = is_completion_blocking c q" for c
    unfolding is_completion_blocking_def is_superseded_resolved_def is_review_blocked_resolved_def find rep rec ..
  show "find_goal p = find_goal q" by (rule find)
  show "is_final_candidate p g = is_final_candidate q g"
    unfolding is_final_candidate_def blocks_final_candidate_def rep block assms ..
  show "is_completion_blocking h p = is_completion_blocking h q" by (rule block)
qed

lemma completion_frames:
  "p_completion (release_active i p) = p_completion p"
  "p_completion (update_goal i f p) = p_completion p"
  by (simp_all add: release_active_def update_goal_def)

lemma completion_after_complete:
  "p_completion (complete_plan opt p g normal gate) = (case normal of None \<Rightarrow> p_completion p | Some c \<Rightarrow> Some c)"
  unfolding complete_plan_def Let_def by (simp add: completion_frames split: option.split)

lemma task_scoped_active:
  assumes "task_scoped_completion brief opt p g snap expected issues = Inr (Some c)"
  shows "is_active_goal p g" and "unresolved_review_blocked p = []"
  using assms unfolding task_scoped_completion_def can_reconcile_task_scoped_def
  by (auto split: option.splits if_splits sum.splits)

lemma completion_decision_scoped:
  assumes "completion_decision parse brief opt p g = Inr (Some c, normal)"
  shows "is_active_goal p g" and "unresolved_review_blocked p = []"
  using assms unfolding completion_decision_def
  by (auto simp: Let_def dest: task_scoped_active split: sum.splits if_splits)

lemma completion_decision_normal:
  assumes "completion_decision parse brief opt p g = Inr (scoped, Some c)"
  shows "can_persist_final_completion p g (is_final_candidate p g) (co_allow_active opt)"
  using assms unfolding completion_decision_def by (auto simp: Let_def split: sum.splits if_splits)

lemma can_persist_facts:
  assumes "can_persist_final_completion p g final allow"
  shows "final" and "\<not> allow" and "g_status g = UInProgress"
    and "\<And>h. h \<in> set (unresolved_review_blocked p) \<Longrightarrow> g_resolves g = Some (g_id h) \<and> g_id h \<noteq> g_id g \<and> resolves_parent p g h"
  using assms unfolding can_persist_final_completion_def can_use_resolver_path_def is_designated_resolver_def resolves_parent_def
  by (auto split: if_splits list.splits)

text \<open>How a completed checkpoint closed the plan.\<close>

lemma closing_cases:
  assumes "checkpoint_ultragoal parse env opt s = (Inr p', s')" and "us_plan s = PlanFile p0"
    and "p_completion p0 = None" and "p_completion p' \<noteq> None"
  obtains (closed) p g s1 scoped normal gate where "p_goals p = p_goals p0" and "find_goal p (co_goal opt) = Some g"
    and "required_architecture_invariants s1 = required_architecture_invariants s"
    and "completion_decision parse (us_brief s1) opt p g = Inr (scoped, normal)"
    and "checkpoint_gate opt p g scoped s1 = Inr gate"
    and "scoped \<noteq> None \<and> p' = task_scoped_plan opt p g (the scoped)
         \<or> scoped = None \<and> normal \<noteq> None \<and> p' = complete_plan opt p g normal gate"
  using assms(1) unfolding checkpoint_ultragoal_def
proof (cases rule: with_plan_cases)
  case refused
  then show thesis by simp
next
  case (ran p s1)
  note frame = read_plan_frame [OF ran(6) assms(2)]
  have none: "p_completion p = None" using frame(1) assms(3) by simp
  from ran(3) obtain g where g: "find_goal p (co_goal opt) = Some g" by (auto split: option.splits)
  have "co_status opt = CkComplete"
  proof (cases "co_status opt")
    case CkFailed
    then show ?thesis using ran(3) g none assms(4)
      by (auto simp: checkpoint_failed_def failed_plan_def Let_def completion_frames)
  next
    case CkBlocked
    then show ?thesis using ran(3) g none assms(4)
      by (auto simp: apply_blocked_def Let_def completion_frames split: sum.splits)
  qed
  with ran(3) g have "checkpoint_complete parse opt p g s1 = (Inr p', s')" by simp
  then obtain scoped normal gate where dec: "completion_decision parse (us_brief s1) opt p g = Inr (scoped, normal)"
    and gate: "checkpoint_gate opt p g scoped s1 = Inr gate"
    and p': "p' = (case scoped of Some c \<Rightarrow> task_scoped_plan opt p g c | None \<Rightarrow> complete_plan opt p g normal gate)"
    unfolding checkpoint_complete_def by (auto simp: Let_def split: sum.splits option.splits)
  show thesis
  proof (rule closed [OF frame(2) g frame(4) dec gate])
    show "scoped \<noteq> None \<and> p' = task_scoped_plan opt p g (the scoped)
         \<or> scoped = None \<and> normal \<noteq> None \<and> p' = complete_plan opt p g normal gate"
      using p' assms(4) none by (auto simp: completion_after_complete split: option.splits)
  qed
qed

lemma checkpoint_gate_strict:
  assumes "checkpoint_gate opt p g scoped s = Inr gate" and "is_gate_candidate opt p g scoped" and "co_strict opt"
  obtains required where "required_architecture_invariants s = Some required" and "gate = Some (co_gate opt)"
    and "gate_approves (co_gate opt)" and "\<forall>r \<in> set required. gate_proves (co_gate opt) r"
  using assms strict_gate_sound unfolding checkpoint_gate_def
  by (auto split: option.splits sum.splits if_splits)

lemma closing_candidate:
  assumes "completion_decision parse brief opt p g = Inr (scoped, normal)" and "scoped \<noteq> None \<or> normal \<noteq> None"
  shows "is_gate_candidate opt p g scoped" and "g_status g = UInProgress"
  using assms completion_decision_normal [of parse brief opt p g scoped] completion_decision_scoped [of parse brief opt p g]
    can_persist_facts [of p g "is_final_candidate p g" "co_allow_active opt"]
  by (auto simp: is_gate_candidate_def is_active_goal_def)

text \<open>C8. A strict checkpoint closes a plan only with an approving gate: the cleaner and the
  verification passed, the review is APPROVE and CLEAR by an independent reviewer and architect,
  and every architecture invariant that the brief and the accepted steering declare has a proved
  record that names its source.\<close>

theorem strict_close_approved:
  assumes "checkpoint_ultragoal parse env opt s = (Inr p', s')" and "us_plan s = PlanFile p"
    and "p_completion p = None" and "p_completion p' \<noteq> None" and "co_strict opt"
  shows "gate_approves (co_gate opt)
    \<and> (\<exists>required. required_architecture_invariants s = Some required \<and> list_all (gate_proves (co_gate opt)) required)"
  using assms(1-4)
proof (cases rule: closing_cases)
  case (closed q g s1 scoped normal gate)
  then have "is_gate_candidate opt q g scoped" using closing_candidate(1) by blast
  from checkpoint_gate_strict [OF closed(5) this assms(5)] closed(3) show ?thesis
    by (metis list_all_iff)
qed

text \<open>C34. When a strict checkpoint of the final candidate closes a plan, nothing that steering left in
  the plan still blocks completion: every goal is complete, superseded by resolved goals, or a
  review-blocked goal whose resolver is complete. A goal that does block was taken out by
  steering, and is the candidate itself or a review-blocked goal.\<close>

theorem closed_plan_resolved:
  assumes "checkpoint_ultragoal parse env opt s = (Inr p', s')" and "us_plan s = PlanFile p"
    and "p_completion p = None" and "p_completion p' \<noteq> None" and "co_strict opt"
    and "lifecycle_ok (views p)" and "find_goal p (co_goal opt) = Some g" and "is_final_candidate p g"
    and "h \<in> set (p_goals p')" and "is_completion_blocking h p'"
  shows "\<not> is_schedule_eligible h \<and> (g_id h = g_id g \<or> (\<exists>h0 \<in> set (p_goals p). g_id h0 = g_id h \<and> g_status h0 = UReviewBlocked))"
  using assms(1-4)
proof (cases rule: closing_cases)
  case (closed q g' s1 scoped normal gate)
  have g: "g' = g" using closed(2) assms(7) same_goals(1) [OF closed(1)] by simp
  have d: "distinct (map g_id (p_goals q))" using lifecycle_ok_ids [OF assms(6)] closed(1) by simp
  have found: "find_goal q (g_id g) = Some g" using closed(2) g find_goal_id by metis
  have final: "is_final_candidate q g" using assms(8) same_goals(2) [OF closed(1)] by simp
  have running: "g_status g = UInProgress" using closing_candidate(2) [OF closed(4)] closed(6) g by auto
  define par where "par = (if scoped = None then closing_parent q g gate else None)"
  have goals: "p_goals p' = map (closed_goal opt g par) (p_goals q)"
    using closed(6) task_scoped_goals [OF d] complete_plan_goals [OF d] by (auto simp: par_def g)
  have nonempty: "g_id c \<noteq> []" if "c \<in> set (p_goals q)" for c
  proof
    assume "g_id c = []"
    then have "id_number (fst (view c)) = 0" by (simp add: view_def id_number_def)
    with that assms(6) closed(1) show False by (auto simp: lifecycle_ok_def)
  qed
  have parent: "par = Some (g_id c)" if c: "c \<in> set (unresolved_review_blocked q)" for c
  proof -
    have "unresolved_review_blocked q = []" if "scoped \<noteq> None"
      using that completion_decision_scoped(2) closed(4) g by blast
    then have none: "scoped = None" using c by (cases scoped) auto
    then have persist: "can_persist_final_completion q g (is_final_candidate q g) (co_allow_active opt)"
      using closed(4,6) completion_decision_normal g by blast
    have c': "c \<in> set (p_goals q)" using c by (simp add: unresolved_review_blocked_def)
    then have "find_goal q (g_id c) = Some c" using find_key [OF d] by (simp add: find_goal_def)
    moreover have "gate = Some (co_gate opt)"
      using checkpoint_gate_strict [OF closed(5) closing_candidate(1) [OF closed(4)] assms(5)] closed(6) by blast
    ultimately show ?thesis
      using can_persist_facts(4) [OF persist c] nonempty [OF c'] none
      by (simp add: par_def closing_parent_def resolved_parent_def)
  qed
  have "\<exists>c \<in> set (p_goals q). g_id c = i \<and> g_status c = UReviewBlocked" if "par = Some i" for i
    using that find_goal_id unfolding par_def closing_parent_def resolved_parent_def resolves_parent_def
    by (force split: option.splits if_splits)
  note reviewed = this
  obtain h0 where h0: "h0 \<in> set (p_goals q)" "h = closed_goal opt g par h0" using assms(9) goals by auto
  note out = closed_blocking [OF goals found d final running parent h0 assms(10)]
  then show ?thesis using reviewed [of "g_id h"] closed(1) by (cases "g_id h = g_id g") simp_all
qed

subsection \<open>A small close\<close>

definition obj :: "(string \<times> js) list \<Rightarrow> js" where
  "obj r = JObj r"

definition demo_gate :: js where
  "demo_gate =
     (let passed = obj [(''status'', JStr ''passed''), (''evidence'', JStr ''e'')];
          lane = (\<lambda>role. obj [(''agentRole'', JStr role), (''evidence'', JStr ''e'')]);
          source = JStr ''.omx/ultragoal/brief.md''
      in obj [(''aiSlopCleaner'', passed),
              (''verification'', obj [(''status'', JStr ''passed''), (''commands'', JArr [JStr ''t'']), (''evidence'', JStr ''e'')]),
              (''codeReview'', obj [(''recommendation'', JStr ''APPROVE''), (''architectStatus'', JStr ''CLEAR''), (''evidence'', JStr ''e''),
                 (''independentReview'', obj [(''codeReviewer'', lane ''code-reviewer''), (''architect'', lane ''architect'')])]),
              (''architectureInvariantGate'', obj [(''status'', JStr ''passed''), (''sourceArtifacts'', JArr [source]),
                 (''evidence'', JStr ''e''),
                 (''invariants'', JArr [obj [(''invariant'', JStr ''*X*''), (''source'', source), (''status'', JStr ''proved''),
                    (''implementationEvidence'', JStr ''i''), (''testEvidence'', JStr ''t''), (''reviewEvidence'', JStr ''r'')]])])])"

definition demo_close :: checkpoint_options where
  "demo_close =
     \<lparr> co_goal = ''G001-a'', co_status = CkComplete, co_evidence = Some ''e'',
       co_codex_goal = Some (obj [(''goal'', obj [(''objective'', JStr ''o''), (''status'', JStr ''complete'')])]),
       co_gate = demo_gate, co_strict = True, co_allow_active = False, co_now = ''T'' \<rparr>"

definition demo_running :: ug_plan where
  "demo_running =
     (initial_plan [started_goal ''T'' (fresh_goal ''G001-a'' ''A'' ''do a'' ''T'')] Aggregate ''T'')
       \<lparr> p_objective := Some ''o'', p_active := Some ''G001-a'' \<rparr>"

definition demo_started :: ug_store where
  "demo_started = \<lparr> us_plan = PlanFile demo_running, us_ledger = [], us_ledger_corrupt = False,
                    us_brief = Some ''domain invariant:x'' \<rparr>"

definition demo_closed :: "(ug_error + ug_plan) \<times> ug_store" where
  "demo_closed = checkpoint_ultragoal (\<lambda>_. None) demo_lock_env demo_close demo_started"

lemma demo_closed_value:
  "case demo_closed of
     (Inr p, _) \<Rightarrow> p_completion p \<noteq> None \<and> list_all is_schedule_eligible (p_goals p) | (Inl _, _) \<Rightarrow> False"
  by code_simp

lemma demo_closed: "demo_closed = (Inr (projr (fst demo_closed)), snd demo_closed)"
  and demo_closed_facts: "p_completion (projr (fst demo_closed)) \<noteq> None"
    "list_all is_schedule_eligible (p_goals (projr (fst demo_closed)))"
proof -
  obtain r st where *: "demo_closed = (r, st)" by fastforce
  show "demo_closed = (Inr (projr (fst demo_closed)), snd demo_closed)"
    and "p_completion (projr (fst demo_closed)) \<noteq> None"
    and "list_all is_schedule_eligible (p_goals (projr (fst demo_closed)))"
    using demo_closed_value unfolding * by (cases r; simp)+
qed

lemma demo_started:
  "us_plan demo_started = PlanFile demo_running" "p_completion demo_running = None"
  "p_completion (projr (fst demo_closed)) \<noteq> None" "co_strict demo_close"
  using demo_closed_facts(1) by (simp_all add: demo_started_def demo_running_def initial_plan_def demo_close_def)

lemma strict_close_approved_witness:
  "gate_approves (co_gate demo_close)
     \<and> gate_proves (co_gate demo_close) \<lparr> ri_text = ''x'', ri_artifact = ''.omx/ultragoal/brief.md'' \<rparr>"
proof -
  have "required_architecture_invariants demo_started
      = Some [\<lparr> ri_text = ''x'', ri_artifact = ''.omx/ultragoal/brief.md'' \<rparr>]" by code_simp
  with strict_close_approved [OF demo_closed [unfolded demo_closed_def] demo_started [unfolded demo_closed_def]]
  show ?thesis by simp
qed

lemma demo_running_facts:
  "lifecycle_ok (views demo_running) \<and> find_goal demo_running (co_goal demo_close) = Some (hd (p_goals demo_running))
     \<and> is_final_candidate demo_running (hd (p_goals demo_running))"
  by code_simp

lemma closed_plan_resolved_witness:
  "list_all (\<lambda>h. \<not> is_completion_blocking h (projr (fst demo_closed))) (p_goals (projr (fst demo_closed)))"
  unfolding list_all_iff
proof
  fix h assume h: "h \<in> set (p_goals (projr (fst demo_closed)))"
  have ok: "lifecycle_ok (views demo_running)"
    and found: "find_goal demo_running (co_goal demo_close) = Some (hd (p_goals demo_running))"
    and final: "is_final_candidate demo_running (hd (p_goals demo_running))"
    using demo_running_facts by blast+
  note demo_closed_facts(2)
  with h have eligible: "is_schedule_eligible h" by (simp add: list_all_iff)
  show "\<not> is_completion_blocking h (projr (fst demo_closed))"
  proof
    assume "is_completion_blocking h (projr (fst demo_closed))"
    from closed_plan_resolved [OF demo_closed [unfolded demo_closed_def] demo_started [unfolded demo_closed_def] ok found final
        h [unfolded demo_closed_def] this [unfolded demo_closed_def]]
    show False using eligible by blast
  qed
qed

end
