(* ===== verification/UltragoalGuards.thy ===== *)
theory UltragoalGuards
  imports UltragoalProps
begin

text \<open>
  Two guards of ultragoal plans: the circuit breaker that stops the retries of a goal after the
  same authorization failure, and the frame within which steering may change a plan.
\<close>

subsection \<open>Repeated authorization failures\<close>

definition failed_options :: "string \<Rightarrow> string \<Rightarrow> string \<Rightarrow> checkpoint_options" where
  "failed_options i evidence now =
     \<lparr> co_goal = i, co_status = CkFailed, co_evidence = Some evidence, co_codex_goal = None, co_gate = JUndef,
       co_strict = False, co_allow_active = False, co_now = now \<rparr>"

text \<open>Failed checkpoints of one goal, each of which must be accepted.\<close>

fun failures ::
    "(string \<Rightarrow> js option) \<Rightarrow> string \<Rightarrow> string \<Rightarrow> (lock_env \<times> string) list \<Rightarrow> ug_store \<Rightarrow> ug_store option" where
  "failures parse i evidence [] s = Some s"
| "failures parse i evidence ((env, now) # es) s =
     (case checkpoint_ultragoal parse env (failed_options i evidence now) s of
        (Inr _, s') \<Rightarrow> failures parse i evidence es s'
      | (Inl _, _) \<Rightarrow> None)"

lemma find_update_first:
  "(\<And>x. q (f x) = q x) \<Longrightarrow> List.find q (update_first q f gs) = map_option f (List.find q gs)"
  by (induction gs) auto

lemma failed_goal_id [simp]: "g_id (failed_goal opt b g) = g_id g"
  by (simp add: failed_goal_def)

lemma occurrences_append:
  "same_blocker_occurrences (es @ es') i sig = same_blocker_occurrences es i sig + same_blocker_occurrences es' i sig"
  by (simp add: same_blocker_occurrences_def)

lemma read_plan_ledger:
  assumes "read_plan_under_lock pfx now s = (Inr p, s1)"
  shows "same_blocker_occurrences (us_ledger s1) i sig = same_blocker_occurrences (us_ledger s) i sig"
proof -
  have *: "same_blocker_occurrences [ledger_line now ObjectiveMigrated] i sig = 0"
    by (simp add: same_blocker_occurrences_def ledger_line_def)
  show ?thesis
    using assms unfolding read_plan_under_lock_def
    by (auto simp: Let_def append_ledger_def write_plan_def occurrences_append * split: sum.splits if_splits)
qed

lemma failed_checkpoint_step:
  assumes "checkpoint_ultragoal parse env (failed_options i ev now) s = (Inr p', s')"
    and "classify_authorization_blocker (Some ev) = Some b" and "\<not> us_ledger_corrupt s"
  defines "n \<equiv> Suc (same_blocker_occurrences (us_ledger s) i (ab_signature b))"
  shows "\<not> us_ledger_corrupt s'" and "same_blocker_occurrences (us_ledger s') i (ab_signature b) = n"
    and "us_plan s' = PlanFile p'"
    and "\<exists>g. find_goal p' i = Some g \<and> g_blocker_count g = Some n \<and> g_non_retriable g = (3 \<le> n)
           \<and> g_status g = (if 3 \<le> n then UNeedsDecision else UFailed)"
proof -
  let ?opt = "failed_options i ev now"
  obtain p s1 where ran: "(case find_goal p (co_goal ?opt) of
         None \<Rightarrow> (Inl (UnknownGoal (co_goal ?opt)), s1)
       | Some g \<Rightarrow>
           (if p_completion p \<noteq> None \<and> co_status ?opt \<noteq> CkComplete then (Inl TerminalReceipt, s1)
            else (case co_status ?opt of
                    CkBlocked \<Rightarrow> (case blocked_checkpoint parse ?opt p g of
                         Inl e \<Rightarrow> (Inl e, s1) | Inr re \<Rightarrow> apply_blocked ?opt p g re s1)
                  | CkComplete \<Rightarrow> checkpoint_complete parse ?opt p g s1
                  | CkFailed \<Rightarrow> checkpoint_failed ?opt p g s1))) = (Inr p', s')"
    and corrupt: "us_ledger_corrupt s1 = us_ledger_corrupt s"
    and read: "read_plan_under_lock (lk_prefix env) (lk_clock env) s = (Inr p, s1)"
    using assms(1) unfolding checkpoint_ultragoal_def by (cases rule: with_plan_cases) simp
  have opt: "co_goal ?opt = i" "co_status ?opt = CkFailed" "co_evidence ?opt = Some ev" "co_now ?opt = now"
    by (simp_all add: failed_options_def)
  obtain g where g: "find_goal p i = Some g" and step: "checkpoint_failed ?opt p g s1 = (Inr p', s')"
    using ran by (auto simp: opt split: option.splits if_splits)
  have gi: "g_id g = i" using find_goal_id [OF g] by simp
  have fb: "failure_blocker ?opt s1 = Some (b, n)"
    using read_plan_ledger [OF read] corrupt assms(2,3)
    by (simp add: failure_blocker_def read_ledger_def opt n_def)
  have p': "p' = failed_plan ?opt p g (Some (b, n))"
    and s': "s' = append_ledger (failed_line ?opt (failed_goal ?opt (Some (b, n)) g)) (write_plan p' s1)"
    using step by (auto simp: checkpoint_failed_def fb Let_def)
  show "\<not> us_ledger_corrupt s'" using s' corrupt assms(3) by (simp add: append_ledger_def write_plan_def)
  show "us_plan s' = PlanFile p'" using s' by simp
  have "same_blocker_occurrences [failed_line ?opt (failed_goal ?opt (Some (b, n)) g)] i (ab_signature b) = 1"
    by (simp add: same_blocker_occurrences_def failed_line_def goal_line_def ledger_line_def failed_goal_def gi)
  then show "same_blocker_occurrences (us_ledger s') i (ab_signature b) = n"
    using s' read_plan_ledger [OF read] by (simp add: append_ledger_def write_plan_def occurrences_append n_def)
  have "find_goal p' i = Some (failed_goal ?opt (Some (b, n)) g)"
    using g unfolding p' failed_plan_def find_goal_def by (simp add: gi find_update_first)
  then show "\<exists>g. find_goal p' i = Some g \<and> g_blocker_count g = Some n \<and> g_non_retriable g = (3 \<le> n)
           \<and> g_status g = (if 3 \<le> n then UNeedsDecision else UFailed)"
    by (simp add: failed_goal_def circuit_breaks_def)
qed

lemma failures_count:
  assumes "failures parse i ev es s = Some s'" and "classify_authorization_blocker (Some ev) = Some b"
    and "\<not> us_ledger_corrupt s" and "es \<noteq> []"
    and "lifecycle_ok (map view (stored_goals s))"
  defines "n \<equiv> same_blocker_occurrences (us_ledger s) i (ab_signature b) + length es"
  shows "lifecycle_ok (map view (stored_goals s')) \<and> (\<exists>p g. us_plan s' = PlanFile p \<and> find_goal p i = Some g
    \<and> g_blocker_count g = Some n \<and> g_non_retriable g = (3 \<le> n) \<and> g_status g = (if 3 \<le> n then UNeedsDecision else UFailed))"
  using assms(1,3-5) unfolding n_def
proof (induction es arbitrary: s)
  case (Cons e es)
  obtain env now where e: "e = (env, now)" by fastforce
  obtain p1 s1 where one: "checkpoint_ultragoal parse env (failed_options i ev now) s = (Inr p1, s1)"
    and rest: "failures parse i ev es s1 = Some s'"
    using Cons.prems(1) by (auto simp: e split: prod.splits sum.splits)
  note step = failed_checkpoint_step [OF one assms(2) Cons.prems(2)]
  have ok: "lifecycle_ok (map view (stored_goals s1))"
    using lifecycle_ok_steps [OF sim_checkpoint [OF one] Cons.prems(4)] .
  show ?case
  proof (cases "es = []")
    case True
    with step rest ok show ?thesis by simp
  next
    case False
    with Cons.IH [OF rest step(1) False ok] step(2) show ?thesis by simp
  qed
qed simp

lemma started_from:
  assumes "start_next_ultragoal env retry now s = (Inr r, s'')" and "sr_goal r = Some h"
  shows "\<exists>g \<in> set (stored_goals s). g_id g = g_id h \<and> (is_running g \<or> is_startable g \<or> is_retriable g)"
  using assms(1) unfolding start_next_ultragoal_def
proof (cases rule: with_plan_cases)
  case (ran p s1)
  have id: "g_id (started_goal now g) = g_id g" for g by (simp add: started_goal_def clear_blocker_fields_def)
  show ?thesis
    using ran(3) assms(2) unfolding ran(2) [symmetric] begin_goal_def
    by (auto simp: start_result_of_def Let_def id dest!: find_SomeD split: if_splits option.splits; blast)
qed simp

text \<open>C20. The circuit breaker: consecutive failures of a goal with the same authorization evidence are
  counted over the ledger. The first two leave it failed and open to a retry; from the third on
  it awaits a decision of the user, and no later start, with or without retries, picks it.\<close>

theorem circuit_breaker:
  assumes "failures parse i ev es s = Some s'" and "es \<noteq> []"
    and "classify_authorization_blocker (Some ev) = Some b" and "\<not> us_ledger_corrupt s"
    and "same_blocker_occurrences (us_ledger s) i (ab_signature b) = 0"
    and "lifecycle_ok (map view (stored_goals s))"
  shows "\<exists>p g. us_plan s' = PlanFile p \<and> find_goal p i = Some g \<and> g_blocker_count g = Some (length es)
      \<and> g_status g = (if length es < 3 then UFailed else UNeedsDecision)
      \<and> is_retriable g = (length es < 3 \<and> is_schedule_eligible g)
      \<and> (\<forall>env retry now r s'' h. start_next_ultragoal env retry now s' = (Inr r, s'') \<and> sr_goal r = Some h \<and> 3 \<le> length es
            \<longrightarrow> g_id h \<noteq> i)"
proof -
  obtain p g where p: "us_plan s' = PlanFile p" "find_goal p i = Some g" and ok: "lifecycle_ok (map view (stored_goals s'))"
    and g: "g_blocker_count g = Some (length es)" "g_non_retriable g = (3 \<le> length es)"
      "g_status g = (if 3 \<le> length es then UNeedsDecision else UFailed)"
    using failures_count [OF assms(1,3,4,2,6)] assms(5) by auto
  have "g_id h \<noteq> i" if start: "start_next_ultragoal env retry now s' = (Inr r, s'')" "sr_goal r = Some h"
    and "3 \<le> length es" for env retry now r s'' h
  proof -
    have goals: "stored_goals s' = p_goals p" using p(1) by (simp add: stored_goals_def)
    from started_from [OF start] obtain c where c: "c \<in> set (p_goals p)" "g_id c = g_id h"
      "is_running c \<or> is_startable c \<or> is_retriable c" unfolding goals by blast
    show "g_id h \<noteq> i"
    proof
      assume "g_id h = i"
      then have "find_goal p i = Some c"
        using find_key [of g_id "p_goals p" c] lifecycle_ok_ids [OF ok [unfolded goals]] c(1,2) by (simp add: find_goal_def)
      with p(2) g(3) c(3) \<open>3 \<le> length es\<close> show False
        by (auto simp: is_running_def is_startable_def is_retriable_def)
    qed
  qed
  moreover have "g_status g = (if length es < 3 then UFailed else UNeedsDecision)" using g(3) by auto
  moreover have "is_retriable g = (length es < 3 \<and> is_schedule_eligible g)"
    using g(2,3) by (auto simp: is_retriable_def)
  ultimately show ?thesis using p g(1) by blast
qed

lemma circuit_breaker_witness:
  "\<exists>p g. us_plan (the (failures (\<lambda>_. None) ''G001-a'' ''token missing'' (replicate 3 (demo_lock_env, ''T'')) (snd demo_created))) = PlanFile p
     \<and> find_goal p ''G001-a'' = Some g \<and> g_status g = UNeedsDecision \<and> \<not> is_retriable g"
proof -
  let ?es = "replicate 3 (demo_lock_env, ''T'')"
  let ?s = "snd demo_created"
  let ?b = "the (classify_authorization_blocker (Some ''token missing''))"
  have "failures (\<lambda>_. None) ''G001-a'' ''token missing'' ?es ?s \<noteq> None" by code_simp
  then have run: "failures (\<lambda>_. None) ''G001-a'' ''token missing'' ?es ?s
      = Some (the (failures (\<lambda>_. None) ''G001-a'' ''token missing'' ?es ?s))" by simp
  have "classify_authorization_blocker (Some ''token missing'') \<noteq> None" by code_simp
  then have known: "classify_authorization_blocker (Some ''token missing'') = Some ?b" by simp
  have none: "same_blocker_occurrences (us_ledger ?s) ''G001-a'' (ab_signature ?b) = 0" by code_simp
  have intact: "\<not> us_ledger_corrupt ?s" by code_simp
  have "lifecycle_ok (map view (stored_goals ?s))" by code_simp
  from circuit_breaker [OF run _ known intact none this] show ?thesis by auto
qed

subsection \<open>The frame of steering\<close>

definition same_progress :: "ug_goal \<Rightarrow> ug_goal \<Rightarrow> bool" where
  "same_progress g h \<longleftrightarrow>
     g_id h = g_id g \<and> g_status h = g_status g \<and> g_attempt h = g_attempt g \<and> g_token_budget h = g_token_budget g
     \<and> g_created h = g_created g \<and> g_started h = g_started g \<and> g_completed h = g_completed g \<and> g_failed h = g_failed g
     \<and> g_review_blocked h = g_review_blocked g \<and> g_evidence h = g_evidence g \<and> g_failure_reason h = g_failure_reason g
     \<and> g_non_retriable h = g_non_retriable g \<and> g_resolution h = g_resolution g
     \<and> (g_status g \<noteq> UPending \<longrightarrow> g_title h = g_title g \<and> g_objective h = g_objective g)"

text \<open>Every goal keeps its progress, and what is new is pending.\<close>

definition steering_frame :: "string \<Rightarrow> ug_goal list \<Rightarrow> ug_goal list \<Rightarrow> bool" where
  "steering_frame evidence gs gs' \<longleftrightarrow>
     (\<forall>g \<in> set gs. \<exists>h \<in> set gs'. same_progress g h)
     \<and> (\<forall>h \<in> set gs'. g_id h \<notin> g_id ` set gs \<longrightarrow> g_status h = UPending \<and> g_attempt h = 0 \<and> g_evidence h = Some evidence)"

lemma same_progress_refl [simp]: "same_progress g g"
  by (simp add: same_progress_def)

lemma steering_frame_refl [simp]: "steering_frame ev gs gs"
  unfolding steering_frame_def using same_progress_refl by blast

lemma steering_frame_set: "steering_frame ev gs gs' \<Longrightarrow> set gs'' = set gs' \<Longrightarrow> steering_frame ev gs gs''"
  by (simp add: steering_frame_def)

lemma frame_grow:
  assumes "\<forall>g \<in> set new. g_status g = UPending \<and> g_attempt g = 0 \<and> g_evidence g = Some ev"
  shows "steering_frame ev gs (gs @ new)"
proof -
  have "\<forall>g \<in> set gs. \<exists>h \<in> set (gs @ new). same_progress g h" using same_progress_refl by fastforce
  with assms show ?thesis unfolding steering_frame_def by auto
qed

lemma frame_update:
  assumes "distinct (map g_id gs)" and "\<And>g. g \<in> set gs \<Longrightarrow> g_id g = i \<Longrightarrow> same_progress g (f g)"
  shows "\<forall>g \<in> set gs. \<exists>h \<in> set (update_first (\<lambda>g. g_id g = i) f gs). same_progress g h"
    and "g_id ` set (update_first (\<lambda>g. g_id g = i) f gs) = g_id ` set gs"
proof -
  let ?u = "\<lambda>g. if g_id g = i then f g else g"
  have up: "update_first (\<lambda>g. g_id g = i) f gs = map ?u gs" by (rule update_first_distinct [OF assms(1)])
  have same: "same_progress g (?u g)" if "g \<in> set gs" for g using assms(2) that by simp
  show "\<forall>g \<in> set gs. \<exists>h \<in> set (update_first (\<lambda>g. g_id g = i) f gs). same_progress g h"
    unfolding up set_map using same by blast
  have "g_id (?u g) = g_id g" if "g \<in> set gs" for g using same [OF that] unfolding same_progress_def by blast
  then show "g_id ` set (update_first (\<lambda>g. g_id g = i) f gs) = g_id ` set gs"
    unfolding up set_map image_image by (rule image_cong [OF refl])
qed

lemma steering_frame_update:
  assumes "distinct (map g_id gs)" and "\<And>g. g \<in> set gs \<Longrightarrow> g_id g = i \<Longrightarrow> same_progress g (f g)"
  shows "steering_frame ev gs (update_first (\<lambda>g. g_id g = i) f gs)"
  using frame_update [OF assms] unfolding steering_frame_def by blast

lemma steered_progress:
  "same_progress g (superseded_goal q ids now g)" "same_progress g (blocked_goal q now g)"
  "g_status g = UPending \<Longrightarrow> same_progress g (revised_goal q now g)"
  by (simp_all add: same_progress_def superseded_goal_def blocked_goal_def revised_goal_def steered_def Let_def)

lemma completion_move [simp]:
  "p_completion (move_goals_after t is p) = p_completion p" "p_mode (move_goals_after t is p) = p_mode p"
  "p_mode (release_active t p) = p_mode p" "p_mode (update_goal t f p) = p_mode p"
  "p_completion (release_active t p) = p_completion p" "p_completion (update_goal t f p) = p_completion p"
  by (simp_all add: move_goals_after_def Let_def release_active_def update_goal_def)

lemma replace_by_children_frame:
  assumes "replace_by_children p q t now = Inr p'" and "find_goal p (g_id t) = Some t" and ok: "lifecycle_ok (views p)"
  shows "steering_frame (sp_evidence q) (p_goals p) (p_goals p')" and "p_completion p' = p_completion p"
    and "p_mode p' = p_mode p"
proof -
  obtain p1 ids where one: "append_children p (child_goals q) (g_id t) (sp_evidence q) now = Inr (p1, ids)"
    and p': "p_goals p' = p_goals (move_goals_after (g_id t) ids (update_goal (g_id t) (superseded_goal q ids now) p1))"
      "p_completion p' = p_completion p1" "p_mode p' = p_mode p1"
    using assms(1) unfolding replace_by_children_def by (auto split: sum.splits)
  let ?p2 = "update_goal (g_id t) (superseded_goal q ids now) p1"
  note grow = append_children_steps [OF one]
  obtain new where new: "p_goals p1 = p_goals p @ new" "ids = map g_id new"
    "\<forall>g \<in> set new. g_status g = UPending \<and> g_attempt g = 0 \<and> g_evidence g = Some (sp_evidence q)"
    using grow by blast
  show "p_completion p' = p_completion p" "p_mode p' = p_mode p" using p' grow by simp_all
  have "lifecycle_ok (views p1)" using grow ok lifecycle_ok_steps by blast
  then have d1: "distinct (map g_id (p_goals p1))" by (rule lifecycle_ok_ids)
  have up: "\<forall>g \<in> set (p_goals p1). \<exists>h \<in> set (p_goals ?p2). same_progress g h"
    "g_id ` set (p_goals ?p2) = g_id ` set (p_goals p1)"
    using frame_update [OF d1, of "g_id t" "superseded_goal q ids now"] steered_progress(1) by simp_all
  have "distinct (map g_id (p_goals ?p2))"
    using d1 map_update_first_frame [of g_id "superseded_goal q ids now" "\<lambda>g. g_id g = g_id t" "p_goals p1"] steered_progress(1)
    by (simp add: same_progress_def)
  moreover have "distinct ids" using d1 new by simp
  ultimately have set: "set (p_goals p') = set (p_goals ?p2)"
    using p'(1) mset_move_goals_after [of ?p2 ids "g_id t"] mset_eq_setD by metis
  have old: "\<forall>g \<in> set (p_goals p). \<exists>h \<in> set (p_goals p'). same_progress g h"
    using up(1) unfolding set new(1) by simp
  have fresh: "g_status h = UPending \<and> g_attempt h = 0 \<and> g_evidence h = Some (sp_evidence q)"
    if h: "h \<in> set (p_goals p')" "g_id h \<notin> g_id ` set (p_goals p)" for h
  proof -
    have "g_id t \<in> g_id ` set (p_goals p)" using find_goal_id [OF assms(2)] by blast
    then have other: "g_id h \<noteq> g_id t" using h(2) by metis
    have "h \<in> (\<lambda>g. if g_id g = g_id t then superseded_goal q ids now g else g) ` set (p_goals p1)"
      using h(1) unfolding set by (simp add: update_first_distinct [OF d1])
    moreover have "g_id (superseded_goal q ids now g) = g_id g" for g
      using steered_progress(1) [of g q ids now] by (simp add: same_progress_def)
    ultimately have "h \<in> set (p_goals p1)" using other by auto
    then show ?thesis using h(2) new by auto
  qed
  show "steering_frame (sp_evidence q) (p_goals p) (p_goals p')"
    using old fresh unfolding steering_frame_def by blast
qed

lemma revise_needs_pending:
  assumes "kind_of q = Some ReviseWording" and "rejected_reasons p q = []" and "first_target p q = Some t"
  shows "g_status t = UPending"
  using assms by (simp add: rejected_reasons_def target_reasons_def reason_if_def needs_pending_target_def Let_def split: if_splits)

lemma apply_steering_frame:
  assumes "apply_steering p q now = Inr p'" and "rejected_reasons p q = []" and ok: "lifecycle_ok (views p)"
  shows "steering_frame (sp_evidence q) (p_goals p) (p_goals p') \<and> p_completion p' = p_completion p \<and> p_mode p' = p_mode p"
  using assms(1)
proof (cases rule: apply_steering_cases)
  case (add t b g)
  note facts = append_goal_ok [OF add(2)]
  have "g_status g = UPending" using facts(2) by (simp add: view_def)
  then show ?thesis using facts frame_grow [of "[g]"] by simp
next
  case reorder
  have "set (p_goals p') = set (p_goals p)"
    using reorder mset_reordered [OF lifecycle_ok_ids [OF ok] ordered_ids_distinct(1) [OF reorder(1) assms(2)]]
    by (metis mset_eq_setD)
  then show ?thesis using steering_frame_set [OF steering_frame_refl] reorder by (simp add: reordered_plan_def)
next
  case (revise t)
  have "t = g" if "g \<in> set (p_goals p)" "g_id g = g_id t" for g
    using first_target_find [OF revise(2)] find_key [OF lifecycle_ok_ids [OF ok] that(1)] that(2) by (simp add: find_goal_def)
  then have "same_progress g (revised_goal q now g)" if "g \<in> set (p_goals p)" "g_id g = g_id t" for g
    using that revise_needs_pending [OF revise(1) assms(2) revise(2)] steered_progress(3) by blast
  then show ?thesis using revise steering_frame_update [OF lifecycle_ok_ids [OF ok]] by simp
next
  case (replace t)
  then show ?thesis using replace_by_children_frame first_target_find ok by blast
next
  case (block t)
  then show ?thesis
    using steering_frame_update [OF lifecycle_ok_ids [OF ok], of "g_id t" "blocked_goal q now"] steered_progress(2) by simp
qed simp

text \<open>C35. Steering never moves a goal along: whatever the proposal, every goal of the plan is kept with
  its status, attempts, evidence, timestamps and review resolution, only pending goals are
  reworded, new goals are pending and carry the evidence of the proposal, and the completion
  receipt and the mode of the plan stay. A rejected or repeated proposal leaves the goals as they
  are.\<close>

theorem steering_keeps_progress:
  assumes "steer_ultragoal env q directive now s = (Inr r, s')" and "us_plan s = PlanFile p" and "lifecycle_ok (views p)"
  shows "\<exists>p'. us_plan s' = PlanFile p' \<and> steering_frame (sp_evidence q) (p_goals p) (p_goals p')
    \<and> p_completion p' = p_completion p \<and> p_mode p' = p_mode p
    \<and> (\<not> sr_accepted r \<or> sr_deduped r \<longrightarrow> p_goals p' = p_goals p)"
  using assms(1) unfolding steer_ultragoal_def
proof (cases rule: with_plan_cases)
  case (ran p1 s1)
  note frame = read_plan_frame [OF ran(6) assms(2)]
  have ok: "lifecycle_ok (views p1)" using assms(3) frame(2) by simp
  show ?thesis
  proof (cases "previous_steering q s1")
    case (Some a)
    then have "s' = s1" using ran(3) by simp
    then show ?thesis using ran(1) frame by simp
  next
    case None
    obtain acc reasons p2 where out: "steering_outcome p1 q now = (acc, reasons, p2)" by (metis prod.exhaust)
    have r: "sr_accepted r = acc" "\<not> sr_deduped r" and plan: "us_plan s' = PlanFile (if acc then p2 else p1)"
      using ran(1,3) None out by (auto simp: Let_def split: if_splits)
    from out show ?thesis
    proof (cases rule: steering_outcome_cases)
      case rejected
      then show ?thesis using plan r frame by simp
    next
      case accepted
      with apply_steering_frame [OF accepted(3,2) ok] show ?thesis using plan r frame by simp
    qed
  qed
qed simp

definition demo_child :: "string \<Rightarrow> js" where
  "demo_child t = JObj [(''title'', JStr t), (''objective'', JStr ''o'')]"

definition demo_split :: steering_proposal where
  "demo_split =
     \<lparr> sp_kind = ''split_subgoal'', sp_source = ''cli'', sp_target = Some ''G001-a'', sp_targets = None, sp_evidence = ''e'',
       sp_rationale = ''r'', sp_title = None, sp_objective = None, sp_children = Some [demo_child ''X'', demo_child ''Y''],
       sp_revised_title = None, sp_revised_objective = None, sp_order = None, sp_blocked_reason = None, sp_after = JUndef,
       sp_directive = None, sp_signature = None, sp_key = Some ''k'' \<rparr>"

definition demo_pending :: ug_plan where
  "demo_pending = initial_plan [fresh_goal ''G001-a'' ''A'' ''a'' ''T'', fresh_goal ''G002-b'' ''B'' ''b'' ''T''] PerStory ''T''"

definition demo_steered :: "(ug_error + steering_result) \<times> ug_store" where
  "demo_steered = steer_ultragoal demo_lock_env demo_split None ''T'' (demo_started\<lparr> us_plan := PlanFile demo_pending \<rparr>)"

lemma demo_steered_value:
  "case demo_steered of
     (Inr r, s) \<Rightarrow> sr_accepted r \<and> lifecycle_ok (views demo_pending)
       \<and> views (plan_of s) = [(''G001-a'', UPending, False), (''G003-x'', UPending, True), (''G004-y'', UPending, True),
                              (''G002-b'', UPending, True)]
   | (Inl _, _) \<Rightarrow> False"
  by code_simp

lemma steering_keeps_progress_witness:
  "steering_frame ''e'' (p_goals demo_pending) (p_goals (plan_of (snd demo_steered)))
     \<and> views (plan_of (snd demo_steered)) = [(''G001-a'', UPending, False), (''G003-x'', UPending, True),
         (''G004-y'', UPending, True), (''G002-b'', UPending, True)]"
proof -
  obtain x st where pair: "demo_steered = (x, st)" by fastforce
  obtain r where *: "demo_steered = (Inr r, st)" and ok: "lifecycle_ok (views demo_pending)"
    and v: "views (plan_of st) = [(''G001-a'', UPending, False), (''G003-x'', UPending, True), (''G004-y'', UPending, True),
                              (''G002-b'', UPending, True)]"
    using demo_steered_value [unfolded pair] pair by (cases x) simp_all
  have "\<exists>p'. us_plan st = PlanFile p' \<and> steering_frame (sp_evidence demo_split) (p_goals demo_pending) (p_goals p')"
    using steering_keeps_progress [OF * [unfolded demo_steered_def] _ ok] by auto
  then have "steering_frame ''e'' (p_goals demo_pending) (p_goals (plan_of st))"
    by (auto simp: plan_of_def demo_split_def)
  then show ?thesis unfolding * snd_conv using v by (rule conjI)
qed

subsection \<open>An ordinary close\<close>

text \<open>Without a gate, which an ordinary (not strict) checkpoint accepts, the designated resolver closes
  the plan but leaves its review-blocked parent unresolved: the plan reports done with a goal
  that still blocks completion.\<close>

definition demo_reviewed :: ug_plan where
  "demo_reviewed =
     (initial_plan
        [(fresh_goal ''G001-a'' ''A'' ''a'' ''T'')\<lparr> g_status := UReviewBlocked,
            g_resolution := Some \<lparr> br_resolver = ''G002-b'', br_complete = False, br_resolved_at = None, br_evidence = None \<rparr> \<rparr>,
         (fresh_goal ''G002-b'' ''B'' ''b'' ''T'')\<lparr> g_status := UInProgress, g_resolves := Some ''G001-a'' \<rparr>] Aggregate ''T'')
       \<lparr> p_objective := Some ''o'', p_active := Some ''G002-b'' \<rparr>"

theorem ordinary_close_leaves_review_blocked:
  "case checkpoint_ultragoal (\<lambda>_. None) demo_lock_env
          (demo_close\<lparr> co_goal := ''G002-b'', co_gate := JUndef, co_strict := False \<rparr>)
          (demo_started\<lparr> us_plan := PlanFile demo_reviewed \<rparr>) of
     (Inr p, _) \<Rightarrow> is_ultragoal_done p \<and> list_ex (\<lambda>g. is_completion_blocking g p) (p_goals p)
                   \<and> su_review_blocked (summarize_plan p) = 1
   | (Inl _, _) \<Rightarrow> False"
  by code_simp

end
