(* ===== verification/NodePath.thy ===== *)
theory NodePath
  imports JsValue
begin

text \<open>
  POSIX paths as the \<open>path\<close> module of the runtime resolves them, the file system calls the gates
  read, and \<open>canonicalizeComparablePath\<close> (\<open>src/utils/paths.ts\<close>). An absolute path is handled as
  its list of segments; \<open>fs_real\<close> is \<open>realpath\<close>, \<open>None\<close> when it throws.
\<close>

record fs_env =
  fs_here :: string
  fs_exists :: "string \<Rightarrow> bool"
  fs_real :: "string \<Rightarrow> string option"
  fs_json :: "string \<Rightarrow> json_file"

definition is_absolute :: "string \<Rightarrow> bool" where
  "is_absolute p \<longleftrightarrow> js_starts_with p ''/''"

text \<open>One segment after the ones resolved so far (innermost first).\<close>

definition push_segment :: "string \<Rightarrow> string list \<Rightarrow> string list" where
  "push_segment s acc =
     (if s = [] \<or> s = ''.'' then acc else if s = ''..'' then (case acc of [] \<Rightarrow> [] | _ # up \<Rightarrow> up) else s # acc)"

definition enter_path :: "string \<Rightarrow> string list \<Rightarrow> string list" where
  "enter_path p acc = fold push_segment (js_split CHR ''/'' p) (if is_absolute p then [] else acc)"

text \<open>\<open>resolve(p1, p2, ...)\<close>, outermost segment first.\<close>

definition resolve_segments :: "string \<Rightarrow> string list \<Rightarrow> string list" where
  "resolve_segments here ps = rev (fold enter_path (here # ps) [])"

definition path_of :: "string list \<Rightarrow> string" where
  "path_of segs = CHR ''/'' # js_join ''/'' segs"

definition path_resolve :: "string \<Rightarrow> string list \<Rightarrow> string" where
  "path_resolve here ps = path_of (resolve_segments here ps)"

fun relative_segments :: "string list \<Rightarrow> string list \<Rightarrow> string list" where
  "relative_segments (a # as) (b # bs) =
     (if a = b then relative_segments as bs else replicate (length (a # as)) ''..'' @ b # bs)"
| "relative_segments as bs = replicate (length as) ''..'' @ bs"

definition path_relative :: "string \<Rightarrow> string \<Rightarrow> string \<Rightarrow> string" where
  "path_relative here a b = js_join ''/'' (relative_segments (resolve_segments here [a]) (resolve_segments here [b]))"

text \<open>\<open>extname(p) === '.json'\<close> for a resolved path: a file whose whole name is \<open>.json\<close> has no
  extension.\<close>

definition has_json_extension :: "string list \<Rightarrow> bool" where
  "has_json_extension segs \<longleftrightarrow>
     segs \<noteq> [] \<and> js_starts_with (rev (last segs)) (rev ''.json'') \<and> length ''.json'' < length (last segs)"

text \<open>The innermost existing ancestor (innermost segment first) and the segments below it.\<close>

fun existing_ancestor :: "fs_env \<Rightarrow> string list \<Rightarrow> string list \<Rightarrow> (string list \<times> string list) option" where
  "existing_ancestor fs [] missing = (if fs_exists fs (path_of []) then Some ([], missing) else None)"
| "existing_ancestor fs (s # up) missing =
     (if fs_exists fs (path_of (rev (s # up))) then Some (s # up, missing) else existing_ancestor fs up (s # missing))"

definition canonicalize_comparable_path :: "fs_env \<Rightarrow> string \<Rightarrow> string" where
  "canonicalize_comparable_path fs p =
     (let segs = resolve_segments (fs_here fs) [p]
      in case existing_ancestor fs (rev segs) [] of
           None \<Rightarrow> path_of segs
         | Some (found, missing) \<Rightarrow>
             (case fs_real fs (path_of (rev found)) of
                None \<Rightarrow> path_of segs
              | Some r \<Rightarrow> path_resolve (fs_here fs) (r # missing)))"

subsection \<open>Resolved segments are plain names\<close>

definition plain_segment :: "string \<Rightarrow> bool" where
  "plain_segment s \<longleftrightarrow> s \<noteq> [] \<and> s \<noteq> ''.'' \<and> s \<noteq> ''..''"

lemma push_plain: "list_all plain_segment acc \<Longrightarrow> list_all plain_segment (push_segment s acc)"
  by (auto simp: push_segment_def plain_segment_def split: list.splits)

lemma fold_push_plain: "list_all plain_segment acc \<Longrightarrow> list_all plain_segment (fold push_segment ss acc)"
  by (induction ss arbitrary: acc) (simp_all add: push_plain)

lemma enter_plain: "list_all plain_segment acc \<Longrightarrow> list_all plain_segment (enter_path p acc)"
  by (simp add: enter_path_def fold_push_plain)

lemma fold_enter_plain: "list_all plain_segment acc \<Longrightarrow> list_all plain_segment (fold enter_path ps acc)"
  by (induction ps arbitrary: acc) (simp_all add: enter_plain)

lemma resolve_plain: "list_all plain_segment (resolve_segments here ps)"
  using fold_enter_plain [of "[]" "here # ps"] by (simp add: resolve_segments_def list_all_iff)

text \<open>A path whose relative form from \<open>a\<close> does not start by going up lies below \<open>a\<close>.\<close>

lemma relative_below:
  assumes "list_all plain_segment bs" "relative_segments as bs = [] \<or> hd (relative_segments as bs) \<noteq> ''..''"
  shows "bs = as @ relative_segments as bs"
  using assms
proof (induction as arbitrary: bs)
  case (Cons a as)
  then show ?case by (cases bs) (auto split: if_splits)
qed simp

end
