(* ===== verification/RalphContract.thy ===== *)
theory RalphContract
  imports NodePath RunOutcome
begin

text \<open>
  The contract of a ralph state (\<open>src/ralph/contract.ts\<close>): which phases it may name, the defaults
  of an active run and the bounds of its counters. The alias table is a plain object, so a phase
  spelled like a property every object inherits is found in it. And the evidence a completed
  ralph run must carry (\<open>src/ralph/completion-audit.ts\<close>).
\<close>

definition js_present :: "js \<Rightarrow> bool" where
  "js_present v \<longleftrightarrow> v \<noteq> JUndef \<and> v \<noteq> JNull"

subsection \<open>Phases\<close>

definition ralph_phases :: "string list" where
  "ralph_phases =
     [''starting'', ''executing'', ''verifying'', ''fixing'', ''blocked_on_user'', ''complete'', ''failed'', ''cancelled'']"

definition ralph_terminal_phases :: "string list" where
  "ralph_terminal_phases = [''blocked_on_user'', ''complete'', ''failed'', ''cancelled'']"

definition legacy_phase_aliases :: "(string \<times> js) list" where
  "legacy_phase_aliases = map (\<lambda>(a, p). (a, JStr p))
     [(''start'', ''starting''), (''started'', ''starting''), (''execution'', ''executing''), (''execute'', ''executing''),
      (''verify'', ''verifying''), (''verification'', ''verifying''), (''fix'', ''fixing''),
      (''blocked'', ''blocked_on_user''), (''blocked-on-user'', ''blocked_on_user''), (''complete'', ''complete''),
      (''completed'', ''complete''), (''fail'', ''failed''), (''error'', ''failed''), (''cancel'', ''cancelled'')]"

datatype ralph_error =
    PhaseEmpty
  | PhaseUnknown
  | BadIteration
  | BadMaxIterations
  | TerminalPhaseActive
  | BadStartedAt
  | BadCompletedAt

text \<open>The text of a value in the warning.\<close>

fun phase_text :: "js \<Rightarrow> string" where
  "phase_text (JStr s) = s"
| "phase_text (JHost n) = run_outcome_name (HostOutcome n)"
| "phase_text _ = []"

definition normalize_ralph_phase :: "js \<Rightarrow> ralph_error + (js \<times> string option)" where
  "normalize_ralph_phase raw =
     (if trimmed raw = [] then Inl PhaseEmpty
      else (let n = js_lower (trimmed raw)
            in if n \<in> set ralph_phases then Inr (JStr n, None)
               else (case table_get legacy_phase_aliases JHost n of
                       Some a \<Rightarrow> Inr (a, Some (legacy_warning ''Ralph phase'' raw (phase_text a)))
                     | None \<Rightarrow> Inl PhaseUnknown)))"

subsection \<open>The state\<close>

definition is_iso_timestamp :: "js \<Rightarrow> bool" where
  "is_iso_timestamp v \<longleftrightarrow>
     (case js_string v of None \<Rightarrow> False | Some s \<Rightarrow> js_trim s \<noteq> [] \<and> date_parse s \<noteq> None)"

definition default_field :: "string \<Rightarrow> js \<Rightarrow> js_record \<Rightarrow> js_record" where
  "default_field k v r = (if js_present (rec_get r k) then r else rec_set k v r)"

definition active_defaults :: "string \<Rightarrow> js_record \<Rightarrow> js_record" where
  "active_defaults now r =
     (if rec_get r ''active'' \<noteq> JBool True then r
      else default_field ''started_at'' (JStr now)
             (default_field ''current_phase'' (JStr ''starting'')
             (default_field ''max_iterations'' (JInt 50)
             (default_field ''iteration'' (JInt 0) r))))"

definition bounded_count :: "int \<Rightarrow> js \<Rightarrow> bool" where
  "bounded_count least v \<longleftrightarrow> js_present v \<longrightarrow> (case js_integer v of None \<Rightarrow> False | Some i \<Rightarrow> least \<le> i)"

definition in_terminal_phase :: "js_record \<Rightarrow> bool" where
  "in_terminal_phase r \<longleftrightarrow>
     (case js_string (rec_get r ''current_phase'') of None \<Rightarrow> False | Some p \<Rightarrow> p \<in> set ralph_terminal_phases)"

definition checked_time :: "js \<Rightarrow> bool" where
  "checked_time v \<longleftrightarrow> js_present v \<longrightarrow> is_iso_timestamp v"

definition named_phase :: "js_record \<Rightarrow> ralph_error + (js_record \<times> string option)" where
  "named_phase r =
     (if \<not> js_present (rec_get r ''current_phase'') then Inr (r, None)
      else (case normalize_ralph_phase (rec_get r ''current_phase'') of
              Inl e \<Rightarrow> Inl e
            | Inr (p, w) \<Rightarrow> Inr (rec_set ''current_phase'' p r, w)))"

definition validate_ralph_state :: "js_record \<Rightarrow> string \<Rightarrow> ralph_error + (js_record \<times> string option)" where
  "validate_ralph_state candidate now =
     (case named_phase candidate of
        Inl e \<Rightarrow> Inl e
      | Inr (r, w) \<Rightarrow>
          (let s = active_defaults now r;
               t = (if in_terminal_phase s then default_field ''completed_at'' (JStr now) s else s)
           in if \<not> bounded_count 0 (rec_get s ''iteration'') then Inl BadIteration
              else if \<not> bounded_count 1 (rec_get s ''max_iterations'') then Inl BadMaxIterations
              else if in_terminal_phase s \<and> rec_get s ''active'' = JBool True then Inl TerminalPhaseActive
              else if \<not> checked_time (rec_get t ''started_at'') then Inl BadStartedAt
              else if \<not> checked_time (rec_get t ''completed_at'') then Inl BadCompletedAt
              else Inr (t, w)))"

subsection \<open>The completion audit\<close>

datatype audit_source = FromState | FromArtifact | AuditMissing

record audit_result =
  au_complete :: bool
  au_reason :: string
  au_source :: audit_source

definition is_record :: "js \<Rightarrow> bool" where
  "is_record v \<longleftrightarrow> (case v of JObj _ \<Rightarrow> True | JHost n \<Rightarrow> n = ''__proto__'' | _ \<Rightarrow> False)"

definition is_inside_directory :: "string \<Rightarrow> string \<Rightarrow> string \<Rightarrow> bool" where
  "is_inside_directory here parent child \<longleftrightarrow>
     (let rel = path_relative here parent child
      in rel = [] \<or> \<not> js_starts_with rel ''..'' \<and> \<not> is_absolute rel)"

fun has_substantive_value :: "js \<Rightarrow> bool" where
  "has_substantive_value (JStr s) = (js_trim s \<noteq> [])"
| "has_substantive_value (JArr xs) = (xs \<noteq> [])"
| "has_substantive_value (JObj r) = (r \<noteq> [])"
| "has_substantive_value v = (v = JBool True)"

text \<open>\<open>None\<close> is the error of a \<open>realpath\<close> that fails.\<close>

definition read_audit_artifact :: "fs_env \<Rightarrow> string \<Rightarrow> js \<Rightarrow> js option option" where
  "read_audit_artifact fs cwd raw =
     (let p = trimmed raw; here = fs_here fs; dir = path_resolve here [cwd]; target = path_resolve here [dir, p]
      in if p = [] \<or> is_absolute p \<or> \<not> is_inside_directory here dir target
            \<or> \<not> fs_exists fs target \<or> \<not> has_json_extension (resolve_segments here [target]) then Some None
         else (case (fs_real fs dir, fs_real fs target) of
                 (Some real_dir, Some real_target) \<Rightarrow>
                   (if \<not> is_inside_directory here real_dir real_target then Some None
                    else (case fs_json fs target of
                            JsonFile v \<Rightarrow> Some (if is_record v then Some v else None)
                          | _ \<Rightarrow> Some None))
               | _ \<Rightarrow> None))"

definition audit_keys :: "string list" where
  "audit_keys = [''completion_audit'', ''completionAudit'', ''completion_audit_evidence'', ''completionAuditEvidence'']"

definition audit_path_keys :: "string list" where
  "audit_path_keys =
     [''completion_audit_path'', ''completionAuditPath'', ''completion_audit_evidence_path'', ''completionAuditEvidencePath'']"

fun first_artifact :: "fs_env \<Rightarrow> string \<Rightarrow> js list \<Rightarrow> js option option" where
  "first_artifact fs cwd [] = Some None"
| "first_artifact fs cwd (v # vs) =
     (case read_audit_artifact fs cwd v of
        None \<Rightarrow> None
      | Some None \<Rightarrow> first_artifact fs cwd vs
      | Some (Some a) \<Rightarrow> Some (Some a))"

definition select_audit_candidate :: "fs_env \<Rightarrow> js_record \<Rightarrow> string \<Rightarrow> (js option \<times> audit_source) option" where
  "select_audit_candidate fs state cwd =
     (case List.find is_record (map (rec_get state) audit_keys) of
        Some a \<Rightarrow> Some (Some a, FromState)
      | None \<Rightarrow>
          (case first_artifact fs cwd (map (rec_get state) audit_path_keys) of
             None \<Rightarrow> None
           | Some (Some a) \<Rightarrow> Some (Some a, FromArtifact)
           | Some None \<Rightarrow> Some (None, AuditMissing)))"

text \<open>\<open>v.k1 ?? v.k2 ?? ...\<close>\<close>

definition coalesce_keys :: "js \<Rightarrow> string list \<Rightarrow> js" where
  "coalesce_keys v ks = fold (\<lambda>k found. js_coalesce found (js_get v k)) ks JUndef"

definition checklist_keys :: "string list" where
  "checklist_keys =
     [''prompt_to_artifact_checklist'', ''promptToArtifactChecklist'', ''checklist'', ''requirements_checklist'',
      ''requirementsChecklist'']"

definition evidence_keys :: "string list" where
  "evidence_keys =
     [''verification_evidence'', ''verificationEvidence'', ''evidence'', ''validation_evidence'', ''validationEvidence'',
      ''commands'', ''tests'']"

definition evaluate_completion_audit :: "fs_env \<Rightarrow> js_record \<Rightarrow> string \<Rightarrow> audit_result option" where
  "evaluate_completion_audit fs state cwd =
     map_option (\<lambda>(audit, source).
         case audit of
           None \<Rightarrow> \<lparr> au_complete = False, au_reason = ''missing_completion_audit'', au_source = source \<rparr>
         | Some a \<Rightarrow>
             (if js_get a ''passed'' \<noteq> JBool True
              then \<lparr> au_complete = False, au_reason = ''completion_audit_not_passing'', au_source = source \<rparr>
              else if \<not> has_substantive_value (coalesce_keys a checklist_keys)
              then \<lparr> au_complete = False, au_reason = ''missing_completion_checklist'', au_source = source \<rparr>
              else if \<not> has_substantive_value (coalesce_keys a evidence_keys)
              then \<lparr> au_complete = False, au_reason = ''missing_verification_evidence'', au_source = source \<rparr>
              else \<lparr> au_complete = True, au_reason = ''completion_audit_passed'', au_source = source \<rparr>))
       (select_audit_candidate fs state cwd)"

definition is_ralph_complete_phase :: "js \<Rightarrow> bool" where
  "is_ralph_complete_phase v \<longleftrightarrow> js_lower (trimmed v) \<in> {''complete'', ''completed''}"

subsection \<open>Accepted states\<close>

definition ralph_wf :: "js_record \<Rightarrow> bool" where
  "ralph_wf s \<longleftrightarrow>
     (js_present (rec_get s ''current_phase'') \<longrightarrow> rec_get s ''current_phase'' \<in> JStr ` set ralph_phases)
     \<and> bounded_count 0 (rec_get s ''iteration'') \<and> bounded_count 1 (rec_get s ''max_iterations'')
     \<and> checked_time (rec_get s ''started_at'') \<and> checked_time (rec_get s ''completed_at'')
     \<and> (rec_get s ''active'' = JBool True \<longrightarrow>
          js_present (rec_get s ''current_phase'') \<and> js_present (rec_get s ''iteration'')
          \<and> js_present (rec_get s ''max_iterations'') \<and> js_present (rec_get s ''started_at''))
     \<and> (in_terminal_phase s \<longrightarrow> rec_get s ''active'' \<noteq> JBool True \<and> js_present (rec_get s ''completed_at''))"

lemma js_present_simps [simp]:
  "js_present (JStr t)" "js_present (JNum n)" "js_present (JBool b)" "\<not> js_present JUndef" "\<not> js_present JNull"
  by (simp_all add: js_present_def)

lemma default_field_get [simp]:
  "rec_get (default_field k v r) l = (if l = k \<and> \<not> js_present (rec_get r k) then v else rec_get r l)"
  by (simp add: default_field_def)

lemma default_field_id: "js_present (rec_get r k) \<Longrightarrow> default_field k v r = r"
  by (simp add: default_field_def)

lemma ralph_phase_word: "p \<in> set ralph_phases \<Longrightarrow> js_lower (js_trim p) = p \<and> p \<noteq> []"
proof -
  have "list_all (\<lambda>p. lower_word p \<and> p \<noteq> []) ralph_phases" by code_simp
  then show "p \<in> set ralph_phases \<Longrightarrow> js_lower (js_trim p) = p \<and> p \<noteq> []"
    by (auto simp: list_all_iff js_lower_word js_trim_word)
qed

lemma normalize_phase_id: "p \<in> set ralph_phases \<Longrightarrow> normalize_ralph_phase (JStr p) = Inr (JStr p, None)"
  using ralph_phase_word [of p]
  by (auto simp: normalize_ralph_phase_def Let_def dest: arg_cong [of "js_trim p" "[]" js_lower])

lemma alias_phases: "list_all (\<lambda>(a, v). v \<in> JStr ` set ralph_phases) legacy_phase_aliases"
  by (simp add: legacy_phase_aliases_def ralph_phases_def)

lemma normalize_phase_range:
  assumes "normalize_ralph_phase v = Inr (p, w)" "js_lower (trimmed v) \<notin> set inherited_names"
  shows "p \<in> JStr ` set ralph_phases"
proof (cases "js_lower (trimmed v) \<in> set ralph_phases")
  case True
  with assms(1) show ?thesis by (auto simp: normalize_ralph_phase_def Let_def split: if_splits)
next
  case False
  with assms have "map_of legacy_phase_aliases (js_lower (trimmed v)) = Some p"
    by (auto simp: normalize_ralph_phase_def table_get_def Let_def split: if_splits option.splits)
  then show ?thesis using alias_phases by (auto simp: list_all_iff dest: map_of_SomeD)
qed

lemma named_phase_range:
  assumes "named_phase c = Inr (r, w)" "js_lower (trimmed (rec_get c ''current_phase'')) \<notin> set inherited_names"
  shows "(js_present (rec_get r ''current_phase'') \<longrightarrow> rec_get r ''current_phase'' \<in> JStr ` set ralph_phases)
    \<and> (\<forall>k. k \<noteq> ''current_phase'' \<longrightarrow> rec_get r k = rec_get c k)"
  using assms normalize_phase_range [of "rec_get c ''current_phase''"]
  by (auto simp: named_phase_def split: if_splits sum.splits)

lemma active_defaults_get:
  "rec_get (active_defaults now r) k =
     (if rec_get r ''active'' = JBool True \<and> \<not> js_present (rec_get r k)
      then (if k = ''iteration'' then JInt 0 else if k = ''max_iterations'' then JInt 50
            else if k = ''current_phase'' then JStr ''starting'' else if k = ''started_at'' then JStr now
            else rec_get r k)
      else rec_get r k)"
  by (auto simp: active_defaults_def)

text \<open>A well-formed state is accepted as it is.\<close>

lemma named_phase_id:
  assumes "js_present (rec_get s ''current_phase'') \<longrightarrow> rec_get s ''current_phase'' \<in> JStr ` set ralph_phases"
  shows "named_phase s = Inr (s, None)"
proof (cases "js_present (rec_get s ''current_phase'')")
  case True
  with assms obtain p where p: "p \<in> set ralph_phases" "rec_get s ''current_phase'' = JStr p" by blast
  then have "rec_set ''current_phase'' (JStr p) s = s" by (intro rec_set_get) simp_all
  with p True show ?thesis by (simp add: named_phase_def normalize_phase_id)
qed (simp add: named_phase_def)

lemma validate_wf_id:
  assumes "ralph_wf s"
  shows "validate_ralph_state s now = Inr (s, None)"
proof -
  have n: "named_phase s = Inr (s, None)"
    using assms by (intro named_phase_id) (simp add: ralph_wf_def)
  have a: "active_defaults now s = s"
    using assms by (simp add: active_defaults_def default_field_id ralph_wf_def)
  have c: "in_terminal_phase s \<Longrightarrow> default_field ''completed_at'' (JStr now) s = s"
    using assms by (simp add: default_field_id ralph_wf_def)
  show ?thesis
    using assms by (simp add: validate_ralph_state_def n a c ralph_wf_def)
qed

lemma validate_accepted:
  assumes "validate_ralph_state c now = Inr (s, w)"
  obtains r where "named_phase c = Inr (r, w)"
    "s = (if in_terminal_phase (active_defaults now r)
          then default_field ''completed_at'' (JStr now) (active_defaults now r) else active_defaults now r)"
    "bounded_count 0 (rec_get (active_defaults now r) ''iteration'')"
    "bounded_count 1 (rec_get (active_defaults now r) ''max_iterations'')"
    "in_terminal_phase (active_defaults now r) \<Longrightarrow> rec_get (active_defaults now r) ''active'' \<noteq> JBool True"
    "checked_time (rec_get s ''started_at'')" "checked_time (rec_get s ''completed_at'')"
  using assms by (auto simp: validate_ralph_state_def Let_def split: sum.splits if_splits)

lemma validate_result_get:
  assumes "validate_ralph_state c now = Inr (s, w)"
    "k \<notin> {''current_phase'', ''iteration'', ''max_iterations'', ''started_at'', ''completed_at''}"
  shows "rec_get s k = rec_get c k"
proof -
  obtain r where r: "named_phase c = Inr (r, w)"
    "s = (if in_terminal_phase (active_defaults now r)
          then default_field ''completed_at'' (JStr now) (active_defaults now r) else active_defaults now r)"
    using assms(1) by (rule validate_accepted)
  have "rec_get r k = rec_get c k"
    using r(1) assms(2) by (auto simp: named_phase_def split: if_splits sum.splits)
  then show ?thesis using r(2) assms(2) by (simp add: active_defaults_get)
qed

lemma validate_wf:
  assumes "validate_ralph_state c now = Inr (s, w)" "js_lower (trimmed (rec_get c ''current_phase'')) \<notin> set inherited_names"
  shows "ralph_wf s"
  using assms(1)
proof (rule validate_accepted)
  fix r
  let ?d = "active_defaults now r"
  assume named: "named_phase c = Inr (r, w)"
    and s: "s = (if in_terminal_phase ?d then default_field ''completed_at'' (JStr now) ?d else ?d)"
    and counts: "bounded_count 0 (rec_get ?d ''iteration'')" "bounded_count 1 (rec_get ?d ''max_iterations'')"
    and idle: "in_terminal_phase ?d \<Longrightarrow> rec_get ?d ''active'' \<noteq> JBool True"
    and times: "checked_time (rec_get s ''started_at'')" "checked_time (rec_get s ''completed_at'')"
  have get: "rec_get s k = rec_get ?d k" if "k \<noteq> ''completed_at''" for k
    using that by (simp add: s)
  then have final: "in_terminal_phase s = in_terminal_phase ?d" by (simp add: in_terminal_phase_def)
  have phase: "js_present (rec_get r ''current_phase'') \<longrightarrow> rec_get r ''current_phase'' \<in> JStr ` set ralph_phases"
    using named_phase_range [OF named assms(2)] by blast
  have "js_present (rec_get ?d ''current_phase'') \<longrightarrow> rec_get ?d ''current_phase'' \<in> JStr ` set ralph_phases"
    using phase by (auto simp: active_defaults_get ralph_phases_def)
  moreover have "rec_get ?d ''active'' = JBool True \<longrightarrow> js_present (rec_get ?d ''current_phase'')
      \<and> js_present (rec_get ?d ''iteration'') \<and> js_present (rec_get ?d ''max_iterations'') \<and> js_present (rec_get ?d ''started_at'')"
    by (simp add: active_defaults_get)
  moreover have "in_terminal_phase s \<longrightarrow> js_present (rec_get s ''completed_at'')"
    unfolding final by (simp add: s)
  ultimately show "ralph_wf s"
    unfolding ralph_wf_def final using get counts times idle by simp
qed


definition demo_ralph :: js_record where
  "demo_ralph = [(''active'', JBool True), (''current_phase'', JStr '' Verify '')]"

lemma demo_ralph_value:
  "validate_ralph_state demo_ralph ''2025-01-01'' =
     Inr ([(''active'', JBool True), (''current_phase'', JStr ''verifying''), (''iteration'', JInt 0),
           (''max_iterations'', JInt 50), (''started_at'', JStr ''2025-01-01'')],
          Some (legacy_warning ''Ralph phase'' (JStr '' Verify '') ''verifying''))"
  by code_simp


text \<open>An inherited name passes: the stored phase is the function \<open>Object\<close>, which is no phase.\<close>

theorem inherited_phase_accepted:
  "validate_ralph_state [(''current_phase'', JStr ''Constructor'')] now =
     Inr ([(''current_phase'', JHost ''constructor'')],
          Some (legacy_warning ''Ralph phase'' (JStr ''Constructor'') ''function Object() { [native code] }''))"
proof -
  have "named_phase [(''current_phase'', JStr ''Constructor'')] =
     Inr ([(''current_phase'', JHost ''constructor'')],
          Some (legacy_warning ''Ralph phase'' (JStr ''Constructor'') ''function Object() { [native code] }''))"
    by code_simp
  then show ?thesis
    by (simp add: validate_ralph_state_def active_defaults_def in_terminal_phase_def bounded_count_def checked_time_def rec_get_def)
qed

end
