(* ===== verification/AutopilotGate.thy ===== *)
theory AutopilotGate
  imports RalphContract Regex "HOL-Library.Sublist"
begin

text \<open>
  The phases of an autopilot run (\<open>src/autopilot/fsm.ts\<close>), the carrier of its handoff artifacts
  (\<open>src/state/handoff-carrier.ts\<close>) and the gate every phase change passes
  (\<open>src/autopilot/completion-gate.ts\<close>): it refuses forged or misplaced evidence with an error and
  answers missing evidence with an advisory. Paths are POSIX paths; the files are read
  through \<open>fs_env\<close>.
\<close>

subsection \<open>Phases\<close>

datatype child_phase = ApDeepInterview | ApRalplan | ApUltragoal | ApRework | ApTeam | ApRalph | ApCodeReview | ApUltraqa

datatype runtime_phase = Child child_phase | ApWaiting | ApComplete | ApFailed

fun child_phase_name :: "child_phase \<Rightarrow> string" where
  "child_phase_name ApDeepInterview = ''deep-interview''"
| "child_phase_name ApRalplan = ''ralplan''"
| "child_phase_name ApUltragoal = ''ultragoal''"
| "child_phase_name ApRework = ''rework''"
| "child_phase_name ApTeam = ''team''"
| "child_phase_name ApRalph = ''ralph''"
| "child_phase_name ApCodeReview = ''code-review''"
| "child_phase_name ApUltraqa = ''ultraqa''"

fun runtime_phase_name :: "runtime_phase \<Rightarrow> string" where
  "runtime_phase_name (Child c) = child_phase_name c"
| "runtime_phase_name ApWaiting = ''waiting-for-user''"
| "runtime_phase_name ApComplete = ''complete''"
| "runtime_phase_name ApFailed = ''failed''"

definition autopilot_child_phases :: "child_phase list" where
  "autopilot_child_phases =
     [ApDeepInterview, ApRalplan, ApUltragoal, ApRework, ApTeam, ApRalph, ApCodeReview, ApUltraqa]"

definition autopilot_runtime_phases :: "runtime_phase list" where
  "autopilot_runtime_phases = map Child autopilot_child_phases @ [ApWaiting, ApComplete, ApFailed]"

definition strip_autopilot_prefix :: "string \<Rightarrow> string" where
  "strip_autopilot_prefix s = (if js_starts_with s ''autopilot:'' then drop (length ''autopilot:'') s else s)"

definition normalize_phase_text :: "js \<Rightarrow> string" where
  "normalize_phase_text v =
     (let n = strip_autopilot_prefix (map (\<lambda>c. if c = CHR ''_'' then CHR ''-'' else c) (js_lower (trimmed v)))
      in if n = ''completed'' then ''complete''
         else if n = ''planning'' \<or> n = ''replan'' then ''ralplan''
         else if n = ''fix'' \<or> n = ''review-fix'' \<or> n = ''implementation-fix'' then ''rework''
         else n)"

definition normalize_autopilot_phase :: "js \<Rightarrow> runtime_phase option" where
  "normalize_autopilot_phase v =
     List.find (\<lambda>p. runtime_phase_name p = normalize_phase_text v) autopilot_runtime_phases"

fun child_of :: "runtime_phase option \<Rightarrow> child_phase option" where
  "child_of (Some (Child c)) = Some c"
| "child_of _ = None"

definition object_record :: "js \<Rightarrow> js_record" where
  "object_record v = (case v of JObj r \<Rightarrow> r | _ \<Rightarrow> [])"

definition waiting_previous_phase :: "js_record \<Rightarrow> child_phase option" where
  "waiting_previous_phase state =
     child_of (normalize_autopilot_phase
       (js_get (js_get (rec_get state ''state'') ''deep_interview_question'') ''previous_phase''))"

definition derive_child_phase :: "js_record \<Rightarrow> child_phase option" where
  "derive_child_phase state =
     (if \<not> (trimmed (rec_get state ''mode'') = ''autopilot'' \<and> rec_get state ''active'' = JBool True) then None
      else (case normalize_autopilot_phase (rec_get state ''current_phase'') of
              Some (Child c) \<Rightarrow> Some c
            | Some ApWaiting \<Rightarrow> waiting_previous_phase state
            | _ \<Rightarrow> None))"

definition derive_autopilot_child_phase :: "js \<Rightarrow> child_phase option" where
  "derive_autopilot_child_phase v = derive_child_phase (object_record v)"

definition is_autopilot_supervising :: "js \<Rightarrow> bool" where
  "is_autopilot_supervising v \<longleftrightarrow>
     trimmed (js_get v ''mode'') = ''autopilot'' \<and> js_get v ''active'' = JBool True \<and> derive_autopilot_child_phase v \<noteq> None"

definition is_autopilot_supervising_child :: "js \<Rightarrow> child_phase \<Rightarrow> bool" where
  "is_autopilot_supervising_child v c \<longleftrightarrow> is_autopilot_supervising v \<and> derive_autopilot_child_phase v = Some c"

definition derive_autopilot_stage_label :: "js \<Rightarrow> string option" where
  "derive_autopilot_stage_label v = map_option (\<lambda>c. ''autopilot:'' @ child_phase_name c) (derive_autopilot_child_phase v)"

subsection \<open>Handoff carriers\<close>

datatype gate_refusal =
    MalformedCarrier string
  | StoredCarrierMalformed string
  | OutOfScopeArtifact string
  | ForgedEvidence "string list"

definition is_valid_handoff_carrier :: "js \<Rightarrow> bool" where
  "is_valid_handoff_carrier v \<longleftrightarrow> \<not> js_present v \<or> is_record v"

definition require_persisted_carrier :: "js \<Rightarrow> string \<Rightarrow> gate_refusal + js_record" where
  "require_persisted_carrier v label =
     (if is_valid_handoff_carrier v then Inr (object_record v) else Inl (StoredCarrierMalformed label))"

definition carriers_error :: "js_record \<Rightarrow> string \<Rightarrow> gate_refusal option" where
  "carriers_error payload label =
     (if \<not> is_valid_handoff_carrier (rec_get payload ''handoff_artifacts'')
      then Some (MalformedCarrier (label @ '' handoff_artifacts''))
      else if is_record (rec_get payload ''state'')
              \<and> \<not> is_valid_handoff_carrier (js_get (rec_get payload ''state'') ''handoff_artifacts'')
      then Some (MalformedCarrier (label @ '' state.handoff_artifacts''))
      else None)"

subsection \<open>Reading the evidence\<close>

definition state_field :: "js_record \<Rightarrow> string \<Rightarrow> js" where
  "state_field state k =
     (case map_of state k of Some v \<Rightarrow> v | None \<Rightarrow> rec_get (object_record (rec_get state ''state'')) k)"

definition working_directory :: "js_record \<Rightarrow> string" where
  "working_directory state =
     (let nested = object_record (rec_get state ''state'')
      in trimmed (js_coalesce (rec_get state ''workingDirectory'') (js_coalesce (rec_get state ''cwd'')
           (js_coalesce (rec_get nested ''workingDirectory'') (rec_get nested ''cwd'')))))"

definition forward_slashes :: "string \<Rightarrow> string" where
  "forward_slashes s = map (\<lambda>c. if c = char_of (92 :: nat) then CHR ''/'' else c) s"

definition stays_inside :: "string \<Rightarrow> bool" where
  "stays_inside rel \<longleftrightarrow> \<not> is_absolute rel \<and> rel \<noteq> ''..'' \<and> \<not> js_starts_with rel ''../''"

definition has_prefix :: "string list \<Rightarrow> string \<Rightarrow> bool" where
  "has_prefix dirs rel \<longleftrightarrow> list_ex (\<lambda>p. js_starts_with rel p) dirs"

definition canonical_relative :: "fs_env \<Rightarrow> string \<Rightarrow> string \<Rightarrow> string" where
  "canonical_relative fs root_dir target =
     forward_slashes (path_relative (fs_here fs)
       (canonicalize_comparable_path fs root_dir) (canonicalize_comparable_path fs target))"

definition is_canonical_artifact_path :: "fs_env \<Rightarrow> js_record \<Rightarrow> js \<Rightarrow> string list \<Rightarrow> bool" where
  "is_canonical_artifact_path fs state raw dirs \<longleftrightarrow>
     (let cwd = working_directory state; p = trimmed raw; here = fs_here fs;
          target = path_resolve here [cwd, p]; omx = path_resolve here [cwd, ''.omx''];
          rel = path_relative here (path_resolve here [cwd]) target;
          allowed = forward_slashes (path_relative here omx target);
          canonical = canonical_relative fs omx target
      in cwd \<noteq> [] \<and> p \<noteq> [] \<and> stays_inside rel \<and> stays_inside allowed \<and> has_prefix dirs allowed
         \<and> stays_inside canonical \<and> has_prefix dirs canonical)"

definition existing_repo_artifact :: "fs_env \<Rightarrow> js_record \<Rightarrow> js \<Rightarrow> string list \<Rightarrow> bool" where
  "existing_repo_artifact fs state raw dirs \<longleftrightarrow>
     (let cwd = working_directory state; p = trimmed raw; here = fs_here fs;
          target = path_resolve here [cwd, p]; omx = path_resolve here [cwd, ''.omx''];
          rel = path_relative here (path_resolve here [cwd]) target;
          allowed = path_relative here omx target;
          canonical = canonical_relative fs omx target
      in cwd \<noteq> [] \<and> p \<noteq> [] \<and> stays_inside rel \<and> stays_inside allowed \<and> has_prefix dirs (forward_slashes allowed)
         \<and> stays_inside canonical \<and> has_prefix dirs canonical \<and> fs_exists fs target)"

definition misplaced_artifact :: "fs_env \<Rightarrow> js_record \<Rightarrow> js \<Rightarrow> string list \<Rightarrow> bool" where
  "misplaced_artifact fs state raw dirs \<longleftrightarrow>
     trimmed raw \<noteq> [] \<and> \<not> is_canonical_artifact_path fs state (JStr (trimmed raw)) dirs"

definition interview_dirs :: "string list" where
  "interview_dirs = [''specs/'', ''context/'', ''interviews/'']"

definition plan_dirs :: "string list" where
  "plan_dirs = [''plans/'']"

fun is_implementation_phase :: "child_phase option \<Rightarrow> bool" where
  "is_implementation_phase (Some p) = (p \<in> {ApUltragoal, ApRework, ApTeam, ApRalph})"
| "is_implementation_phase None = False"

fun allowed_active_transitions :: "child_phase \<Rightarrow> child_phase list" where
  "allowed_active_transitions ApDeepInterview = [ApDeepInterview, ApRalplan]"
| "allowed_active_transitions ApRalplan = [ApRalplan, ApUltragoal]"
| "allowed_active_transitions ApUltragoal = [ApUltragoal, ApTeam, ApCodeReview]"
| "allowed_active_transitions ApRework = [ApRework, ApTeam, ApCodeReview]"
| "allowed_active_transitions ApTeam = [ApTeam, ApUltragoal, ApRework, ApCodeReview]"
| "allowed_active_transitions ApRalph = [ApRalph, ApCodeReview]"
| "allowed_active_transitions ApCodeReview = [ApCodeReview, ApRework, ApRalplan, ApUltraqa]"
| "allowed_active_transitions ApUltraqa = [ApUltraqa, ApRalplan]"

subsection \<open>The handoff of the interview\<close>

definition deep_interview_artifact_path :: "js \<Rightarrow> js" where
  "deep_interview_artifact_path artifact =
     (case artifact of
        JStr _ \<Rightarrow> artifact
      | _ \<Rightarrow> js_coalesce (js_get artifact ''spec_path'') (js_coalesce (js_get artifact ''path'') (js_get artifact ''artifact_path'')))"

definition has_deep_interview_handoff :: "fs_env \<Rightarrow> js_record \<Rightarrow> bool" where
  "has_deep_interview_handoff fs state \<longleftrightarrow>
     (let gate = object_record (state_field state ''deep_interview_gate'');
          artifact = rec_get (object_record (state_field state ''handoff_artifacts'')) ''deep_interview'';
          status = js_lower (trimmed (rec_get gate ''status''))
      in if status = ''skipped'' \<and> rec_get gate ''skip_authorized_by_user'' = JBool True \<and> trimmed (rec_get gate ''skip_reason'') \<noteq> []
         then js_lower (trimmed (rec_get gate ''source'')) = ''user''
              \<and> trimmed (rec_get gate ''session_id'') = trimmed (rec_get state ''session_id'')
              \<and> date_parse (trimmed (rec_get gate ''skipped_at'')) \<noteq> None
              \<and> existing_repo_artifact fs state
                  (js_coalesce (js_get artifact ''spec_path'') (js_get artifact ''path'')) interview_dirs
         else status = ''complete'' \<and> trimmed (rec_get gate ''rationale'') \<noteq> []
              \<and> existing_repo_artifact fs state (deep_interview_artifact_path artifact) interview_dirs)"

subsection \<open>The handoff of ralplan\<close>

definition approved_review :: "js \<Rightarrow> string \<Rightarrow> bool" where
  "approved_review v role \<longleftrightarrow>
     (let r = object_record v
      in js_lower (trimmed (js_coalesce (rec_get r ''agent_role'') (rec_get r ''role''))) = role
         \<and> js_lower (trimmed (js_coalesce (rec_get r ''verdict'') (rec_get r ''recommendation'')))
             \<in> {''approve'', ''approved'', ''okay''})"

definition digits :: "nat \<Rightarrow> rx" where
  "digits n = rx_seq (replicate n (Cls is_digit))"

definition valid_iso_timestamp :: "js \<Rightarrow> bool" where
  "valid_iso_timestamp v \<longleftrightarrow>
     rx_test (rx_seq [Bos, digits 4, rx_lit ''-'', digits 2, rx_lit ''-'', digits 2, rx_lit ''T'', digits 2, rx_lit '':'',
                      digits 2, rx_lit '':'', digits 2, rx_opt (rx_seq [rx_lit ''.'', digits 3]), rx_lit ''Z'', Eos])
       (trimmed v)
     \<and> date_parse (trimmed v) \<noteq> None"

definition cycle_of :: "js_record \<Rightarrow> js" where
  "cycle_of review = js_coalesce (rec_get review ''review_cycle'') (rec_get review ''iteration'')"

definition shape_error :: "js \<Rightarrow> string \<Rightarrow> string list" where
  "shape_error v label =
     (if js_present v \<and> \<not> is_record v then [label @ '' must be an object''] else [])"

definition integer_error :: "js \<Rightarrow> string \<Rightarrow> string list" where
  "integer_error v label =
     (if js_present v \<and> js_integer v = None then [label @ '' must be an integer''] else [])"

definition forged_evidence :: "js_record \<Rightarrow> string list" where
  "forged_evidence state =
     (let raw_gate = state_field state ''ralplan_consensus_gate'';
          raw_execution = state_field state ''ralplan_execution_handoff'';
          raw_handoffs = state_field state ''handoff_artifacts'';
          member = rec_get (object_record raw_handoffs) ''ralplan'';
          gate = object_record raw_gate; execution = object_record raw_execution;
          architect = object_record (rec_get gate ''ralplan_architect_review'');
          critic = object_record (rec_get gate ''ralplan_critic_review'');
          authorized_at = rec_get execution ''authorized_at''
      in shape_error raw_gate ''ralplan_consensus_gate'' @ shape_error raw_execution ''ralplan_execution_handoff''
         @ shape_error raw_handoffs ''handoff_artifacts''
         @ (if js_string member = None then shape_error member ''handoff_artifacts.ralplan'' else [])
         @ shape_error (rec_get gate ''ralplan_architect_review'') ''ralplan_architect_review''
         @ shape_error (rec_get gate ''ralplan_critic_review'') ''ralplan_critic_review''
         @ integer_error (rec_get architect ''sequence_index'') ''architect sequence_index''
         @ integer_error (rec_get critic ''sequence_index'') ''critic sequence_index''
         @ integer_error (cycle_of architect) ''architect review_cycle''
         @ integer_error (cycle_of critic) ''critic review_cycle''
         @ integer_error (rec_get execution ''review_cycle'') ''execution review_cycle''
         @ (if js_present authorized_at \<and> \<not> valid_iso_timestamp authorized_at
            then [''execution authorized_at must be an ISO-8601 timestamp''] else []))"

definition ralplan_artifact_path :: "js \<Rightarrow> js" where
  "ralplan_artifact_path artifact =
     (case artifact of
        JStr _ \<Rightarrow> artifact
      | _ \<Rightarrow> js_coalesce (js_get artifact ''plan_path'') (js_coalesce (js_get artifact ''prd_path'') (js_get artifact ''path'')))"

definition review_cycle_of :: "js_record \<Rightarrow> js_record \<Rightarrow> int option" where
  "review_cycle_of state critic =
     (case js_integer (rec_get state ''review_cycle'') of Some i \<Rightarrow> Some i | None \<Rightarrow> js_integer (cycle_of critic))"

definition has_ralplan_handoff :: "fs_env \<Rightarrow> js_record \<Rightarrow> bool" where
  "has_ralplan_handoff fs state \<longleftrightarrow>
     (let ralplan = object_record (rec_get (object_record (state_field state ''handoff_artifacts'')) ''ralplan'');
          gate = object_record (state_field state ''ralplan_consensus_gate'');
          execution = object_record (state_field state ''ralplan_execution_handoff'');
          architect = object_record (rec_get gate ''ralplan_architect_review'');
          critic = object_record (rec_get gate ''ralplan_critic_review'');
          session = trimmed (rec_get state ''session_id'');
          cycle = review_cycle_of state critic
      in rec_get gate ''complete'' = JBool True
         \<and> existing_repo_artifact fs state
             (js_coalesce (rec_get ralplan ''plan_path'') (rec_get ralplan ''prd_path'')) plan_dirs
         \<and> approved_review (rec_get gate ''ralplan_architect_review'') ''architect''
         \<and> approved_review (rec_get gate ''ralplan_critic_review'') ''critic''
         \<and> (rec_get execution ''authorized'' = JBool True \<or> rec_get execution ''authorized_by_user'' = JBool True)
         \<and> session \<noteq> [] \<and> trimmed (rec_get execution ''session_id'') = session
         \<and> cycle \<noteq> None \<and> js_integer (rec_get execution ''review_cycle'') = cycle
         \<and> js_integer (rec_get architect ''sequence_index'') = Some 1
         \<and> js_integer (rec_get critic ''sequence_index'') = Some 2
         \<and> js_integer (cycle_of architect) = cycle \<and> js_integer (cycle_of critic) = cycle
         \<and> trimmed (rec_get architect ''session_id'') = session \<and> trimmed (rec_get critic ''session_id'') = session
         \<and> valid_iso_timestamp (rec_get execution ''authorized_at'')
         \<and> js_lower (trimmed (rec_get execution ''source'')) = ''autopilot''
         \<and> rec_get state ''active'' = JBool True
         \<and> normalize_autopilot_phase (rec_get state ''current_phase'') = Some (Child ApUltragoal))"

subsection \<open>Clean verdicts\<close>

text \<open>\<open>toUpperCase\<close> on code units below 256; the three of them without an upper case there are left
  as they are, which no comparison of the gate can see.\<close>

definition upper_char :: "char \<Rightarrow> string" where
  "upper_char c =
     (let n = (of_char c :: nat)
      in if 97 \<le> n \<and> n \<le> 122 \<or> 224 \<le> n \<and> n \<le> 254 \<and> n \<noteq> 247 then [char_of (n - 32)]
         else if n = 223 then ''SS'' else [c])"

definition js_upper :: "string \<Rightarrow> string" where
  "js_upper s = concat (map upper_char s)"

definition non_slashes :: rx where
  "non_slashes = rx_plus (Cls (\<lambda>c. c \<noteq> CHR ''/''))"

definition url_looks_like_ci :: "string \<Rightarrow> bool" where
  "url_looks_like_ci url \<longleftrightarrow>
     rx_test (rx_seq [rx_lit_i ''github.com/'', non_slashes, rx_lit ''/'', non_slashes, rx_lit_i ''/actions/runs/'']) url"

definition evidence_text :: "js_record \<Rightarrow> string list \<Rightarrow> string" where
  "evidence_text v ks = js_join [CHR 0x0A] (filter (\<lambda>t. t \<noteq> []) (map (\<lambda>k. js_lower (trimmed (rec_get v k))) ks))"

definition locator_keys :: "string list" where
  "locator_keys = [''source'', ''artifact_path'', ''url'', ''review_url'', ''qa_url'']"

definition joined_words :: "string \<Rightarrow> string \<Rightarrow> rx" where
  "joined_words a b = rx_seq [WordB, rx_lit a, rx_opt (Cls (\<lambda>c. c = CHR ''_'' \<or> c = CHR ''-'')), rx_lit b, WordB]"

definition looks_like_ultraqa_evidence :: "js_record \<Rightarrow> bool" where
  "looks_like_ultraqa_evidence v \<longleftrightarrow>
     rx_test (rx_alts [rx_seq [WordB, rx_lit ''ultraqa'', WordB], joined_words ''qa'' ''verdict'', joined_words ''qa'' ''evidence''])
       (evidence_text v locator_keys)"

definition looks_like_code_review_evidence :: "js_record \<Rightarrow> bool" where
  "looks_like_code_review_evidence v \<longleftrightarrow>
     rx_test (rx_alts [joined_words ''code'' ''review'', joined_words ''review'' ''verdict'', joined_words ''review'' ''evidence'',
                       rx_seq [WordB, rx_lit ''reviews/'']])
       (evidence_text v locator_keys)"

definition has_any_string_field :: "js_record \<Rightarrow> string list \<Rightarrow> bool" where
  "has_any_string_field v ks \<longleftrightarrow> list_ex (\<lambda>k. trimmed (rec_get v k) \<noteq> []) ks"

definition has_code_review_locator :: "js_record \<Rightarrow> bool" where
  "has_code_review_locator v \<longleftrightarrow>
     (if trimmed (rec_get v ''artifact_path'') \<noteq> [] then looks_like_code_review_evidence v
      else has_any_string_field v [''review_url'', ''thread_id'', ''agent_id'', ''tool_call_id'', ''url''])"

definition has_ultraqa_locator :: "js_record \<Rightarrow> bool" where
  "has_ultraqa_locator v \<longleftrightarrow>
     (let artifact = js_lower (trimmed (rec_get v ''artifact_path''))
      in if artifact \<noteq> [] then looks_like_ultraqa_evidence v \<or> rx_test (rx_seq [WordB, rx_lit ''qa'', WordB]) artifact
         else trimmed (rec_get v ''qa_url'') \<noteq> [] \<or> url_looks_like_ci (trimmed (rec_get v ''url''))
              \<or> has_any_string_field v [''tool_call_id'', ''thread_id''])"

definition evidence_locators :: "js_record \<Rightarrow> string list" where
  "evidence_locators v =
     filter (\<lambda>t. t \<noteq> []) (map (\<lambda>k. trimmed (rec_get v k))
       [''artifact_path'', ''url'', ''review_url'', ''qa_url'', ''thread_id'', ''tool_call_id'', ''agent_id''])"

definition has_clean_code_review_evidence :: "js \<Rightarrow> bool" where
  "has_clean_code_review_evidence value \<longleftrightarrow>
     (let v = object_record value
      in rec_get v ''clean'' = JBool True \<and> trimmed (rec_get v ''stage'') = ''code-review''
         \<and> js_upper (trimmed (rec_get v ''recommendation'')) = ''APPROVE''
         \<and> js_upper (trimmed (rec_get v ''architectural_status'')) = ''CLEAR''
         \<and> \<not> looks_like_ultraqa_evidence v
         \<and> \<not> (trimmed (rec_get v ''url'') \<noteq> [] \<and> url_looks_like_ci (trimmed (rec_get v ''url'')))
         \<and> has_code_review_locator v)"

definition has_clean_ultraqa_evidence :: "js \<Rightarrow> bool" where
  "has_clean_ultraqa_evidence value \<longleftrightarrow>
     (let v = object_record value; source = js_lower (trimmed (rec_get v ''source''))
      in rec_get v ''clean'' = JBool True \<and> trimmed (rec_get v ''stage'') = ''ultraqa''
         \<and> source \<noteq> ''leader'' \<and> \<not> js_includes source ''code-review''
         \<and> \<not> looks_like_code_review_evidence v
         \<and> (rec_get v ''skipped'' = JBool True \<longrightarrow> has_any_string_field v [''reason'', ''skip_reason''])
         \<and> has_ultraqa_locator v)"

definition has_clean_review_and_qa_evidence :: "js_record \<Rightarrow> bool" where
  "has_clean_review_and_qa_evidence state \<longleftrightarrow>
     (let review = object_record (state_field state ''review_verdict''); qa = object_record (state_field state ''qa_verdict'')
      in has_clean_code_review_evidence (JObj review) \<and> has_clean_ultraqa_evidence (JObj qa)
         \<and> list_all (\<lambda>l. l \<notin> set (evidence_locators qa)) (evidence_locators review))"

subsection \<open>The gate\<close>

definition is_successful_terminal_state :: "js_record \<Rightarrow> bool" where
  "is_successful_terminal_state state \<longleftrightarrow>
     (let phase = normalize_autopilot_phase (rec_get state ''current_phase'');
          run = infer_run_outcome state; lifecycle = infer_lifecycle state False None
      in if phase = Some ApFailed \<or> run \<in> {Some RunFailed, Some RunCancelled, Some BlockedOnUser} then False
         else if lifecycle \<in> {Some LFailed, Some LBlocked, Some LUserInterlude, Some LAskUser} then False
         else phase = Some ApComplete \<or> run = Some Finish \<or> lifecycle = Some LFinished
              \<or> trimmed (rec_get state ''completed_at'') \<noteq> [] \<or> rec_get state ''active'' = JBool False)"

record gate_advisory =
  ga_skipped :: string
  ga_missing :: string
  ga_message :: string

definition gate_advisory_of :: "string \<Rightarrow> string \<Rightarrow> string \<Rightarrow> gate_refusal + gate_advisory option" where
  "gate_advisory_of skipped missing message =
     Inr (Some \<lparr> ga_skipped = skipped, ga_missing = missing, ga_message = message \<rparr>)"

text \<open>\<open>None\<close> in the right side: the change passes in silence.\<close>

definition phase_name_of :: "child_phase option \<Rightarrow> string" where
  "phase_name_of p = (case p of None \<Rightarrow> [] | Some c \<Rightarrow> child_phase_name c)"

definition handoff_artifact :: "js_record \<Rightarrow> string \<Rightarrow> js" where
  "handoff_artifact state k = rec_get (object_record (state_field state ''handoff_artifacts'')) k"

definition order_advisory :: "child_phase \<Rightarrow> child_phase \<Rightarrow> gate_refusal + gate_advisory option" where
  "order_advisory c n =
     gate_advisory_of ''phase-order''
       (''an allowed adjacent transition from '' @ child_phase_name c @ '' to '' @ child_phase_name n)
       (''Autopilot advanced from '' @ child_phase_name c @ '' to '' @ child_phase_name n
        @ '' outside the allowed phase order ('' @ js_join '', '' (map child_phase_name (allowed_active_transitions c)) @ '').'')"

text \<open>The checks from the implementation phases on.\<close>

definition late_gate ::
    "js_record \<Rightarrow> child_phase option \<Rightarrow> child_phase option \<Rightarrow> bool \<Rightarrow> gate_refusal + gate_advisory option" where
  "late_gate next_state current next terminal =
     (if is_implementation_phase current \<and> terminal
      then gate_advisory_of ''code-review'' ''the required implementation to code-review transition''
             (''Autopilot completed before the code-review gate; '' @ phase_name_of current
              @ '' should advance to code-review first.'')
      else if is_implementation_phase current \<and> next = Some ApUltraqa
      then gate_advisory_of ''code-review'' ''a code-review transition before ultraqa''
             (''Autopilot skipped the code-review gate from '' @ phase_name_of current
              @ ''; advance to code-review before ultraqa.'')
      else if current \<noteq> None \<and> next \<noteq> None \<and> the next \<notin> set (allowed_active_transitions (the current))
      then order_advisory (the current) (the next)
      else if current = Some ApCodeReview \<and> terminal
      then gate_advisory_of ''ultraqa'' ''the required code-review to ultraqa transition''
             ''Autopilot completed before the ultraqa gate; code-review should advance to ultraqa first.''
      else if current = Some ApUltraqa \<and> terminal \<and> \<not> has_clean_review_and_qa_evidence next_state
      then gate_advisory_of ''ultraqa-evidence'' ''clean code-review and ultraqa verdict evidence''
             ''Autopilot completed from ultraqa without clean code-review and ultraqa verdict evidence.''
      else Inr None)"

text \<open>The checks of the planning phases.\<close>

definition ralplan_gate ::
    "fs_env \<Rightarrow> js_record \<Rightarrow> child_phase option \<Rightarrow> child_phase option \<Rightarrow> bool \<Rightarrow> gate_refusal + gate_advisory option" where
  "ralplan_gate fs next_state current next terminal =
     (if current = Some ApRalplan \<and> terminal
      then gate_advisory_of ''ultragoal'' ''the required ralplan to ultragoal transition''
             ''Autopilot completed before the ultragoal gate; ralplan should advance to ultragoal first.''
      else if current = Some ApRalplan \<and> next = Some ApUltragoal
              \<and> misplaced_artifact fs next_state (ralplan_artifact_path (handoff_artifact next_state ''ralplan'')) plan_dirs
      then Inl (OutOfScopeArtifact ''the durable ralplan handoff artifact'')
      else if current = Some ApRalplan \<and> next = Some ApUltragoal \<and> forged_evidence next_state \<noteq> []
      then Inl (ForgedEvidence (forged_evidence next_state))
      else if current = Some ApRalplan \<and> next = Some ApUltragoal \<and> \<not> has_ralplan_handoff fs next_state
      then gate_advisory_of ''ralplan-handoff''
             ''durable planning artifacts, sequential Architect and Critic approvals, and a bound execution handoff''
             ''Autopilot advanced from ralplan to ultragoal without durable planning artifacts, sequential approvals, and a bound execution handoff.''
      else late_gate next_state current next terminal)"

definition interview_gate ::
    "fs_env \<Rightarrow> js_record \<Rightarrow> child_phase option \<Rightarrow> child_phase option \<Rightarrow> bool \<Rightarrow> gate_refusal + gate_advisory option" where
  "interview_gate fs next_state current next terminal =
     (if current = Some ApDeepInterview \<and> terminal
      then gate_advisory_of ''ralplan'' ''the required deep-interview to ralplan transition''
             ''Autopilot completed before the ralplan gate; deep-interview should advance to ralplan first.''
      else if current = Some ApDeepInterview \<and> next = Some ApRalplan
              \<and> misplaced_artifact fs next_state
                  (deep_interview_artifact_path (handoff_artifact next_state ''deep_interview'')) interview_dirs
      then Inl (OutOfScopeArtifact ''the durable completed interview gate and handoff artifact'')
      else if current = Some ApDeepInterview \<and> next = Some ApRalplan \<and> \<not> has_deep_interview_handoff fs next_state
      then gate_advisory_of ''deep-interview-handoff'' ''a durable completed interview gate and handoff artifact''
             ''Autopilot advanced from deep-interview to ralplan without durable interview completion evidence and a handoff artifact.''
      else ralplan_gate fs next_state current next terminal)"

definition validate_completion_transition ::
    "fs_env \<Rightarrow> js_record \<Rightarrow> js_record \<Rightarrow> bool \<Rightarrow> gate_refusal + gate_advisory option" where
  "validate_completion_transition fs current_state next_state allow_unknown =
     (case carriers_error current_state ''stored'' of
        Some e \<Rightarrow> Inl e
      | None \<Rightarrow>
          (case carriers_error next_state ''transition'' of
             Some e \<Rightarrow> Inl e
           | None \<Rightarrow>
               (let current = derive_child_phase (rec_set ''mode'' (JStr ''autopilot'') current_state);
                    next = derive_child_phase (rec_set ''mode'' (JStr ''autopilot'') next_state);
                    terminal = is_successful_terminal_state (rec_set ''mode'' (JStr ''autopilot'') next_state)
                in if terminal \<and> rec_get current_state ''active'' = JBool True \<and> current = None \<and> \<not> allow_unknown
                   then gate_advisory_of ''autopilot-phase'' ''a valid active Autopilot phase before terminalization''
                          ''Autopilot terminalized from an unknown active phase; restore a valid phase before relying on the completed run.''
                   else interview_gate fs next_state current next terminal)))"

end
