(* ===== verification/AutopilotProps.thy ===== *)
theory AutopilotProps
  imports AutopilotGate
begin

text \<open>
  What a run of autopilot states that the gate never comments on has done: the order of its
  phases and the evidence at its handoffs.
\<close>

definition phase_in :: "js_record \<Rightarrow> child_phase option" where
  "phase_in s = derive_child_phase (rec_set ''mode'' (JStr ''autopilot'') s)"

definition finished_in :: "js_record \<Rightarrow> bool" where
  "finished_in s \<longleftrightarrow> is_successful_terminal_state (rec_set ''mode'' (JStr ''autopilot'') s)"

definition accepts_silently :: "fs_env \<Rightarrow> js_record \<Rightarrow> js_record \<Rightarrow> bool" where
  "accepts_silently fs s t \<longleftrightarrow> validate_completion_transition fs s t False = Inr None"

fun silent_run :: "fs_env \<Rightarrow> js_record list \<Rightarrow> bool" where
  "silent_run fs (s # t # r) = (accepts_silently fs s t \<and> silent_run fs (t # r))"
| "silent_run fs _ = True"

lemma silent_step:
  assumes "accepts_silently fs s t" "phase_in s = Some c"
  shows "finished_in t \<Longrightarrow> c = ApUltraqa \<and> has_clean_review_and_qa_evidence t"
    and "phase_in t = Some n \<Longrightarrow> n \<in> set (allowed_active_transitions c)"
    and "c = ApDeepInterview \<Longrightarrow> phase_in t = Some ApRalplan \<Longrightarrow> has_deep_interview_handoff fs t"
    and "c = ApRalplan \<Longrightarrow> phase_in t = Some ApUltragoal \<Longrightarrow> has_ralplan_handoff fs t \<and> forged_evidence t = []"
proof -
  have g: "interview_gate fs t (Some c) (phase_in t) (finished_in t) = Inr None"
    using assms by (auto simp: accepts_silently_def validate_completion_transition_def phase_in_def finished_in_def
        Let_def gate_advisory_of_def split: option.splits if_splits)
  show "finished_in t \<Longrightarrow> c = ApUltraqa \<and> has_clean_review_and_qa_evidence t"
    using g by (cases c) (auto simp: interview_gate_def ralplan_gate_def late_gate_def order_advisory_def gate_advisory_of_def split: if_splits)
  show "phase_in t = Some n \<Longrightarrow> n \<in> set (allowed_active_transitions c)"
    using g by (cases c; cases n) (auto simp: interview_gate_def ralplan_gate_def late_gate_def order_advisory_def gate_advisory_of_def split: if_splits)
  show "c = ApDeepInterview \<Longrightarrow> phase_in t = Some ApRalplan \<Longrightarrow> has_deep_interview_handoff fs t"
    using g by (auto simp: interview_gate_def gate_advisory_of_def split: if_splits)
  show "c = ApRalplan \<Longrightarrow> phase_in t = Some ApUltragoal \<Longrightarrow> has_ralplan_handoff fs t \<and> forged_evidence t = []"
    using g by (auto simp: interview_gate_def ralplan_gate_def gate_advisory_of_def split: if_splits)
qed

text \<open>The phases every allowed walk from the interview has gone through.\<close>

fun passed_phases :: "child_phase \<Rightarrow> child_phase list" where
  "passed_phases ApDeepInterview = [ApDeepInterview]"
| "passed_phases ApRalplan = [ApDeepInterview, ApRalplan]"
| "passed_phases ApCodeReview = [ApDeepInterview, ApRalplan, ApUltragoal, ApCodeReview]"
| "passed_phases ApUltraqa = [ApDeepInterview, ApRalplan, ApUltragoal, ApCodeReview, ApUltraqa]"
| "passed_phases _ = [ApDeepInterview, ApRalplan, ApUltragoal]"

lemma passed_step:
  "n \<in> set (allowed_active_transitions c) \<Longrightarrow> c \<noteq> ApRalph \<Longrightarrow>
     n \<noteq> ApRalph \<and> subseq (passed_phases n) (passed_phases c @ [n])"
  by (cases c) auto

lemma silent_run_snoc: "silent_run fs (ss @ [s, t]) \<Longrightarrow> silent_run fs (ss @ [s]) \<and> accepts_silently fs s t"
proof (induction ss)
  case (Cons a ss)
  then show ?case by (cases ss) auto
qed simp

definition planned :: "fs_env \<Rightarrow> js_record list \<Rightarrow> bool" where
  "planned fs ss \<longleftrightarrow> (\<exists>s \<in> set ss. phase_in s = Some ApRalplan \<and> has_deep_interview_handoff fs s)"

definition handed_over :: "fs_env \<Rightarrow> js_record list \<Rightarrow> bool" where
  "handed_over fs ss \<longleftrightarrow> (\<exists>s \<in> set ss. phase_in s = Some ApUltragoal \<and> has_ralplan_handoff fs s \<and> forged_evidence s = [])"

lemma silent_walk:
  assumes "silent_run fs (ss @ [s])" "phase_in (hd (ss @ [s])) = Some ApDeepInterview" "\<forall>x \<in> set (ss @ [s]). phase_in x \<noteq> None"
  shows "\<exists>c. phase_in s = Some c \<and> c \<noteq> ApRalph \<and> subseq (passed_phases c) (map (the \<circ> phase_in) (ss @ [s]))
    \<and> (c \<noteq> ApDeepInterview \<longrightarrow> planned fs (ss @ [s]))
    \<and> (c \<noteq> ApDeepInterview \<and> c \<noteq> ApRalplan \<longrightarrow> handed_over fs (ss @ [s]))"
  using assms
proof (induction ss arbitrary: s rule: rev_induct)
  case Nil
  then show ?case by simp
next
  case (snoc t ss)
  have run: "silent_run fs (ss @ [t])" "accepts_silently fs t s"
    using silent_run_snoc [of fs ss t s] snoc.prems(1) by simp_all
  have "phase_in (hd (ss @ [t])) = Some ApDeepInterview" using snoc.prems(2) by (cases ss) simp_all
  moreover have "\<forall>x \<in> set (ss @ [t]). phase_in x \<noteq> None" using snoc.prems(3) by simp
  ultimately obtain c where c: "phase_in t = Some c" "c \<noteq> ApRalph"
    "subseq (passed_phases c) (map (the \<circ> phase_in) (ss @ [t]))"
    "c \<noteq> ApDeepInterview \<Longrightarrow> planned fs (ss @ [t])"
    "c \<noteq> ApDeepInterview \<Longrightarrow> c \<noteq> ApRalplan \<Longrightarrow> handed_over fs (ss @ [t])"
    using snoc.IH [OF run(1)] by blast
  obtain n where n: "phase_in s = Some n" using snoc.prems(3) by auto
  note step = silent_step [OF run(2) c(1)]
  have allowed: "n \<in> set (allowed_active_transitions c)" using step(2) n by blast
  note passed = passed_step [OF allowed c(2)]
  have "subseq (passed_phases c @ [n]) (map (the \<circ> phase_in) (ss @ [t]) @ [n])"
    using c(3) by (rule list_emb_append_mono) simp
  then have seq: "subseq (passed_phases n) (map (the \<circ> phase_in) ((ss @ [t]) @ [s]))"
    using passed n by (auto intro: subseq_order.trans)
  have plan: "planned fs ((ss @ [t]) @ [s])" if "n \<noteq> ApDeepInterview"
  proof (cases "c = ApDeepInterview")
    case True
    then have "n = ApRalplan" using allowed that by simp
    then show ?thesis using step(3) True n by (auto simp: planned_def)
  next
    case False
    then show ?thesis using c(4) by (auto simp: planned_def)
  qed
  have over: "handed_over fs ((ss @ [t]) @ [s])" if "n \<noteq> ApDeepInterview" "n \<noteq> ApRalplan"
  proof (cases "c = ApDeepInterview \<or> c = ApRalplan")
    case True
    then have "c = ApRalplan" "n = ApUltragoal" using allowed that by auto
    then show ?thesis using step(4) n by (auto simp: handed_over_def)
  next
    case False
    then show ?thesis using c(5) by (auto simp: handed_over_def)
  qed
  show ?case using n passed seq plan over by blast
qed

subsection \<open>A complete run\<close>

definition demo_fs :: fs_env where
  "demo_fs = \<lparr> fs_here = ''/'', fs_exists = (\<lambda>p. True), fs_real = Some, fs_json = (\<lambda>p. NoFile) \<rparr>"

definition demo_phase :: "string \<Rightarrow> js_record \<Rightarrow> js_record" where
  "demo_phase p r = [(''active'', JBool True), (''current_phase'', JStr p), (''cwd'', JStr ''/w''), (''session_id'', JStr ''s'')] @ r"

definition demo_planned :: js_record where
  "demo_planned = demo_phase ''ralplan''
     [(''deep_interview_gate'', JObj [(''status'', JStr ''complete''), (''rationale'', JStr ''r'')]),
      (''handoff_artifacts'', JObj [(''deep_interview'', JStr ''.omx/specs/a'')])]"

definition demo_review :: "string \<Rightarrow> int \<Rightarrow> js" where
  "demo_review role i = JObj [(''role'', JStr role), (''verdict'', JStr ''okay''), (''sequence_index'', JInt i),
     (''review_cycle'', JInt 1), (''session_id'', JStr ''s'')]"

definition demo_approved :: js_record where
  "demo_approved = demo_phase ''ultragoal''
     [(''handoff_artifacts'', JObj [(''ralplan'', JObj [(''plan_path'', JStr ''.omx/plans/p'')])]),
      (''ralplan_consensus_gate'', JObj [(''complete'', JBool True),
         (''ralplan_architect_review'', demo_review ''architect'' 1), (''ralplan_critic_review'', demo_review ''critic'' 2)]),
      (''ralplan_execution_handoff'', JObj [(''authorized'', JBool True), (''session_id'', JStr ''s''), (''review_cycle'', JInt 1),
         (''authorized_at'', JStr ''2025-01-01T00:00:00Z''), (''source'', JStr ''autopilot'')])]"

definition demo_done :: js_record where
  "demo_done =
     [(''active'', JBool False), (''current_phase'', JStr ''complete''),
      (''review_verdict'', JObj [(''clean'', JBool True), (''stage'', JStr ''code-review''), (''recommendation'', JStr ''APPROVE''),
         (''architectural_status'', JStr ''CLEAR''), (''thread_id'', JStr ''a'')]),
      (''qa_verdict'', JObj [(''clean'', JBool True), (''stage'', JStr ''ultraqa''), (''thread_id'', JStr ''b'')])]"

definition demo_walk :: "js_record list" where
  "demo_walk = [demo_phase ''deep-interview'' [], demo_planned, demo_approved, demo_phase ''code-review'' [], demo_phase ''ultraqa'' []]"

text \<open>C7. A run of autopilot that starts in the interview, names a phase in every state and ends
  successfully without any advisory or refusal of the gate went through the interview, ralplan,
  ultragoal, code review and ultraqa in this order, handed the interview and the approved plan
  over with their evidence, and carries clean verdicts of review and QA with different
  locators.\<close>

theorem silent_completion_in_order:
  assumes "silent_run fs (ss @ [t])" and "ss \<noteq> []" and "phase_in (hd ss) = Some ApDeepInterview"
    and "\<forall>s \<in> set ss. phase_in s \<noteq> None" and "finished_in t"
  shows "subseq [ApDeepInterview, ApRalplan, ApUltragoal, ApCodeReview, ApUltraqa] (map (the \<circ> phase_in) ss)
    \<and> planned fs ss \<and> handed_over fs ss \<and> has_clean_review_and_qa_evidence t"
proof -
  obtain ps s where ss: "ss = ps @ [s]" using assms(2) by (cases ss rule: rev_cases) auto
  have run: "silent_run fs (ps @ [s])" "accepts_silently fs s t"
    using silent_run_snoc [of fs ps s t] assms(1) ss by simp_all
  obtain c where c: "phase_in s = Some c" "subseq (passed_phases c) (map (the \<circ> phase_in) (ps @ [s]))"
    "c \<noteq> ApDeepInterview \<longrightarrow> planned fs (ps @ [s])"
    "c \<noteq> ApDeepInterview \<and> c \<noteq> ApRalplan \<longrightarrow> handed_over fs (ps @ [s])"
    using silent_walk [OF run(1)] assms(3,4) ss by blast
  have "c = ApUltraqa \<and> has_clean_review_and_qa_evidence t"
    using silent_step(1) [OF run(2) c(1)] assms(5) by blast
  then show ?thesis using c ss by simp
qed

lemma demo_walk_facts:
  "silent_run demo_fs (demo_walk @ [demo_done]) \<and> phase_in (hd demo_walk) = Some ApDeepInterview
    \<and> list_all (\<lambda>s. phase_in s \<noteq> None) demo_walk \<and> finished_in demo_done"
  by code_simp

theorem silent_completion_in_order_witness:
  "subseq [ApDeepInterview, ApRalplan, ApUltragoal, ApCodeReview, ApUltraqa] (map (the \<circ> phase_in) demo_walk)
    \<and> planned demo_fs demo_walk \<and> handed_over demo_fs demo_walk \<and> has_clean_review_and_qa_evidence demo_done"
proof (rule silent_completion_in_order)
  show "demo_walk \<noteq> []" by (simp add: demo_walk_def)
qed (use demo_walk_facts in \<open>simp_all add: list_all_iff\<close>)

end
