(* ===== verification/ModeWrite.thy ===== *)
theory ModeWrite
  imports AutopilotGate WorkflowReconcile
begin

text \<open>
  Writing the state of a workflow mode (\<open>state_write\<close> of \<open>src/state/operations.ts\<close> and
  \<open>src/state/mode-state-context.ts\<close>): the arguments are merged into the stored state, brought
  through the contracts of ralph and of run outcomes and, for autopilot, through the gate; the
  modes that hand off to it are completed; then the file is written. Each stage returns its
  error or the state for the next one. The lock around the write, the revalidation of the
  scope before each file and the artifacts of ralph are left out, and so is the mode
  \<open>skill-active\<close>, whose file is the canonical list itself.
\<close>

subsection \<open>The terminal pane of a mode\<close>

record pane_binding =
  pb_pane :: string
  pb_pid :: int
  pb_session_name :: string
  pb_session_id :: string
  pb_window :: string
  pb_owner :: string
  pb_current_command :: string
  pb_start_command :: string

record pane_env =
  pe_pane :: "string option"
  pe_window :: "string \<Rightarrow> string option"
  pe_binding :: "string \<Rightarrow> pane_binding option"

definition pane_keys :: "string list" where
  "pane_keys =
     [''tmux_pane_id'', ''tmux_pane_pid'', ''tmux_pane_owner_id'', ''tmux_session_name'', ''tmux_session_id'',
      ''tmux_pane_current_command'', ''tmux_pane_start_command'', ''tmux_pane_set_at'', ''tmux_window_id'']"

definition clear_ralph_pane_binding :: "js_record \<Rightarrow> js_record" where
  "clear_ralph_pane_binding r = fold rec_delete pane_keys r"

definition capture_tmux_pane :: "pane_env \<Rightarrow> string option" where
  "capture_tmux_pane env =
     (case pe_pane env of None \<Rightarrow> None | Some p \<Rightarrow> (if js_trim p = [] then None else Some (js_trim p)))"

definition capture_pane :: "pane_env \<Rightarrow> string \<Rightarrow> js_record \<Rightarrow> js_record" where
  "capture_pane env now next =
     (case capture_tmux_pane env of
        None \<Rightarrow> next
      | Some p \<Rightarrow>
          (let n1 = rec_set ''tmux_pane_id'' (JStr p) next;
               n2 = (case pe_window env p of None \<Rightarrow> n1 | Some w \<Rightarrow> (if w = [] then n1 else rec_set ''tmux_window_id'' (JStr w) n1))
           in if trimmed (rec_get n2 ''tmux_pane_set_at'') = [] then rec_set ''tmux_pane_set_at'' (JStr now) n2 else n2))"

definition apply_binding :: "pane_binding \<Rightarrow> js_record \<Rightarrow> js_record" where
  "apply_binding b r =
     rec_set ''tmux_pane_start_command'' (JStr (pb_start_command b))
     (rec_set ''tmux_pane_current_command'' (JStr (pb_current_command b))
     (rec_set ''tmux_pane_owner_id'' (JStr (pb_owner b))
     (rec_set ''tmux_window_id'' (JStr (pb_window b))
     (rec_set ''tmux_session_id'' (JStr (pb_session_id b))
     (rec_set ''tmux_session_name'' (JStr (pb_session_name b))
     (rec_set ''tmux_pane_pid'' (JInt (pb_pid b))
     (rec_set ''tmux_pane_id'' (JStr (pb_pane b)) r)))))))"

definition with_mode_runtime_context :: "pane_env \<Rightarrow> string \<Rightarrow> js_record \<Rightarrow> js_record \<Rightarrow> js_record" where
  "with_mode_runtime_context env now existing next =
     (let was = (rec_get existing ''active'' = JBool True); starts = (rec_get next ''active'' = JBool True);
          ralph = (\<not> was \<and> starts \<and> rec_get next ''mode'' = JStr ''ralph'');
          n0 = (if ralph then clear_ralph_pane_binding next else next);
          n1 = (if starts \<and> (\<not> was \<or> trimmed (rec_get n0 ''tmux_pane_id'') = []) then capture_pane env now n0 else n0);
          pane = trimmed (rec_get n1 ''tmux_pane_id'')
      in if ralph \<and> pane \<noteq> []
         then (case pe_binding env pane of Some b \<Rightarrow> apply_binding b n1 | None \<Rightarrow> clear_ralph_pane_binding n1)
         else n1)"

subsection \<open>Merging the arguments\<close>

record write_args =
  wa_mode :: string
  wa_fields :: js_record
  wa_custom :: js

record write_env =
  we_fs :: fs_env
  we_cwd :: string
  we_session :: "string option"
  we_now :: string
  we_overlay :: "string \<Rightarrow> js_record option"
  we_advisory :: "js_record \<Rightarrow> string option"
  we_closeout :: "js_record \<Rightarrow> string option"
  we_pane :: pane_env

datatype write_error =
    RalphRejected ralph_error
  | AuditIncomplete string
  | AuditUnreadable
  | ContractRejected contract_error
  | InvalidDate
  | SessionMismatch
  | DirectoryMismatch
  | GateRefused gate_refusal
  | AdvisoryRejected string
  | TransitionFailed reconcile_error
  | SkillSyncFailed skill_error
  | NullStored

text \<open>The own properties that a spread copies; those of a string are its characters.\<close>

definition spread_own :: "js \<Rightarrow> js_record" where
  "spread_own v = (case v of JStr s \<Rightarrow> map2 (\<lambda>i c. (string_of_nat i, JStr [c])) [0..<length s] s | _ \<Rightarrow> js_own v)"

definition has_explicit_field :: "write_args \<Rightarrow> string \<Rightarrow> bool" where
  "has_explicit_field a k \<longleftrightarrow> map_of (wa_fields a) k \<noteq> None \<or> map_of (spread_own (wa_custom a)) k \<noteq> None"

definition normalize_phase_alias :: "write_args \<Rightarrow> js_record \<Rightarrow> js_record" where
  "normalize_phase_alias a m =
     (let canonical = has_explicit_field a ''current_phase''; alias = has_explicit_field a ''currentPhase'';
          m1 = (if \<not> canonical \<and> alias then rec_set ''current_phase'' (rec_get m ''currentPhase'') m else m)
      in if canonical \<or> alias then rec_delete ''currentPhase'' m1 else m1)"

definition drop_unless_explicit :: "write_args \<Rightarrow> string \<Rightarrow> js_record \<Rightarrow> js_record" where
  "drop_unless_explicit a k m = (if has_explicit_field a k then m else rec_delete k m)"

definition merged_input :: "js \<Rightarrow> write_args \<Rightarrow> js_record" where
  "merged_input existing a =
     (let m0 = rec_merge (rec_merge (spread_own existing) (wa_fields a))
                 (if js_truthy (wa_custom a) then spread_own (wa_custom a) else [])
      in drop_unless_explicit a ''terminal_outcome''
           (drop_unless_explicit a ''lifecycle_outcome''
           (drop_unless_explicit a ''run_outcome''
           (rec_delete ''trustedPipelineProgress'' (normalize_phase_alias a m0)))))"

subsection \<open>The contracts\<close>

definition session_text :: "write_env \<Rightarrow> string" where
  "session_text env = scope_of (we_session env)"

definition claim_ralph_owner :: "write_env \<Rightarrow> js_record \<Rightarrow> js_record" where
  "claim_ralph_owner env m =
     (if session_text env \<noteq> [] \<and> js_string (rec_get m ''owner_omx_session_id'') = None
      then rec_set ''owner_omx_session_id'' (JStr (session_text env)) m else m)"

definition note_normalized_phase :: "js \<Rightarrow> js_record \<Rightarrow> js_record" where
  "note_normalized_phase original s =
     (if js_string original \<noteq> None \<and> js_string (rec_get s ''current_phase'') \<noteq> None
         \<and> rec_get s ''current_phase'' \<noteq> original
      then rec_set ''ralph_phase_normalized_from'' original s else s)"

definition audit_marker_keys :: "string list" where
  "audit_marker_keys = [''completion_audit_gate'', ''completion_audit_missing_reason'', ''completion_audit_blocked_at'']"

definition audited :: "write_env \<Rightarrow> js_record \<Rightarrow> write_error + js_record" where
  "audited env m =
     (if rec_get m ''current_phase'' \<noteq> JStr ''complete'' then Inr m
      else (case evaluate_completion_audit (we_fs env) m (we_cwd env) of
              None \<Rightarrow> Inl AuditUnreadable
            | Some r \<Rightarrow> (if au_complete r then Inr (fold rec_delete audit_marker_keys m) else Inl (AuditIncomplete (au_reason r)))))"

definition ralph_stage :: "write_env \<Rightarrow> write_args \<Rightarrow> js_record \<Rightarrow> write_error + js_record" where
  "ralph_stage env a m =
     (if wa_mode a \<noteq> ''ralph'' then Inr m
      else (let owned = claim_ralph_owner env m
            in case validate_ralph_state owned (we_now env) of
                 Inl e \<Rightarrow> Inl (RalphRejected e)
               | Inr (s, _) \<Rightarrow>
                   audited env (rec_merge owned (note_normalized_phase (rec_get owned ''current_phase'') s))))"

text \<open>Both results are assigned over the merged state, which keeps the properties they deleted.\<close>

definition outcome_stage :: "write_env \<Rightarrow> write_args \<Rightarrow> js_record \<Rightarrow> write_error + js_record" where
  "outcome_stage env a m =
     (case apply_run_outcome_contract m (we_now env) of
        Inl e \<Rightarrow> Inl (ContractRejected e)
      | Inr (s, _) \<Rightarrow>
          (let m1 = rec_merge m s
           in case normalize_terminal_workflow_state m1 (wa_mode a) (we_now env) of
                None \<Rightarrow> Inl InvalidDate
              | Some (t, _) \<Rightarrow> Inr (rec_merge m1 t)))"

subsection \<open>Autopilot\<close>

definition foreign_session :: "write_env \<Rightarrow> js \<Rightarrow> bool" where
  "foreign_session env v \<longleftrightarrow> trimmed v \<noteq> [] \<and> session_text env \<noteq> [] \<and> trimmed v \<noteq> session_text env"

definition foreign_directory :: "write_env \<Rightarrow> js \<Rightarrow> bool" where
  "foreign_directory env v \<longleftrightarrow> trimmed v \<noteq> [] \<and> trimmed v \<noteq> we_cwd env"

definition bind_autopilot_scope :: "write_env \<Rightarrow> js_record \<Rightarrow> js_record" where
  "bind_autopilot_scope env m =
     (let m1 = (if session_text env \<noteq> [] then rec_set ''session_id'' (JStr (session_text env)) m else m)
      in if trimmed (rec_get m1 ''workingDirectory'') = [] then rec_set ''workingDirectory'' (JStr (we_cwd env)) m1 else m1)"

definition merge_handoffs :: "js_record \<Rightarrow> js_record \<Rightarrow> js_record \<Rightarrow> js_record" where
  "merge_handoffs stored new m =
     (if stored \<noteq> [] \<or> new \<noteq> [] then rec_set ''handoff_artifacts'' (JObj (rec_merge stored new)) m else m)"

definition stamp_verdicts :: "js \<Rightarrow> js \<Rightarrow> js_record \<Rightarrow> js_record" where
  "stamp_verdicts review qa h = rec_set ''ultraqa'' qa (rec_set ''code_review'' review h)"

definition normalize_clean_completion :: "js_record \<Rightarrow> gate_refusal + js_record" where
  "normalize_clean_completion m =
     (if \<not> (is_successful_terminal_state m \<and> has_clean_review_and_qa_evidence m) then Inr m
      else (let review = rec_get m ''review_verdict''; qa = rec_get m ''qa_verdict'';
                nested = object_record (rec_get m ''state'')
            in case require_persisted_carrier
                      (js_coalesce (rec_get nested ''handoff_artifacts'') (rec_get m ''handoff_artifacts''))
                      ''handoff_artifacts carrier'' of
                 Inl e \<Rightarrow> Inl e
               | Inr h \<Rightarrow>
                   (let stamped = JObj (stamp_verdicts review qa h);
                        n = rec_set ''return_to_ralplan_reason'' JNull (rec_set ''qa_verdict'' qa
                             (rec_set ''review_verdict'' review (rec_set ''handoff_artifacts'' stamped nested)))
                    in Inr (rec_set ''state'' (JObj n) (rec_set ''return_to_ralplan_reason'' JNull
                             (rec_set ''handoff_artifacts'' stamped m))))))"

definition autopilot_carriers :: "js \<Rightarrow> js_record \<Rightarrow> write_error + js_record" where
  "autopilot_carriers existing m =
     (case carriers_error m ''state_write'' of
        Some e \<Rightarrow> Inl (GateRefused e)
      | None \<Rightarrow>
          (if existing = JNull then Inl NullStored
           else case require_persisted_carrier (js_get existing ''handoff_artifacts'') ''stored handoff_artifacts carrier'' of
                  Inl e \<Rightarrow> Inl (GateRefused e)
                | Inr stored \<Rightarrow>
                    (case require_persisted_carrier (rec_get m ''handoff_artifacts'') ''state_write handoff_artifacts carrier'' of
                       Inl e \<Rightarrow> Inl (GateRefused e)
                     | Inr new \<Rightarrow>
                         (case normalize_clean_completion (merge_handoffs stored new m) of
                            Inl e \<Rightarrow> Inl (GateRefused e)
                          | Inr n \<Rightarrow> Inr n))))"

definition autopilot_stage :: "write_env \<Rightarrow> write_args \<Rightarrow> js \<Rightarrow> js_record \<Rightarrow> write_error + js_record" where
  "autopilot_stage env a existing m =
     (if wa_mode a \<noteq> ''autopilot'' then Inr m
      else (let custom = object_record (wa_custom a)
            in if foreign_session env (rec_get custom ''session_id'') then Inl SessionMismatch
               else if foreign_directory env (rec_get custom ''workingDirectory'') then Inl DirectoryMismatch
               else if foreign_session env (rec_get m ''session_id'') then Inl SessionMismatch
               else if foreign_directory env (rec_get m ''workingDirectory'') then Inl DirectoryMismatch
               else autopilot_carriers existing (bind_autopilot_scope env m)))"

definition advisory_js :: "gate_advisory \<Rightarrow> js" where
  "advisory_js g =
     JObj [(''skippedGate'', JStr (ga_skipped g)), (''missingEvidence'', JStr (ga_missing g)), (''message'', JStr (ga_message g))]"

definition is_skip_entry :: "js \<Rightarrow> bool" where
  "is_skip_entry v \<longleftrightarrow>
     is_record v \<and> list_all (\<lambda>k. js_string (js_get v k) \<noteq> None) [''skippedGate'', ''missingEvidence'', ''message'']"

definition skip_entries :: "js_record \<Rightarrow> js list" where
  "skip_entries m = (case rec_get m ''skipped_gates'' of JArr xs \<Rightarrow> filter is_skip_entry xs | _ \<Rightarrow> [])"

definition next_skip_entries :: "js_record \<Rightarrow> gate_advisory option \<Rightarrow> js list" where
  "next_skip_entries m advisory =
     (case advisory of
        None \<Rightarrow> skip_entries m
      | Some g \<Rightarrow>
          (if list_ex (\<lambda>e. js_get e ''skippedGate'' = JStr (ga_skipped g)) (skip_entries m) then skip_entries m
           else skip_entries m @ [advisory_js g]))"

definition append_advisory :: "js_record \<Rightarrow> gate_advisory option \<Rightarrow> js_record" where
  "append_advisory m advisory =
     (let skips = next_skip_entries m advisory
      in if skips = [] then m
         else (let n = rec_set ''skipped_gates'' (JArr skips) m
               in if is_successful_terminal_state n
                  then rec_set ''completion_status'' (JStr ''complete-with-skipped-gates'') n else n))"

definition gate_stage ::
    "write_env \<Rightarrow> write_args \<Rightarrow> js \<Rightarrow> js_record \<Rightarrow> write_error + (js_record \<times> gate_advisory option)" where
  "gate_stage env a existing m =
     (if wa_mode a \<noteq> ''autopilot'' then Inr (m, None)
      else (case validate_completion_transition (we_fs env) (spread_own existing) m False of
              Inl e \<Rightarrow> Inl (GateRefused e)
            | Inr g \<Rightarrow> Inr (append_advisory m g, g)))"

text \<open>The checks of ralplan states of the advisory variant are an argument.\<close>

definition advisory_stage :: "write_env \<Rightarrow> write_args \<Rightarrow> js_record \<Rightarrow> write_error + js_record" where
  "advisory_stage env a m =
     (if wa_mode a = ''ralplan'' \<and> rec_get m ''workflow_variant'' = JStr ''advisory'' \<and> rec_get m ''active'' = JBool False
      then (case we_advisory env m of Some e \<Rightarrow> Inl (AdvisoryRejected e) | None \<Rightarrow> Inr m)
      else Inr m)"

subsection \<open>The next state\<close>

definition next_mode_state ::
    "write_env \<Rightarrow> write_args \<Rightarrow> js \<Rightarrow> write_error + (js_record \<times> gate_advisory option)" where
  "next_mode_state env a existing =
     (case ralph_stage env a (merged_input existing a) of
        Inl e \<Rightarrow> Inl e
      | Inr m1 \<Rightarrow>
          (case outcome_stage env a m1 of
             Inl e \<Rightarrow> Inl e
           | Inr m2 \<Rightarrow>
               (case autopilot_stage env a existing m2 of
                  Inl e \<Rightarrow> Inl e
                | Inr m3 \<Rightarrow>
                    (case advisory_stage env a m3 of
                       Inl e \<Rightarrow> Inl e
                     | Inr m4 \<Rightarrow> gate_stage env a existing m4))))"

subsection \<open>The transition\<close>

definition canonical_active_modes :: "workflow_store \<Rightarrow> write_env \<Rightarrow> string list" where
  "canonical_active_modes st env =
     dedup (filter is_tracked_workflow_mode (visible_modes (wf_skills st) (we_overlay env) (we_session env)))"

text \<open>The modes a ralplan request starts from when the canonical list names none: autopilot when its
  file is active, then the interview. A file that does not parse ends the search.\<close>

definition session_detail_modes :: "workflow_store \<Rightarrow> write_env \<Rightarrow> string list option" where
  "session_detail_modes st env =
     (let active = (\<lambda>m. case detail_file st (we_session env) m of
                          JsonFile v \<Rightarrow> (if v = JNull then None else Some (is_active_workflow_detail v))
                        | NoFile \<Rightarrow> Some False | BadFile \<Rightarrow> None)
      in if session_text env = [] then None
         else (case active ''autopilot'' of
                 None \<Rightarrow> None
               | Some True \<Rightarrow> Some [''autopilot'']
               | Some False \<Rightarrow> (if active ''deep-interview'' = Some True then Some [''deep-interview''] else None)))"

definition transition_modes :: "workflow_store \<Rightarrow> write_env \<Rightarrow> string \<Rightarrow> string list option" where
  "transition_modes st env mode =
     (if mode \<noteq> ''ralplan'' then None
      else if canonical_active_modes st env \<noteq> [] then Some (canonical_active_modes st env)
      else session_detail_modes st env)"

definition transition_stage ::
    "write_env \<Rightarrow> write_args \<Rightarrow> js_record \<Rightarrow> workflow_store \<Rightarrow> workflow_store \<times> (write_error + string option)" where
  "transition_stage env a m st =
     (if is_tracked_workflow_mode (wa_mode a) \<and> rec_get m ''active'' = JBool True
      then (case reconcile_workflow_transition st (wa_mode a) (transition_modes st env (wa_mode a)) (we_session env)
                  (we_now env) ''state-operations'' (we_overlay env) of
              (st1, Inl e) \<Rightarrow> (st1, Inl (TransitionFailed e))
            | (st1, Inr (d, _)) \<Rightarrow> (st1, Inr (wd_message d)))
      else (st, Inr None))"

subsection \<open>Closing a ralplan session\<close>

definition is_complete_ralplan_state :: "js_record \<Rightarrow> bool" where
  "is_complete_ralplan_state s \<longleftrightarrow>
     (let phase = js_lower (trimmed (rec_get s ''current_phase''))
      in if rec_get s ''workflow_variant'' = JStr ''advisory''
         then rec_get s ''active'' = JBool False \<and> phase \<in> {''complete'', ''cancelled'', ''failed''}
              \<and> js_get (rec_get s ''ralplan_consensus_gate'') ''complete'' = JBool False
              \<and> rec_get s ''execution_handoff_authorized'' = JBool False \<and> rec_get s ''host_verified'' = JBool False
         else rec_get s ''active'' = JBool False \<and> phase = ''complete'')"

definition session_js :: "string option \<Rightarrow> js" where
  "session_js s = (case s of None \<Rightarrow> JUndef | Some t \<Rightarrow> JStr t)"

definition build_ralplan_terminal_state :: "pane_env \<Rightarrow> js_record \<Rightarrow> string option \<Rightarrow> string \<Rightarrow> js_record" where
  "build_ralplan_terminal_state pane s session now =
     (let advisory = (rec_get s ''workflow_variant'' = JStr ''advisory'');
          phase = (if advisory then first_text [trimmed (rec_get s ''current_phase''), ''complete''] else ''complete'');
          n = rec_set ''ralplan_consensus_gate''
                (JObj (rec_set ''complete'' (JBool (\<not> advisory)) (object_record (rec_get s ''ralplan_consensus_gate''))))
             (rec_set ''session_id'' (session_js session)
             (rec_set ''terminal_reason'' (JStr (first_text [trimmed (rec_get s ''terminal_reason''), ''ralplan consensus complete'']))
             (rec_set ''completed_at'' (JStr (first_text [trimmed (rec_get s ''completed_at''), now]))
             (rec_set ''updated_at'' (JStr now) (rec_set ''status'' (JStr phase)
             (rec_set ''current_phase'' (JStr phase) (rec_set ''active'' (JBool False)
             (rec_set ''mode'' (JStr ''ralplan'') s))))))))
      in with_mode_runtime_context pane now s
           (if advisory then rec_set ''host_verified'' (JBool False) (rec_set ''execution_handoff_authorized'' (JBool False) n) else n))"

definition build_ralplan_skill_tombstone :: "js_record option \<Rightarrow> js_record \<Rightarrow> string option \<Rightarrow> string \<Rightarrow> js_record" where
  "build_ralplan_skill_tombstone base s session now =
     (let b = base_record base;
          n = rec_set ''source'' (JStr (first_text [trimmed (rec_get b ''source''), ''state-operations'']))
             (rec_set ''completed_at'' (JStr (first_text [trimmed (rec_get s ''completed_at''), now]))
             (rec_set ''updated_at'' (JStr now)
             (rec_set ''activated_at'' (JStr (first_text [trimmed (rec_get b ''activated_at''), trimmed (rec_get s ''started_at''), now]))
             (rec_set ''phase'' (JStr (first_text [trimmed (rec_get s ''current_phase''), ''complete'']))
             (rec_set ''keyword'' (JStr (first_text [trimmed (rec_get b ''keyword''), ''ralplan'']))
             (rec_set ''skill'' (JStr ''ralplan'') (rec_set ''active'' (JBool False) (rec_set ''version'' (JInt 1) b))))))));
          n1 = (if scope_of session = [] then n else rec_set ''session_id'' (JStr (scope_of session)) n)
      in rec_set ''active_skills'' (JArr [])
           (rec_set ''terminal_reason'' (JStr (first_text [trimmed (rec_get s ''terminal_reason''), ''ralplan consensus complete''])) n1))"

definition build_ralplan_skill_state ::
    "js_record option \<Rightarrow> js_record \<Rightarrow> js_record list \<Rightarrow> string option \<Rightarrow> string \<Rightarrow> js_record" where
  "build_ralplan_skill_state base s entries session now =
     (case entries of
        [] \<Rightarrow> build_ralplan_skill_tombstone base s session now
      | p # _ \<Rightarrow>
          (let b = clear_terminal_skill_active_markers (base_record base); text = (\<lambda>k. primary_text (Some p) k)
           in rec_set ''active_skills'' (JArr (map JObj entries))
             (rec_set ''turn_id'' (undef_if_empty (first_text [text ''turn_id'', trimmed (rec_get b ''turn_id'')]))
             (rec_set ''thread_id'' (undef_if_empty (first_text [text ''thread_id'', trimmed (rec_get b ''thread_id'')]))
             (rec_set ''session_id'' (undef_if_empty (text ''session_id''))
             (rec_set ''source'' (JStr (first_text [trimmed (rec_get b ''source''), ''state-operations'']))
             (rec_set ''updated_at'' (JStr now)
             (rec_set ''activated_at'' (JStr (first_text [text ''activated_at'', trimmed (rec_get (base_record base) ''activated_at''), now]))
             (rec_set ''phase'' (JStr (first_text [text ''phase'', trimmed (rec_get b ''phase'')]))
             (rec_set ''keyword'' (JStr (trimmed (rec_get b ''keyword'')))
             (rec_set ''skill'' (JStr (entry_skill p)) (rec_set ''active'' (JBool True) (rec_set ''version'' (JInt 1) b)))))))))))))"

definition remaining_root_entries :: "js_record list \<Rightarrow> string option \<Rightarrow> bool \<Rightarrow> js_record list" where
  "remaining_root_entries entries completed root_scope =
     filter (\<lambda>e. entry_skill e \<noteq> ''ralplan''
               \<or> \<not> (scope_of completed \<noteq> [] \<and> entry_session e = scope_of completed) \<and> \<not> (root_scope \<and> entry_session e = []))
       entries"

definition remaining_session_entries :: "js_record list \<Rightarrow> string \<Rightarrow> js_record list" where
  "remaining_session_entries entries sid = filter (\<lambda>e. entry_session e = sid \<and> entry_skill e \<noteq> ''ralplan'') entries"

definition collect_session_entries :: "js_record option \<Rightarrow> js_record option \<Rightarrow> string \<Rightarrow> js_record list" where
  "collect_session_entries sess rt sid =
     keyed (remaining_session_entries (list_active_skills (JObj (base_record rt))) sid
            @ remaining_session_entries (list_active_skills (JObj (base_record sess))) sid)"

definition valid_session_id :: "string \<Rightarrow> bool" where
  "valid_session_id s \<longleftrightarrow>
     1 \<le> length s \<and> length s \<le> 64 \<and> list_all (\<lambda>c. is_word_char c \<or> c = CHR ''-'') s"

definition optional_session_id :: "js \<Rightarrow> string option" where
  "optional_session_id v = (if valid_session_id (trimmed v) then Some (trimmed v) else None)"

text \<open>The ralplan file of the root is written when it belongs to the session.\<close>

definition writes_root_ralplan :: "workflow_store \<Rightarrow> string option \<Rightarrow> bool" where
  "writes_root_ralplan st session \<longleftrightarrow>
     scope_of session = []
     \<or> (case detail_file st None ''ralplan'' of
          JsonFile v \<Rightarrow> optional_session_id (rec_get (object_record v) ''session_id'') = Some (scope_of session)
        | _ \<Rightarrow> False)"

definition closed_root_skill :: "js_record \<Rightarrow> js_record list \<Rightarrow> bool \<Rightarrow> string \<Rightarrow> js_record option \<Rightarrow> json_file \<Rightarrow> json_file" where
  "closed_root_skill final entries writes now rt f =
     (if entries \<noteq> [] \<or> writes \<and> rt \<noteq> None
      then JsonFile (JObj (build_ralplan_skill_state rt final entries None now))
      else if rt \<noteq> None \<and> \<not> is_terminal_skill_active_state (base_record rt) then NoFile
      else f)"

definition closed_session_skill ::
    "js_record \<Rightarrow> string \<Rightarrow> string \<Rightarrow> js_record option \<Rightarrow> js_record option \<Rightarrow> skill_store \<Rightarrow> skill_store" where
  "closed_session_skill final sid now sess rt sk =
     (let entries = collect_session_entries sess rt sid
      in if entries \<noteq> []
         then sk\<lparr> sk_sessions := dict_put sid (JsonFile (JObj
                (build_ralplan_skill_state (case sess of None \<Rightarrow> rt | Some s \<Rightarrow> Some s) final entries (Some sid) now))) (sk_sessions sk) \<rparr>
         else if sess \<noteq> None
         then sk\<lparr> sk_sessions := dict_put sid (JsonFile (JObj
                (build_ralplan_skill_tombstone sess final (Some sid) now))) (sk_sessions sk) \<rparr>
         else sk)"

definition complete_ralplan_session ::
    "write_env \<Rightarrow> js_record \<Rightarrow> workflow_store \<Rightarrow> workflow_store \<times> write_error option" where
  "complete_ralplan_session env s st =
     (let sid = session_text env; session = (if sid = [] then None else Some sid);
          completed = (if sid = [] then optional_session_id (rec_get s ''session_id'') else Some sid);
          now = first_text [trimmed (rec_get s ''updated_at''), we_now env];
          final = build_ralplan_terminal_state (we_pane env) s session now;
          writes = writes_root_ralplan st session;
          st1 = (if writes then put_detail None ''ralplan'' final st else st);
          st2 = (if sid = [] then st1 else put_detail session ''ralplan'' final st1);
          rt = read_skill_active_state None (sk_root (wf_skills st));
          entries = remaining_root_entries (list_active_skills (JObj (base_record rt))) completed (sid = []);
          sk1 = (wf_skills st2)\<lparr> sk_root := closed_root_skill final entries writes now rt (sk_root (wf_skills st)) \<rparr>;
          sess = read_skill_active_state (we_overlay env sid) (session_file (wf_skills st) sid);
          sk2 = (if sid = [] then sk1 else closed_session_skill final sid now sess rt sk1)
      in case (if rec_get s ''workflow_variant'' = JStr ''advisory'' then we_closeout env s else None) of
           Some e \<Rightarrow> (st, Some (AdvisoryRejected e))
         | None \<Rightarrow> (st2\<lparr> wf_skills := sk2 \<rparr>, None))"

text \<open>The same two projections as values, for a caller that writes them itself.\<close>

definition project_ralplan_mirrors ::
    "js_record option \<Rightarrow> js_record option \<Rightarrow> js_record \<Rightarrow> string \<Rightarrow> string \<Rightarrow> js_record option \<times> js_record option" where
  "project_ralplan_mirrors rt sess final sid now =
     (let root_entries = remaining_root_entries (list_active_skills (JObj (base_record rt))) (Some sid) False;
          session_entries = collect_session_entries sess rt sid
      in (if root_entries \<noteq> [] \<or> rt \<noteq> None then Some (build_ralplan_skill_state rt final root_entries None now) else None,
          if session_entries \<noteq> []
          then Some (build_ralplan_skill_state (case sess of None \<Rightarrow> rt | Some s \<Rightarrow> Some s) final session_entries (Some sid) now)
          else if sess \<noteq> None then Some (build_ralplan_skill_tombstone sess final (Some sid) now) else None))"

subsection \<open>The write\<close>

definition sync_of :: "string \<Rightarrow> bool \<Rightarrow> string option \<Rightarrow> string \<Rightarrow> bool \<Rightarrow> sync_options" where
  "sync_of mode active phase now everywhere =
     \<lparr> sy_mode = mode, sy_active = active, sy_phase = phase, sy_thread = None, sy_turn = None, sy_owner = None,
       sy_now = now, sy_source = ''state-operations'', sy_all_sessions = everywhere \<rparr>"

definition sync_stage ::
    "write_env \<Rightarrow> sync_options \<Rightarrow> string option \<Rightarrow> workflow_store \<Rightarrow> workflow_store \<times> write_error option" where
  "sync_stage env opt session st =
     (case sync_canonical_skill_state (wf_skills st) opt (we_overlay env) session of
        Inl e \<Rightarrow> (st, Some (SkillSyncFailed e))
      | Inr sk \<Rightarrow> (st\<lparr> wf_skills := sk \<rparr>, None))"

definition publish_stage ::
    "write_env \<Rightarrow> write_args \<Rightarrow> js_record \<Rightarrow> workflow_store \<Rightarrow> workflow_store \<times> write_error option" where
  "publish_stage env a m st =
     (if wa_mode a = ''ralplan'' \<and> is_complete_ralplan_state m then complete_ralplan_session env m st
      else sync_stage env
             (sync_of (wa_mode a) (rec_get m ''active'' = JBool True) (js_string (rec_get m ''current_phase'')) (we_now env) False)
             (we_session env) st)"

definition stored_state :: "workflow_store \<Rightarrow> write_env \<Rightarrow> string \<Rightarrow> js" where
  "stored_state st env mode = (case detail_file st (we_session env) mode of JsonFile v \<Rightarrow> v | _ \<Rightarrow> JObj [])"

definition write_mode_state ::
    "write_env \<Rightarrow> write_args \<Rightarrow> workflow_store \<Rightarrow> workflow_store \<times> (write_error + (string option \<times> gate_advisory option))" where
  "write_mode_state env a st =
     (let existing = stored_state st env (wa_mode a)
      in case next_mode_state env a existing of
           Inl e \<Rightarrow> (st, Inl e)
         | Inr (m, g) \<Rightarrow>
             (case transition_stage env a m st of
                (st1, Inl e) \<Rightarrow> (st1, Inl e)
              | (st1, Inr message) \<Rightarrow>
                  (if existing = JNull then (st1, Inl NullStored)
                   else
                     (let merged = with_mode_runtime_context (we_pane env) (we_now env) (spread_own existing) m
                      in case publish_stage env a merged (put_detail (we_session env) (wa_mode a) merged st1) of
                           (st2, Some e) \<Rightarrow> (st2, Inl e)
                         | (st2, None) \<Rightarrow> (st2, Inr (message, g))))))"

subsection \<open>The clearing of a mode\<close>

definition cleared_state :: "string \<Rightarrow> string \<Rightarrow> string \<Rightarrow> js_record" where
  "cleared_state mode sid now =
     [(''mode'', JStr mode), (''active'', JBool False), (''current_phase'', JStr ''cleared''), (''updated_at'', JStr now),
      (''completed_at'', JStr now), (''session_id'', JStr sid)]"

definition drop_detail :: "string \<times> string \<Rightarrow> workflow_store \<Rightarrow> workflow_store" where
  "drop_detail k st = st\<lparr> wf_details := dict_put k NoFile (wf_details st) \<rparr>"

text \<open>A session keeps a cleared file when the root has one of the mode, which it hides.\<close>

definition clear_mode_state :: "write_env \<Rightarrow> string \<Rightarrow> workflow_store \<Rightarrow> workflow_store \<times> write_error option" where
  "clear_mode_state env mode st =
     (let sid = session_text env;
          st1 = (if sid \<noteq> [] \<and> detail_file st None mode \<noteq> NoFile
                 then put_detail (we_session env) mode (cleared_state mode sid (we_now env)) st
                 else drop_detail (sid, mode) st)
      in sync_stage env (sync_of mode False None (we_now env) False) (we_session env) st1)"

definition clear_mode_everywhere :: "write_env \<Rightarrow> string \<Rightarrow> workflow_store \<Rightarrow> workflow_store \<times> write_error option" where
  "clear_mode_everywhere env mode st =
     (let st1 = st\<lparr> wf_details := map (\<lambda>(k, f). (k, if snd k = mode then NoFile else f)) (wf_details st) \<rparr>
      in if sk_root (wf_skills st) = NoFile \<and> list_all (\<lambda>(_, f). f = NoFile) (sk_sessions (wf_skills st))
         then (st1, None)
         else sync_stage env (sync_of mode False None (we_now env) True) None st1)"

end
