(* ===== verification/ModeWriteFacts.thy ===== *)
theory ModeWriteFacts
  imports ModeWrite
begin

text \<open>
  What the stages of a write keep, and the cases of a write that succeeds.
\<close>

subsection \<open>What the stages keep\<close>

lemma fold_delete_map_of: "map_of (fold rec_delete ks r) l = (if l \<in> set ks then None else map_of r l)"
  by (induction ks arbitrary: r) (auto simp: map_of_delete)

lemma capture_pane_map_of: "k \<notin> set pane_keys \<Longrightarrow> map_of (capture_pane env now r) k = map_of r k"
  by (auto simp: capture_pane_def pane_keys_def Let_def split: option.split)

lemma context_map_of:
  assumes "k \<notin> set pane_keys"
  shows "map_of (with_mode_runtime_context env now existing next) k = map_of next k"
proof -
  have clear: "map_of (clear_ralph_pane_binding r) k = map_of r k" for r
    using assms by (simp add: clear_ralph_pane_binding_def fold_delete_map_of)
  have bind: "map_of (apply_binding b r) k = map_of r k" for b r
    using assms by (simp add: apply_binding_def pane_keys_def)
  show ?thesis
    using assms by (auto simp: with_mode_runtime_context_def Let_def clear bind capture_pane_map_of split: option.split)
qed

lemma context_get:
  "k \<notin> set pane_keys \<Longrightarrow> rec_get (with_mode_runtime_context env now existing next) k = rec_get next k"
  by (simp add: rec_get_def context_map_of)

text \<open>The write, stage by stage.\<close>

lemma sync_stage_details: "sync_stage env opt session st = (st', e) \<Longrightarrow> wf_details st' = wf_details st"
  by (auto simp: sync_stage_def split: sum.splits)

lemma detail_file_details: "wf_details st' = wf_details st \<Longrightarrow> detail_file st' s m = detail_file st s m"
  by (simp add: detail_file_def)

lemma write_ok_cases:
  assumes "write_mode_state env a st = (st', Inr (message, g))"
  obtains m st1 where "next_mode_state env a (stored_state st env (wa_mode a)) = Inr (m, g)"
    "transition_stage env a m st = (st1, Inr message)" "stored_state st env (wa_mode a) \<noteq> JNull"
    "publish_stage env a
       (with_mode_runtime_context (we_pane env) (we_now env) (spread_own (stored_state st env (wa_mode a))) m)
       (put_detail (we_session env) (wa_mode a)
         (with_mode_runtime_context (we_pane env) (we_now env) (spread_own (stored_state st env (wa_mode a))) m) st1) = (st', None)"
  using assms by (auto simp: write_mode_state_def Let_def split: sum.splits prod.splits option.splits if_splits)

text \<open>The stored file of a mode whose write does not close a ralplan session.\<close>

lemma write_ok_file:
  assumes "write_mode_state env a st = (st', Inr (message, g))" "wa_mode a \<noteq> ''ralplan''"
  obtains m st1 where "next_mode_state env a (stored_state st env (wa_mode a)) = Inr (m, g)"
    "transition_stage env a m st = (st1, Inr message)"
    "detail_file st' (we_session env) (wa_mode a) =
       JsonFile (JObj (with_mode_runtime_context (we_pane env) (we_now env) (spread_own (stored_state st env (wa_mode a))) m))"
  using assms(1)
proof (rule write_ok_cases)
  fix m st1
  let ?m = "with_mode_runtime_context (we_pane env) (we_now env) (spread_own (stored_state st env (wa_mode a))) m"
  let ?st = "put_detail (we_session env) (wa_mode a) ?m st1"
  assume new: "next_mode_state env a (stored_state st env (wa_mode a)) = Inr (m, g)"
    and tr: "transition_stage env a m st = (st1, Inr message)"
    and "publish_stage env a ?m ?st = (st', None)"
  then have "wf_details st' = wf_details ?st"
    using assms(2) by (auto simp: publish_stage_def dest: sync_stage_details)
  then have "detail_file st' (we_session env) (wa_mode a) = detail_file ?st (we_session env) (wa_mode a)"
    by (rule detail_file_details)
  then show thesis using that new tr by (simp add: detail_put)
qed

end
