(* ===== verification/ModeWriteProps.thy ===== *)
theory ModeWriteProps
  imports ModeWriteFacts AutopilotProps
begin

text \<open>
  What a write of an autopilot state leaves behind: a run that completes either has clean
  verdicts or names the gate it skipped.
\<close>

subsection \<open>What the gate reads\<close>

definition outcome_keys :: "string list" where
  "outcome_keys = [''run_outcome'', ''lifecycle_outcome'', ''terminal_outcome'', ''current_phase'', ''active'', ''completed_at'']"

lemma successful_cong:
  assumes "\<forall>k \<in> set outcome_keys. rec_get x k = rec_get y k"
  shows "is_successful_terminal_state x = is_successful_terminal_state y"
proof -
  have eq: "rec_get x ''run_outcome'' = rec_get y ''run_outcome''" "rec_get x ''lifecycle_outcome'' = rec_get y ''lifecycle_outcome''"
    "rec_get x ''terminal_outcome'' = rec_get y ''terminal_outcome''" "rec_get x ''current_phase'' = rec_get y ''current_phase''"
    "rec_get x ''active'' = rec_get y ''active''" "rec_get x ''completed_at'' = rec_get y ''completed_at''"
    using assms by (simp_all add: outcome_keys_def)
  have l: "infer_lifecycle x False None = infer_lifecycle y False None"
    unfolding infer_lifecycle_def blocked_strategy_def by (simp add: eq)
  have r: "infer_run_outcome x = infer_run_outcome y"
    unfolding infer_run_outcome_def l by (simp add: eq)
  show ?thesis unfolding is_successful_terminal_state_def l r by (simp add: eq)
qed

lemma finished_in_alt: "finished_in s = is_successful_terminal_state s"
  unfolding finished_in_def by (rule successful_cong) (simp add: outcome_keys_def)

lemma clean_cong:
  assumes "\<forall>k \<in> {''review_verdict'', ''qa_verdict'', ''state''}. map_of x k = map_of y k"
  shows "has_clean_review_and_qa_evidence x = has_clean_review_and_qa_evidence y"
proof -
  have "rec_get x ''state'' = rec_get y ''state''" using assms by (simp add: rec_get_def)
  then have "state_field x k = state_field y k" if "k \<in> {''review_verdict'', ''qa_verdict''}" for k
    using that assms by (auto simp: state_field_def split: option.split)
  then show ?thesis by (simp add: has_clean_review_and_qa_evidence_def)
qed

lemma append_advisory_map_of:
  "k \<noteq> ''skipped_gates'' \<Longrightarrow> k \<noteq> ''completion_status'' \<Longrightarrow> map_of (append_advisory m g) k = map_of m k"
  by (simp add: append_advisory_def Let_def)

lemma next_autopilot_cases:
  assumes "next_mode_state env a existing = Inr (m, g)" "wa_mode a = ''autopilot''"
  obtains n where "validate_completion_transition (we_fs env) (spread_own existing) n False = Inr g" "m = append_advisory n g"
  using assms by (auto simp: next_mode_state_def gate_stage_def split: sum.splits)

lemma skip_entry_of_advisory: "is_skip_entry (advisory_js g)"
  by (simp add: is_skip_entry_def is_record_def advisory_js_def rec_get_def)

lemma next_skip_entries_some:
  "\<exists>e \<in> set (next_skip_entries n (Some g)). is_skip_entry e \<and> js_get e ''skippedGate'' = JStr (ga_skipped g)"
proof (cases "list_ex (\<lambda>e. js_get e ''skippedGate'' = JStr (ga_skipped g)) (skip_entries n)")
  case True
  then obtain e where "e \<in> set (skip_entries n)" "js_get e ''skippedGate'' = JStr (ga_skipped g)" by (auto simp: list_ex_iff)
  moreover have "is_skip_entry e" using calculation(1) by (auto simp: skip_entries_def split: js.splits)
  ultimately show ?thesis using True by (auto simp: next_skip_entries_def)
next
  case False
  then show ?thesis by (simp add: next_skip_entries_def skip_entry_of_advisory) (simp add: advisory_js_def rec_get_def)
qed

lemma append_some:
  assumes "is_successful_terminal_state (append_advisory n (Some g))"
  shows "rec_get (append_advisory n (Some g)) ''completion_status'' = JStr ''complete-with-skipped-gates''
    \<and> (\<exists>e \<in> set (skip_entries (append_advisory n (Some g))). js_get e ''skippedGate'' = JStr (ga_skipped g))"
proof -
  let ?skips = "next_skip_entries n (Some g)"
  let ?n = "rec_set ''skipped_gates'' (JArr ?skips) n"
  obtain e where e: "e \<in> set ?skips" "is_skip_entry e" "js_get e ''skippedGate'' = JStr (ga_skipped g)"
    using next_skip_entries_some by blast
  then have ne: "?skips \<noteq> []" by auto
  have "is_successful_terminal_state (append_advisory n (Some g)) = is_successful_terminal_state ?n"
    using ne by (intro successful_cong) (auto simp: append_advisory_def Let_def outcome_keys_def)
  then have "append_advisory n (Some g) = rec_set ''completion_status'' (JStr ''complete-with-skipped-gates'') ?n"
    using assms ne by (simp add: append_advisory_def Let_def)
  then show ?thesis using e by (auto simp: skip_entries_def)
qed

subsection \<open>Skipped gates are on record\<close>

text \<open>C17. When a write completes an autopilot run that was in a phase, either the run was in ultraqa and
  its stored state carries clean verdicts of review and QA, or the stored state names the gate
  that was skipped and is marked as completed with skipped gates.\<close>

theorem autopilot_completion_accounted:
  assumes "write_mode_state env a st = (st', Inr (message, g))" and "wa_mode a = ''autopilot''"
    and "phase_in (spread_own (stored_state st env ''autopilot'')) = Some c"
    and "detail_file st' (we_session env) ''autopilot'' = JsonFile (JObj m)" and "finished_in m"
  shows "c = ApUltraqa \<and> has_clean_review_and_qa_evidence m
    \<or> rec_get m ''completion_status'' = JStr ''complete-with-skipped-gates''
      \<and> (\<exists>e \<in> set (skip_entries m). js_get e ''skippedGate'' = JStr (ga_skipped (the g)))"
proof -
  have "wa_mode a \<noteq> ''ralplan''" using assms(2) by simp
  from write_ok_file [OF assms(1) this] obtain p where
    p: "next_mode_state env a (stored_state st env (wa_mode a)) = Inr (p, g)" and
    m: "m = with_mode_runtime_context (we_pane env) (we_now env) (spread_own (stored_state st env (wa_mode a))) p"
    using assms(2,4) by auto
  obtain n where n: "validate_completion_transition (we_fs env) (spread_own (stored_state st env ''autopilot'')) n False = Inr g"
    "p = append_advisory n g"
    using next_autopilot_cases [OF p assms(2)] assms(2) by auto
  have keys: "map_of m k = map_of p k" if "k \<notin> set pane_keys" for k
    using context_map_of [OF that] by (simp add: m)
  have get: "rec_get m k = rec_get p k" if "k \<notin> set pane_keys" for k
    using keys [OF that] by (simp add: rec_get_def)
  have done': "is_successful_terminal_state p"
    using assms(5) successful_cong [of m p] get by (auto simp: finished_in_alt outcome_keys_def pane_keys_def)
  show ?thesis
  proof (cases g)
    case None
    have "finished_in n"
      using done' successful_cong [of p n] append_advisory_map_of [of _ n g] by (simp add: finished_in_alt n(2) rec_get_def outcome_keys_def)
    then have c: "c = ApUltraqa" "has_clean_review_and_qa_evidence n"
      using silent_step(1) [OF _ assms(3)] n(1) None by (auto simp: accepts_silently_def)
    have "has_clean_review_and_qa_evidence m = has_clean_review_and_qa_evidence n"
      by (rule clean_cong) (simp add: keys pane_keys_def n(2) append_advisory_map_of)
    then show ?thesis using c by simp
  next
    case (Some x)
    have r: "rec_get p ''completion_status'' = JStr ''complete-with-skipped-gates''"
      "\<exists>e \<in> set (skip_entries p). js_get e ''skippedGate'' = JStr (ga_skipped x)"
      using append_some [of n x] done' n(2) Some by auto
    have "skip_entries m = skip_entries p" "rec_get m ''completion_status'' = rec_get p ''completion_status''"
      using get by (simp_all add: skip_entries_def pane_keys_def)
    then show ?thesis using r Some by simp
  qed
qed

definition demo_write_env :: write_env where
  "demo_write_env =
     \<lparr> we_fs = demo_fs, we_cwd = ''/w'', we_session = Some ''s1'', we_now = ''2025-01-02'', we_overlay = (\<lambda>_. None),
       we_advisory = (\<lambda>_. None), we_closeout = (\<lambda>_. None),
       we_pane = \<lparr> pe_pane = None, pe_window = (\<lambda>_. None), pe_binding = (\<lambda>_. None) \<rparr> \<rparr>"

definition demo_stored :: "js_record \<Rightarrow> workflow_store" where
  "demo_stored r = \<lparr> wf_details = [((''s1'', ''autopilot''), JsonFile (JObj r))], wf_skills = \<lparr> sk_root = NoFile, sk_sessions = [] \<rparr> \<rparr>"

definition demo_qa_state :: js_record where
  "demo_qa_state = [(''active'', JBool True), (''current_phase'', JStr ''ultraqa'')]"

definition demo_verdicts :: js_record where
  "demo_verdicts =
     [(''review_verdict'', JObj [(''clean'', JBool True), (''stage'', JStr ''code-review''), (''recommendation'', JStr ''APPROVE''),
         (''architectural_status'', JStr ''CLEAR''), (''thread_id'', JStr ''a'')]),
      (''qa_verdict'', JObj [(''clean'', JBool True), (''stage'', JStr ''ultraqa''), (''thread_id'', JStr ''b'')])]"

definition demo_finish :: "js_record \<Rightarrow> write_args" where
  "demo_finish r = \<lparr> wa_mode = ''autopilot'', wa_fields = [(''active'', JBool False), (''current_phase'', JStr ''complete'')] @ r, wa_custom = JUndef \<rparr>"

definition written_file :: "workflow_store \<times> (write_error + string option \<times> gate_advisory option) \<Rightarrow> js_record option" where
  "written_file r =
     (case snd r of
        Inl _ \<Rightarrow> None
      | Inr _ \<Rightarrow> (case detail_file (fst r) (Some ''s1'') ''autopilot'' of JsonFile (JObj m) \<Rightarrow> Some m | _ \<Rightarrow> None))"

lemma demo_finish_value:
  "case written_file (write_mode_state demo_write_env (demo_finish demo_verdicts) (demo_stored demo_qa_state)) of
     None \<Rightarrow> False | Some m \<Rightarrow> finished_in m \<and> rec_get m ''completion_status'' = JUndef"
  by code_simp

lemma demo_phase_value: "phase_in (spread_own (stored_state (demo_stored demo_qa_state) demo_write_env ''autopilot'')) = Some ApUltraqa"
  by code_simp

lemma written_file_some:
  "written_file r = Some m \<Longrightarrow>
     \<exists>st message g. r = (st, Inr (message, g)) \<and> detail_file st (Some ''s1'') ''autopilot'' = JsonFile (JObj m)"
  by (cases r) (auto simp: written_file_def split: sum.splits json_file.splits js.splits)

theorem autopilot_completion_accounted_witness:
  "case written_file (write_mode_state demo_write_env (demo_finish demo_verdicts) (demo_stored demo_qa_state)) of
     None \<Rightarrow> False | Some m \<Rightarrow> has_clean_review_and_qa_evidence m"
proof -
  obtain m where w: "written_file (write_mode_state demo_write_env (demo_finish demo_verdicts) (demo_stored demo_qa_state)) = Some m"
    and fin: "finished_in m" and status: "rec_get m ''completion_status'' = JUndef"
    using demo_finish_value by (auto split: option.splits)
  obtain st message g where run: "write_mode_state demo_write_env (demo_finish demo_verdicts) (demo_stored demo_qa_state) = (st, Inr (message, g))"
    and stored: "detail_file st (we_session demo_write_env) ''autopilot'' = JsonFile (JObj m)"
    using written_file_some [OF w] by (auto simp: demo_write_env_def)
  have mode: "wa_mode (demo_finish demo_verdicts) = ''autopilot''" by (simp add: demo_finish_def)
  show ?thesis
    using autopilot_completion_accounted [OF run mode demo_phase_value stored fin] status w by simp
qed

text \<open>The contract deletes the completion time of a run that starts again, but its result is assigned
  over the merged state, which keeps it: the restarted run counts as completed.\<close>

definition demo_old_run :: js_record where
  "demo_old_run = [(''active'', JBool False), (''current_phase'', JStr ''complete''), (''completed_at'', JStr ''2025-01-01'')]"

definition demo_restart :: write_args where
  "demo_restart =
     \<lparr> wa_mode = ''autopilot'', wa_fields = [(''active'', JBool True), (''current_phase'', JStr ''deep-interview'')], wa_custom = JUndef \<rparr>"

theorem restarted_run_counts_as_completed:
  "case written_file (write_mode_state demo_write_env demo_restart (demo_stored demo_old_run)) of
     None \<Rightarrow> False | Some m \<Rightarrow> rec_get m ''active'' = JBool True \<and> finished_in m"
  by code_simp

text \<open>Clean verdicts that are given in the nested state are read by the gate, but the normalisation
  of a clean completion overwrites them with the missing ones of the top level.\<close>

theorem nested_verdicts_overwritten:
  "case normalize_clean_completion ([(''active'', JBool False), (''current_phase'', JStr ''complete''), (''state'', JObj demo_verdicts)]) of
     Inl _ \<Rightarrow> False
   | Inr m \<Rightarrow> has_clean_review_and_qa_evidence [(''state'', JObj demo_verdicts)] \<and> \<not> has_clean_review_and_qa_evidence m"
  by code_simp

end
