(* ===== verification/ModeWriteContract.thy ===== *)
theory ModeWriteContract
  imports ModeWriteFacts
begin

text \<open>
  The contract of a stored mode state, the files a write may touch, the closing of a ralplan
  session against its pure projection, and the set of active modes of the session after a
  write.
\<close>

subsection \<open>Records with distinct keys\<close>

lemma distinct_rec_delete: "distinct (map fst r) \<Longrightarrow> distinct (map fst (rec_delete k r))"
  unfolding rec_delete_def by (induction r) auto

lemma distinct_rec_merge: "distinct (map fst a) \<Longrightarrow> distinct (map fst (rec_merge a b))"
  by (induction b arbitrary: a) (auto simp: rec_merge_def distinct_rec_set)

lemma distinct_fold_delete: "distinct (map fst r) \<Longrightarrow> distinct (map fst (fold rec_delete ks r))"
  by (induction ks arbitrary: r) (auto simp: distinct_rec_delete)

lemma distinct_default_field: "distinct (map fst r) \<Longrightarrow> distinct (map fst (default_field k v r))"
  by (simp add: default_field_def distinct_rec_set)

lemma distinct_active_defaults: "distinct (map fst r) \<Longrightarrow> distinct (map fst (active_defaults now r))"
  by (simp add: active_defaults_def distinct_default_field)

lemma distinct_validated:
  assumes "validate_ralph_state c now = Inr (s, w)" "distinct (map fst c)"
  shows "distinct (map fst s)"
  using assms(1)
proof (rule validate_accepted)
  fix r
  assume r: "named_phase c = Inr (r, w)"
    and s: "s = (if in_terminal_phase (active_defaults now r)
          then default_field ''completed_at'' (JStr now) (active_defaults now r) else active_defaults now r)"
  have "distinct (map fst r)"
    using r assms(2) by (auto simp: named_phase_def distinct_rec_set split: if_splits sum.splits)
  then show ?thesis using s by (simp add: distinct_active_defaults distinct_default_field)
qed

lemma distinct_contract:
  assumes "apply_run_outcome_contract c now = Inr (s, w)" "distinct (map fst c)"
  shows "distinct (map fst s)"
proof -
  have "distinct (map fst (with_lifecycle l (rec_set ''run_outcome'' v (rec_delete ''terminal_outcome'' c))))" for l v
    using assms(2) by (simp add: with_lifecycle_def distinct_rec_set distinct_rec_delete split: option.split)
  then show ?thesis
    using assms(1) by (auto simp: apply_run_outcome_contract_def Let_def distinct_rec_set distinct_rec_delete split: if_splits)
qed

lemma map_fst_release: "map fst (release_terminal_locks r ts) = map fst r"
  by (auto simp: release_terminal_locks_def release_entry_def split: option.split)

lemma distinct_release: "distinct (map fst r) \<Longrightarrow> distinct (map fst (release_terminal_locks r ts))"
  by (simp only: map_fst_release)

lemma distinct_nested: "distinct (map fst r) \<Longrightarrow> distinct (map fst (nested_release r ts))"
  by (cases "rec_get r ''state''") (simp_all add: nested_release_def distinct_rec_set)

lemma distinct_settle: "distinct (map fst r) \<Longrightarrow> distinct (map fst (settle_completed (settle_active r) ts))"
  by (simp add: settle_completed_def settle_active_def distinct_rec_set)

lemma distinct_question:
  "settle_question r ts = Some (t, c) \<Longrightarrow> distinct (map fst r) \<Longrightarrow> distinct (map fst t)"
  by (cases "rec_get r ''question_enforcement''") (auto simp: settle_question_def Let_def distinct_rec_set split: if_splits)

lemma distinct_terminal:
  assumes "normalize_terminal_workflow_state r mode now = Some (t, c)" "distinct (map fst r)"
  shows "distinct (map fst t)"
proof -
  define s where "s = nested_release (release_terminal_locks (settle_completed (settle_active r) (completion_time r now))
      (completion_time r now)) (completion_time r now)"
  have d: "distinct (map fst s)" unfolding s_def by (intro distinct_nested distinct_release distinct_settle assms(2))
  have "t = r \<or> t = s \<or> (\<exists>x. settle_question s (completion_time r now) = Some (t, x))"
    using assms(1) unfolding normalize_terminal_workflow_state_def Let_def s_def by (auto split: if_splits)
  then show ?thesis using d assms(2) distinct_question by blast
qed

lemma distinct_merged_input:
  "distinct (map fst (spread_own existing)) \<Longrightarrow> distinct (map fst (merged_input existing a))"
  by (simp add: merged_input_def normalize_phase_alias_def drop_unless_explicit_def Let_def
      distinct_rec_delete distinct_rec_merge distinct_rec_set)

text \<open>Assigning a record over another: a present value of the second one decides.\<close>

lemma merge_get_some:
  "distinct (map fst b) \<Longrightarrow> rec_get b k \<noteq> JUndef \<Longrightarrow> rec_get (rec_merge a b) k = rec_get b k"
  by (simp add: rec_get_merge rec_get_Some)

lemma merge_get_same:
  "distinct (map fst b) \<Longrightarrow> rec_get b k = rec_get a k \<Longrightarrow> rec_get (rec_merge a b) k = rec_get a k"
  by (cases "map_of b k") (simp_all add: rec_get_merge rec_get_def [of b])

lemma merge_get_absent:
  "distinct (map fst b) \<Longrightarrow> map_of b k = None \<Longrightarrow> rec_get (rec_merge a b) k = rec_get a k"
  by (simp add: rec_get_merge)

subsection \<open>The contract of the stored state\<close>

lemma terminal_get:
  assumes "normalize_terminal_workflow_state r mode now = Some (t, c)"
    and "k \<notin> set lock_keys" "k \<notin> set approval_marker_keys" "k \<noteq> ''state''" "k \<noteq> ''question_enforcement''"
  shows "rec_get t k =
     (if is_terminal_state r
      then (if k = ''active'' then JBool False
            else if k = ''completed_at'' \<and> trimmed (rec_get r ''completed_at'') = [] then JStr now else rec_get r k)
      else rec_get r k)"
proof (cases "is_terminal_state r")
  case False
  then show ?thesis using assms(1) by (simp add: normalize_terminal_workflow_state_def)
next
  case True
  define ts where "ts = completion_time r now"
  define s where "s = nested_release (release_terminal_locks (settle_completed (settle_active r) ts) ts) ts"
  have "rec_get s k = rec_get (settle_completed (settle_active r) ts) k"
    using assms(2-4) by (simp add: s_def nested_release_def release_locks_get split: js.split)
  also have "\<dots> = (if k = ''active'' then JBool False
      else if k = ''completed_at'' \<and> trimmed (rec_get r ''completed_at'') = [] then JStr now else rec_get r k)"
    by (auto simp: settle_completed_def settle_active_def ts_def completion_time_def)
  finally have s: "rec_get s k = (if k = ''active'' then JBool False
      else if k = ''completed_at'' \<and> trimmed (rec_get r ''completed_at'') = [] then JStr now else rec_get r k)" .
  have "t = s \<or> (\<exists>x. settle_question s ts = Some (t, x))"
    using assms(1) True unfolding normalize_terminal_workflow_state_def Let_def s_def ts_def by (auto split: if_splits)
  then have "rec_get t k = rec_get s k"
    using assms(5) by (auto simp: settle_question_def Let_def split: js.splits if_splits)
  then show ?thesis using s True by simp
qed

definition stored_contract :: "js_record \<Rightarrow> bool" where
  "stored_contract m \<longleftrightarrow>
     (\<exists>r \<in> set run_outcomes. rec_get m ''run_outcome'' = JStr (run_outcome_name r)
        \<and> (r \<in> set terminal_run_outcomes \<longrightarrow> rec_get m ''active'' = JBool False))
     \<and> (\<exists>b. rec_get m ''active'' = JBool b)
     \<and> (rec_get m ''active'' = JBool False \<longrightarrow> trimmed (rec_get m ''completed_at'') \<noteq> [])"

lemma stored_contract_cong:
  assumes "\<forall>k \<in> {''run_outcome'', ''active'', ''completed_at''}. rec_get x k = rec_get y k"
  shows "stored_contract x = stored_contract y"
  using assms by (simp add: stored_contract_def)

lemma settled_contract:
  assumes "normalize_terminal_workflow_state n mode now = Some (t, d)"
    and "stored_contract n" "js_trim now \<noteq> []"
    and "rec_get n ''active'' = JBool True \<Longrightarrow> \<not> is_terminal_state n"
  shows "stored_contract t"
proof -
  have k: "''run_outcome'' \<notin> set lock_keys" "''run_outcome'' \<notin> set approval_marker_keys"
    by (simp_all add: lock_keys_def approval_marker_keys_def)
  have g: "rec_get t ''run_outcome'' = rec_get n ''run_outcome''"
    "rec_get t ''active'' = (if is_terminal_state n then JBool False else rec_get n ''active'')"
    "rec_get t ''completed_at'' = (if is_terminal_state n \<and> trimmed (rec_get n ''completed_at'') = []
       then JStr now else rec_get n ''completed_at'')"
    using terminal_get [OF assms(1)] k by simp_all
  show ?thesis using assms(2-4) unfolding stored_contract_def g by auto
qed

lemma outcome_is_terminal:
  assumes "plain_state c" "contract_outcome c = Some r" "r \<in> set terminal_run_outcomes"
  shows "contract_terminal c"
  using assms terminal_canonical [of r] terminal_in_run by (simp add: contract_terminal_def outcome_js_def)

lemma not_terminal_kept:
  assumes c: "plain_state c" "\<not> contract_terminal c" "contract_outcome c = Some r" "r \<in> set run_outcomes"
    and n: "rec_get n ''run_outcome'' = JStr (run_outcome_name r)" "rec_get n ''active'' = JBool True"
      "\<forall>k \<in> {''lifecycle_outcome'', ''terminal_outcome'', ''current_phase'', ''currentPhase''}. rec_get n k = rec_get c k"
  shows "\<not> is_terminal_state n"
proof -
  have js: "JStr (run_outcome_name r) = run_outcome_js r" using trim_name [OF c(4)] by simp
  have none: "contract_lifecycle c = None" using c(2) by (simp add: contract_terminal_def)
  have nt: "r \<notin> set terminal_run_outcomes" using outcome_is_terminal [OF c(1,3)] c(2) by blast
  have explicit: "nr_outcome (normalize_lifecycle (js_coalesce (rec_get c ''lifecycle_outcome'') (rec_get c ''terminal_outcome'')) StratBlocked) = None"
    and inferred: "infer_lifecycle c False None = None"
    using none by (auto simp: contract_lifecycle_def Let_def split: if_splits)
  have strat: "blocked_strategy x False None = StratBlocked" for x by (simp add: blocked_strategy_def)
  have phase: "js_lower (trimmed (rec_get c ''current_phase'')) \<noteq> [] \<Longrightarrow>
      nr_outcome (normalize_lifecycle (JStr (js_lower (trimmed (rec_get c ''current_phase'')))) StratBlocked) = None"
    using inferred unfolding infer_lifecycle_def Let_def strat
    using explicit by (auto dest!: terminal_run_lifecycle [of _ StratBlocked] split: if_splits)
  have run: "nr_outcome (normalize_run_outcome (rec_get n ''run_outcome'')) = Some r"
    unfolding n(1) js using normalize_canonical [OF c(4)] by (simp add: no_result_def)
  have rt: "\<not> is_terminal_run_outcome (run_outcome_js r)" using terminal_canonical [OF c(4)] nt by simp
  have "infer_lifecycle n False None = None"
    unfolding infer_lifecycle_def Let_def strat using explicit phase run rt n by simp
  moreover have "infer_run_outcome n = Some r"
    unfolding infer_run_outcome_def Let_def using run by simp
  ultimately show ?thesis using rt n(2) by (simp add: is_terminal_state_def outcome_js_def Let_def)
qed

lemma contract_keys:
  assumes "apply_run_outcome_contract c now = Inr (s, w)" "contract_lifecycle c = None"
  shows "map_of s ''lifecycle_outcome'' = None" "map_of s ''terminal_outcome'' = None"
    "k \<in> {''current_phase'', ''currentPhase''} \<Longrightarrow> rec_get s k = rec_get c k"
proof -
  have "map_of s k = map_of (with_lifecycle None (rec_set ''run_outcome'' (outcome_js (contract_outcome c)) (rec_delete ''terminal_outcome'' c))) k"
    if "k \<noteq> ''active''" "k \<noteq> ''completed_at''" for k
    using assms that by (auto simp: apply_run_outcome_contract_def Let_def map_of_delete split: if_splits)
  then show "map_of s ''lifecycle_outcome'' = None" "map_of s ''terminal_outcome'' = None"
    by (simp_all add: with_lifecycle_def map_of_delete)
  show "k \<in> {''current_phase'', ''currentPhase''} \<Longrightarrow> rec_get s k = rec_get c k"
    using contract_result [OF assms(1), of k] by auto
qed

lemma outcome_stage_contract:
  assumes "outcome_stage env a c = Inr m" "distinct (map fst c)" "plain_state c" "js_trim (we_now env) \<noteq> []"
  shows "stored_contract m"
proof -
  obtain s w t d where s: "apply_run_outcome_contract c (we_now env) = Inr (s, w)"
    and t: "normalize_terminal_workflow_state (rec_merge c s) (wa_mode a) (we_now env) = Some (t, d)"
    and m: "m = rec_merge (rec_merge c s) t"
    using assms(1) by (auto simp: outcome_stage_def Let_def split: sum.splits option.splits)
  let ?n = "rec_merge c s"
  note ds = distinct_contract [OF s assms(2)]
  have dt: "distinct (map fst t)" by (rule distinct_terminal [OF t distinct_rec_merge [OF assms(2)]])
  note g = contract_result [OF s]
  obtain r where r: "r \<in> set run_outcomes" "contract_outcome c = Some r"
    using contract_outcome_plain [OF assms(3)] by blast
  have run: "rec_get ?n ''run_outcome'' = JStr (run_outcome_name r)"
    using merge_get_some [OF ds, of "''run_outcome''"] g [of "''run_outcome''"] r trim_name [OF r(1)] by (simp add: outcome_js_def)
  have active: "rec_get ?n ''active'' = JBool (\<not> contract_terminal c)"
    using merge_get_some [OF ds, of "''active''"] g [of "''active''"] by simp
  have time: "trimmed (rec_get ?n ''completed_at'') \<noteq> []" if "contract_terminal c"
  proof -
    have "trimmed (rec_get s ''completed_at'') \<noteq> []" using g [of "''completed_at''"] that assms(4) by simp
    moreover then have "rec_get s ''completed_at'' \<noteq> JUndef" by auto
    ultimately show ?thesis using merge_get_some [OF ds] by simp
  qed
  have "r \<in> set terminal_run_outcomes \<longrightarrow> contract_terminal c" using outcome_is_terminal [OF assms(3) r(2)] by blast
  then have n: "stored_contract ?n" using r(1) run active time by (auto simp: stored_contract_def)
  have live: "\<not> is_terminal_state ?n" if "rec_get ?n ''active'' = JBool True"
  proof -
    have nt: "\<not> contract_terminal c" using that active by simp
    then have cl: "contract_lifecycle c = None" by (simp add: contract_terminal_def)
    have "rec_get ?n k = rec_get c k" if k: "k \<in> {''lifecycle_outcome'', ''terminal_outcome'', ''current_phase'', ''currentPhase''}" for k
      using k contract_keys [OF s cl] merge_get_absent [OF ds] merge_get_same [OF ds] g by fastforce
    then show ?thesis using not_terminal_kept [OF assms(3) nt r(2,1) run that] by blast
  qed
  have "stored_contract t" by (rule settled_contract [OF t n assms(4) live])
  then have "rec_get m k = rec_get t k" if "k \<in> {''run_outcome'', ''active'', ''completed_at''}" for k
  proof -
    have "k \<notin> set lock_keys \<and> k \<notin> set approval_marker_keys \<and> k \<noteq> ''state'' \<and> k \<noteq> ''question_enforcement''"
      using that by (auto simp: lock_keys_def approval_marker_keys_def)
    then have "rec_get t k = rec_get ?n k \<or> rec_get t k \<noteq> JUndef" using terminal_get [OF t, of k] by auto
    then show ?thesis using merge_get_some [OF dt] merge_get_same [OF dt] unfolding m by metis
  qed
  then show ?thesis using \<open>stored_contract t\<close> stored_contract_cong [of m t] by blast
qed

lemma merge_get_cases: "distinct (map fst b) \<Longrightarrow> rec_get (rec_merge a b) k \<in> {rec_get a k, rec_get b k}"
  by (cases "map_of b k") (simp_all add: rec_get_merge rec_get_def [of b])

lemma plain_ralph_phase: "p \<in> set ralph_phases \<Longrightarrow> plain_value (JStr p)"
proof -
  assume p: "p \<in> set ralph_phases"
  have "list_all (\<lambda>p. p \<notin> set inherited_names) ralph_phases" by code_simp
  then show "plain_value (JStr p)"
    using p ralph_phase_word [OF p] by (simp add: plain_value_def normalize_run_outcome_value_def list_all_iff)
qed

lemma plain_absent: "\<not> js_present v \<Longrightarrow> plain_value v"
  by (auto simp: js_present_def plain_value_def normalize_run_outcome_value_def inherited_names_def)

lemma plain_lower: "plain_value v \<Longrightarrow> js_lower (trimmed v) \<notin> set inherited_names"
  by (cases v) (auto simp: plain_value_def normalize_run_outcome_value_def trimmed_def inherited_names_def)

lemma audited_cases: "audited env m = Inr r \<Longrightarrow> r = m \<or> r = fold rec_delete audit_marker_keys m"
  by (auto simp: audited_def split: if_splits option.splits)

lemma audited_keeps:
  assumes "audited env m = Inr r" "distinct (map fst m)"
  shows "distinct (map fst r) \<and> (\<forall>k. k \<notin> set audit_marker_keys \<longrightarrow> rec_get r k = rec_get m k)"
  using audited_cases [OF assms(1)]
proof
  assume "r = m"
  then show ?thesis using assms(2) by simp
next
  assume r: "r = fold rec_delete audit_marker_keys m"
  show ?thesis unfolding r rec_get_def fold_delete_map_of using distinct_fold_delete [OF assms(2)] by simp
qed

lemma ralph_stage_keeps:
  assumes "ralph_stage env a c = Inr m" "distinct (map fst c)" "plain_state c"
  shows "distinct (map fst m) \<and> plain_state m"
proof (cases "wa_mode a = ''ralph''")
  case False
  then show ?thesis using assms by (simp add: ralph_stage_def)
next
  case True
  let ?o = "claim_ralph_owner env c"
  obtain s w where s: "validate_ralph_state ?o (we_now env) = Inr (s, w)"
    and m: "audited env (rec_merge ?o (note_normalized_phase (rec_get ?o ''current_phase'') s)) = Inr m"
    using assms(1) True by (auto simp: ralph_stage_def Let_def split: sum.splits)
  define n where "n = note_normalized_phase (rec_get ?o ''current_phase'') s"
  have o: "distinct (map fst ?o)" "\<And>k. k \<noteq> ''owner_omx_session_id'' \<Longrightarrow> rec_get ?o k = rec_get c k"
    using assms(2) by (auto simp: claim_ralph_owner_def distinct_rec_set)
  have ds: "distinct (map fst n)"
    using distinct_validated [OF s o(1)] by (simp add: n_def note_normalized_phase_def distinct_rec_set)
  have ns: "rec_get n k = rec_get s k" if "k \<noteq> ''ralph_phase_normalized_from''" for k
    using that by (simp add: n_def note_normalized_phase_def)
  have merged: "distinct (map fst m) \<and> (\<forall>k. k \<notin> set audit_marker_keys \<longrightarrow> rec_get m k = rec_get (rec_merge ?o n) k)"
    unfolding n_def by (rule audited_keeps [OF m distinct_rec_merge [OF o(1)]])
  have keep: "rec_get m k = rec_get c k" if "k \<in> {''lifecycle_outcome'', ''terminal_outcome'', ''run_outcome''}" for k
  proof -
    have "rec_get s k = rec_get ?o k" by (rule validate_result_get [OF s]) (use that in auto)
    moreover have "k \<noteq> ''ralph_phase_normalized_from''" using that by auto
    ultimately have "rec_get (rec_merge ?o n) k = rec_get ?o k" using ns [of k] by (intro merge_get_same [OF ds]) simp
    moreover have "k \<notin> set audit_marker_keys" "k \<noteq> ''owner_omx_session_id''" using that by (auto simp: audit_marker_keys_def)
    then have "rec_get m k = rec_get (rec_merge ?o n) k" "rec_get ?o k = rec_get c k" using merged o(2) by blast+
    ultimately show ?thesis by (simp only:)
  qed
  have cp: "plain_value (rec_get c ''current_phase'')" using assms(3) by (simp add: plain_state_def)
  have "rec_get ?o ''current_phase'' = rec_get c ''current_phase''" by (rule o(2)) simp
  then have "ralph_wf s" using validate_wf [OF s] plain_lower [OF cp] by (simp only: not_False_eq_True)
  then have "plain_value (rec_get s ''current_phase'')"
    using plain_ralph_phase plain_absent by (auto simp: ralph_wf_def)
  then have "plain_value (rec_get m ''current_phase'')"
  proof -
    have "''current_phase'' \<notin> set audit_marker_keys" by (simp add: audit_marker_keys_def)
    then have "rec_get m ''current_phase'' = rec_get (rec_merge ?o n) ''current_phase''" using merged by blast
    moreover have "rec_get n ''current_phase'' = rec_get s ''current_phase''" by (rule ns) simp
    moreover have "rec_get ?o ''current_phase'' = rec_get c ''current_phase''" by (rule o(2)) simp
    ultimately show ?thesis
      using merge_get_cases [OF ds, of ?o "''current_phase''"] cp \<open>plain_value (rec_get s ''current_phase'')\<close>
      by (elim insertE emptyE) (simp_all only:)
  qed
  then show ?thesis
    using merged keep assms(3) by (simp add: plain_state_def explicit_lifecycle_value_def)
qed

lemma autopilot_stage_keeps:
  assumes "autopilot_stage env a existing c = Inr m"
    "k \<notin> {''session_id'', ''workingDirectory'', ''handoff_artifacts'', ''return_to_ralplan_reason'', ''state''}"
  shows "rec_get m k = rec_get c k"
proof -
  have clean: "rec_get y k = rec_get x k" if "normalize_clean_completion x = Inr y" for x y
    using that assms(2) by (auto simp: normalize_clean_completion_def Let_def split: if_splits sum.splits)
  have merge: "rec_get (merge_handoffs u v x) k = rec_get x k" for u v x
    using assms(2) by (simp add: merge_handoffs_def)
  have bind: "rec_get (bind_autopilot_scope env x) k = rec_get x k" for x
    using assms(2) by (simp add: bind_autopilot_scope_def)
  show ?thesis
    using assms(1) by (auto simp: autopilot_stage_def autopilot_carriers_def Let_def merge bind dest!: clean
        split: if_splits option.splits sum.splits)
qed

lemma next_state_contract:
  assumes "next_mode_state env a existing = Inr (m, g)" "distinct (map fst (spread_own existing))"
    and "plain_state (merged_input existing a)" "js_trim (we_now env) \<noteq> []"
  shows "stored_contract m"
proof -
  obtain m1 m2 m3 where s: "ralph_stage env a (merged_input existing a) = Inr m1" "outcome_stage env a m1 = Inr m2"
    "autopilot_stage env a existing m2 = Inr m3" "gate_stage env a existing m3 = Inr (m, g)"
    using assms(1) by (auto simp: next_mode_state_def advisory_stage_def split: sum.splits option.splits if_splits)
  note r = ralph_stage_keeps [OF s(1) distinct_merged_input [OF assms(2)] assms(3)]
  have "stored_contract m2" by (rule outcome_stage_contract [OF s(2) _ _ assms(4)]) (use r in simp_all)
  moreover have "rec_get m3 k = rec_get m2 k" if "k \<in> {''run_outcome'', ''active'', ''completed_at''}" for k
    using that by (intro autopilot_stage_keeps [OF s(3)]) auto
  moreover have "rec_get m k = rec_get m3 k" if "k \<in> {''run_outcome'', ''active'', ''completed_at''}" for k
    using s(4) that by (auto simp: gate_stage_def append_advisory_def Let_def split: if_splits sum.splits)
  ultimately show ?thesis using stored_contract_cong [of m m2] by simp
qed


definition quiet_env :: write_env where
  "quiet_env =
     \<lparr> we_fs = \<lparr> fs_here = ''/w'', fs_exists = (\<lambda>_. False), fs_real = (\<lambda>p. Some p), fs_json = (\<lambda>_. NoFile) \<rparr>,
       we_cwd = ''/w'', we_session = Some ''s1'', we_now = ''2025-01-02'', we_overlay = (\<lambda>_. None),
       we_advisory = (\<lambda>_. None), we_closeout = (\<lambda>_. None),
       we_pane = \<lparr> pe_pane = None, pe_window = (\<lambda>_. None), pe_binding = (\<lambda>_. None) \<rparr> \<rparr>"

definition quiet_store :: workflow_store where
  "quiet_store = \<lparr> wf_details = [], wf_skills = \<lparr> sk_root = NoFile, sk_sessions = [] \<rparr> \<rparr>"

definition team_finish :: write_args where
  "team_finish = \<lparr> wa_mode = ''team'', wa_fields = [(''active'', JBool False), (''current_phase'', JStr ''complete'')], wa_custom = JUndef \<rparr>"

lemma team_finish_value:
  "case write_mode_state quiet_env team_finish quiet_store of
     (_, Inl _) \<Rightarrow> False
   | (st', Inr _) \<Rightarrow> detail_file st' (Some ''s1'') ''team'' \<noteq> NoFile"
  by code_simp

lemma team_finish_input:
  "distinct (map fst (spread_own (stored_state quiet_store quiet_env ''team'')))
   \<and> plain_state (merged_input (stored_state quiet_store quiet_env ''team'') team_finish) \<and> js_trim (we_now quiet_env) \<noteq> []"
  by code_simp


end
