(* ===== verification/ModeWriteSession.thy ===== *)
theory ModeWriteSession
  imports ModeWriteContract
begin

text \<open>
  A write of a mode state as a step of its session: the mode files it may touch, the closing of
  a ralplan session against its pure projection, and the set of active modes before and after.
\<close>

subsection \<open>The files a write touches\<close>

lemma complete_source_frame:
  assumes "complete_source_mode m d session now origin overlay st = (st1, e, w)" "k \<noteq> m \<or> scope_of s \<noteq> scope_of session"
  shows "detail_file st1 s k = detail_file st s k"
proof -
  obtain st0 e0 w0 where d: "complete_detail m d session now origin st = (st0, e0, w0)" by (metis prod_cases3)
  have "detail_file st0 s k = detail_file st s k"
    using d assms(2) by (auto simp: complete_detail_def detail_put split: json_file.splits if_splits sum.splits)
  moreover have "wf_details st1 = wf_details st0"
    using assms(1) d by (auto simp: complete_source_mode_def split: option.splits sum.splits)
  ultimately show ?thesis using detail_file_details [of st1 st0] by simp
qed

lemma complete_sources_frame:
  assumes "complete_sources ms d session now origin overlay st = (st1, e, w)" "k \<notin> set ms \<or> scope_of s \<noteq> scope_of session"
  shows "detail_file st1 s k = detail_file st s k"
  using assms
proof (induction ms arbitrary: st st1 e w)
  case Nil
  then show ?case by simp
next
  case (Cons m ms)
  obtain st0 e0 w0 where m: "complete_source_mode m d session now origin overlay st = (st0, e0, w0)" by (metis prod_cases3)
  obtain st2 e2 w2 where ms: "complete_sources ms d session now origin overlay st0 = (st2, e2, w2)" by (metis prod_cases3)
  have a: "detail_file st0 s k = detail_file st s k" using complete_source_frame [OF m] Cons.prems(2) by auto
  have b: "detail_file st2 s k = detail_file st0 s k" using Cons.IH [OF ms] Cons.prems(2) by auto
  show ?case using Cons.prems(1) m ms a b by (cases e0) auto
qed

lemma auto_complete_handoff:
  "is_tracked_workflow_mode requested \<Longrightarrow> k \<in> set (wd_auto_complete (evaluate_workflow_transition current requested)) \<Longrightarrow>
     handoff k requested"
  by (auto simp: decision_auto handoff_def normalize_tracked_modes_def split: if_splits)

lemma reconcile_cases:
  assumes "reconcile_workflow_transition st requested given session now origin overlay = (st1, r)"
  obtains "st1 = st" | current e w where
    "complete_sources (wd_auto_complete (evaluate_workflow_transition current requested)) requested session now origin overlay st = (st1, e, w)"
  using assms by (auto simp: reconcile_workflow_transition_def Let_def split: sum.splits prod.splits option.splits)

lemma transition_frame:
  assumes "transition_stage env a m st = (st1, r)" "\<not> handoff k (wa_mode a) \<or> scope_of s \<noteq> session_text env"
  shows "detail_file st1 s k = detail_file st s k"
proof (cases "is_tracked_workflow_mode (wa_mode a) \<and> rec_get m ''active'' = JBool True")
  case False
  then show ?thesis using assms(1) by (auto simp: transition_stage_def)
next
  case True
  obtain r0 where rec: "reconcile_workflow_transition st (wa_mode a) (transition_modes st env (wa_mode a)) (we_session env)
      (we_now env) ''state-operations'' (we_overlay env) = (st1, r0)"
    using assms(1) True by (auto simp: transition_stage_def split: prod.splits sum.splits)
  show ?thesis
  proof (rule reconcile_cases [OF rec])
    fix current e w
    assume c: "complete_sources (wd_auto_complete (evaluate_workflow_transition current (wa_mode a))) (wa_mode a) (we_session env)
        (we_now env) ''state-operations'' (we_overlay env) st = (st1, e, w)"
    show ?thesis
      by (rule complete_sources_frame [OF c]) (use assms(2) True auto_complete_handoff in \<open>auto simp: session_text_def\<close>)
  qed simp
qed

lemma close_cases:
  assumes "complete_ralplan_session env m st = (st1, e)"
  obtains "st1 = st"
    | final sk x where "x = st \<or> x = put_detail None ''ralplan'' final st"
      "st1 = (if session_text env = [] then x else put_detail (Some (session_text env)) ''ralplan'' final x)\<lparr> wf_skills := sk \<rparr>"
proof -
  define final where "final = build_ralplan_terminal_state (we_pane env) m
      (if session_text env = [] then None else Some (session_text env)) (first_text [trimmed (rec_get m ''updated_at''), we_now env])"
  define x where "x = (if writes_root_ralplan st (if session_text env = [] then None else Some (session_text env))
      then put_detail None ''ralplan'' final st else st)"
  have "\<exists>sk. st1 = st \<or> st1 = (if session_text env = [] then x
      else put_detail (if session_text env = [] then None else Some (session_text env)) ''ralplan'' final x)\<lparr> wf_skills := sk \<rparr>"
    using assms unfolding complete_ralplan_session_def Let_def final_def [symmetric] x_def [symmetric]
    by (cases "if rec_get m ''workflow_variant'' = JStr ''advisory'' then we_closeout env m else None") auto
  moreover have "x = st \<or> x = put_detail None ''ralplan'' final st" by (simp add: x_def)
  ultimately show thesis using that by (cases "session_text env = []") auto
qed

lemma close_frame:
  assumes "complete_ralplan_session env m st = (st1, e)" "k \<noteq> ''ralplan'' \<or> scope_of s \<notin> {[], session_text env}"
  shows "detail_file st1 s k = detail_file st s k"
  using assms(1)
proof (rule close_cases)
  fix final sk x
  assume x: "x = st \<or> x = put_detail None ''ralplan'' final st"
    and st1: "st1 = (if session_text env = [] then x else put_detail (Some (session_text env)) ''ralplan'' final x)\<lparr> wf_skills := sk \<rparr>"
  have "detail_file x s k = detail_file st s k" using x assms(2) by (auto simp: detail_put scope_of_def)
  moreover have "detail_file (y\<lparr> wf_skills := sk \<rparr>) s k = detail_file y s k" for y by (simp add: detail_file_def)
  ultimately show ?thesis using assms(2) by (auto simp: st1 detail_put scope_of_def)
qed simp

lemma write_store:
  "fst (write_mode_state env a st) =
     (case next_mode_state env a (stored_state st env (wa_mode a)) of
        Inl _ \<Rightarrow> st
      | Inr (m, g) \<Rightarrow>
          (let t = transition_stage env a m st;
               n = with_mode_runtime_context (we_pane env) (we_now env) (spread_own (stored_state st env (wa_mode a))) m
           in case snd t of
                Inl _ \<Rightarrow> fst t
              | Inr _ \<Rightarrow> (if stored_state st env (wa_mode a) = JNull then fst t
                          else fst (publish_stage env a n (put_detail (we_session env) (wa_mode a) n (fst t))))))"
  by (simp add: write_mode_state_def Let_def split: sum.split prod.split option.split)



subsection \<open>Closing a ralplan session\<close>

lemma closed_result:
  "(case x of None \<Rightarrow> (y, None) | Some e \<Rightarrow> (st, Some (f e))) = (st', None) \<Longrightarrow> st' = y"
  by (cases x) simp_all

text \<open>C22. Closing a ralplan session writes the two lists of active skills that the projection computes
  for a caller that recovers an interrupted close: the same root list and the same session
  list, and no list where the projection names none. The root list of a session that does not
  own the ralplan file of the root agrees as long as an entry remains in it.\<close>

theorem ralplan_close_matches_projection:
  assumes "complete_ralplan_session env m st = (st', None)" and "session_text env = sid" and "sid \<noteq> []"
    and "rt = read_skill_active_state None (sk_root (wf_skills st))"
    and "sess = read_skill_active_state (we_overlay env sid) (session_file (wf_skills st) sid)"
    and "now = first_text [trimmed (rec_get m ''updated_at''), we_now env]"
    and "final = build_ralplan_terminal_state (we_pane env) m (Some sid) now"
    and "writes_root_ralplan st (Some sid)
      \<or> remaining_root_entries (list_active_skills (JObj (base_record rt))) (Some sid) False \<noteq> []"
  shows "sk_root (wf_skills st') =
      (case fst (project_ralplan_mirrors rt sess final sid now) of
         None \<Rightarrow> sk_root (wf_skills st) | Some r \<Rightarrow> JsonFile (JObj r))
    \<and> session_file (wf_skills st') sid =
      (case snd (project_ralplan_mirrors rt sess final sid now) of
         None \<Rightarrow> session_file (wf_skills st) sid | Some r \<Rightarrow> JsonFile (JObj r))
    \<and> detail_file st' (Some sid) ''ralplan'' = JsonFile (JObj final)"
proof -
  let ?entries = "remaining_root_entries (list_active_skills (JObj (base_record rt))) (Some sid) False"
  let ?root = "closed_root_skill final ?entries (writes_root_ralplan st (Some sid)) now rt (sk_root (wf_skills st))"
  define x where "x = put_detail (Some sid) ''ralplan'' final (if writes_root_ralplan st (Some sid) then put_detail None ''ralplan'' final st else st)"
  have x: "wf_skills x = wf_skills st" by (simp add: x_def put_detail_def)
  have st': "st' = x\<lparr> wf_skills := closed_session_skill final sid now sess rt ((wf_skills x)\<lparr> sk_root := ?root \<rparr>) \<rparr>"
    using closed_result [OF assms(1) [unfolded complete_ralplan_session_def Let_def assms(2)]]
    unfolding x_def by (simp only: assms(3) if_False assms(4-7))
  have root: "?root = (case fst (project_ralplan_mirrors rt sess final sid now) of
      None \<Rightarrow> sk_root (wf_skills st) | Some r \<Rightarrow> JsonFile (JObj r))"
    using assms(8) by (auto simp: closed_root_skill_def project_ralplan_mirrors_def Let_def base_record_def state_of_current)
  have keep: "sk_root (closed_session_skill final sid now sess rt sk) = sk_root sk" for sk
    by (simp add: closed_session_skill_def Let_def)
  have session: "session_file (closed_session_skill final sid now sess rt sk) sid =
      (case snd (project_ralplan_mirrors rt sess final sid now) of
         None \<Rightarrow> session_file sk sid | Some r \<Rightarrow> JsonFile (JObj r))" for sk
    by (simp add: closed_session_skill_def project_ralplan_mirrors_def Let_def session_file_def)
  have "session_file ((wf_skills st)\<lparr> sk_root := ?root \<rparr>) sid = session_file (wf_skills st) sid" by (simp add: session_file_def)
  moreover have "detail_file st' (Some sid) ''ralplan'' = detail_file x (Some sid) ''ralplan''" by (simp add: st' detail_file_def)
  moreover have "detail_file x (Some sid) ''ralplan'' = JsonFile (JObj final)" by (simp add: x_def detail_put)
  ultimately show ?thesis by (simp add: st' keep root session x cong: option.case_cong)
qed

definition closing_entry :: "string \<Rightarrow> string \<Rightarrow> js" where
  "closing_entry m sid = JObj [(''skill'', JStr m), (''active'', JBool True), (''session_id'', JStr sid)]"

definition closing_store :: workflow_store where
  "closing_store = \<lparr> wf_details = [(([], ''ralplan''), JsonFile (JObj [(''active'', JBool True), (''session_id'', JStr ''s1'')]))],
     wf_skills = \<lparr> sk_root = JsonFile (JObj [(''active'', JBool True), (''skill'', JStr ''ralplan''),
         (''active_skills'', JArr [closing_entry ''ralplan'' ''s1'', closing_entry ''team'' ''s2''])]), sk_sessions = [] \<rparr> \<rparr>"

definition closing_state :: js_record where
  "closing_state = [(''active'', JBool False), (''current_phase'', JStr ''complete'')]"

lemma closing_value:
  "snd (complete_ralplan_session env closing_state st) = None"
  "session_text quiet_env = ''s1''" "writes_root_ralplan closing_store (Some ''s1'')"
  by (simp add: complete_ralplan_session_def Let_def closing_state_def rec_get_def)
    (simp add: session_text_def scope_of_def quiet_env_def, code_simp)

theorem ralplan_close_matches_projection_witness:
  "case detail_file (fst (complete_ralplan_session quiet_env closing_state closing_store)) (Some ''s1'') ''ralplan'' of
     JsonFile (JObj final) \<Rightarrow> rec_get final ''active'' = JBool False | _ \<Rightarrow> False"
proof -
  obtain st' where c: "complete_ralplan_session quiet_env closing_state closing_store = (st', None)"
    using closing_value by (metis prod.collapse)
  have a: "rec_get (build_ralplan_terminal_state (we_pane quiet_env) closing_state (Some ''s1'')
     (first_text [trimmed (rec_get closing_state ''updated_at''), we_now quiet_env])) ''active'' = JBool False"
    by code_simp
  have "session_text quiet_env = ''s1''" "''s1'' \<noteq> ([] :: string)" "writes_root_ralplan closing_store (Some ''s1'')"
    using closing_value by simp_all
  from ralplan_close_matches_projection [OF c this(1,2) refl refl refl refl disjI1 [OF this(3)]] a
  show ?thesis unfolding c by simp
qed

subsection \<open>The active modes of the session\<close>

lemma sync_modes:
  assumes "sync_canonical_skill_state sk opt (\<lambda>_. None) (Some sid) = Inr sk'"
    and "sy_mode opt \<in> set canonical_workflow_skills" "js_trim (sy_now opt) = sy_now opt" "sy_now opt \<noteq> []"
    and "js_trim sid = sid" "sid \<noteq> []" "skills_live sk sid"
    and "sy_active opt \<longrightarrow> \<not> is_terminal_skill_active_phase (trimmed_or_undef (sy_phase opt))"
  shows "session_modes sk' sid = session_modes sk sid - {sy_mode opt} \<union> (if sy_active opt then {sy_mode opt} else {})
    \<and> skills_live sk' sid"
proof -
  obtain rt where rt: "read_root_state_for_write (sk_root sk) = Inr rt"
    "\<forall>e \<in> set (list_active_skills (JObj (base_record rt))). live_entry e"
    "\<forall>e \<in> set (list_active_skills (JObj (base_record (read_skill_active_state None (session_file sk sid))))). live_entry e"
    using assms(7) unfolding skills_live_def by blast
  from sync_session_step [OF assms(2-6) rt assms(8)] assms(1) show ?thesis by (simp only: sum.inject) blast
qed

lemma complete_detail_skills: "complete_detail m d session now origin st = (st1, e, w) \<Longrightarrow> wf_skills st1 = wf_skills st"
  by (auto simp: complete_detail_def put_detail_def split: json_file.splits if_splits sum.splits)

lemma complete_source_modes:
  assumes "complete_source_mode m d (Some sid) now origin (\<lambda>_. None) st = (st1, None, w)"
    and "m \<in> set canonical_workflow_skills" "js_trim now = now" "now \<noteq> []" "js_trim sid = sid" "sid \<noteq> []" "skills_live (wf_skills st) sid"
  shows "session_modes (wf_skills st1) sid = session_modes (wf_skills st) sid - {m} \<and> skills_live (wf_skills st1) sid"
proof -
  obtain st0 e0 w0 where d: "complete_detail m d (Some sid) now origin st = (st0, e0, w0)" by (metis prod_cases3)
  obtain sk where sk: "sync_canonical_skill_state (wf_skills st0) (deactivate m now origin) (\<lambda>_. None) (Some sid) = Inr sk"
    "wf_skills st1 = sk"
    using assms(1) d by (auto simp: complete_source_mode_def split: option.splits sum.splits)
  have live: "skills_live (wf_skills st0) sid" using assms(7) complete_detail_skills [OF d] by simp
  have o: "sy_mode (deactivate m now origin) = m" "sy_now (deactivate m now origin) = now" "sy_active (deactivate m now origin) = False"
    by (simp_all add: deactivate_def)
  from sync_modes [OF sk(1), unfolded o, OF assms(2-6) live]
  show ?thesis by (simp add: sk(2) complete_detail_skills [OF d])
qed

lemma complete_sources_modes:
  assumes "complete_sources ms d (Some sid) now origin (\<lambda>_. None) st = (st1, None, w)"
    and "set ms \<subseteq> set canonical_workflow_skills" "js_trim now = now" "now \<noteq> []" "js_trim sid = sid" "sid \<noteq> []" "skills_live (wf_skills st) sid"
  shows "session_modes (wf_skills st1) sid = session_modes (wf_skills st) sid - set ms \<and> skills_live (wf_skills st1) sid"
  using assms
proof (induction ms arbitrary: st st1 w)
  case Nil
  then show ?case by simp
next
  case (Cons m ms)
  obtain st0 e0 w0 where m: "complete_source_mode m d (Some sid) now origin (\<lambda>_. None) st = (st0, e0, w0)" by (metis prod_cases3)
  obtain st2 e2 w2 where ms: "complete_sources ms d (Some sid) now origin (\<lambda>_. None) st0 = (st2, e2, w2)" by (metis prod_cases3)
  have n: "e0 = None" "e2 = None" "st1 = st2" using Cons.prems(1) m ms by (auto split: option.splits)
  have a: "session_modes (wf_skills st0) sid = session_modes (wf_skills st) sid - {m}" "skills_live (wf_skills st0) sid"
    using complete_source_modes [OF m [unfolded n]] Cons.prems by simp_all
  have "session_modes (wf_skills st2) sid = session_modes (wf_skills st0) sid - set ms \<and> skills_live (wf_skills st2) sid"
    using Cons.IH [OF ms [unfolded n(2)]] Cons.prems a(2) by simp
  then show ?case using a n(3) by auto
qed

lemma tracked_canonical: "is_tracked_workflow_mode m \<longleftrightarrow> m \<in> set canonical_workflow_skills"
  by (simp add: is_tracked_workflow_mode_def tracked_workflow_modes_def canonical_workflow_skills_def)

definition visible_tracked :: "workflow_store \<Rightarrow> string \<Rightarrow> string list" where
  "visible_tracked st sid = dedup (filter is_tracked_workflow_mode (visible_modes (wf_skills st) (\<lambda>_. None) (Some sid)))"

lemma transition_modes_ok:
  assumes "transition_stage env a m st = (st1, Inr message)" "we_session env = Some sid" "we_overlay env = (\<lambda>_. None)"
    and "wa_mode a \<noteq> ''ralplan''" "is_tracked_workflow_mode (wa_mode a)"
    and "js_trim (we_now env) = we_now env" "we_now env \<noteq> []" "js_trim sid = sid" "sid \<noteq> []" "skills_live (wf_skills st) sid"
  shows "session_modes (wf_skills st1) sid = session_modes (wf_skills st) sid
       - (if rec_get m ''active'' = JBool True
          then set (wd_auto_complete (evaluate_workflow_transition (visible_tracked st sid) (wa_mode a))) else {})
    \<and> skills_live (wf_skills st1) sid"
proof (cases "rec_get m ''active'' = JBool True")
  case False
  then show ?thesis using assms(1,10) by (simp add: transition_stage_def)
next
  case True
  let ?d = "evaluate_workflow_transition (visible_tracked st sid) (wa_mode a)"
  obtain d w where r: "reconcile_workflow_transition st (wa_mode a) None (Some sid) (we_now env) ''state-operations'' (\<lambda>_. None)
      = (st1, Inr (d, w))"
    using assms(1-5) True by (auto simp: transition_stage_def transition_modes_def split: prod.splits sum.splits)
  have v: "visible_tracked_modes st (\<lambda>_. None) (Some sid) = Inr (visible_tracked st sid)"
    using assms(9) by (simp add: visible_tracked_modes_def visible_tracked_def scope_of_def Let_def)
  have c: "complete_sources (wd_auto_complete ?d) (wa_mode a) (Some sid) (we_now env) ''state-operations'' (\<lambda>_. None) st = (st1, None, w)"
    using r v by (auto simp: reconcile_workflow_transition_def Let_def split: option.splits prod.splits)
  have "set (wd_auto_complete ?d) \<subseteq> set canonical_workflow_skills"
  proof
    fix k
    assume "k \<in> set (wd_auto_complete ?d)"
    then have "is_tracked_workflow_mode k" using auto_complete_handoff [OF assms(5)] unfolding handoff_def by blast
    then show "k \<in> set canonical_workflow_skills" by (simp add: tracked_canonical)
  qed
  from complete_sources_modes [OF c this assms(6-10)] show ?thesis using True by simp
qed


definition team_start :: write_args where
  "team_start = \<lparr> wa_mode = ''team'', wa_fields = [(''active'', JBool True), (''current_phase'', JStr ''team-plan'')], wa_custom = JUndef \<rparr>"

lemma team_start_value:
  "case write_mode_state quiet_env team_start quiet_store of
     (_, Inl _) \<Rightarrow> False
   | (st', Inr _) \<Rightarrow>
       (case detail_file st' (Some ''s1'') ''team'' of
          JsonFile (JObj m) \<Rightarrow> rec_get m ''active'' = JBool True \<and> rec_get m ''current_phase'' = JStr ''team-plan'' | _ \<Rightarrow> False)"
  by code_simp

lemma team_start_words:
  "is_tracked_workflow_mode ''team'' \<and> js_trim ''2025-01-02'' = ''2025-01-02'' \<and> js_trim ''s1'' = ''s1''
    \<and> \<not> is_terminal_skill_active_phase (trimmed_or_undef (Some ''team-plan''))"
  by code_simp


end
