(* ===== verification/TeamDag.thy ===== *)
theory TeamDag
  imports JsValue
begin

text \<open>
  The hand-off of a planned team as a directed graph of tasks (\<open>src/team/dag-schema.ts\<close>): reading
  an untyped value into typed nodes, the check that every dependency is a node, and the
  depth first search for cycles. Thrown errors are the left side of a sum. What is left out is
  the search for the files that may hold the graph.
\<close>

datatype dag_error =
    NotAnObject
  | BadSchemaVersion
  | NoNodes
  | NodeNotAnObject nat
  | NodeIdRequired nat
  | DuplicateNode string
  | SubjectRequired string
  | DescriptionRequired string
  | NotAString
  | NotAStringArray
  | NotABoolean
  | NotAPositiveInteger
  | UnknownDependency string string
  | CycleAt string
  | PolicyNotAnObject
  | BadCountSource

record dag_node =
  dn_id :: string
  dn_subject :: string
  dn_description :: string
  dn_role :: "string option"
  dn_lane :: "string option"
  dn_file_paths :: "string list option"
  dn_domains :: "string list option"
  dn_depends_on :: "string list option"
  dn_requires_code_change :: "bool option"
  dn_acceptance :: "string list option"

datatype count_source = CliExplicit | PlanSuggested | DefaultDerived

record worker_policy =
  wp_requested_count :: "int option"
  wp_count_source :: "count_source option"
  wp_max_count :: "int option"
  wp_reserve_verification_lane :: "bool option"
  wp_strict_max_count :: "bool option"

record team_dag =
  td_plan_slug :: "string option"
  td_source_prd :: "string option"
  td_nodes :: "dag_node list"
  td_worker_policy :: "worker_policy option"

subsection \<open>Optional fields\<close>

fun as_string_array :: "js \<Rightarrow> dag_error + string list option" where
  "as_string_array JUndef = Inr None"
| "as_string_array (JArr xs) =
     (if list_all (\<lambda>x. js_string x \<noteq> None) xs then Inr (Some (map (\<lambda>x. the (js_string x)) xs)) else Inl NotAStringArray)"
| "as_string_array _ = Inl NotAStringArray"

fun as_optional_string :: "js \<Rightarrow> dag_error + string option" where
  "as_optional_string JUndef = Inr None"
| "as_optional_string (JStr s) = Inr (Some s)"
| "as_optional_string _ = Inl NotAString"

fun as_optional_boolean :: "js \<Rightarrow> dag_error + bool option" where
  "as_optional_boolean JUndef = Inr None"
| "as_optional_boolean (JBool b) = Inr (Some b)"
| "as_optional_boolean _ = Inl NotABoolean"

definition as_optional_positive_integer :: "js \<Rightarrow> dag_error + int option" where
  "as_optional_positive_integer v =
     (if v = JUndef then Inr None
      else (case js_integer v of
              None \<Rightarrow> Inl NotAPositiveInteger
            | Some i \<Rightarrow> (if i < 1 then Inl NotAPositiveInteger else Inr (Some i))))"

definition read_count_source :: "js \<Rightarrow> dag_error + count_source option" where
  "read_count_source v =
     (if v = JUndef then Inr None
      else if v = JStr ''cli-explicit'' then Inr (Some CliExplicit)
      else if v = JStr ''plan-suggested'' then Inr (Some PlanSuggested)
      else if v = JStr ''default-derived'' then Inr (Some DefaultDerived)
      else Inl BadCountSource)"

definition parse_worker_policy :: "js \<Rightarrow> dag_error + worker_policy option" where
  "parse_worker_policy v =
     (if v = JUndef then Inr None
      else if \<not> is_object v then Inl PolicyNotAnObject
      else (case read_count_source (js_get v ''count_source'') of
              Inl e \<Rightarrow> Inl e
            | Inr source \<Rightarrow>
           (case as_optional_positive_integer (js_get v ''requested_count'') of
              Inl e \<Rightarrow> Inl e
            | Inr requested \<Rightarrow>
           (case as_optional_positive_integer (js_get v ''max_count'') of
              Inl e \<Rightarrow> Inl e
            | Inr most \<Rightarrow>
           (case as_optional_boolean (js_get v ''reserve_verification_lane'') of
              Inl e \<Rightarrow> Inl e
            | Inr reserve \<Rightarrow>
           (case as_optional_boolean (js_get v ''strict_max_count'') of
              Inl e \<Rightarrow> Inl e
            | Inr strict \<Rightarrow>
                Inr (Some \<lparr> wp_requested_count = requested, wp_count_source = source, wp_max_count = most,
                            wp_reserve_verification_lane = reserve, wp_strict_max_count = strict \<rparr>)))))))"

subsection \<open>Nodes\<close>

definition typed_node :: "js \<Rightarrow> dag_error + dag_node" where
  "typed_node v =
     (case as_optional_string (js_get v ''role'') of Inl e \<Rightarrow> Inl e | Inr role \<Rightarrow>
     (case as_optional_string (js_get v ''lane'') of Inl e \<Rightarrow> Inl e | Inr lane \<Rightarrow>
     (case as_string_array (js_get v ''filePaths'') of Inl e \<Rightarrow> Inl e | Inr paths \<Rightarrow>
     (case as_string_array (js_get v ''domains'') of Inl e \<Rightarrow> Inl e | Inr domains \<Rightarrow>
     (case as_string_array (js_get v ''depends_on'') of Inl e \<Rightarrow> Inl e | Inr deps \<Rightarrow>
     (case as_optional_boolean (js_get v ''requires_code_change'') of Inl e \<Rightarrow> Inl e | Inr code \<Rightarrow>
     (case as_string_array (js_get v ''acceptance'') of Inl e \<Rightarrow> Inl e | Inr acceptance \<Rightarrow>
        Inr \<lparr> dn_id = the (js_string (js_get v ''id'')), dn_subject = the (js_string (js_get v ''subject'')),
              dn_description = the (js_string (js_get v ''description'')), dn_role = role, dn_lane = lane,
              dn_file_paths = paths, dn_domains = domains, dn_depends_on = deps,
              dn_requires_code_change = code, dn_acceptance = acceptance \<rparr>)))))))"

text \<open>One node, after the identifiers seen so far.\<close>

definition parse_node :: "nat \<Rightarrow> string list \<Rightarrow> js \<Rightarrow> dag_error + dag_node" where
  "parse_node index seen v =
     (let id = (case js_string (js_get v ''id'') of None \<Rightarrow> [] | Some s \<Rightarrow> s)
      in if \<not> is_object v then Inl (NodeNotAnObject index)
         else if trimmed (js_get v ''id'') = [] then Inl (NodeIdRequired index)
         else if id \<in> set seen then Inl (DuplicateNode id)
         else if trimmed (js_get v ''subject'') = [] then Inl (SubjectRequired id)
         else if trimmed (js_get v ''description'') = [] then Inl (DescriptionRequired id)
         else typed_node v)"

fun parse_nodes :: "nat \<Rightarrow> string list \<Rightarrow> js list \<Rightarrow> dag_error + dag_node list" where
  "parse_nodes index seen [] = Inr []"
| "parse_nodes index seen (v # vs) =
     (case parse_node index seen v of
        Inl e \<Rightarrow> Inl e
      | Inr n \<Rightarrow>
          (case parse_nodes (Suc index) (dn_id n # seen) vs of
             Inl e \<Rightarrow> Inl e
           | Inr ns \<Rightarrow> Inr (n # ns)))"

definition deps_of :: "dag_node \<Rightarrow> string list" where
  "deps_of n = (case dn_depends_on n of None \<Rightarrow> [] | Some ds \<Rightarrow> ds)"

text \<open>The first dependency that is no node.\<close>

fun unknown_dependency :: "string list \<Rightarrow> dag_node list \<Rightarrow> dag_error option" where
  "unknown_dependency ids [] = None"
| "unknown_dependency ids (n # ns) =
     (case List.find (\<lambda>d. d \<notin> set ids) (deps_of n) of
        Some d \<Rightarrow> Some (UnknownDependency (dn_id n) d)
      | None \<Rightarrow> unknown_dependency ids ns)"

subsection \<open>Cycles\<close>

type_synonym dep_graph = "(string \<times> string list) list"

definition graph_of :: "dag_node list \<Rightarrow> dep_graph" where
  "graph_of ns = map (\<lambda>n. (dn_id n, deps_of n)) ns"

definition deps_at :: "dep_graph \<Rightarrow> string \<Rightarrow> string list" where
  "deps_at g i = (case map_of g i of None \<Rightarrow> [] | Some ds \<Rightarrow> ds)"

lemma path_shrinks:
  assumes "d \<notin> set visiting"
  shows "card (fst ` set g - set (d # visiting)) < card (fst ` set g - set visiting) \<or> deps_at g d = []"
proof (cases "d \<in> fst ` set g")
  case True
  then have "fst ` set g - set (d # visiting) \<subset> fst ` set g - set visiting" using assms by auto
  then show ?thesis by (simp add: psubset_card_mono)
next
  case False
  then have "map_of g d = None" by (simp add: map_of_eq_None_iff)
  then show ?thesis by (simp add: deps_at_def)
qed

text \<open>The visits of a list of identifiers: the path to the current node, the finished nodes, and the
  identifier at which a cycle closes as the error.\<close>

function visit_all :: "dep_graph \<Rightarrow> string list \<Rightarrow> string list \<Rightarrow> string list \<Rightarrow> string + string list" where
  "visit_all g visiting visited [] = Inr visited"
| "visit_all g visiting visited (d # ds) =
     (if d \<in> set visited then visit_all g visiting visited ds
      else if d \<in> set visiting then Inl d
      else (case visit_all g (d # visiting) visited (deps_at g d) of
              Inl c \<Rightarrow> Inl c
            | Inr v \<Rightarrow> visit_all g visiting (d # v) ds))"
  by pat_completeness auto

termination
proof (relation "measures [\<lambda>(g, visiting, _, _). card (fst ` set g - set visiting), \<lambda>(_, _, _, ds). length ds]")
  fix g visiting visited d ds
  assume "d \<notin> set (visiting :: string list)"
  then have "card (fst ` set g - set (d # visiting)) < card (fst ` set g - set visiting) \<or> deps_at g d = []"
    by (rule path_shrinks)
  moreover have "card (fst ` set g - set (d # visiting)) \<le> card (fst ` set g - set visiting)"
    by (intro card_mono) auto
  ultimately show "((g, d # visiting, visited, deps_at g d), g, visiting, visited, d # ds)
      \<in> measures [\<lambda>(g, visiting, _, _). card (fst ` set g - set visiting), \<lambda>(_, _, _, ds). length ds]"
    by auto
qed auto

definition cycle_error :: "dag_node list \<Rightarrow> string option" where
  "cycle_error ns = (case visit_all (graph_of ns) [] [] (map dn_id ns) of Inl c \<Rightarrow> Some c | Inr _ \<Rightarrow> None)"

subsection \<open>The hand-off\<close>

definition parse_team_dag :: "js \<Rightarrow> dag_error + team_dag" where
  "parse_team_dag v =
     (if \<not> is_object v then Inl NotAnObject
      else if js_get v ''schema_version'' \<noteq> JInt 1 then Inl BadSchemaVersion
      else (case js_get v ''nodes'' of
              JArr (x # xs) \<Rightarrow>
                (case parse_nodes 1 [] (x # xs) of
                   Inl e \<Rightarrow> Inl e
                 | Inr ns \<Rightarrow>
                     (case unknown_dependency (map dn_id ns) ns of
                        Some e \<Rightarrow> Inl e
                      | None \<Rightarrow>
                     (case cycle_error ns of
                        Some c \<Rightarrow> Inl (CycleAt c)
                      | None \<Rightarrow>
                     (case as_optional_string (js_get v ''plan_slug'') of Inl e \<Rightarrow> Inl e | Inr slug \<Rightarrow>
                     (case as_optional_string (js_get v ''source_prd'') of Inl e \<Rightarrow> Inl e | Inr prd \<Rightarrow>
                     (case parse_worker_policy (js_get v ''worker_policy'') of Inl e \<Rightarrow> Inl e | Inr policy \<Rightarrow>
                        Inr \<lparr> td_plan_slug = slug, td_source_prd = prd, td_nodes = ns, td_worker_policy = policy \<rparr>))))))
            | _ \<Rightarrow> Inl NoNodes))"

subsection \<open>The search finds exactly the cycles\<close>

definition dep_rel :: "dep_graph \<Rightarrow> (string \<times> string) set" where
  "dep_rel g = {(a, b). b \<in> set (deps_at g a)}"

text \<open>A list in which every element comes before (to the left of) what it depends on.\<close>

fun topological :: "dep_graph \<Rightarrow> string list \<Rightarrow> bool" where
  "topological g [] = True"
| "topological g (x # xs) \<longleftrightarrow> set (deps_at g x) \<subseteq> set xs \<and> x \<notin> set xs \<and> topological g xs"

lemma visit_new:
  "visit_all g visiting visited ds = Inr v \<Longrightarrow> set visited \<subseteq> set v \<and> set ds \<subseteq> set v \<and> set v \<inter> set visiting \<subseteq> set visited"
proof (induction g visiting visited ds arbitrary: v rule: visit_all.induct)
  case (2 g visiting visited d ds)
  show ?case
  proof (cases "d \<in> set visited")
    case True
    then show ?thesis using 2 by auto
  next
    case False
    then have d: "d \<notin> set visiting" using "2.prems" by auto
    obtain w where w: "visit_all g (d # visiting) visited (deps_at g d) = Inr w" "visit_all g visiting (d # w) ds = Inr v"
      using "2.prems" False d by (auto split: sum.splits)
    have "set visited \<subseteq> set w \<and> set w \<inter> set (d # visiting) \<subseteq> set visited"
      using "2.IH"(2) [OF False d w(1)] by blast
    moreover have "set (d # w) \<subseteq> set v \<and> set ds \<subseteq> set v \<and> set v \<inter> set visiting \<subseteq> set (d # w)"
      using "2.IH"(3) [OF False d w] by blast
    ultimately show ?thesis using d by auto
  qed
qed simp

lemma visit_topological:
  "visit_all g visiting visited ds = Inr v \<Longrightarrow> topological g visited \<Longrightarrow> topological g v"
proof (induction g visiting visited ds arbitrary: v rule: visit_all.induct)
  case (2 g visiting visited d ds)
  show ?case
  proof (cases "d \<in> set visited")
    case True
    then show ?thesis using 2 by auto
  next
    case False
    then have d: "d \<notin> set visiting" using "2.prems" by auto
    obtain w where w: "visit_all g (d # visiting) visited (deps_at g d) = Inr w" "visit_all g visiting (d # w) ds = Inr v"
      using "2.prems" False d by (auto split: sum.splits)
    have "topological g w" using "2.IH"(2) [OF False d w(1)] "2.prems"(2) by blast
    moreover have "set (deps_at g d) \<subseteq> set w" "d \<notin> set w" using visit_new [OF w(1)] False by auto
    ultimately show ?thesis using "2.IH"(3) [OF False d w] by simp
  qed
qed simp

lemma visit_cycle:
  "visit_all g visiting visited ds = Inl c \<Longrightarrow> \<forall>x \<in> set visiting. \<forall>d \<in> set ds. (x, d) \<in> (dep_rel g)\<^sup>+ \<Longrightarrow>
     (c, c) \<in> (dep_rel g)\<^sup>+"
proof (induction g visiting visited ds arbitrary: c rule: visit_all.induct)
  case (2 g visiting visited d ds)
  show ?case
  proof (cases "d \<in> set visited \<or> d \<in> set visiting")
    case True
    then show ?thesis using 2 by (cases "d \<in> set visited") auto
  next
    case False
    have below: "\<forall>x \<in> set (d # visiting). \<forall>y \<in> set (deps_at g d). (x, y) \<in> (dep_rel g)\<^sup>+"
    proof (intro ballI)
      fix x y
      assume x: "x \<in> set (d # visiting)" and "y \<in> set (deps_at g d)"
      then have "(d, y) \<in> dep_rel g" by (simp add: dep_rel_def)
      then show "(x, y) \<in> (dep_rel g)\<^sup>+"
        using x "2.prems"(2) by (cases "x = d") (auto intro: trancl_into_trancl)
    qed
    show ?thesis
    proof (cases "visit_all g (d # visiting) visited (deps_at g d)")
      case (Inl e)
      then show ?thesis using "2.IH"(2) [OF _ _ Inl below] "2.prems"(1) False by simp
    next
      case (Inr w)
      then have "visit_all g visiting (d # w) ds = Inl c" using "2.prems"(1) False by simp
      then show ?thesis using "2.IH"(3) [OF _ _ Inr] "2.prems"(2) False by simp
    qed
  qed
qed simp

text \<open>The number of elements after one.\<close>

definition height :: "string list \<Rightarrow> string \<Rightarrow> nat" where
  "height v a = length (dropWhile (\<lambda>y. y \<noteq> a) v)"

lemma height_less:
  assumes "topological g v" "a \<in> set v" "b \<in> set (deps_at g a)"
  shows "b \<in> set v \<and> height v b < height v a"
  using assms
proof (induction v)
  case (Cons x xs)
  have le: "height xs c \<le> length xs" for c by (simp add: height_def length_dropWhile_le)
  show ?case
  proof (cases "a = x")
    case True
    then have "b \<in> set xs" "b \<noteq> x" using Cons.prems by auto
    then show ?thesis using True le [of b] by (simp add: height_def less_Suc_eq_le)
  next
    case False
    then have "b \<in> set xs" "height xs b < height xs a" "b \<noteq> x" using Cons by auto
    then show ?thesis using False by (simp add: height_def)
  qed
qed simp

lemma deps_at_known: "deps_at g a \<noteq> [] \<Longrightarrow> a \<in> fst ` set g"
  by (auto simp: deps_at_def split: option.splits dest!: map_of_SomeD intro: rev_image_eqI)

lemma topological_acyclic:
  assumes "topological g v" "fst ` set g \<subseteq> set v"
  shows "acyclic (dep_rel g)"
proof (rule acyclicI_order [where f = "height v"])
  fix a b
  assume ab: "(a, b) \<in> dep_rel g"
  then have "deps_at g a \<noteq> []" by (auto simp: dep_rel_def)
  then have "a \<in> fst ` set g" by (rule deps_at_known)
  then show "height v b < height v a" using height_less [OF assms(1)] ab assms(2) by (auto simp: dep_rel_def)
qed

lemma fst_graph: "fst ` set (graph_of ns) = dn_id ` set ns"
  by (force simp: graph_of_def)

lemma cycle_error_exact: "cycle_error ns = None \<longleftrightarrow> acyclic (dep_rel (graph_of ns))"
proof
  assume "cycle_error ns = None"
  then obtain v where v: "visit_all (graph_of ns) [] [] (map dn_id ns) = Inr v" by (auto simp: cycle_error_def split: sum.splits)
  show "acyclic (dep_rel (graph_of ns))"
    by (rule topological_acyclic [OF visit_topological [OF v]]) (use visit_new [OF v] in \<open>simp_all add: fst_graph\<close>)
next
  assume acyclic: "acyclic (dep_rel (graph_of ns))"
  show "cycle_error ns = None"
    using visit_cycle [of "graph_of ns" "[]" "[]" "map dn_id ns"] acyclic
    by (auto simp: cycle_error_def acyclic_def split: sum.splits)
qed

end
