(* ===== verification/TeamDecompose.thy ===== *)
theory TeamDecompose
  imports TeamDag TeamAllocation NodePath
begin

text \<open>
  From the graph of a planned team to owned tasks (\<open>src/team/repo-aware-decomposition.ts\<close>): the
  topological order of the nodes, the numbers of lanes and of workers, and the tasks with their
  allocation. The flag that asks for a code change, which is guessed from the wording of a
  task, is left out of the tasks.
\<close>

subsection \<open>The topological order\<close>

definition get_or :: "'v \<Rightarrow> ('k \<times> 'v) list \<Rightarrow> 'k \<Rightarrow> 'v" where
  "get_or d m k = (case map_of m k of None \<Rightarrow> d | Some v \<Rightarrow> v)"

type_synonym indegrees = "(string \<times> int) list"
type_synonym edges_out = "(string \<times> string list) list"

definition add_edge :: "string \<Rightarrow> string \<Rightarrow> indegrees \<times> edges_out \<Rightarrow> indegrees \<times> edges_out" where
  "add_edge i d m =
     (dict_put i (get_or 0 (fst m) i + 1) (fst m), dict_put d (get_or [] (snd m) d @ [i]) (snd m))"

definition edges_of :: "dag_node list \<Rightarrow> indegrees \<times> edges_out" where
  "edges_of ns =
     fold (\<lambda>n. fold (add_edge (dn_id n)) (deps_of n)) ns (fold (\<lambda>n. dict_put (dn_id n) 0) ns [], [])"

text \<open>One outgoing edge of a finished node: the target is ready when its last dependency is.\<close>

definition release :: "dag_node list \<Rightarrow> string \<Rightarrow> indegrees \<times> dag_node list \<Rightarrow> indegrees \<times> dag_node list" where
  "release ns i m =
     (let k = get_or 0 (fst m) i - 1
      in (dict_put i k (fst m),
          if k = 0 then snd m @ [last (filter (\<lambda>n. dn_id n = i) ns)] else snd m))"

definition input_index :: "dag_node list \<Rightarrow> dag_node \<Rightarrow> nat" where
  "input_index ns n = get_or 0 (fold (\<lambda>(i, m). dict_put (dn_id m) i) (enumerate 0 ns) []) (dn_id n)"

fun kahn :: "nat \<Rightarrow> dag_node list \<Rightarrow> edges_out \<Rightarrow> indegrees \<Rightarrow> dag_node list \<Rightarrow> dag_node list \<Rightarrow> dag_node list option" where
  "kahn 0 ns out indeg ready acc = (if ready = [] then Some acc else None)"
| "kahn (Suc fuel) ns out indeg ready acc =
     (case sort_key (input_index ns) ready of
        [] \<Rightarrow> Some acc
      | n # rest \<Rightarrow>
          (case fold (release ns) (get_or [] out (dn_id n)) (indeg, rest) of
             (indeg1, ready1) \<Rightarrow> kahn fuel ns out indeg1 ready1 (acc @ [n])))"

text \<open>\<open>None\<close> would be a loop that outlasts one round per node, \<open>Some None\<close> is the error for a cycle.\<close>

definition topological_sort :: "dag_node list \<Rightarrow> dag_node list option option" where
  "topological_sort ns =
     (case edges_of ns of
        (indeg, out) \<Rightarrow>
          map_option (\<lambda>s. if length s \<noteq> length ns then None else Some s)
            (kahn (length ns) ns out indeg (filter (\<lambda>n. get_or 0 indeg (dn_id n) = 0) ns) []))"

subsection \<open>Lanes and workers\<close>

definition normalize_node_path :: "string \<Rightarrow> string" where
  "normalize_node_path p = (if js_starts_with p ''./'' then drop 2 p else p)"

fun code_unit_less :: "string \<Rightarrow> string \<Rightarrow> bool" where
  "code_unit_less _ [] = False"
| "code_unit_less [] (_ # _) = True"
| "code_unit_less (a # as) (b # bs) =
     (if a = b then code_unit_less as bs else (of_char a :: nat) < of_char b)"

definition conflict_group :: "dag_node \<Rightarrow> string" where
  "conflict_group n = js_join ''|'' (sort_by code_unit_less (map normalize_node_path (or_empty (dn_file_paths n))))"

definition first_ready_lane_count :: "dag_node list \<Rightarrow> int" where
  "first_ready_lane_count ns =
     (let ready = filter (\<lambda>n. deps_of n = []) ns;
          free = filter (\<lambda>n. or_empty (dn_file_paths n) = []) ready;
          groups = dedup (map conflict_group (filter (\<lambda>n. or_empty (dn_file_paths n) \<noteq> []) ready))
      in if ready = [] then 1 else max 1 (int (length groups) + int (length free)))"

definition lane_words :: "string list \<Rightarrow> rx" where
  "lane_words ws = rx_seq [WordB, rx_alts (map rx_lit_i ws), WordB]"

definition has_implementation_work :: "dag_node list \<Rightarrow> bool" where
  "has_implementation_work ns \<longleftrightarrow>
     list_ex (\<lambda>n. dn_requires_code_change n = Some True
       \<or> (let text = or_empty (dn_lane n) @ '' '' @ or_empty (dn_role n) @ '' '' @ dn_subject n @ '' '' @ dn_description n
          in rx_test (lane_words [''impl'', ''implementation'', ''code'', ''build'', ''feature'', ''fix'', ''refactor'']) text
             \<and> \<not> rx_test (lane_words [''verify'', ''verification'', ''test'', ''qa'', ''review'']) text)) ns"

definition useful_lane_count :: "dag_node list \<Rightarrow> int \<Rightarrow> bool \<Rightarrow> int" where
  "useful_lane_count ns ready reserve =
     (let labels = dedup (filter (\<lambda>l. l \<noteq> []) (map (\<lambda>n. js_trim (or_empty (dn_lane n))) ns));
          base = max ready (if labels = [] then ready else int (length labels))
      in if reserve \<and> has_implementation_work ns then max base (min (int (length ns)) (ready + 1)) else base)"

definition default_max_workers :: int where
  "default_max_workers = 20"

definition policy_field :: "(worker_policy \<Rightarrow> 'a option) \<Rightarrow> worker_policy option \<Rightarrow> 'a option" where
  "policy_field f p = (case p of None \<Rightarrow> None | Some w \<Rightarrow> f w)"

definition count_source_of :: "bool \<Rightarrow> worker_policy option \<Rightarrow> count_source" where
  "count_source_of explicit policy =
     (if explicit then CliExplicit
      else (case policy_field wp_count_source policy of
              Some s \<Rightarrow> s
            | None \<Rightarrow> (case policy_field wp_requested_count policy of
                          Some i \<Rightarrow> (if i = 0 then DefaultDerived else PlanSuggested)
                        | None \<Rightarrow> DefaultDerived)))"

definition resolve_worker_count :: "int \<Rightarrow> bool \<Rightarrow> worker_policy option \<Rightarrow> int \<Rightarrow> int \<times> count_source" where
  "resolve_worker_count asked explicit policy useful =
     (let source = count_source_of explicit policy;
          requested = (if explicit then asked else (case policy_field wp_requested_count policy of Some i \<Rightarrow> i | None \<Rightarrow> asked));
          hard_cap = min default_max_workers
            (case policy_field wp_max_count policy of Some i \<Rightarrow> i | None \<Rightarrow> default_max_workers)
      in if source = CliExplicit
         then (max 1 (min requested
                 (if policy_field wp_strict_max_count policy = Some True then hard_cap else default_max_workers)), source)
         else (max 1 (min requested (min hard_cap useful)), source))"

subsection \<open>Tasks\<close>

definition infer_domains :: "dag_node \<Rightarrow> string list" where
  "infer_domains n =
     fold (\<lambda>p ds.
         let segs = js_split CHR ''/'' (normalize_node_path p);
             ds1 = (if hd segs = [] then ds else add_hint (hd segs) ds);
             base = strip_extension (last segs)
         in if base = [] then ds1 else add_hint base ds1)
       (or_empty (dn_file_paths n)) (fold add_hint (or_empty (dn_domains n)) [])"

definition path_exists :: "fs_env \<Rightarrow> string \<Rightarrow> string \<Rightarrow> bool" where
  "path_exists fs cwd p = fs_exists fs (cwd @ ''/'' @ normalize_node_path p)"

definition enrich_node_description :: "fs_env \<Rightarrow> string \<Rightarrow> dag_node \<Rightarrow> string" where
  "enrich_node_description fs cwd n =
     (let files = map normalize_node_path (or_empty (dn_file_paths n));
          existing = filter (path_exists fs cwd) files;
          missing = filter (\<lambda>f. \<not> path_exists fs cwd f) files;
          shown = (\<lambda>f. path_relative (fs_here fs) cwd (cwd @ ''/'' @ f));
          domains = infer_domains n
      in js_join [CHR 10]
           ([dn_description n]
            @ (if files = [] then []
               else [''File scope: '' @ js_join '', '' files]
                    @ (if existing = [] then [] else [''Existing paths: '' @ js_join '', '' (map shown existing)])
                    @ (if missing = [] then [] else [''Planned/new paths: '' @ js_join '', '' missing]))
            @ (if domains = [] then [] else [''Domains: '' @ js_join '', '' domains])
            @ (if or_empty (dn_lane n) = [] then [] else [''Lane: '' @ or_empty (dn_lane n)])
            @ (if or_empty (dn_acceptance n) = [] then [] else [''Acceptance: '' @ js_join ''; '' (or_empty (dn_acceptance n))])))"

definition planned_task :: "fs_env \<Rightarrow> string \<Rightarrow> bool \<Rightarrow> string \<Rightarrow> dag_node \<Rightarrow> alloc_task" where
  "planned_task fs cwd explicit_agent agent n =
     \<lparr> at_subject = dn_subject n, at_description = enrich_node_description fs cwd n,
       at_role = Some (if explicit_agent then agent else (case dn_role n of None \<Rightarrow> agent | Some r \<Rightarrow> r)),
       at_blocked_by = Some (deps_of n), at_file_paths = dn_file_paths n, at_domains = Some (infer_domains n) \<rparr>"

definition planned_workers :: "int \<Rightarrow> bool \<Rightarrow> string \<Rightarrow> alloc_worker list" where
  "planned_workers count explicit_agent agent =
     map (\<lambda>i. \<lparr> aw_name = ''worker-'' @ string_of_nat (Suc i), aw_role = (if explicit_agent then Some agent else None) \<rparr>)
       [0..<nat count]"

record planned_node =
  pn_id :: string
  pn_task :: alloc_task
  pn_decision :: alloc_decision

record dag_plan =
  dp_worker_count :: int
  dp_source :: count_source
  dp_ready :: int
  dp_useful :: int
  dp_requested :: int
  dp_nodes :: "planned_node list"
  dp_dependencies :: "(string \<times> string list) list"

datatype plan_error = CycleInGraph | NoWorkers

record plan_input =
  pi_cwd :: string
  pi_worker_count :: int
  pi_explicit_count :: bool
  pi_agent :: string
  pi_explicit_agent :: bool

definition build_from_dag :: "fs_env \<Rightarrow> plan_input \<Rightarrow> team_dag \<Rightarrow> (plan_error + dag_plan) option" where
  "build_from_dag fs p dag =
     (case topological_sort (td_nodes dag) of
        None \<Rightarrow> None
      | Some None \<Rightarrow> Some (Inl CycleInGraph)
      | Some (Some ns) \<Rightarrow>
          (let policy = td_worker_policy dag;
               ready = first_ready_lane_count ns;
               useful = useful_lane_count ns ready (policy_field wp_reserve_verification_lane policy \<noteq> Some False);
               (count, source) = resolve_worker_count (pi_worker_count p) (pi_explicit_count p) policy useful
           in case allocate_tasks_to_workers
                     (map (planned_task fs (pi_cwd p) (pi_explicit_agent p) (pi_agent p)) ns)
                     (planned_workers count (pi_explicit_agent p) (pi_agent p)) of
                None \<Rightarrow> Some (Inl NoWorkers)
              | Some allocated \<Rightarrow>
                  Some (Inr \<lparr> dp_worker_count = count, dp_source = source, dp_ready = ready, dp_useful = useful,
                    dp_requested = (if pi_explicit_count p then pi_worker_count p
                      else (case policy_field wp_requested_count policy of Some i \<Rightarrow> i | None \<Rightarrow> pi_worker_count p)),
                    dp_nodes = map (\<lambda>(n, t, d). \<lparr> pn_id = dn_id n, pn_task = t, pn_decision = d \<rparr>) (zip ns allocated),
                    dp_dependencies = map (\<lambda>n. (dn_id n, deps_of n)) ns \<rparr>)))"

end
