(* ===== verification/TeamDecomposeProps.thy ===== *)
theory TeamDecomposeProps
  imports TeamDecompose "HOL-Library.Multiset"
begin

text \<open>
  The topological sort of \<open>TeamDecompose\<close> against the depth first search of \<open>TeamDag\<close>: the counts of
  edges, the invariant of the loop, and the plan that every accepted graph becomes.
\<close>

subsection \<open>The counts of edges\<close>

lemma get_or_put [simp]: "get_or d (dict_put k v m) l = (if l = k then v else get_or d m l)"
  by (simp add: get_or_def)

lemma get_or_Nil [simp]: "get_or d [] k = d"
  by (simp add: get_or_def)

lemma count_replicate: "count_list (replicate k y) x = (if y = x then k else 0)"
  by (induction k) auto

lemma count_concat_replicate:
  "count_list (concat (map (\<lambda>m. replicate (h m) (f m)) ns)) x = sum_list (map (\<lambda>m. if f m = x then h m else 0) ns)"
  by (induction ns) (auto simp: count_replicate)

lemma sum_at_key:
  fixes g :: "'a \<Rightarrow> 'b :: comm_monoid_add"
  assumes "distinct (map f ns)" "n \<in> set ns"
  shows "sum_list (map (\<lambda>m. if f m = f n then g m else 0) ns) = g n"
  using assms
proof (induction ns)
  case (Cons m ns)
  have none: "sum_list (map (\<lambda>k. if f k = f m then g k else 0) ns) = 0" if "f m \<notin> f ` set ns"
    using that by (induction ns) auto
  show ?case
  proof (cases "m = n")
    case True
    then show ?thesis using Cons.prems(1) none by simp
  next
    case False
    then have "f m \<noteq> f n" using Cons.prems by (auto simp: image_iff)
    then show ?thesis using Cons False by simp
  qed
qed simp

lemma add_edges_get:
  "get_or 0 (fst (fold (add_edge i) ds m)) j = get_or 0 (fst m) j + (if j = i then int (length ds) else 0)
   \<and> get_or [] (snd (fold (add_edge i) ds m)) d = get_or [] (snd m) d @ replicate (count_list ds d) i"
proof (induction ds arbitrary: m)
  case (Cons x ds)
  then show ?case by (auto simp: add_edge_def replicate_app_Cons_same)
qed simp

lemma add_nodes_get:
  "get_or 0 (fst (fold (\<lambda>n. fold (add_edge (dn_id n)) (deps_of n)) ns m)) j
     = get_or 0 (fst m) j + sum_list (map (\<lambda>n. if dn_id n = j then int (length (deps_of n)) else 0) ns)
   \<and> get_or [] (snd (fold (\<lambda>n. fold (add_edge (dn_id n)) (deps_of n)) ns m)) d
     = get_or [] (snd m) d @ concat (map (\<lambda>n. replicate (count_list (deps_of n) d) (dn_id n)) ns)"
  by (induction ns arbitrary: m) (auto simp: add_edges_get)

lemma start_get: "get_or 0 (fold (\<lambda>n. dict_put (dn_id n) 0) ns m) j = (if j \<in> dn_id ` set ns then 0 else get_or 0 m j)"
  by (induction ns arbitrary: m) auto

lemma edges_of_get:
  assumes "distinct (map dn_id ns)" "n \<in> set ns"
  shows "get_or 0 (fst (edges_of ns)) (dn_id n) = int (length (deps_of n))"
    "count_list (get_or [] (snd (edges_of ns)) d) (dn_id n) = count_list (deps_of n) d"
  using assms sum_at_key [OF assms, of "\<lambda>m. int (length (deps_of m))"] sum_at_key [OF assms, of "\<lambda>m. count_list (deps_of m) d"]
  by (simp_all add: edges_of_def add_nodes_get start_get count_concat_replicate)

lemma edges_of_targets: "set (get_or [] (snd (edges_of ns)) d) \<subseteq> dn_id ` set ns"
  by (auto simp: edges_of_def add_nodes_get)

subsection \<open>One round\<close>

lemma node_of_id: "distinct (map dn_id ns) \<Longrightarrow> n \<in> set ns \<Longrightarrow> last (filter (\<lambda>m. dn_id m = dn_id n) ns) = n"
proof -
  assume "distinct (map dn_id ns)" "n \<in> set ns"
  then have "filter (\<lambda>m. dn_id m = dn_id n) ns = [n]"
  proof (induction ns)
    case (Cons m ns)
    then show ?case by (cases "m = n") (auto simp: filter_empty_conv image_iff)
  qed simp
  then show ?thesis by simp
qed

lemma release_all:
  assumes "distinct (map dn_id ns)" "set xs \<subseteq> dn_id ` set ns"
    "\<forall>n \<in> set ns. int (count_list xs (dn_id n)) \<le> get_or 0 I (dn_id n)"
    "fold (release ns) xs (I, R) = (I', R')"
  shows "(\<forall>n \<in> set ns. get_or 0 I' (dn_id n) = get_or 0 I (dn_id n) - int (count_list xs (dn_id n)))
    \<and> (\<exists>P. R' = R @ P \<and> distinct P
        \<and> set P = {n \<in> set ns. dn_id n \<in> set xs \<and> get_or 0 I (dn_id n) = int (count_list xs (dn_id n))})"
  using assms(2-4)
proof (induction xs arbitrary: I R)
  case Nil
  then show ?case by simp
next
  case (Cons x xs)
  obtain m where m: "m \<in> set ns" "x = dn_id m" using Cons.prems(1) by auto
  define k where "k = get_or 0 I x - 1"
  define J where "J = dict_put x k I"
  have rel: "release ns x (I, R) = (J, if k = 0 then R @ [m] else R)"
    using node_of_id [OF assms(1) m(1)] by (simp add: release_def k_def J_def m(2) Let_def)
  have J: "get_or 0 J (dn_id n) = get_or 0 I (dn_id n) - (if dn_id n = x then 1 else 0)" for n
    by (simp add: J_def k_def)
  have le: "\<forall>n \<in> set ns. int (count_list xs (dn_id n)) \<le> get_or 0 J (dn_id n)"
    using Cons.prems(2) unfolding J by (auto split: if_splits)
  have run: "fold (release ns) xs (J, if k = 0 then R @ [m] else R) = (I', R')" using Cons.prems(3) rel by simp
  obtain P where P: "R' = (if k = 0 then R @ [m] else R) @ P" "distinct P"
    "set P = {n \<in> set ns. dn_id n \<in> set xs \<and> get_or 0 J (dn_id n) = int (count_list xs (dn_id n))}"
    and I': "\<forall>n \<in> set ns. get_or 0 I' (dn_id n) = get_or 0 J (dn_id n) - int (count_list xs (dn_id n))"
    using Cons.IH [OF _ le run] Cons.prems(1) by auto
  have same: "n = m" if "n \<in> set ns" "dn_id n = x" for n
    using assms(1) m that by (metis distinct_map inj_onD)
  show ?case
  proof
    show "\<forall>n \<in> set ns. get_or 0 I' (dn_id n) = get_or 0 I (dn_id n) - int (count_list (x # xs) (dn_id n))"
      using I' by (simp add: J)
    show "\<exists>P. R' = R @ P \<and> distinct P
        \<and> set P = {n \<in> set ns. dn_id n \<in> set (x # xs) \<and> get_or 0 I (dn_id n) = int (count_list (x # xs) (dn_id n))}"
    proof (cases "k = 0")
      case True
      have "get_or 0 I x = 1" using True by (simp add: k_def)
      then have "count_list xs x = 0" using Cons.prems(2) m by auto
      then have x: "x \<notin> set xs" by (simp add: count_list_0_iff)
      have "n \<in> set (m # P) \<longleftrightarrow> dn_id n \<in> set (x # xs) \<and> get_or 0 I (dn_id n) = int (count_list (x # xs) (dn_id n))" if "n \<in> set ns" for n
      proof (cases "dn_id n = x")
        case True
        then show ?thesis using same [OF that True] \<open>get_or 0 I x = 1\<close> \<open>count_list xs x = 0\<close> by simp
      next
        case False
        then show ?thesis using that m(2) by (auto simp: P(3) J)
      qed
      then have "set (m # P) = {n \<in> set ns. dn_id n \<in> set (x # xs) \<and> get_or 0 I (dn_id n) = int (count_list (x # xs) (dn_id n))}"
        using m(1) unfolding P(3) set_simps by blast
      moreover have "m \<notin> set P" using x m(2) unfolding P(3) by blast
      then have "distinct (m # P)" using P(2) by simp
      ultimately show ?thesis using P(1) True by (intro exI [of _ "m # P"]) simp
    next
      case False
      have "n \<in> set P \<longleftrightarrow> dn_id n \<in> set (x # xs) \<and> get_or 0 I (dn_id n) = int (count_list (x # xs) (dn_id n))" if "n \<in> set ns" for n
      proof (cases "dn_id n = x")
        case True
        have "x \<in> set xs" if "get_or 0 I x = int (count_list (x # xs) x)"
          using that False count_list_0_iff [of xs x] by (auto simp: k_def)
        then show ?thesis using True \<open>n \<in> set ns\<close> by (auto simp: P(3) J)
      next
        case False
        then show ?thesis using \<open>n \<in> set ns\<close> by (auto simp: P(3) J)
      qed
      then have "set P = {n \<in> set ns. dn_id n \<in> set (x # xs) \<and> get_or 0 I (dn_id n) = int (count_list (x # xs) (dn_id n))}"
        unfolding P(3) by blast
      then show ?thesis using P(1,2) False by (intro exI [of _ P]) simp
    qed
  qed
qed

subsection \<open>The loop\<close>

text \<open>The finished nodes \<open>S\<close> are in topological order, an indegree counts the dependencies that are
  not finished, and the ready nodes \<open>R\<close> are the unfinished ones without any.\<close>

definition kahn_inv :: "dag_node list \<Rightarrow> indegrees \<Rightarrow> dag_node list \<Rightarrow> dag_node list \<Rightarrow> bool" where
  "kahn_inv ns I R S \<longleftrightarrow>
     distinct (S @ R) \<and> set (S @ R) \<subseteq> set ns
     \<and> (\<forall>n \<in> set ns. get_or 0 I (dn_id n) = int (length (filter (\<lambda>d. d \<notin> dn_id ` set S) (deps_of n))))
     \<and> (\<forall>n \<in> set ns. n \<in> set (S @ R) \<longleftrightarrow> get_or 0 I (dn_id n) = 0)
     \<and> topological (graph_of ns) (rev (map dn_id S))"

lemma filter_finished:
  "i \<notin> A \<Longrightarrow> length (filter (\<lambda>d. d \<notin> A) ds) = length (filter (\<lambda>d. d \<notin> insert i A) ds) + count_list ds i"
  by (induction ds) auto

lemma deps_at_node:
  assumes "distinct (map dn_id ns)" "n \<in> set ns"
  shows "deps_at (graph_of ns) (dn_id n) = deps_of n"
proof -
  have "map_of (graph_of ns) (dn_id n) = Some (deps_of n)"
    by (rule map_of_is_SomeI) (use assms in \<open>auto simp: graph_of_def comp_def\<close>)
  then show ?thesis by (simp add: deps_at_def)
qed

lemma id_inj: "distinct (map dn_id ns) \<Longrightarrow> m \<in> set ns \<Longrightarrow> n \<in> set ns \<Longrightarrow> dn_id m = dn_id n \<Longrightarrow> m = n"
  by (metis distinct_map inj_onD)

lemma kahn_step:
  assumes ids: "distinct (map dn_id ns)" and inv: "kahn_inv ns I (n # rest) S"
    and run: "fold (release ns) (get_or [] (snd (edges_of ns)) (dn_id n)) (I, rest) = (I', R')"
  shows "kahn_inv ns I' R' (S @ [n])"
proof -
  define xs where "xs = get_or [] (snd (edges_of ns)) (dn_id n)"
  have old: "distinct (S @ n # rest)" "set (S @ n # rest) \<subseteq> set ns"
    "\<And>m. m \<in> set ns \<Longrightarrow> get_or 0 I (dn_id m) = int (length (filter (\<lambda>d. d \<notin> dn_id ` set S) (deps_of m)))"
    "\<And>m. m \<in> set ns \<Longrightarrow> m \<in> set (S @ n # rest) \<longleftrightarrow> get_or 0 I (dn_id m) = 0"
    "topological (graph_of ns) (rev (map dn_id S))"
    using inv unfolding kahn_inv_def by blast+
  have n: "n \<in> set ns" "dn_id n \<notin> dn_id ` set S" using old(1,2) id_inj [OF ids] by auto
  have count: "count_list xs (dn_id m) = count_list (deps_of m) (dn_id n)" if "m \<in> set ns" for m
    unfolding xs_def by (rule edges_of_get(2) [OF ids that])
  have split: "get_or 0 I (dn_id m)
      = int (length (filter (\<lambda>d. d \<notin> dn_id ` set (S @ [n])) (deps_of m))) + int (count_list xs (dn_id m))" if "m \<in> set ns" for m
    using filter_finished [OF n(2), of "deps_of m"] old(3) [OF that] count [OF that] by simp
  have le: "\<forall>m \<in> set ns. int (count_list xs (dn_id m)) \<le> get_or 0 I (dn_id m)"
    using split by simp
  obtain P where P: "R' = rest @ P" "distinct P"
    "set P = {m \<in> set ns. dn_id m \<in> set xs \<and> get_or 0 I (dn_id m) = int (count_list xs (dn_id m))}"
    and I': "\<And>m. m \<in> set ns \<Longrightarrow> get_or 0 I' (dn_id m) = get_or 0 I (dn_id m) - int (count_list xs (dn_id m))"
    using release_all [OF ids _ le run [folded xs_def]] edges_of_targets [of ns] unfolding xs_def by blast
  have pushed: "m \<in> set P \<longleftrightarrow> get_or 0 I (dn_id m) \<noteq> 0 \<and> get_or 0 I' (dn_id m) = 0" if "m \<in> set ns" for m
    using I' [OF that] count_list_0_iff [of xs "dn_id m"] that unfolding P(3) by auto
  have member: "m \<in> set ((S @ [n]) @ R') \<longleftrightarrow> get_or 0 I' (dn_id m) = 0" if "m \<in> set ns" for m
  proof -
    have "m \<in> set ((S @ [n]) @ R') \<longleftrightarrow> m \<in> set (S @ n # rest) \<or> m \<in> set P" by (auto simp: P(1))
    moreover have "get_or 0 I' (dn_id m) = 0" if "get_or 0 I (dn_id m) = 0"
      using split [OF \<open>m \<in> set ns\<close>] I' [OF \<open>m \<in> set ns\<close>] that by simp
    ultimately show ?thesis using pushed [OF that] old(4) [OF that] by blast
  qed
  have fresh: "set P \<inter> set (S @ n # rest) = {}"
    using pushed old(4) P(3) by blast
  have "filter (\<lambda>d. d \<notin> dn_id ` set S) (deps_of n) = []"
    using old(3) [OF n(1)] old(4) [OF n(1)] by simp
  then have "set (deps_of n) \<subseteq> dn_id ` set S" by (auto simp: filter_empty_conv)
  then have "topological (graph_of ns) (rev (map dn_id (S @ [n])))"
    using old(5) n by (simp add: deps_at_node [OF ids n(1)])
  moreover have "distinct ((S @ [n]) @ R')" using old(1) P(1,2) fresh by auto
  moreover have "set ((S @ [n]) @ R') \<subseteq> set ns" using old(2) P(1,3) by auto
  moreover have "get_or 0 I' (dn_id m) = int (length (filter (\<lambda>d. d \<notin> dn_id ` set (S @ [n])) (deps_of m)))" if "m \<in> set ns" for m
    using split [OF that] I' [OF that] by simp
  ultimately show ?thesis using member unfolding kahn_inv_def by blast
qed

lemma kahn_inv_perm: "mset R = mset Q \<Longrightarrow> kahn_inv ns I R S \<Longrightarrow> kahn_inv ns I Q S"
  using mset_eq_setD [of R Q] mset_eq_imp_distinct_iff [of R Q] unfolding kahn_inv_def by simp

lemma kahn_runs:
  assumes "distinct (map dn_id ns)" "kahn_inv ns I R S" "length ns \<le> fuel + length S"
  shows "\<exists>s I'. kahn fuel ns (snd (edges_of ns)) I R S = Some s \<and> kahn_inv ns I' [] s"
  using assms(2,3)
proof (induction fuel arbitrary: I R S)
  case 0
  have "distinct (S @ R)" "set (S @ R) \<subseteq> set ns" using 0 unfolding kahn_inv_def by blast+
  then have "length (S @ R) \<le> length ns"
    by (metis List.finite_set card_length card_mono distinct_card le_trans)
  then have "R = []" using 0(2) by (cases R) simp_all
  then show ?case using 0(1) by auto
next
  case (Suc fuel)
  show ?case
  proof (cases "sort_key (input_index ns) R")
    case Nil
    then have "R = []" by (metis length_sort length_0_conv)
    then show ?thesis using Nil Suc.prems(1) by auto
  next
    case (Cons n rest)
    have inv: "kahn_inv ns I (n # rest) S"
      using kahn_inv_perm [OF _ Suc.prems(1), of "n # rest"] by (simp add: mset_sort flip: Cons)
    obtain I' R' where r: "fold (release ns) (get_or [] (snd (edges_of ns)) (dn_id n)) (I, rest) = (I', R')"
      by (metis surj_pair)
    show ?thesis using Suc.IH [OF kahn_step [OF assms(1) inv r]] Suc.prems(2) Cons r by simp
  qed
qed

lemma kahn_start:
  assumes "distinct (map dn_id ns)"
  shows "kahn_inv ns (fst (edges_of ns)) (filter (\<lambda>n. get_or 0 (fst (edges_of ns)) (dn_id n) = 0) ns) []"
  using assms by (auto simp: kahn_inv_def edges_of_get(1) distinct_map)

text \<open>With distinct identifiers the sort ends: with an order when the graph has no cycle and every
  dependency is a node, with the error otherwise.\<close>

lemma topological_sort_cases:
  assumes "distinct (map dn_id ns)"
  obtains s I where "topological_sort ns = Some (if length s \<noteq> length ns then None else Some s)" "kahn_inv ns I [] s"
proof -
  obtain s I where "kahn (length ns) ns (snd (edges_of ns)) (fst (edges_of ns))
      (filter (\<lambda>n. get_or 0 (fst (edges_of ns)) (dn_id n) = 0) ns) [] = Some s" "kahn_inv ns I [] s"
    using kahn_runs [OF assms kahn_start [OF assms], of "length ns"] by auto
  then show thesis using that by (simp add: topological_sort_def split_beta)
qed

lemma finished_all:
  assumes "distinct (map dn_id ns)" "kahn_inv ns I [] s" "acyclic (dep_rel (graph_of ns))"
    "\<forall>n \<in> set ns. set (deps_of n) \<subseteq> dn_id ` set ns"
  shows "set s = set ns"
proof (rule ccontr)
  let ?E = "dep_rel (graph_of ns)"
  define U where "U = dn_id ` (set ns - set s)"
  assume "set s \<noteq> set ns"
  then have "U \<noteq> {}" using assms(2) by (auto simp: U_def kahn_inv_def)
  have "?E \<subseteq> (dn_id ` set ns) \<times> (dn_id ` set ns)"
  proof
    fix p
    assume "p \<in> ?E"
    then obtain a b where p: "p = (a, b)" "b \<in> set (deps_at (graph_of ns) a)" by (auto simp: dep_rel_def)
    then have "a \<in> fst ` set (graph_of ns)" by (intro deps_at_known) auto
    then obtain n where "n \<in> set ns" "a = dn_id n" unfolding fst_graph by blast
    then show "p \<in> (dn_id ` set ns) \<times> (dn_id ` set ns)" using p deps_at_node [OF assms(1)] assms(4) by auto
  qed
  then have "finite ?E" by (rule finite_subset) simp
  then have "wf (?E\<inverse>)" by (rule finite_acyclic_wf_converse [OF _ assms(3)])
  then obtain i where i: "i \<in> U" "\<forall>j. (i, j) \<in> ?E \<longrightarrow> j \<notin> U"
    using \<open>U \<noteq> {}\<close> by (metis converse_iff wfE_min all_not_in_conv)
  then obtain n where n: "n \<in> set ns" "n \<notin> set s" "i = dn_id n" by (auto simp: U_def)
  have "d \<in> dn_id ` set s" if "d \<in> set (deps_of n)" for d
  proof -
    have "(i, d) \<in> ?E" using that n(1,3) deps_at_node [OF assms(1)] by (simp add: dep_rel_def)
    then have "d \<notin> U" using i(2) by blast
    moreover have "d \<in> dn_id ` set ns" using assms(4) n(1) that by blast
    ultimately show ?thesis by (auto simp: U_def)
  qed
  then have "filter (\<lambda>d. d \<notin> dn_id ` set s) (deps_of n) = []" by (simp add: filter_empty_conv)
  then show False using assms(2) n(1,2) by (auto simp: kahn_inv_def)
qed

subsection \<open>Accepted graphs\<close>

lemma parse_node_id: "parse_node i seen v = Inr n \<Longrightarrow> dn_id n \<notin> set seen \<and> js_trim (dn_id n) \<noteq> []"
  by (auto simp: parse_node_def typed_node_def Let_def trimmed_def split: if_splits sum.splits option.splits)

lemma parse_nodes_ids:
  "parse_nodes i seen vs = Inr ns \<Longrightarrow> distinct (map dn_id ns) \<and> dn_id ` set ns \<inter> set seen = {} \<and> length ns = length vs"
proof (induction i seen vs arbitrary: ns rule: parse_nodes.induct)
  case (2 i seen v vs)
  obtain n ms where n: "parse_node i seen v = Inr n" "parse_nodes (Suc i) (dn_id n # seen) vs = Inr ms" "ns = n # ms"
    using "2.prems" by (auto split: sum.splits)
  show ?case using "2.IH" [OF n(1,2)] parse_node_id [OF n(1)] n(3) by auto
qed simp

lemma unknown_none: "unknown_dependency ids ns = None \<longleftrightarrow> (\<forall>n \<in> set ns. set (deps_of n) \<subseteq> set ids)"
  by (induction ns) (auto simp: find_None_iff dest: find_SomeD split: option.splits)

lemma parse_team_dag_cases:
  assumes "parse_team_dag v = Inr dag"
  obtains x xs where "js_get v ''nodes'' = JArr (x # xs)" "parse_nodes 1 [] (x # xs) = Inr (td_nodes dag)"
    "unknown_dependency (map dn_id (td_nodes dag)) (td_nodes dag) = None" "cycle_error (td_nodes dag) = None"
    "parse_worker_policy (js_get v ''worker_policy'') = Inr (td_worker_policy dag)"
  using assms by (auto simp: parse_team_dag_def split: if_splits js.splits list.splits sum.splits option.splits)

text \<open>The nodes of an accepted graph.\<close>

definition dag_wf :: "dag_node list \<Rightarrow> bool" where
  "dag_wf ns \<longleftrightarrow>
     ns \<noteq> [] \<and> distinct (map dn_id ns) \<and> (\<forall>n \<in> set ns. set (deps_of n) \<subseteq> dn_id ` set ns)
     \<and> acyclic (dep_rel (graph_of ns))"

lemma accepted_wf:
  assumes "parse_team_dag v = Inr dag"
  shows "dag_wf (td_nodes dag)"
  using assms
proof (rule parse_team_dag_cases)
  fix x xs
  assume p: "parse_nodes 1 [] (x # xs) = Inr (td_nodes dag)" and
    u: "unknown_dependency (map dn_id (td_nodes dag)) (td_nodes dag) = None" and c: "cycle_error (td_nodes dag) = None"
  show ?thesis
    using parse_nodes_ids [OF p] u c by (auto simp: dag_wf_def unknown_none cycle_error_exact)
qed

text \<open>C38. The depth first search finds a cycle exactly when the graph has one, and the node it names
  lies on a cycle.\<close>

theorem cycle_search_exact:
  "(cycle_error ns = None) = acyclic (dep_rel (graph_of ns))
    \<and> (case cycle_error ns of None \<Rightarrow> True | Some c \<Rightarrow> (c, c) \<in> (dep_rel (graph_of ns))\<^sup>+)"
  using cycle_error_exact visit_cycle [of "graph_of ns" "[]" "[]" "map dn_id ns"]
  by (auto simp: cycle_error_def split: sum.splits)

lemma sorted_order:
  assumes "topological g (rev xs)" "i < length xs"
  shows "set (deps_at g (xs ! i)) \<subseteq> set (take i xs)"
  using assms
proof (induction xs rule: rev_induct)
  case (snoc x xs)
  then show ?case by (cases "i < length xs") (auto simp: nth_append less_Suc_eq)
qed simp

lemma wf_sorts:
  assumes "dag_wf ns"
  shows "\<exists>s. topological_sort ns = Some (Some s) \<and> mset s = mset ns
    \<and> (\<forall>i < length s. set (deps_of (s ! i)) \<subseteq> dn_id ` set (take i s))"
proof -
  have ids: "distinct (map dn_id ns)" using assms by (simp add: dag_wf_def)
  obtain s I where s: "topological_sort ns = Some (if length s \<noteq> length ns then None else Some s)" "kahn_inv ns I [] s"
    using topological_sort_cases [OF ids] by metis
  have all: "set s = set ns" using finished_all [OF ids s(2)] assms by (simp add: dag_wf_def)
  have d: "distinct s" "distinct ns" using s(2) ids by (simp_all add: kahn_inv_def distinct_map)
  then have m: "mset s = mset ns" using all by (simp add: set_eq_iff_mset_eq_distinct)
  have top: "topological (graph_of ns) (rev (map dn_id s))" using s(2) by (simp add: kahn_inv_def)
  have "set (deps_of (s ! i)) \<subseteq> dn_id ` set (take i s)" if i: "i < length s" for i
  proof -
    have "s ! i \<in> set ns" using nth_mem [OF i] all by simp
    then have "deps_of (s ! i) = deps_at (graph_of ns) (map dn_id s ! i)" using i by (simp add: deps_at_node [OF ids])
    then show ?thesis using sorted_order [OF top, of i] i by (simp add: take_map)
  qed
  then show ?thesis using s(1) m mset_eq_length [OF m] by auto
qed

subsection \<open>The plan of an accepted graph\<close>

lemma worker_count_range: "1 \<le> fst (resolve_worker_count asked explicit policy useful) \<and> fst (resolve_worker_count asked explicit policy useful) \<le> 20"
  by (simp add: resolve_worker_count_def Let_def default_max_workers_def min_le_iff_disj)

lemma worker_count_capped:
  assumes "resolve_worker_count asked explicit policy useful = (workers, source)" "source \<noteq> CliExplicit \<or> policy_field wp_strict_max_count policy = Some True"
    "policy_field wp_max_count policy = Some most" "1 \<le> most"
  shows "workers \<le> most"
  using assms by (auto simp: resolve_worker_count_def Let_def split: if_splits)

text \<open>C10. A graph that is accepted always becomes a plan: the sort does not find a cycle, every node
  becomes one task, a task waits only for tasks before it in the plan, every task has an owner
  among the workers of the plan, and there are between one and twenty of them.\<close>

theorem accepted_dag_planned:
  assumes "parse_team_dag v = Inr dag"
  shows "\<exists>plan. build_from_dag fs p dag = Some (Inr plan)
    \<and> mset (map pn_id (dp_nodes plan)) = mset (map dn_id (td_nodes dag))
    \<and> 1 \<le> dp_worker_count plan \<and> dp_worker_count plan \<le> 20
    \<and> (\<forall>i < length (dp_nodes plan).
         (\<exists>ds. at_blocked_by (pn_task (dp_nodes plan ! i)) = Some ds \<and> set ds \<subseteq> pn_id ` set (take i (dp_nodes plan)))
         \<and> (\<exists>k. int k < dp_worker_count plan \<and> ad_owner (pn_decision (dp_nodes plan ! i)) = ''worker-'' @ string_of_nat (Suc k)))"
proof -
  obtain s where s: "topological_sort (td_nodes dag) = Some (Some s)" "mset s = mset (td_nodes dag)"
    "\<forall>i < length s. set (deps_of (s ! i)) \<subseteq> dn_id ` set (take i s)"
    using wf_sorts [OF accepted_wf [OF assms]] by blast
  let ?ready = "first_ready_lane_count s" and ?policy = "td_worker_policy dag"
  define useful where "useful = useful_lane_count s ?ready (policy_field wp_reserve_verification_lane ?policy \<noteq> Some False)"
  obtain workers source where c: "resolve_worker_count (pi_worker_count p) (pi_explicit_count p) ?policy useful = (workers, source)"
    by (metis surj_pair)
  have range: "1 \<le> workers" "workers \<le> 20" using worker_count_range [of "pi_worker_count p" "pi_explicit_count p" ?policy useful] c by auto
  let ?task = "planned_task fs (pi_cwd p) (pi_explicit_agent p) (pi_agent p)"
  let ?workers = "planned_workers workers (pi_explicit_agent p) (pi_agent p)"
  have "?workers \<noteq> []" using range(1) by (simp add: planned_workers_def)
  then obtain r where r: "allocate_tasks_to_workers (map ?task s) ?workers = Some r" "map fst r = map ?task s"
    "\<forall>(t, d) \<in> set r. ad_owner d \<in> aw_name ` set ?workers"
    using allocate_from_total [of ?workers "[]" "map ?task s"] by (auto simp: allocate_tasks_to_workers_def)
  have len: "length r = length s" using arg_cong [OF r(2), of length] by simp
  let ?nodes = "map (\<lambda>(n, t, d). \<lparr> pn_id = dn_id n, pn_task = t, pn_decision = d \<rparr>) (zip s r)"
  obtain plan where plan: "build_from_dag fs p dag = Some (Inr plan)" "dp_nodes plan = ?nodes" "dp_worker_count plan = workers"
    using s(1) r(1) c by (simp add: build_from_dag_def Let_def useful_def)
  have ids: "map pn_id ?nodes = map dn_id s" using len by (intro nth_equalityI) (simp_all add: split_beta)
  have task_at: "pn_task (?nodes ! i) = ?task (s ! i) \<and> pn_decision (?nodes ! i) = snd (r ! i)" if "i < length s" for i
    using that len arg_cong [OF r(2), of "\<lambda>l. l ! i"] by (simp add: split_beta)
  have "\<exists>ds. at_blocked_by (pn_task (?nodes ! i)) = Some ds \<and> set ds \<subseteq> pn_id ` set (take i ?nodes)" if i: "i < length s" for i
  proof -
    have "pn_id ` set (take i ?nodes) = dn_id ` set (take i s)"
      using arg_cong [OF ids, of "\<lambda>l. set (take i l)"] by (simp only: take_map set_map)
    then show ?thesis using task_at [OF i] s(3) i by (simp add: planned_task_def)
  qed
  moreover have "\<exists>k. int k < workers \<and> ad_owner (pn_decision (?nodes ! i)) = ''worker-'' @ string_of_nat (Suc k)" if i: "i < length s" for i
  proof -
    have "r ! i \<in> set r" using i len by simp
    then have "ad_owner (snd (r ! i)) \<in> aw_name ` set ?workers" using r(3) by (auto simp: split_beta)
    then obtain k where "k < nat workers" "ad_owner (snd (r ! i)) = ''worker-'' @ string_of_nat (Suc k)"
      by (auto simp: planned_workers_def)
    then show ?thesis using task_at [OF i] by (intro exI [of _ k]) simp
  qed
  moreover have "mset (map pn_id ?nodes) = mset (map dn_id (td_nodes dag))" unfolding ids using s(2) by simp
  moreover have "length ?nodes = length s" using len by simp
  ultimately show ?thesis using plan range by (intro exI [of _ plan] conjI allI impI) (simp_all only:)
qed

definition demo_node :: "string \<Rightarrow> string list \<Rightarrow> js" where
  "demo_node i ds = JObj [(''id'', JStr i), (''subject'', JStr ''s''), (''description'', JStr ''d''), (''depends_on'', JArr (map JStr ds))]"

definition demo_dag :: js where
  "demo_dag = JObj [(''schema_version'', JInt 1), (''nodes'', JArr [demo_node ''b'' [''a'', ''a''], demo_node ''a'' []])]"

lemma demo_dag_accepted: "case parse_team_dag demo_dag of Inl _ \<Rightarrow> False | Inr dag \<Rightarrow> map dn_id (td_nodes dag) = [''b'', ''a'']"
  by code_simp

definition demo_plan_input :: plan_input where
  "demo_plan_input = \<lparr> pi_cwd = ''/w'', pi_worker_count = 3, pi_explicit_count = False, pi_agent = ''executor'', pi_explicit_agent = False \<rparr>"

definition demo_tree :: fs_env where
  "demo_tree = \<lparr> fs_here = ''/w'', fs_exists = (\<lambda>p. p = ''/w''), fs_real = Some, fs_json = (\<lambda>p. NoFile) \<rparr>"

theorem accepted_dag_planned_witness:
  "case parse_team_dag demo_dag of
     Inl _ \<Rightarrow> False
   | Inr dag \<Rightarrow> (\<exists>plan. build_from_dag demo_tree demo_plan_input dag = Some (Inr plan) \<and> mset (map pn_id (dp_nodes plan)) = {# ''a'', ''b'' #})"
proof -
  obtain dag where d: "parse_team_dag demo_dag = Inr dag" "map dn_id (td_nodes dag) = [''b'', ''a'']"
    using demo_dag_accepted by (auto split: sum.splits)
  have "mset (map dn_id (td_nodes dag)) = {# ''a'', ''b'' #}" unfolding d(2) by simp
  then show ?thesis using accepted_dag_planned [OF d(1), of demo_tree demo_plan_input] unfolding d(1) sum.case by (elim exE conjE) auto
qed

lemma demo_cycle:
  "parse_team_dag (JObj [(''schema_version'', JInt 1), (''nodes'', JArr [demo_node ''a'' [''b''], demo_node ''b'' [''a'']])]) = Inl (CycleAt ''a'')"
  by code_simp

text \<open>A graph that names its own count as explicit is not held to its own maximum.\<close>

theorem declared_source_lifts_cap:
  "resolve_worker_count 3 False
     (Some \<lparr> wp_requested_count = Some 10, wp_count_source = Some CliExplicit, wp_max_count = Some 2,
             wp_reserve_verification_lane = None, wp_strict_max_count = None \<rparr>) 1 = (10, CliExplicit)"
  by code_simp

end
