(* ===== verification/ExecFollowup.thy ===== *)
theory ExecFollowup
  imports JsValue Regex
begin

text \<open>
  The queue of follow-up instructions for a session that runs without a terminal
  (\<open>src/exec/followup.ts\<close>). A queue is a file per session; \<open>injectExecFollowup\<close> appends under a
  directory lock, a Stop hook first reads what is pending without the lock and then marks it as
  delivered under the lock. So the steps of the model are the locked sections and the unlocked
  read. The state of the active session and the identifiers are arguments.
\<close>

datatype followup_error =
    InvalidSessionId
  | MissingPrompt
  | NoActiveSession
  | FollowupSessionMismatch string
  | QueueIsNull

datatype followup_event =
    FollowupQueued string string
  | FollowupDelivered string string
  | QueueRecovered string

record followup_store =
  qs_files :: "(string \<times> json_file) list"
  qs_audit :: "followup_event list"

subsection \<open>Arguments\<close>

definition valid_followup_session :: "string \<Rightarrow> bool" where
  "valid_followup_session s \<longleftrightarrow>
     1 \<le> length s \<and> length s \<le> 128 \<and> list_all (\<lambda>c. is_word_char c \<or> c = CHR ''-'') s"

definition normalize_session_id :: "string \<Rightarrow> followup_error + string" where
  "normalize_session_id s = (if valid_followup_session (js_trim s) then Inr (js_trim s) else Inl InvalidSessionId)"

definition normalize_prompt :: "string \<Rightarrow> followup_error + string" where
  "normalize_prompt s = (if js_trim s = [] then Inl MissingPrompt else Inr (js_trim s))"

text \<open>The actor, or the first of the names in the environment that is not blank.\<close>

definition normalize_actor :: "string option \<Rightarrow> string option list \<Rightarrow> string" where
  "normalize_actor actor env =
     (let given = (case List.find truthy_str (actor # env) of Some (Some a) \<Rightarrow> a | _ \<Rightarrow> ''unknown'')
      in if js_trim given = [] then ''unknown'' else js_trim given)"

subsection \<open>The file\<close>

definition queue_file :: "followup_store \<Rightarrow> string \<Rightarrow> json_file" where
  "queue_file st sid = (case map_of (qs_files st) sid of None \<Rightarrow> NoFile | Some f \<Rightarrow> f)"

definition queue_value :: "string \<Rightarrow> js list \<Rightarrow> js" where
  "queue_value sid rs = JObj [(''version'', JInt 1), (''session_id'', JStr sid), (''records'', JArr rs)]"

definition write_queue :: "string \<Rightarrow> string \<Rightarrow> js list \<Rightarrow> followup_store \<Rightarrow> followup_store" where
  "write_queue path sid rs st = st\<lparr> qs_files := dict_put path (JsonFile (queue_value sid rs)) (qs_files st) \<rparr>"

definition append_audit :: "followup_event list \<Rightarrow> followup_store \<Rightarrow> followup_store" where
  "append_audit es st = st\<lparr> qs_audit := qs_audit st @ es \<rparr>"

definition is_followup :: "js \<Rightarrow> bool" where
  "is_followup v \<longleftrightarrow>
     is_object v \<and> list_all (\<lambda>k. js_string (js_get v k) \<noteq> None) [''id'', ''session_id'', ''actor'', ''prompt'', ''created_at'']"

text \<open>A file that does not parse is put aside and replaced by an empty queue; the content \<open>null\<close> parses
  and ends in the \<open>TypeError\<close> of reading its records.\<close>

definition read_queue :: "string \<Rightarrow> followup_store \<Rightarrow> followup_store \<times> (followup_error + string \<times> js list)" where
  "read_queue sid st =
     (case queue_file st sid of
        NoFile \<Rightarrow> (st, Inr (sid, []))
      | BadFile \<Rightarrow> (append_audit [QueueRecovered sid] (write_queue sid sid [] st), Inr (sid, []))
      | JsonFile v \<Rightarrow>
          (if v = JNull then (st, Inl QueueIsNull)
           else (st, Inr (if trimmed (js_get v ''session_id'') = [] then sid else trimmed (js_get v ''session_id''),
                          filter is_followup (case js_get v ''records'' of JArr rs \<Rightarrow> rs | _ \<Rightarrow> [])))))"

subsection \<open>Operations\<close>

record active_session =
  as_session :: string
  as_native :: "string option"

record inject_options =
  io_session :: string
  io_prompt :: string
  io_actor :: "string option"
  io_now :: string
  io_allow_inactive :: bool

definition accepting_error :: "active_session option \<Rightarrow> string \<Rightarrow> bool \<Rightarrow> followup_error option" where
  "accepting_error active sid allow =
     (case active of
        None \<Rightarrow> (if allow then None else Some NoActiveSession)
      | Some s \<Rightarrow> (if as_session s \<noteq> sid \<and> as_native s \<noteq> Some sid \<and> \<not> allow
                   then Some (FollowupSessionMismatch (as_session s)) else None))"

definition canonical_session :: "active_session option \<Rightarrow> string \<Rightarrow> string" where
  "canonical_session active sid =
     (case active of
        None \<Rightarrow> sid
      | Some s \<Rightarrow> (if as_session s = sid \<or> as_native s = Some sid then as_session s else sid))"

definition followup_record :: "string \<Rightarrow> string \<Rightarrow> string \<Rightarrow> string \<Rightarrow> string \<Rightarrow> js" where
  "followup_record i sid actor prompt now =
     JObj [(''id'', JStr i), (''session_id'', JStr sid), (''actor'', JStr actor), (''prompt'', JStr prompt), (''created_at'', JStr now)]"

definition inject_followup ::
    "active_session option \<Rightarrow> string option list \<Rightarrow> string \<Rightarrow> inject_options \<Rightarrow> followup_store
      \<Rightarrow> followup_store \<times> (followup_error + js)" where
  "inject_followup active env fresh opt st =
     (case normalize_session_id (io_session opt) of Inl e \<Rightarrow> (st, Inl e) | Inr sid \<Rightarrow>
     (case normalize_prompt (io_prompt opt) of Inl e \<Rightarrow> (st, Inl e) | Inr prompt \<Rightarrow>
     (case accepting_error active sid (io_allow_inactive opt) of
        Some e \<Rightarrow> (st, Inl e)
      | None \<Rightarrow>
          (let owner = canonical_session active sid;
               queued = followup_record fresh owner (normalize_actor (io_actor opt) env) prompt (io_now opt)
           in case read_queue owner st of
                (st1, Inl e) \<Rightarrow> (st1, Inl e)
              | (st1, Inr (_, rs)) \<Rightarrow>
                  (append_audit [FollowupQueued fresh owner] (write_queue owner owner (rs @ [queued]) st1), Inr queued)))))"

definition is_pending :: "js \<Rightarrow> bool" where
  "is_pending r \<longleftrightarrow> \<not> js_truthy (js_get r ''delivered_at'')"

definition followup_id :: "js \<Rightarrow> string" where
  "followup_id r = (case js_string (js_get r ''id'') of None \<Rightarrow> [] | Some i \<Rightarrow> i)"

definition read_pending :: "string \<Rightarrow> followup_store \<Rightarrow> followup_store \<times> (followup_error + js list)" where
  "read_pending session st =
     (case normalize_session_id session of Inl e \<Rightarrow> (st, Inl e) | Inr sid \<Rightarrow>
     (case read_queue sid st of
        (st1, Inl e) \<Rightarrow> (st1, Inl e)
      | (st1, Inr (_, rs)) \<Rightarrow> (st1, Inr (filter is_pending rs))))"

definition to_deliver :: "string list \<Rightarrow> js \<Rightarrow> bool" where
  "to_deliver ids r \<longleftrightarrow> followup_id r \<in> set ids \<and> is_pending r"

fun delivered_record :: "string \<Rightarrow> js \<Rightarrow> js" where
  "delivered_record now (JObj r) = JObj (rec_set ''delivery_event'' (JStr ''stop-hook'') (rec_set ''delivered_at'' (JStr now) r))"
| "delivered_record now v = v"

definition mark_delivered :: "string \<Rightarrow> string list \<Rightarrow> string \<Rightarrow> followup_store \<Rightarrow> followup_store \<times> followup_error option" where
  "mark_delivered session ids now st =
     (case normalize_session_id session of Inl e \<Rightarrow> (st, Some e) | Inr sid \<Rightarrow>
     (case read_queue sid st of
        (st1, Inl e) \<Rightarrow> (st1, Some e)
      | (st1, Inr (owner, rs)) \<Rightarrow>
          (if list_ex (to_deliver ids) rs
           then (write_queue sid owner (map (\<lambda>r. if to_deliver ids r then delivered_record now r else r) rs)
                   (append_audit (map (\<lambda>r. FollowupDelivered (followup_id r) sid) (filter (to_deliver ids) rs)) st1), None)
           else (st1, None))))"

definition render_followup :: "nat \<Rightarrow> js \<Rightarrow> string" where
  "render_followup i r =
     (let text = (\<lambda>k. case js_string (js_get r k) of None \<Rightarrow> [] | Some s \<Rightarrow> s)
      in ''Follow-up '' @ string_of_nat i @ '' ('' @ text ''id'' @ '') from '' @ text ''actor'' @ '' at '' @ text ''created_at'' @ '':''
         @ [CHR 10] @ text ''prompt'')"

definition stop_message :: "js list \<Rightarrow> string" where
  "stop_message rs =
     ''OMX exec has '' @ string_of_nat (length rs) @ '' queued follow-up instruction'' @ (if length rs = 1 then [] else ''s'')
     @ '' for this non-interactive job. Treat them as the newest user instructions, continue the same run, ''
     @ ''and include the follow-up id(s) in your final audit summary.'' @ [CHR 10, CHR 10]
     @ js_join [CHR 10, CHR 10] (map (\<lambda>(i, r). render_followup (Suc i) r) (enumerate 0 rs))"

record stop_output =
  so_reason :: string
  so_message :: string

text \<open>The Stop hook when nothing happens between its two accesses.\<close>

definition build_stop_output ::
    "string option \<Rightarrow> string \<Rightarrow> followup_store \<Rightarrow> followup_store \<times> (followup_error + stop_output option)" where
  "build_stop_output session now st =
     (let sid = (case session of None \<Rightarrow> [] | Some s \<Rightarrow> js_trim s)
      in if sid = [] then (st, Inr None)
         else (case read_pending sid st of
                 (st1, Inl e) \<Rightarrow> (st1, Inl e)
               | (st1, Inr rs) \<Rightarrow>
                   (if rs = [] then (st1, Inr None)
                    else (case mark_delivered sid (map followup_id rs) now st1 of
                            (st2, Some e) \<Rightarrow> (st2, Inl e)
                          | (st2, None) \<Rightarrow>
                              (st2, Inr (Some \<lparr> so_reason = ''exec_followup_pending:'' @ js_join '','' (map followup_id rs),
                                                so_message = stop_message rs \<rparr>))))))"

subsection \<open>Concurrent injections and Stop hooks\<close>

record followup_system =
  fy_store :: followup_store
  fy_reading :: "(nat \<times> string \<times> string list) list"  \<comment> \<open>hooks between their read and their mark\<close>
  fy_injected :: "(string \<times> string) list"  \<comment> \<open>session and identifier, in order\<close>
  fy_shown :: "(string \<times> string) list"

inductive followup_step :: "followup_system \<Rightarrow> followup_system \<Rightarrow> bool" where
  Inject: "inject_followup active env fresh opt (fy_store y) = (st, Inr r) \<Longrightarrow>
     fresh \<notin> snd ` set (fy_injected y) \<Longrightarrow> sid = canonical_session active (js_trim (io_session opt)) \<Longrightarrow>
     valid_followup_session sid \<Longrightarrow>
     followup_step y (y\<lparr> fy_store := st, fy_injected := fy_injected y @ [(sid, fresh)] \<rparr>)"
| Refused: "inject_followup active env fresh opt (fy_store y) = (st, Inl e) \<Longrightarrow> followup_step y (y\<lparr> fy_store := st \<rparr>)"
| Look: "read_pending session (fy_store y) = (st, Inr rs) \<Longrightarrow> rs \<noteq> [] \<Longrightarrow> h \<notin> fst ` set (fy_reading y) \<Longrightarrow>
     followup_step y (y\<lparr> fy_store := st, fy_reading := (h, js_trim session, map followup_id rs) # fy_reading y \<rparr>)"
| Mark: "(h, sid, ids) \<in> set (fy_reading y) \<Longrightarrow> mark_delivered sid ids now (fy_store y) = (st, None) \<Longrightarrow> now \<noteq> [] \<Longrightarrow>
     followup_step y (y\<lparr> fy_store := st, fy_reading := remove1 (h, sid, ids) (fy_reading y),
       fy_shown := fy_shown y @ map (Pair sid) ids \<rparr>)"

definition fresh_system :: followup_system where
  "fresh_system = \<lparr> fy_store = \<lparr> qs_files = [], qs_audit = [] \<rparr>, fy_reading = [], fy_injected = [], fy_shown = [] \<rparr>"

definition waiting_ids :: "followup_store \<Rightarrow> string \<Rightarrow> string list" where
  "waiting_ids st sid = (case read_pending sid st of (_, Inl _) \<Rightarrow> [] | (_, Inr rs) \<Rightarrow> map followup_id rs)"

end
