(* ===== verification/ExecFollowupProps.thy ===== *)
theory ExecFollowupProps
  imports ExecFollowup
begin

text \<open>
  The follow-up queue keeps what was injected: an invariant of the interleaved injections and Stop
  hooks of \<open>src/exec/followup.ts\<close>, the abstract queue it refines (injected and not yet shown, in
  order), and the run in which two hooks show one follow-up twice.
\<close>

subsection \<open>Reading and writing a queue\<close>

lemma valid_session_trim: "valid_followup_session s \<Longrightarrow> js_trim s = s \<and> s \<noteq> []"
proof -
  assume v: "valid_followup_session s"
  have "list_all (\<lambda>c. \<not> js_ws c) s"
    using v by (auto simp: valid_followup_session_def list_all_iff is_word_char_def js_ws_def Let_def)
  then show ?thesis using v no_ws_trim by (auto simp: valid_followup_session_def)
qed

lemma normalize_session_ok: "normalize_session_id s = Inr sid \<Longrightarrow> sid = js_trim s \<and> valid_followup_session sid"
  by (auto simp: normalize_session_id_def split: if_splits)

text \<open>A queue that its writer left: absent, or its records under its own session.\<close>

definition queue_ok :: "followup_store \<Rightarrow> string \<Rightarrow> js list \<Rightarrow> bool" where
  "queue_ok st sid rs \<longleftrightarrow>
     (queue_file st sid = NoFile \<and> rs = [] \<or> queue_file st sid = JsonFile (queue_value sid rs)) \<and> (\<forall>r \<in> set rs. is_followup r)"

lemma queue_file_write [simp]:
  "queue_file (write_queue p s rs st) sid = (if sid = p then JsonFile (queue_value s rs) else queue_file st sid)"
  by (simp add: queue_file_def write_queue_def)

lemma queue_file_audit [simp]: "queue_file (append_audit es st) sid = queue_file st sid"
  by (simp add: queue_file_def append_audit_def)

lemma queue_value_get [simp]:
  "js_get (queue_value s rs) ''session_id'' = JStr s" "js_get (queue_value s rs) ''records'' = JArr rs" "queue_value s rs \<noteq> JNull"
  by (simp_all add: queue_value_def rec_get_def)

lemma read_ok:
  assumes "queue_ok st sid rs"
  shows "\<exists>s. read_queue sid st = (st, Inr (s, rs)) \<and> (valid_followup_session sid \<longrightarrow> s = sid)"
proof (cases "queue_file st sid = NoFile")
  case True
  then show ?thesis using assms by (auto simp: read_queue_def queue_ok_def)
next
  case False
  then have q: "queue_file st sid = JsonFile (queue_value sid rs)" "\<forall>r \<in> set rs. is_followup r"
    using assms by (auto simp: queue_ok_def)
  have "filter is_followup rs = rs" using q(2) by (simp add: filter_id_conv)
  then show ?thesis using q(1) valid_session_trim [of sid] by (simp add: read_queue_def)
qed

lemma followup_record_ok:
  "is_followup (followup_record i s a p n)" "followup_id (followup_record i s a p n) = i" "is_pending (followup_record i s a p n)"
  by (simp_all add: is_followup_def followup_id_def is_pending_def followup_record_def rec_get_def)

lemma followup_object: "is_followup v \<Longrightarrow> \<exists>r. v = JObj r"
  by (cases v) (auto simp: is_followup_def js_get_def)

lemma delivered_ok:
  assumes "is_followup v" "now \<noteq> []"
  shows "is_followup (delivered_record now v) \<and> followup_id (delivered_record now v) = followup_id v
    \<and> \<not> is_pending (delivered_record now v)"
proof -
  obtain r where "v = JObj r" using followup_object [OF assms(1)] by blast
  then show ?thesis using assms by (simp add: is_followup_def followup_id_def is_pending_def)
qed

subsection \<open>The abstract queue\<close>

text \<open>Every session has the follow-ups injected for it, in order, and one is pending until a Stop hook
  has shown it.\<close>

definition reading_ok :: "(string \<times> string) set \<Rightarrow> nat \<times> string \<times> string list \<Rightarrow> bool" where
  "reading_ok A p \<longleftrightarrow> valid_followup_session (fst (snd p)) \<and> Pair (fst (snd p)) ` set (snd (snd p)) \<subseteq> A"

lemma reading_mono: "reading_ok A p \<Longrightarrow> A \<subseteq> B \<Longrightarrow> reading_ok B p"
  unfolding reading_ok_def by blast

definition followup_inv :: "followup_system \<Rightarrow> bool" where
  "followup_inv y \<longleftrightarrow>
     (\<forall>sid. \<exists>rs. queue_ok (fy_store y) sid rs
        \<and> map followup_id rs = map snd (filter (\<lambda>p. fst p = sid) (fy_injected y))
        \<and> (\<forall>r \<in> set rs. is_pending r \<longleftrightarrow> (sid, followup_id r) \<notin> set (fy_shown y)))
     \<and> set (fy_shown y) \<subseteq> set (fy_injected y) \<and> distinct (map snd (fy_injected y))
     \<and> (\<forall>p \<in> set (fy_reading y). reading_ok (set (fy_injected y)) p)"

lemma inv_queue:
  assumes "followup_inv y"
  obtains rs where "queue_ok (fy_store y) sid rs" "map followup_id rs = map snd (filter (\<lambda>p. fst p = sid) (fy_injected y))"
    "\<forall>r \<in> set rs. is_pending r \<longleftrightarrow> (sid, followup_id r) \<notin> set (fy_shown y)"
  using assms unfolding followup_inv_def by blast

lemma inject_keeps:
  assumes inv: "followup_inv y" and run: "inject_followup active env fresh opt (fy_store y) = (st, Inr r)"
    and fresh: "fresh \<notin> snd ` set (fy_injected y)" and sid: "sid = canonical_session active (js_trim (io_session opt))"
    "valid_followup_session sid"
  shows "followup_inv (y\<lparr> fy_store := st, fy_injected := fy_injected y @ [(sid, fresh)] \<rparr>)"
proof -
  obtain rs where rs: "queue_ok (fy_store y) sid rs" "map followup_id rs = map snd (filter (\<lambda>p. fst p = sid) (fy_injected y))"
    "\<forall>r \<in> set rs. is_pending r \<longleftrightarrow> (sid, followup_id r) \<notin> set (fy_shown y)"
    using inv_queue [OF inv] by metis
  obtain actor prompt now where st: "st = append_audit [FollowupQueued fresh sid]
      (write_queue sid sid (rs @ [followup_record fresh sid actor prompt now]) (fy_store y))"
    using run read_ok [OF rs(1)] sid
    by (auto simp: inject_followup_def Let_def dest!: normalize_session_ok split: sum.splits option.splits)
  have shown: "set (fy_shown y) \<subseteq> set (fy_injected y)" using inv by (simp add: followup_inv_def)
  then have new: "(s, fresh) \<notin> set (fy_shown y)" for s using fresh by force
  let ?y = "y\<lparr> fy_store := st, fy_injected := fy_injected y @ [(sid, fresh)] \<rparr>"
  have "\<exists>qs. queue_ok st s qs \<and> map followup_id qs = map snd (filter (\<lambda>p. fst p = s) (fy_injected y @ [(sid, fresh)]))
      \<and> (\<forall>r \<in> set qs. is_pending r \<longleftrightarrow> (s, followup_id r) \<notin> set (fy_shown y))" for s
  proof (cases "s = sid")
    case True
    then show ?thesis
      using rs new followup_record_ok by (intro exI [of _ "rs @ [followup_record fresh sid actor prompt now]"]) (auto simp: st queue_ok_def)
  next
    case False
    obtain qs where "queue_ok (fy_store y) s qs" "map followup_id qs = map snd (filter (\<lambda>p. fst p = s) (fy_injected y))"
      "\<forall>r \<in> set qs. is_pending r \<longleftrightarrow> (s, followup_id r) \<notin> set (fy_shown y)"
      using inv_queue [OF inv] by metis
    then show ?thesis using False by (intro exI [of _ qs]) (auto simp: st queue_ok_def)
  qed
  moreover have "distinct (map snd (fy_injected y @ [(sid, fresh)]))" using inv fresh by (simp add: followup_inv_def)
  moreover have "\<forall>p \<in> set (fy_reading y). reading_ok (set (fy_injected y @ [(sid, fresh)])) p"
  proof
    fix p
    assume "p \<in> set (fy_reading y)"
    then have "reading_ok (set (fy_injected y)) p" using inv by (simp add: followup_inv_def)
    then show "reading_ok (set (fy_injected y @ [(sid, fresh)])) p" by (rule reading_mono) auto
  qed
  ultimately show ?thesis using shown by (auto simp: followup_inv_def)
qed

lemma refused_keeps:
  assumes "followup_inv y" "inject_followup active env fresh opt (fy_store y) = (st, Inl e)"
  shows "st = fy_store y"
proof -
  have "\<exists>s rs. read_queue sid (fy_store y) = (fy_store y, Inr (s, rs))" for sid
    using inv_queue [OF assms(1)] read_ok by metis
  then show ?thesis
    using assms(2) by (auto simp: inject_followup_def Let_def split: sum.splits option.splits prod.splits) (metis Pair_inject sum.distinct(1))+
qed

lemma mark_keeps:
  assumes inv: "followup_inv y" and hook: "(h, sid, ids) \<in> set (fy_reading y)"
    and run: "mark_delivered sid ids now (fy_store y) = (st, None)" and now: "now \<noteq> []"
  shows "followup_inv (y\<lparr> fy_store := st, fy_reading := remove1 (h, sid, ids) (fy_reading y), fy_shown := fy_shown y @ map (Pair sid) ids \<rparr>)"
proof -
  have valid: "valid_followup_session sid" and sub: "Pair sid ` set ids \<subseteq> set (fy_injected y)"
    using inv hook by (force simp: followup_inv_def reading_ok_def)+
  obtain rs where rs: "queue_ok (fy_store y) sid rs" "map followup_id rs = map snd (filter (\<lambda>p. fst p = sid) (fy_injected y))"
    "\<forall>r \<in> set rs. is_pending r \<longleftrightarrow> (sid, followup_id r) \<notin> set (fy_shown y)"
    using inv_queue [OF inv] by metis
  define new where "new = map (\<lambda>r. if to_deliver ids r then delivered_record now r else r) rs"
  have norm: "normalize_session_id sid = Inr sid"
    using valid valid_session_trim [OF valid] by (simp add: normalize_session_id_def)
  have st: "queue_ok st sid new \<and> (\<forall>s. s \<noteq> sid \<longrightarrow> queue_file st s = queue_file (fy_store y) s)"
  proof (cases "list_ex (to_deliver ids) rs")
    case True
    then have "st = write_queue sid sid new (append_audit (map (\<lambda>r. FollowupDelivered (followup_id r) sid) (filter (to_deliver ids) rs)) (fy_store y))"
      using run read_ok [OF rs(1)] valid by (auto simp: mark_delivered_def norm new_def)
    then show ?thesis using rs(1) delivered_ok [OF _ now] by (auto simp: queue_ok_def new_def)
  next
    case False
    then have "st = fy_store y" using run read_ok [OF rs(1)] by (auto simp: mark_delivered_def norm)
    moreover have "new = rs" using False unfolding new_def by (intro map_idI) (auto simp: list_ex_iff)
    ultimately show ?thesis using rs(1) by simp
  qed
  have ok: "\<forall>r \<in> set rs. is_followup r" using rs(1) by (simp add: queue_ok_def)
  have "map followup_id new = map followup_id rs"
    using ok delivered_ok [OF _ now] by (auto simp: new_def)
  moreover have "is_pending r \<longleftrightarrow> (sid, followup_id r) \<notin> set (fy_shown y @ map (Pair sid) ids)" if "r \<in> set new" for r
  proof -
    have in_new: "r \<in> set new" by (rule that)
    obtain q where q: "q \<in> set rs" "r = (if to_deliver ids q then delivered_record now q else q)" using in_new
      by (auto simp only: new_def set_map image_iff)
    then show ?thesis using ok delivered_ok [OF _ now, of q] rs(3) by (auto simp: to_deliver_def)
  qed
  ultimately have own: "queue_ok st sid new \<and> map followup_id new = map snd (filter (\<lambda>p. fst p = sid) (fy_injected y))
      \<and> (\<forall>r \<in> set new. is_pending r \<longleftrightarrow> (sid, followup_id r) \<notin> set (fy_shown y @ map (Pair sid) ids))"
    using st rs(2) by simp
  have "\<exists>qs. queue_ok st s qs \<and> map followup_id qs = map snd (filter (\<lambda>p. fst p = s) (fy_injected y))
      \<and> (\<forall>r \<in> set qs. is_pending r \<longleftrightarrow> (s, followup_id r) \<notin> set (fy_shown y @ map (Pair sid) ids))" for s
  proof (cases "s = sid")
    case True
    then show ?thesis using own by blast
  next
    case False
    obtain qs where "queue_ok (fy_store y) s qs" "map followup_id qs = map snd (filter (\<lambda>p. fst p = s) (fy_injected y))"
      "\<forall>r \<in> set qs. is_pending r \<longleftrightarrow> (s, followup_id r) \<notin> set (fy_shown y)"
      using inv_queue [OF inv] by metis
    then show ?thesis using False st by (intro exI [of _ qs]) (auto simp: queue_ok_def)
  qed
  moreover have "set (fy_shown y @ map (Pair sid) ids) \<subseteq> set (fy_injected y)" using inv sub by (auto simp: followup_inv_def)
  ultimately show ?thesis
    using inv set_remove1_subset [of "(h, sid, ids)" "fy_reading y"] by (auto simp: followup_inv_def)
qed

lemma look_keeps:
  assumes inv: "followup_inv y" and run: "read_pending session (fy_store y) = (st, Inr rs)"
  shows "st = fy_store y" "valid_followup_session (js_trim session)"
    "map followup_id rs = map snd (filter (\<lambda>p. fst p = js_trim session \<and> p \<notin> set (fy_shown y)) (fy_injected y))"
proof -
  let ?sid = "js_trim session"
  show valid: "valid_followup_session ?sid"
    using run by (auto simp: read_pending_def dest: normalize_session_ok split: sum.splits)
  then have norm: "normalize_session_id session = Inr ?sid" by (simp add: normalize_session_id_def)
  obtain qs where qs: "queue_ok (fy_store y) ?sid qs" "map followup_id qs = map snd (filter (\<lambda>p. fst p = ?sid) (fy_injected y))"
    "\<forall>r \<in> set qs. is_pending r \<longleftrightarrow> (?sid, followup_id r) \<notin> set (fy_shown y)"
    using inv_queue [OF inv] by metis
  have r: "st = fy_store y" "rs = filter is_pending qs"
    using run read_ok [OF qs(1)] by (auto simp: read_pending_def norm)
  show "st = fy_store y" by (rule r(1))
  have "filter is_pending qs = filter (\<lambda>r. (?sid, followup_id r) \<notin> set (fy_shown y)) qs"
    using qs(3) by (intro filter_cong) auto
  then have "map followup_id rs = filter (\<lambda>i. (?sid, i) \<notin> set (fy_shown y)) (map followup_id qs)"
    by (simp add: r(2) filter_map comp_def)
  also have "\<dots> = map snd (filter (\<lambda>p. (?sid, snd p) \<notin> set (fy_shown y)) (filter (\<lambda>p. fst p = ?sid) (fy_injected y)))"
    by (simp add: qs(2) filter_map comp_def)
  also have "\<dots> = map snd (filter (\<lambda>p. fst p = ?sid \<and> p \<notin> set (fy_shown y)) (fy_injected y))"
    by (auto intro!: arg_cong [of _ _ "map snd"] filter_cong)
  finally show "map followup_id rs = map snd (filter (\<lambda>p. fst p = ?sid \<and> p \<notin> set (fy_shown y)) (fy_injected y))" .
qed

lemma step_keeps: "followup_step y z \<Longrightarrow> followup_inv y \<Longrightarrow> followup_inv z"
proof (induction rule: followup_step.induct)
  case (Inject active env fresh opt y st r sid)
  then show ?case by (intro inject_keeps)
next
  case (Refused active env fresh opt y st e)
  then show ?case using refused_keeps [OF Refused(2,1)] by simp
next
  case (Look session y st rs h)
  have "Pair (js_trim session) ` set (map followup_id rs) \<subseteq> set (fy_injected y)"
    unfolding look_keeps(3) [OF Look(4,1)] by force
  then have "reading_ok (set (fy_injected y)) (h, js_trim session, map followup_id rs)"
    using look_keeps(2) [OF Look(4,1)] by (simp add: reading_ok_def)
  then show ?case using look_keeps(1) [OF Look(4,1)] Look(4) by (simp add: followup_inv_def)
next
  case (Mark h sid ids y now st)
  then show ?case by (intro mark_keeps)
qed

lemma start_inv: "followup_inv fresh_system"
  by (simp add: followup_inv_def fresh_system_def queue_ok_def queue_file_def)

lemma runs_inv: "followup_step\<^sup>*\<^sup>* fresh_system y \<Longrightarrow> followup_inv y"
  by (induction rule: rtranclp_induct) (auto intro: start_inv step_keeps)

text \<open>C11. However injections and Stop hooks interleave, the pending follow-ups of a session are exactly the
  ones injected for it that no hook has shown, in the order of their injection, and no hook
  shows one that was not injected: none is lost, and the queue file refines that abstract queue.\<close>

theorem followup_queue_refines:
  assumes "followup_step\<^sup>*\<^sup>* fresh_system y" and "valid_followup_session sid"
  shows "waiting_ids (fy_store y) sid = map snd (filter (\<lambda>p. fst p = sid \<and> p \<notin> set (fy_shown y)) (fy_injected y))
    \<and> set (fy_shown y) \<subseteq> set (fy_injected y) \<and> distinct (map snd (fy_injected y))"
proof -
  note inv = runs_inv [OF assms(1)]
  obtain rs where rs: "queue_ok (fy_store y) sid rs" using inv_queue [OF inv] by metis
  have sid: "js_trim sid = sid" "normalize_session_id sid = Inr sid"
    using valid_session_trim [OF assms(2)] assms(2) by (simp_all add: normalize_session_id_def)
  have run: "read_pending sid (fy_store y) = (fy_store y, Inr (filter is_pending rs))"
    using read_ok [OF rs] by (auto simp: read_pending_def sid)
  then show ?thesis using look_keeps(3) [OF inv run] inv by (simp add: waiting_ids_def sid followup_inv_def)
qed

definition demo_inject :: "string \<Rightarrow> inject_options" where
  "demo_inject p = \<lparr> io_session = ''s1'', io_prompt = p, io_actor = Some ''a'', io_now = ''t'', io_allow_inactive = True \<rparr>"

definition one_queued :: followup_system where
  "one_queued = fresh_system\<lparr> fy_store := fst (inject_followup None [] ''f1'' (demo_inject ''p'') (fy_store fresh_system)),
     fy_injected := [(''s1'', ''f1'')] \<rparr>"

lemma one_queued_value:
  "(case snd (inject_followup None [] ''f1'' (demo_inject ''p'') (fy_store fresh_system)) of Inl _ \<Rightarrow> False | Inr _ \<Rightarrow> True)
    \<and> canonical_session None (js_trim (io_session (demo_inject ''p''))) = ''s1'' \<and> valid_followup_session ''s1''"
  by code_simp

lemma one_queued_step: "followup_step fresh_system one_queued"
proof -
  obtain st r where i: "inject_followup None [] ''f1'' (demo_inject ''p'') (fy_store fresh_system) = (st, Inr r)"
    using one_queued_value by (cases "inject_followup None [] ''f1'' (demo_inject ''p'') (fy_store fresh_system)") (auto split: sum.splits)
  have "followup_step fresh_system (fresh_system\<lparr> fy_store := st, fy_injected := fy_injected fresh_system @ [(''s1'', ''f1'')] \<rparr>)"
    by (rule Inject [OF i]) (use one_queued_value in \<open>simp_all add: fresh_system_def\<close>)
  then show ?thesis unfolding one_queued_def i by (simp add: fresh_system_def)
qed

theorem followup_queue_refines_witness:
  "waiting_ids (fy_store one_queued) ''s1'' = [''f1'']"
proof -
  have "followup_step\<^sup>*\<^sup>* fresh_system one_queued" using one_queued_step by (rule r_into_rtranclp)
  moreover have "valid_followup_session ''s1''" using one_queued_value by simp
  ultimately show ?thesis using followup_queue_refines [of one_queued "''s1''"] by (simp add: one_queued_def fresh_system_def)
qed

text \<open>Two Stop hooks that both read before either marks show the same follow-up twice.\<close>

definition two_hooks :: "followup_system \<Rightarrow> bool" where
  "two_hooks y \<longleftrightarrow> fy_shown y = [(''s1'', ''f1''), (''s1'', ''f1'')]"

lemma hooks_values:
  "read_pending ''s1'' (fy_store one_queued) = (fy_store one_queued, Inr [followup_record ''f1'' ''s1'' ''a'' ''p'' ''t''])"
  "snd (mark_delivered ''s1'' [''f1''] ''u'' (fy_store one_queued)) = None"
  "snd (mark_delivered ''s1'' [''f1''] ''u'' (fst (mark_delivered ''s1'' [''f1''] ''u'' (fy_store one_queued)))) = None"
  by code_simp+

theorem concurrent_hooks_show_twice: "\<exists>y. followup_step\<^sup>*\<^sup>* fresh_system y \<and> two_hooks y"
proof -
  let ?m = "mark_delivered ''s1'' [''f1''] ''u''"
  have t: "js_trim ''s1'' = ''s1''" using one_queued_value valid_session_trim by blast
  have i: "followup_id (followup_record ''f1'' ''s1'' ''a'' ''p'' ''t'') = ''f1''" by (rule followup_record_ok(2))
  let ?y1 = "one_queued\<lparr> fy_reading := [(1, ''s1'', [''f1''])] \<rparr>"
  let ?y2 = "one_queued\<lparr> fy_reading := [(2, ''s1'', [''f1'']), (1, ''s1'', [''f1''])] \<rparr>"
  let ?y3 = "one_queued\<lparr> fy_store := fst (?m (fy_store one_queued)), fy_reading := [(1, ''s1'', [''f1''])], fy_shown := [(''s1'', ''f1'')] \<rparr>"
  let ?y4 = "one_queued\<lparr> fy_store := fst (?m (fst (?m (fy_store one_queued)))), fy_reading := [], fy_shown := [(''s1'', ''f1''), (''s1'', ''f1'')] \<rparr>"
  have e: "fy_reading one_queued = []" "fy_shown one_queued = []" by (simp_all add: one_queued_def fresh_system_def)
  have s1: "followup_step one_queued ?y1"
    using Look [of "''s1''" one_queued, OF hooks_values(1), of 1] by (simp add: e t i)
  have s2: "followup_step ?y1 ?y2"
    using Look [of "''s1''" ?y1, of "fy_store one_queued" "[followup_record ''f1'' ''s1'' ''a'' ''p'' ''t'']" 2] hooks_values(1)
    by (simp add: e t i)
  have s3: "followup_step ?y2 ?y3"
    using Mark [of 2 "''s1''" "[''f1'']" ?y2 "''u''" "fst (?m (fy_store one_queued))"] hooks_values(2)
    by (simp add: e prod_eq_iff)
  have s4: "followup_step ?y3 ?y4"
    using Mark [of 1 "''s1''" "[''f1'']" ?y3 "''u''" "fst (?m (fst (?m (fy_store one_queued))))"] hooks_values(3)
    by (simp add: e prod_eq_iff)
  have "followup_step\<^sup>*\<^sup>* fresh_system ?y4"
    using one_queued_step s1 s2 s3 s4 by (meson converse_rtranclp_into_rtranclp rtranclp.rtrancl_refl)
  then show ?thesis by (intro exI [of _ ?y4]) (simp add: two_hooks_def)
qed

end
