(* ===== verification/TeamMailbox.thy ===== *)
theory TeamMailbox
  imports TeamContracts JsValue JsDate
begin

text \<open>
  The mailboxes of a team (\<open>src/team/state/mailbox.ts\<close> and the functions of \<open>src/team/state.ts\<close> it is
  given). The messages of a worker live in a shadow file of the team and, when the runtime
  bridge is enabled, in the records of the bridge; the event journal of the team proves which
  messages of a shadow file it created. The bridge is an external process: what it shows and
  what a command does are the functions of the record \<open>mail_bridge\<close>, over a state that only the
  bridge knows. Shadow files and records hold messages of their declared type. An operation
  runs under the mailbox lock of its worker, as one step.
\<close>

record mail =
  ml_id :: string
  ml_from :: string
  ml_to :: string
  ml_body :: string
  ml_created :: string
  ml_notified :: "string option"
  ml_delivered :: "string option"

record bridge_mail = mail +
  bm_team :: "string option"

text \<open>A \<open>message_received\<close> line of the journal.\<close>

record mail_event =
  me_team :: string
  me_worker :: string
  me_message :: string

datatype mail_command =
    CaptureSnapshot
  | CreateMailboxMessage string mail
  | MarkMailboxNotified string string
  | MarkMailboxDelivered string string

datatype bridge_failure = SchemaFailure | TransportFailure | CommandFailure

text \<open>The file \<open>mailbox.json\<close> of the bridge: absent, not readable, without an array of records, or
  with one.\<close>

datatype compat_file = CompatMissing | CompatUnreadable | CompatNoRecords | CompatRecords "bridge_mail list"

record 'b mail_bridge =
  br_enabled :: bool
  br_mailbox :: "'b \<Rightarrow> compat_file"
  br_events :: "'b \<Rightarrow> json_file"
  br_snapshot :: "'b \<Rightarrow> bool"
  br_dispatch_seen :: "'b \<Rightarrow> bool"
  br_exec :: "mail_command \<Rightarrow> 'b \<Rightarrow> 'b \<times> (bridge_failure + js)"
  br_check :: "'b \<Rightarrow> bridge_failure option"

record 'b mail_world =
  mw_files :: "(string \<times> mail list) list"
  mw_journal :: "mail_event list"
  mw_bridge :: 'b

datatype mail_error =
    BridgeError bridge_failure
  | BadAcknowledgement
  | EventLogUnreadable
  | InvalidEventLog
  | RecoveryUnverified
  | TeamUnknown
  | RetirementDiscovery
  | RetirementUnproven "string list"
  | RetirementFailed string
  | RetirementUnverified string

subsection \<open>Messages\<close>

definition mail_identity :: "'a mail_scheme \<Rightarrow> string \<times> string \<times> string \<times> string \<times> string" where
  "mail_identity m = (ml_id m, ml_from m, ml_to m, ml_body m, ml_created m)"

definition content_matches :: "'a mail_scheme \<Rightarrow> 'c mail_scheme \<Rightarrow> bool" where
  "content_matches a b \<longleftrightarrow> ml_id a = ml_id b \<and> ml_from a = ml_from b \<and> ml_to a = ml_to b \<and> ml_body a = ml_body b"

text \<open>The message with an identifier in a map built from a list: the last one.\<close>

definition last_by_id :: "mail list \<Rightarrow> string \<Rightarrow> mail option" where
  "last_by_id ms i = List.find (\<lambda>m. ml_id m = i) (rev ms)"

definition normalize_bridge_mail :: "bridge_mail \<Rightarrow> mail option \<Rightarrow> mail" where
  "normalize_bridge_mail r recovery =
     (let recovered = (case recovery of
            None \<Rightarrow> []
          | Some m \<Rightarrow> (if ml_id m = ml_id r \<and> ml_from m = ml_from r \<and> ml_to m = ml_to r then ml_body m else []))
      in \<lparr> ml_id = ml_id r, ml_from = ml_from r, ml_to = ml_to r, ml_body = (if ml_body r = [] then recovered else ml_body r),
           ml_created = ml_created r, ml_notified = ml_notified r, ml_delivered = ml_delivered r \<rparr>)"

definition unique_scoped_match :: "string \<Rightarrow> mail \<Rightarrow> bridge_mail list \<Rightarrow> mail list \<Rightarrow> bool" where
  "unique_scoped_match team m recs shadows \<longleftrightarrow>
     (case filter (\<lambda>r. bm_team r = Some team \<and> ml_id r = ml_id m) recs of
        [r] \<Rightarrow> content_matches r m \<and> length (filter (\<lambda>s. content_matches s m) shadows) = 1
      | _ \<Rightarrow> False)"

subsection \<open>Which messages belong to the team\<close>

definition repeated :: "string \<Rightarrow> string list \<Rightarrow> bool" where
  "repeated i is \<longleftrightarrow> 1 < length (filter (\<lambda>j. j = i) is)"

text \<open>A shadow message can be proven: its identifier is used once in the file and at most once by the
  records that may be the team's, it is addressed to the worker, and a record agrees with it.\<close>

definition provable_shadow :: "string \<Rightarrow> string \<Rightarrow> mail list \<Rightarrow> bridge_mail list \<Rightarrow> string \<Rightarrow> bool" where
  "provable_shadow team w ms recs i \<longleftrightarrow>
     (let relevant = filter (\<lambda>r. bm_team r = None \<or> bm_team r = Some team) recs
      in i \<in> ml_id ` set ms
         \<and> list_all (\<lambda>m. ml_id m = i \<longrightarrow> ml_to m = w) ms
         \<and> \<not> repeated i (map ml_id ms) \<and> \<not> repeated i (map ml_id relevant)
         \<and> list_all (\<lambda>r. ml_id r = i \<longrightarrow>
              (case last_by_id ms i of None \<Rightarrow> True | Some s \<Rightarrow> content_matches s (normalize_bridge_mail r (Some s)))) relevant)"

definition legacy_message_ids ::
    "string \<Rightarrow> string \<Rightarrow> mail list \<Rightarrow> mail_event list \<Rightarrow> bridge_mail list \<Rightarrow> string list" where
  "legacy_message_ids team w ms journal recs =
     dedup (filter (provable_shadow team w ms recs)
       (map me_message (filter (\<lambda>e. me_team e = team \<and> me_worker e = w) journal)))"

definition record_belongs :: "string \<Rightarrow> string \<Rightarrow> string list \<Rightarrow> bridge_mail \<Rightarrow> bool" where
  "record_belongs team w legacy r \<longleftrightarrow>
     ml_to r = w \<and> (case bm_team r of None \<Rightarrow> ml_id r \<in> set legacy | Some t \<Rightarrow> t = team)"

fun needs_evidence :: "string \<Rightarrow> string \<Rightarrow> string list \<Rightarrow> mail list \<Rightarrow> bridge_mail list \<Rightarrow> bool" where
  "needs_evidence team w seen [] recs = False"
| "needs_evidence team w seen (m # ms) recs =
     (if ml_id m = [] \<or> ml_id m \<in> set seen then True
      else (case filter (\<lambda>r. bm_team r = Some team \<and> ml_to r = w \<and> ml_id r = ml_id m) recs of
              [r] \<Rightarrow>
                (if \<not> content_matches m r \<or> ml_body r = [] \<and> ml_body m \<noteq> [] then True
                 else needs_evidence team w (ml_id m # seen) ms recs)
            | _ \<Rightarrow> True))"

definition needs_legacy_evidence :: "string \<Rightarrow> string \<Rightarrow> mail list \<Rightarrow> bridge_mail list \<Rightarrow> bool" where
  "needs_legacy_evidence team w ms recs = needs_evidence team w [] ms recs"

subsection \<open>Reading a mailbox\<close>

definition read_legacy_mailbox :: "string \<Rightarrow> 'b mail_world \<Rightarrow> mail list" where
  "read_legacy_mailbox w s = (case map_of (mw_files s) w of None \<Rightarrow> [] | Some ms \<Rightarrow> ms)"

fun compat_records :: "compat_file \<Rightarrow> bridge_mail list" where
  "compat_records (CompatRecords rs) = rs"
| "compat_records _ = []"

definition read_mailbox_records :: "'b mail_bridge \<Rightarrow> 'b \<Rightarrow> bridge_mail list" where
  "read_mailbox_records br b = compat_records (br_mailbox br b)"

text \<open>The records of the team with the shadow messages that the journal proves and no record has.\<close>

definition merged_mailbox :: "string \<Rightarrow> string \<Rightarrow> mail list \<Rightarrow> bridge_mail list \<Rightarrow> string list \<Rightarrow> mail list" where
  "merged_mailbox team w ms recs legacy =
     (let own = filter (record_belongs team w legacy) recs;
          named = filter (\<lambda>m. ml_id m \<noteq> []) ms
      in map (\<lambda>r. normalize_bridge_mail r (if ml_id r \<in> set legacy then last_by_id named (ml_id r) else None)) own
         @ filter (\<lambda>m. ml_id m \<in> set legacy \<and> ml_id m \<notin> set (map ml_id own)) ms)"

definition read_mailbox :: "'b mail_bridge \<Rightarrow> string \<Rightarrow> string \<Rightarrow> 'b mail_world \<Rightarrow> mail list" where
  "read_mailbox br team w s =
     (let ms = read_legacy_mailbox w s; recs = read_mailbox_records br (mw_bridge s)
      in if br_enabled br \<and> br_mailbox br (mw_bridge s) \<notin> {CompatMissing, CompatUnreadable}
         then merged_mailbox team w ms recs
                (if needs_legacy_evidence team w ms recs then legacy_message_ids team w ms (mw_journal s) recs else [])
         else filter (\<lambda>m. ml_id m \<in> set (legacy_message_ids team w ms (mw_journal s) [])) ms)"

definition list_mailbox_messages :: "'b mail_bridge \<Rightarrow> string \<Rightarrow> string \<Rightarrow> 'b mail_world \<Rightarrow> mail list" where
  "list_mailbox_messages br team w s = read_mailbox br team w s"

subsection \<open>Writing a mailbox\<close>

type_synonym pending_updates = "((string \<times> string \<times> string \<times> string \<times> string) \<times> mail list) list"

text \<open>One incoming message: it waits under its identity, and a message that recovers the row of the file
  takes over the time of that row and drops what waited under the identity.\<close>

definition queue_update :: "(mail \<Rightarrow> mail option) \<Rightarrow> mail \<Rightarrow> pending_updates \<Rightarrow> pending_updates" where
  "queue_update recovered m us =
     (let x = (case recovered m of None \<Rightarrow> m | Some p \<Rightarrow> m\<lparr> ml_created := ml_created p \<rparr>);
          waiting = (if recovered m \<noteq> None then []
                     else (case map_of us (mail_identity x) of None \<Rightarrow> [] | Some xs \<Rightarrow> xs))
      in dict_put (mail_identity x) (waiting @ [x]) us)"

fun place_updates :: "pending_updates \<Rightarrow> mail list \<Rightarrow> mail list \<times> pending_updates" where
  "place_updates us [] = ([], us)"
| "place_updates us (m # ms) =
     (case map_of us (mail_identity m) of
        Some (x # xs) \<Rightarrow> apfst (Cons x) (place_updates (dict_put (mail_identity m) xs us) ms)
      | _ \<Rightarrow> apfst (Cons m) (place_updates us ms))"

definition remove_replaced :: "mail option \<Rightarrow> mail list \<Rightarrow> mail list" where
  "remove_replaced replaced ms =
     (case replaced of
        None \<Rightarrow> ms
      | Some x \<Rightarrow>
          (case find_index (\<lambda>m. mail_identity m = mail_identity x) ms of
             None \<Rightarrow> ms
           | Some i \<Rightarrow> take i ms @ drop (Suc i) ms))"

definition recovered_row ::
    "string \<Rightarrow> mail list \<Rightarrow> bridge_mail list \<Rightarrow> string list \<Rightarrow> mail \<Rightarrow> mail option" where
  "recovered_row team existing recs recoverable m =
     (case last_by_id existing (ml_id m) of
        None \<Rightarrow> None
      | Some p \<Rightarrow>
          (if content_matches p m \<and> (ml_id m \<in> set recoverable \<or> unique_scoped_match team m recs existing) then Some p else None))"

definition needs_recovery :: "mail list \<Rightarrow> mail list \<Rightarrow> bool" where
  "needs_recovery existing ms \<longleftrightarrow>
     list_ex (\<lambda>m. case last_by_id existing (ml_id m) of
                    None \<Rightarrow> False
                  | Some p \<Rightarrow> ml_created p \<noteq> ml_created m \<and> content_matches p m) ms"

definition merge_rows :: "(mail \<Rightarrow> mail option) \<Rightarrow> mail list \<Rightarrow> mail list \<Rightarrow> mail list" where
  "merge_rows recovered existing ms =
     (case place_updates (fold (queue_update recovered) ms []) existing of
        (rows, rest) \<Rightarrow> rows @ concat (map snd rest))"

definition write_mailbox ::
    "'b mail_bridge \<Rightarrow> string \<Rightarrow> string \<Rightarrow> mail list \<Rightarrow> mail option \<Rightarrow> 'b mail_world \<Rightarrow> 'b mail_world" where
  "write_mailbox br team w ms replaced s =
     (let existing = remove_replaced replaced (read_legacy_mailbox w s);
          consult = needs_recovery existing ms \<and> br_enabled br;
          recs = (if consult then read_mailbox_records br (mw_bridge s) else []);
          recoverable = (if consult then legacy_message_ids team w existing (mw_journal s) recs else [])
      in s\<lparr> mw_files := dict_put w (merge_rows (recovered_row team existing recs recoverable) existing ms) (mw_files s) \<rparr>)"

end
