(* ===== verification/MailboxOps.thy ===== *)
theory MailboxOps
  imports TeamMailbox
begin

text \<open>
  Sending, marking and retiring the messages of a team (\<open>src/team/state/mailbox.ts\<close> and
  \<open>retireTeamMailboxMessages\<close> of \<open>src/team/state.ts\<close>), with the commands they give to the bridge.
  The identifier of a new message and the time are arguments; the log of deliveries is left out.
\<close>

subsection \<open>Commands to the bridge\<close>

definition has_runtime_authority :: "'b mail_bridge \<Rightarrow> 'b \<Rightarrow> bool" where
  "has_runtime_authority br b \<longleftrightarrow> br_events br b \<noteq> NoFile \<or> br_snapshot br b \<or> br_mailbox br b \<noteq> CompatMissing"

definition absent_from_compat :: "'b mail_bridge \<Rightarrow> string \<Rightarrow> string \<Rightarrow> 'b \<Rightarrow> bool" where
  "absent_from_compat br team i b =
     (case br_mailbox br b of
        CompatRecords rs \<Rightarrow> \<not> list_ex (\<lambda>r. ml_id r = i \<and> (bm_team r = None \<or> bm_team r = Some team)) rs
      | _ \<Rightarrow> False)"

definition preflight :: "'b mail_bridge \<Rightarrow> 'b \<Rightarrow> bridge_failure option" where
  "preflight br b = (if br_enabled br \<and> br_check br b \<noteq> Some TransportFailure then br_check br b else None)"

text \<open>The acknowledgement of a creation names the message; team and body may be missing.\<close>

definition acknowledges :: "string \<Rightarrow> mail \<Rightarrow> js \<Rightarrow> bool" where
  "acknowledges team m ack \<longleftrightarrow>
     js_get ack ''event'' = JStr ''MailboxMessageCreated'' \<and> js_get ack ''message_id'' = JStr (ml_id m)
     \<and> js_get ack ''from_worker'' = JStr (ml_from m) \<and> js_get ack ''to_worker'' = JStr (ml_to m)
     \<and> js_get ack ''team_name'' \<in> {JUndef, JNull, JStr team} \<and> js_get ack ''body'' \<in> {JUndef, JNull, JStr (ml_body m)}"

definition run_command :: "'b mail_bridge \<Rightarrow> mail_command \<Rightarrow> 'b \<Rightarrow> 'b \<times> (mail_error + bool)" where
  "run_command br c b =
     (case br_exec br c b of
        (b1, Inl f) \<Rightarrow>
          (b1, if f = TransportFailure \<and> (case c of CreateMailboxMessage _ _ \<Rightarrow> True | _ \<Rightarrow> False) then Inr False else Inl (BridgeError f))
      | (b1, Inr ack) \<Rightarrow>
          (b1, case c of
                 CreateMailboxMessage team m \<Rightarrow> (if acknowledges team m ack then Inr True else Inl BadAcknowledgement)
               | _ \<Rightarrow> Inr True))"

text \<open>A mark of a message that the records do not have is left to the file, after a refresh of the
  projection.\<close>

definition run_mark :: "'b mail_bridge \<Rightarrow> string \<Rightarrow> string \<Rightarrow> mail_command \<Rightarrow> 'b \<Rightarrow> 'b \<times> (mail_error + bool)" where
  "run_mark br team i c b =
     (let authority = has_runtime_authority br b;
          refreshed = (if authority \<and> (br_mailbox br b = CompatMissing \<or> absent_from_compat br team i b)
                       then br_exec br CaptureSnapshot b else (b, Inr JUndef))
      in case refreshed of
           (b1, Inl f) \<Rightarrow> (b1, Inl (BridgeError f))
         | (b1, Inr _) \<Rightarrow>
             (if absent_from_compat br team i b1 \<or> \<not> authority
              then (b1, case preflight br b1 of Some f \<Rightarrow> Inl (BridgeError f) | None \<Rightarrow> Inr False)
              else run_command br c b1))"

definition execute_bridge_command :: "'b mail_bridge \<Rightarrow> mail_command \<Rightarrow> 'b \<Rightarrow> 'b \<times> (mail_error + bool)" where
  "execute_bridge_command br c b =
     (if \<not> br_enabled br then (b, Inr False)
      else (case c of
              MarkMailboxNotified team i \<Rightarrow> run_mark br team i c b
            | MarkMailboxDelivered team i \<Rightarrow> run_mark br team i c b
            | _ \<Rightarrow> run_command br c b))"

subsection \<open>Sending\<close>

definition is_current_message :: "string option \<Rightarrow> mail \<Rightarrow> bool" where
  "is_current_message team_created m =
     (case (case team_created of None \<Rightarrow> None | Some t \<Rightarrow> date_parse t) of
        None \<Rightarrow> True
      | Some t \<Rightarrow> (case date_parse (ml_created m) of None \<Rightarrow> False | Some u \<Rightarrow> t \<le> u))"

definition find_existing :: "string option \<Rightarrow> string \<Rightarrow> string \<Rightarrow> string \<Rightarrow> mail list \<Rightarrow> mail option" where
  "find_existing team_created sender w body ms =
     List.find (\<lambda>m. ml_from m = sender \<and> ml_to m = w \<and> ml_body m = body \<and> \<not> truthy_str (ml_delivered m)
                    \<and> is_current_message team_created m) ms"

definition dedupe_candidates :: "'b mail_bridge \<Rightarrow> string \<Rightarrow> string \<Rightarrow> 'b mail_world \<Rightarrow> mail list" where
  "dedupe_candidates br team w s =
     (let ms = read_legacy_mailbox w s; seen = read_mailbox br team w s;
          legacy = legacy_message_ids team w ms (mw_journal s)
                     (if br_enabled br then read_mailbox_records br (mw_bridge s) else [])
      in seen @ filter (\<lambda>m. ml_id m \<notin> set (map ml_id seen) \<and> ml_id m \<in> set legacy) ms)"

definition is_creation :: "string \<Rightarrow> string \<Rightarrow> string \<Rightarrow> string \<Rightarrow> js \<Rightarrow> bool" where
  "is_creation team sender w body e \<longleftrightarrow>
     js_get e ''event'' = JStr ''MailboxMessageCreated'' \<and> js_get e ''team_name'' = JStr team
     \<and> js_get e ''from_worker'' = JStr sender \<and> js_get e ''to_worker'' = JStr w
     \<and> js_get e ''body'' \<in> {JUndef, JNull, JStr body}"

definition contains_creations :: "string \<Rightarrow> string \<Rightarrow> string \<Rightarrow> js list \<Rightarrow> compat_file \<Rightarrow> bool" where
  "contains_creations team sender w es f =
     (case f of
        CompatRecords rs \<Rightarrow>
          list_all (\<lambda>e. list_ex (\<lambda>r. bm_team r = Some team \<and> JStr (ml_id r) = js_get e ''message_id''
            \<and> ml_from r = sender \<and> ml_to r = w
            \<and> (js_get e ''body'' \<in> {JUndef, JNull} \<or> JStr (ml_body r) = js_get e ''body'')) rs) es
      | _ \<Rightarrow> False)"

text \<open>A creation that the event log of the bridge has, and its records perhaps not yet.\<close>

definition recover_creation ::
    "'b mail_bridge \<Rightarrow> string \<Rightarrow> string option \<Rightarrow> string \<Rightarrow> string \<Rightarrow> string \<Rightarrow> 'b \<Rightarrow> 'b \<times> (mail_error + mail option)" where
  "recover_creation br team team_created sender w body b =
     (case br_events br b of
        NoFile \<Rightarrow> (b, Inr None)
      | BadFile \<Rightarrow> (b, Inl EventLogUnreadable)
      | JsonFile (JArr es) \<Rightarrow>
          (let made = filter (is_creation team sender w body) es;
               found = (\<lambda>b. find_existing team_created sender w body
                          (map (\<lambda>r. normalize_bridge_mail r None)
                            (filter (\<lambda>r. bm_team r = Some team) (read_mailbox_records br b))))
           in if made = [] then (b, Inr None)
              else if contains_creations team sender w made (br_mailbox br b) then (b, Inr (found b))
              else (case br_exec br CaptureSnapshot b of
                      (b1, Inl f) \<Rightarrow> (b1, Inl (BridgeError f))
                    | (b1, Inr ack) \<Rightarrow>
                        (b1, if js_get ack ''event'' \<noteq> JStr ''SnapshotCaptured''
                                \<or> \<not> contains_creations team sender w made (br_mailbox br b1)
                             then Inl RecoveryUnverified else Inr (found b1))))
      | JsonFile _ \<Rightarrow> (b, Inl InvalidEventLog))"

definition find_sent ::
    "'b mail_bridge \<Rightarrow> string \<Rightarrow> string option \<Rightarrow> string \<Rightarrow> string \<Rightarrow> string \<Rightarrow> 'b mail_world
      \<Rightarrow> 'b \<times> (mail_error + mail option)" where
  "find_sent br team team_created sender w body s =
     (case find_existing team_created sender w body (dedupe_candidates br team w s) of
        Some m \<Rightarrow> (mw_bridge s, Inr (Some m))
      | None \<Rightarrow>
          (if br_enabled br then recover_creation br team team_created sender w body (mw_bridge s)
           else (mw_bridge s, Inr None)))"

definition append_mail_event :: "string \<Rightarrow> string \<Rightarrow> string \<Rightarrow> 'b mail_world \<Rightarrow> 'b mail_world" where
  "append_mail_event team w i s = s\<lparr> mw_journal := mw_journal s @ [\<lparr> me_team = team, me_worker = w, me_message = i \<rparr>] \<rparr>"

text \<open>The row of a message the bridge has created takes the place of the provisional one.\<close>

definition adopt_bridge_message ::
    "'b mail_bridge \<Rightarrow> string \<Rightarrow> string \<Rightarrow> mail list \<Rightarrow> mail \<Rightarrow> 'b mail_world \<Rightarrow> 'b mail_world \<times> mail" where
  "adopt_bridge_message br team w shadow provisional s =
     (case List.find (\<lambda>m. ml_id m = ml_id provisional) (read_mailbox br team w s) of
        None \<Rightarrow> (s, provisional)
      | Some m \<Rightarrow>
          (let made = m\<lparr> ml_body := (if ml_body m = [] then ml_body provisional else ml_body m) \<rparr>
           in (write_mailbox br team w
                 (update_first (\<lambda>x. mail_identity x = mail_identity provisional) (\<lambda>_. made) shadow) (Some provisional) s, made)))"

definition create_message ::
    "'b mail_bridge \<Rightarrow> string \<Rightarrow> string \<Rightarrow> mail \<Rightarrow> 'b mail_world \<Rightarrow> 'b mail_world \<times> (mail_error + mail)" where
  "create_message br team w provisional s =
     (let legacy = read_legacy_mailbox w s; shadow = legacy @ [provisional];
          s1 = write_mailbox br team w shadow None s
      in case execute_bridge_command br (CreateMailboxMessage team provisional) (mw_bridge s1) of
           (b, Inl e) \<Rightarrow> (write_mailbox br team w legacy (Some provisional) (s1\<lparr> mw_bridge := b \<rparr>), Inl e)
         | (b, Inr made) \<Rightarrow>
             (case (if made then adopt_bridge_message br team w shadow provisional (s1\<lparr> mw_bridge := b \<rparr>)
                    else (s1\<lparr> mw_bridge := b \<rparr>, provisional)) of
                (s2, m) \<Rightarrow> (append_mail_event team w (ml_id provisional) s2, Inr m)))"

definition send_direct_message ::
    "'b mail_bridge \<Rightarrow> string \<Rightarrow> string option \<Rightarrow> string \<Rightarrow> string \<Rightarrow> string \<Rightarrow> string \<Rightarrow> string \<Rightarrow> 'b mail_world
      \<Rightarrow> 'b mail_world \<times> (mail_error + mail)" where
  "send_direct_message br team team_created sender w body fresh now s =
     (case find_sent br team team_created sender w body s of
        (b, Inl e) \<Rightarrow> (s\<lparr> mw_bridge := b \<rparr>, Inl e)
      | (b, Inr (Some m)) \<Rightarrow> (s\<lparr> mw_bridge := b \<rparr>, Inr m)
      | (b, Inr None) \<Rightarrow>
          (case preflight br b of
             Some f \<Rightarrow> (s\<lparr> mw_bridge := b \<rparr>, Inl (BridgeError f))
           | None \<Rightarrow>
               create_message br team w
                 \<lparr> ml_id = fresh, ml_from = sender, ml_to = w, ml_body = body, ml_created = now,
                   ml_notified = None, ml_delivered = None \<rparr> (s\<lparr> mw_bridge := b \<rparr>)))"

text \<open>The configuration gives the workers of the team and its time of creation; \<open>fresh n\<close> and \<open>now n\<close> are
  drawn for the worker at position \<open>n\<close>.\<close>

fun broadcast_to ::
    "'b mail_bridge \<Rightarrow> string \<Rightarrow> string option \<Rightarrow> string \<Rightarrow> string \<Rightarrow> (nat \<Rightarrow> string) \<Rightarrow> (nat \<Rightarrow> string) \<Rightarrow> nat \<Rightarrow> string list
      \<Rightarrow> 'b mail_world \<Rightarrow> 'b mail_world \<times> (mail_error + mail list)" where
  "broadcast_to br team team_created sender body fresh now n [] s = (s, Inr [])"
| "broadcast_to br team team_created sender body fresh now n (w # ws) s =
     (if w = sender then broadcast_to br team team_created sender body fresh now (Suc n) ws s
      else (case send_direct_message br team team_created sender w body (fresh n) (now n) s of
              (s1, Inl e) \<Rightarrow> (s1, Inl e)
            | (s1, Inr m) \<Rightarrow>
                (case broadcast_to br team team_created sender body fresh now (Suc n) ws s1 of
                   (s2, Inl e) \<Rightarrow> (s2, Inl e)
                 | (s2, Inr ms) \<Rightarrow> (s2, Inr (m # ms)))))"

definition broadcast_message ::
    "'b mail_bridge \<Rightarrow> string \<Rightarrow> (string option \<times> string list) option \<Rightarrow> string \<Rightarrow> string \<Rightarrow> (nat \<Rightarrow> string) \<Rightarrow> (nat \<Rightarrow> string)
      \<Rightarrow> 'b mail_world \<Rightarrow> 'b mail_world \<times> (mail_error + mail list)" where
  "broadcast_message br team config sender body fresh now s =
     (case config of
        None \<Rightarrow> (s, Inl TeamUnknown)
      | Some (team_created, ws) \<Rightarrow> broadcast_to br team team_created sender body fresh now 0 ws s)"

subsection \<open>Marking\<close>

text \<open>The part that marking as notified and as delivered share: what is decided before the bridge is asked,
  and the mailbox read after it.\<close>

definition mark_message ::
    "'b mail_bridge \<Rightarrow> string \<Rightarrow> mail_command \<Rightarrow> (bool \<Rightarrow> mail \<Rightarrow> mail option) \<Rightarrow> string \<Rightarrow> string \<Rightarrow> 'b mail_world
      \<Rightarrow> 'b mail_world \<times> (mail_error + bool)" where
  "mark_message br team c change w i s =
     (let ms = read_mailbox br team w s
      in case List.find (\<lambda>m. ml_id m = i) ms of
           None \<Rightarrow> (s, Inr False)
         | Some m \<Rightarrow>
             (if truthy_str (ml_delivered m) \<and> length (filter (\<lambda>x. ml_id x = i) ms) = 1 then (s, Inr True)
              else (case execute_bridge_command br c (mw_bridge s) of
                      (b, Inl e) \<Rightarrow> (s\<lparr> mw_bridge := b \<rparr>, Inl e)
                    | (b, Inr by_bridge) \<Rightarrow>
                        (let s1 = s\<lparr> mw_bridge := b \<rparr>; ms1 = read_mailbox br team w s1
                         in case List.find (\<lambda>x. ml_id x = i) ms1 of
                              None \<Rightarrow> (s1, Inr False)
                            | Some x \<Rightarrow>
                                (case change by_bridge x of
                                   None \<Rightarrow> (s1, Inr True)
                                 | Some y \<Rightarrow>
                                     (write_mailbox br team w (update_first (\<lambda>x. ml_id x = i) (\<lambda>_. y) ms1) None s1, Inr True))))))"

definition mark_message_delivered ::
    "'b mail_bridge \<Rightarrow> string \<Rightarrow> string \<Rightarrow> string \<Rightarrow> string \<Rightarrow> 'b mail_world \<Rightarrow> 'b mail_world \<times> (mail_error + bool)" where
  "mark_message_delivered br team w i now s =
     mark_message br team (MarkMailboxDelivered team i)
       (\<lambda>by_bridge m. if \<not> truthy_str (ml_delivered m) then Some (m\<lparr> ml_delivered := Some now \<rparr>)
                      else if by_bridge then Some m else None) w i s"

definition mark_message_notified ::
    "'b mail_bridge \<Rightarrow> string \<Rightarrow> string \<Rightarrow> string \<Rightarrow> string \<Rightarrow> 'b mail_world \<Rightarrow> 'b mail_world \<times> (mail_error + bool)" where
  "mark_message_notified br team w i now s =
     mark_message br team (MarkMailboxNotified team i) (\<lambda>_ m. Some (m\<lparr> ml_notified := Some now \<rparr>)) w i s"

subsection \<open>Retiring the messages of a team\<close>

definition pending_mail :: "mail list \<Rightarrow> mail list" where
  "pending_mail ms = filter (\<lambda>m. \<not> truthy_str (ml_delivered m)) ms"

definition deliver_now :: "string \<Rightarrow> (mail \<Rightarrow> bool) \<Rightarrow> mail list \<Rightarrow> mail list" where
  "deliver_now now due ms = map (\<lambda>m. if due m \<and> \<not> truthy_str (ml_delivered m) then m\<lparr> ml_delivered := Some now \<rparr> else m) ms"

record 'b retirement =
  rt_bridge :: 'b
  rt_rows :: "mail list"
  rt_changed :: bool
  rt_count :: nat

text \<open>One record of the bridge: its row in the file, found or added; the command, the check that the
  record is delivered, and the delivery of the row.\<close>

definition retire_record ::
    "'b mail_bridge \<Rightarrow> string \<Rightarrow> string \<Rightarrow> string list \<Rightarrow> bridge_mail list \<Rightarrow> string \<Rightarrow> bridge_mail \<Rightarrow> 'b retirement
      \<Rightarrow> 'b retirement \<times> mail_error option" where
  "retire_record br team w legacy recs now r t =
     (if \<not> record_belongs team w legacy r then (t, None)
      else (let proven = ml_id r \<in> set legacy;
                n = normalize_bridge_mail r (if proven then List.find (\<lambda>m. ml_id m = ml_id r) (rt_rows t) else None);
                trusted = proven \<or> unique_scoped_match team n recs (rt_rows t);
                hit = find_index (\<lambda>m. mail_identity m = mail_identity n \<or> trusted \<and> content_matches m n) (rt_rows t);
                k = (case hit of None \<Rightarrow> length (rt_rows t) | Some k \<Rightarrow> k);
                rows = (if hit = None then rt_rows t @ [n] else rt_rows t);
                i = ml_id (rows ! k);
                ran = (if truthy_str (ml_delivered r) then (rt_bridge t, None)
                       else (case br_exec br (MarkMailboxDelivered team i) (rt_bridge t) of
                               (b, Inl f) \<Rightarrow> (b, Some (BridgeError f))
                             | (b, Inr ack) \<Rightarrow>
                                 (b, if js_get ack ''event'' = JStr ''MailboxDelivered'' \<and> js_get ack ''message_id'' = JStr i
                                     then None else Some (RetirementFailed i))));
                t1 = t\<lparr> rt_bridge := fst ran, rt_rows := rows, rt_changed := (rt_changed t \<or> hit = None) \<rparr>
            in case snd ran of
                 Some e \<Rightarrow> (t1, Some e)
               | None \<Rightarrow>
                   (case List.find (\<lambda>x. ml_id x = i \<and> record_belongs team w legacy x) (read_mailbox_records br (fst ran)) of
                      None \<Rightarrow> (t1, Some (RetirementUnverified i))
                    | Some x \<Rightarrow>
                        (if \<not> truthy_str (ml_delivered x) then (t1, Some (RetirementUnverified i))
                         else if truthy_str (ml_delivered (rows ! k)) then (t1, None)
                         else (t1\<lparr> rt_rows := rows[k := (rows ! k)\<lparr> ml_delivered := Some now \<rparr>], rt_changed := True,
                                   rt_count := Suc (rt_count t) \<rparr>, None)))))"

fun retire_records ::
    "'b mail_bridge \<Rightarrow> string \<Rightarrow> string \<Rightarrow> string list \<Rightarrow> bridge_mail list \<Rightarrow> string \<Rightarrow> bridge_mail list \<Rightarrow> 'b retirement
      \<Rightarrow> 'b retirement \<times> mail_error option" where
  "retire_records br team w legacy recs now [] t = (t, None)"
| "retire_records br team w legacy recs now (r # rs) t =
     (case retire_record br team w legacy recs now r t of
        (t1, Some e) \<Rightarrow> (t1, Some e)
      | (t1, None) \<Rightarrow> retire_records br team w legacy recs now rs t1)"

text \<open>The mailbox of a worker when the bridge has the records \<open>recs\<close>.\<close>

definition retire_with_records ::
    "'b mail_bridge \<Rightarrow> string \<Rightarrow> string \<Rightarrow> bridge_mail list \<Rightarrow> string \<Rightarrow> 'b mail_world \<Rightarrow> 'b mail_world \<times> (mail_error + nat)" where
  "retire_with_records br team w recs now s =
     (let ms = read_legacy_mailbox w s;
          legacy = legacy_message_ids team w ms (mw_journal s) recs;
          own = map ml_id (filter (record_belongs team w legacy) recs);
          unproven = filter (\<lambda>m. ml_id m \<notin> set own \<and> ml_id m \<notin> set legacy) (pending_mail ms)
      in if unproven \<noteq> [] then (s, Inl (RetirementUnproven (map ml_id unproven)))
         else (case retire_records br team w legacy recs now recs
                      \<lparr> rt_bridge = mw_bridge s, rt_rows = ms, rt_changed = False, rt_count = 0 \<rparr> of
                 (t, Some e) \<Rightarrow> (s\<lparr> mw_bridge := rt_bridge t \<rparr>, Inl e)
               | (t, None) \<Rightarrow>
                   (let due = (\<lambda>m. ml_id m \<notin> set own \<and> ml_id m \<in> set legacy);
                        late = filter due (pending_mail (rt_rows t));
                        rows = deliver_now now due (rt_rows t);
                        changed = (rt_changed t \<or> late \<noteq> []);
                        s1 = s\<lparr> mw_bridge := rt_bridge t \<rparr>;
                        s2 = (if changed then write_mailbox br team w rows None s1 else s1)
                    in if pending_mail rows \<noteq> [] then (s2, Inl (RetirementUnproven (map ml_id (pending_mail rows))))
                       else (s2, Inr (if changed then rt_count t + length late else 0)))))"

definition retire_worker ::
    "'b mail_bridge \<Rightarrow> string \<Rightarrow> string \<Rightarrow> string \<Rightarrow> 'b mail_world \<Rightarrow> 'b mail_world \<times> (mail_error + nat)" where
  "retire_worker br team w now s =
     (let ms = read_legacy_mailbox w s
      in if br_enabled br
         then (case br_mailbox br (mw_bridge s) of
                 CompatMissing \<Rightarrow> (s, if ms = [] then Inr 0 else Inl RetirementDiscovery)
               | CompatRecords recs \<Rightarrow>
                   (if list_ex (\<lambda>r. case bm_team r of None \<Rightarrow> False | Some t \<Rightarrow> \<not> team_name_safe t) recs
                    then (s, Inl RetirementDiscovery) else retire_with_records br team w recs now s)
               | _ \<Rightarrow> (s, Inl RetirementDiscovery))
         else (let legacy = legacy_message_ids team w ms (mw_journal s) [];
                   pending = pending_mail ms;
                   unproven = filter (\<lambda>m. ml_id m \<notin> set legacy) pending
               in if pending = [] then (s, Inr 0)
                  else if unproven \<noteq> [] then (s, Inl (RetirementUnproven (map ml_id unproven)))
                  else (write_mailbox br team w (deliver_now now (\<lambda>_. True) ms) None s, Inr (length pending))))"

fun retire_workers ::
    "'b mail_bridge \<Rightarrow> string \<Rightarrow> string \<Rightarrow> string list \<Rightarrow> 'b mail_world \<Rightarrow> 'b mail_world \<times> (mail_error + nat)" where
  "retire_workers br team now [] s = (s, Inr 0)"
| "retire_workers br team now (w # ws) s =
     (case retire_worker br team w now s of
        (s1, Inl e) \<Rightarrow> (s1, Inl e)
      | (s1, Inr n) \<Rightarrow> map_prod id (map_sum id ((+) n)) (retire_workers br team now ws s1))"

text \<open>The workers to retire: the given ones, those with a shadow file, and the addressees of the records of
  the team after a refresh of the records.\<close>

definition retirement_targets ::
    "'b mail_bridge \<Rightarrow> string \<Rightarrow> string list \<Rightarrow> 'b mail_world \<Rightarrow> 'b mail_world \<times> (mail_error + string list)" where
  "retirement_targets br team names s =
     (let local = names @ filter worker_name_safe (map fst (mw_files s)); b = mw_bridge s
      in if br_enabled br \<and> (br_events br b \<noteq> NoFile \<or> br_snapshot br b \<or> br_mailbox br b \<noteq> CompatMissing \<or> br_dispatch_seen br b)
         then (case br_exec br CaptureSnapshot b of
                 (b1, Inl _) \<Rightarrow> (s\<lparr> mw_bridge := b1 \<rparr>, Inl RetirementDiscovery)
               | (b1, Inr _) \<Rightarrow>
                   (let addressees = map ml_to (filter (\<lambda>r. bm_team r = Some team) (read_mailbox_records br b1))
                    in (s\<lparr> mw_bridge := b1 \<rparr>,
                        if list_all worker_name_safe addressees then Inr (dedup (local @ addressees)) else Inl RetirementDiscovery)))
         else (s, Inr (dedup local)))"

definition retire_team_mailbox_messages ::
    "'b mail_bridge \<Rightarrow> string \<Rightarrow> string list \<Rightarrow> string \<Rightarrow> 'b mail_world \<Rightarrow> 'b mail_world \<times> (mail_error + nat)" where
  "retire_team_mailbox_messages br team names now s =
     (case retirement_targets br team names s of
        (s1, Inl e) \<Rightarrow> (s1, Inl e)
      | (s1, Inr targets) \<Rightarrow> retire_workers br team now targets s1)"

end
