(* ===== verification/MailboxRows.thy ===== *)
theory MailboxRows
  imports MailboxOps
begin

text \<open>
  Facts on the rows of a mailbox: reading them without the journal when the records account for
  them (\<open>needsLegacyMailboxEvidence\<close>), and what \<open>writeMailbox\<close> makes of incoming rows.
\<close>

subsection \<open>The evidence that can be skipped\<close>

lemma repeated_two:
  assumes "x \<in> set xs" "y \<in> set xs" "x \<noteq> y" "f x = i" "f y = i"
  shows "repeated i (map f xs)"
proof -
  have "{x, y} \<subseteq> set (filter (\<lambda>z. f z = i) xs)" using assms by auto
  then have "card {x, y} \<le> card (set (filter (\<lambda>z. f z = i) xs))" by (intro card_mono) auto
  also have "\<dots> \<le> length (filter (\<lambda>z. f z = i) xs)" by (rule card_length)
  finally show ?thesis using assms(3) by (simp add: repeated_def filter_map o_def)
qed

lemma needs_evidenceD:
  assumes "\<not> needs_evidence team w seen ms recs" "m \<in> set ms"
  shows "\<exists>r. filter (\<lambda>r. bm_team r = Some team \<and> ml_to r = w \<and> ml_id r = ml_id m) recs = [r] \<and> content_matches m r"
  using assms
proof (induction team w seen ms recs rule: needs_evidence.induct)
  case (2 team w seen x xs recs)
  then show ?case by (auto split: if_splits list.splits)
qed simp

lemma in_legacy: "i \<in> set (legacy_message_ids team w ms journal recs) \<longleftrightarrow>
    provable_shadow team w ms recs i \<and> (\<exists>e \<in> set journal. me_team e = team \<and> me_worker e = w \<and> me_message e = i)"
  by (auto simp: legacy_message_ids_def)

lemma last_by_idD: "last_by_id ms i = Some m \<Longrightarrow> m \<in> set ms \<and> ml_id m = i"
  using find_SomeD by (fastforce simp: last_by_id_def)

text \<open>C39. When the check says that the records account for every shadow message, the mailbox read without
  the journal is the mailbox read with it.\<close>

theorem evidence_skippable:
  assumes "\<not> needs_legacy_evidence team w ms recs"
  shows "merged_mailbox team w ms recs (legacy_message_ids team w ms journal recs) = merged_mailbox team w ms recs []"
proof -
  define legacy where "legacy = legacy_message_ids team w ms journal recs"
  have rec_of: "\<exists>r. r \<in> set recs \<and> bm_team r = Some team \<and> ml_to r = w \<and> content_matches m r
      \<and> (\<forall>q \<in> set recs. bm_team q = Some team \<and> ml_to q = w \<and> ml_id q = ml_id m \<longrightarrow> q = r)" if m: "m \<in> set ms" for m
  proof -
    obtain r where r: "filter (\<lambda>r. bm_team r = Some team \<and> ml_to r = w \<and> ml_id r = ml_id m) recs = [r]" "content_matches m r"
      using needs_evidenceD [OF _ m] assms unfolding needs_legacy_evidence_def by blast
    have "{q \<in> set recs. bm_team q = Some team \<and> ml_to q = w \<and> ml_id q = ml_id m} = {r}"
      using arg_cong [OF r(1), of set] by simp
    then show ?thesis using r(2) by (intro exI [of _ r]) blast
  qed
  have shadow: "\<exists>m \<in> set ms. ml_id m = i" if "i \<in> set legacy" for i
    using that by (auto simp: legacy_def in_legacy provable_shadow_def Let_def)
  have no_null: "ml_id r \<notin> set legacy" if r: "r \<in> set recs" and n: "bm_team r = None" for r
  proof
    assume i: "ml_id r \<in> set legacy"
    obtain m where m: "m \<in> set ms" "ml_id m = ml_id r" using shadow [OF i] by blast
    obtain q where q: "q \<in> set recs" "bm_team q = Some team" "ml_id q = ml_id r"
      using rec_of [OF m(1)] m(2) by (auto simp: content_matches_def)
    have "repeated (ml_id r) (map ml_id (filter (\<lambda>r. bm_team r = None \<or> bm_team r = Some team) recs))"
      by (rule repeated_two [of r _ q]) (use r q n in auto)
    then show False using i by (simp add: legacy_def in_legacy provable_shadow_def Let_def)
  qed
  have own: "filter (record_belongs team w legacy) recs = filter (record_belongs team w []) recs"
    using no_null by (intro filter_cong) (auto simp: record_belongs_def split: option.splits)
  have same: "normalize_bridge_mail r (if ml_id r \<in> set legacy then last_by_id (filter (\<lambda>m. ml_id m \<noteq> []) ms) (ml_id r) else None)
      = normalize_bridge_mail r None" if r: "r \<in> set (filter (record_belongs team w []) recs)" for r
  proof (cases "last_by_id (filter (\<lambda>m. ml_id m \<noteq> []) ms) (ml_id r)")
    case (Some m)
    then have m: "m \<in> set ms" "ml_id m = ml_id r" using last_by_idD by fastforce+
    have "r \<in> set recs \<and> bm_team r = Some team \<and> ml_to r = w"
      using r by (auto simp: record_belongs_def split: option.splits)
    then have "content_matches m r" using rec_of [OF m(1)] m(2) by metis
    then show ?thesis unfolding Some by (auto simp: normalize_bridge_mail_def content_matches_def)
  qed (simp add: normalize_bridge_mail_def)
  have rest: "ml_id m \<in> set (map ml_id (filter (record_belongs team w []) recs))" if m: "m \<in> set ms" for m
    using rec_of [OF m] by (force simp: record_belongs_def content_matches_def)
  have f: "filter (\<lambda>m. ml_id m \<in> set legacy \<and> ml_id m \<notin> set (map ml_id (filter (record_belongs team w []) recs))) ms = []"
    using rest by (intro filter_False) blast
  show ?thesis
    unfolding merged_mailbox_def legacy_def [symmetric] own Let_def f using same by (intro arg_cong2 [of _ _ _ _ "(@)"] map_cong) auto
qed

definition demo_record :: bridge_mail where
  "demo_record = \<lparr> ml_id = ''1'', ml_from = ''a'', ml_to = ''b'', ml_body = ''x'', ml_created = ''n'', ml_notified = None,
     ml_delivered = None, bm_team = Some ''t'' \<rparr>"

definition demo_row :: mail where
  "demo_row = normalize_bridge_mail demo_record None"

definition demo_event :: mail_event where
  "demo_event = \<lparr> me_team = ''t'', me_worker = ''b'', me_message = ''1'' \<rparr>"

theorem evidence_skippable_witness:
  "merged_mailbox ''t'' ''b'' [demo_row] [demo_record]
      (legacy_message_ids ''t'' ''b'' [demo_row] [demo_event] [demo_record])
    = merged_mailbox ''t'' ''b'' [demo_row] [demo_record] []"
proof -
  have "\<not> needs_legacy_evidence ''t'' ''b'' [demo_row] [demo_record]" by code_simp
  then show ?thesis by (rule evidence_skippable)
qed

subsection \<open>Merging rows\<close>

lemma dict_put_fresh: "k \<notin> fst ` set d \<Longrightarrow> dict_put k v d = d @ [(k, v)]"
  by (induction k v d rule: dict_put.induct) auto

lemma queue_all:
  assumes "\<forall>m \<in> set ms. recovered m = None" "distinct (map mail_identity ms)" "fst ` set us \<inter> mail_identity ` set ms = {}"
  shows "fold (queue_update recovered) ms us = us @ map (\<lambda>m. (mail_identity m, [m])) ms"
  using assms
proof (induction ms arbitrary: us)
  case (Cons m ms)
  have fresh: "mail_identity m \<notin> fst ` set us" using Cons.prems(3) by auto
  then have "map_of us (mail_identity m) = None" by (simp add: map_of_eq_None_iff)
  then have "queue_update recovered m us = us @ [(mail_identity m, [m])]"
    using Cons.prems(1) dict_put_fresh [OF fresh] by (simp add: queue_update_def)
  moreover have "fst ` set (us @ [(mail_identity m, [m])]) \<inter> mail_identity ` set ms = {}"
    using Cons.prems(2,3) by auto
  ultimately show ?case using Cons.IH [of "us @ [(mail_identity m, [m])]"] Cons.prems by simp
qed simp

lemma place_rows:
  "distinct (map mail_identity es) \<Longrightarrow>
    fst (place_updates us es) = map (\<lambda>e. case map_of us (mail_identity e) of Some (x # _) \<Rightarrow> x | _ \<Rightarrow> e) es"
proof (induction us es rule: place_updates.induct)
  case (2 us m ms)
  have other: "mail_identity e \<noteq> mail_identity m" if "e \<in> set ms" for e using 2(4) that by (auto simp: image_iff)
  show ?case
  proof (cases "map_of us (mail_identity m)")
    case None
    then show ?thesis using 2 by simp
  next
    case (Some xs)
    then show ?thesis using 2 other by (cases xs) (auto cong: map_cong)
  qed
qed simp

definition leftover :: "pending_updates \<Rightarrow> (string \<times> string \<times> string \<times> string \<times> string) set \<Rightarrow> mail list" where
  "leftover us ks = concat (map snd (filter (\<lambda>u. fst u \<notin> ks) us))"

lemma drop_key: "k \<notin> fst ` set us \<Longrightarrow> filter (\<lambda>v. fst v \<noteq> k \<and> P v) us = filter P us"
  by (induction us) auto

lemma leftover_used: "map_of us k = Some [x] \<Longrightarrow> distinct (map fst us) \<Longrightarrow> leftover (dict_put k [] us) ks = leftover us (insert k ks)"
proof (induction us)
  case (Cons u us)
  have "fst u = k \<Longrightarrow> filter (\<lambda>v. fst v \<noteq> k \<and> fst v \<notin> ks) us = filter (\<lambda>v. fst v \<notin> ks) us"
    using Cons.prems(2) drop_key [of k us] by simp
  then show ?case using Cons by (cases u) (auto simp: leftover_def)
qed simp

lemma leftover_unused: "map_of us k = None \<or> map_of us k = Some [] \<Longrightarrow> distinct (map fst us) \<Longrightarrow> leftover us (insert k ks) = leftover us ks"
proof (induction us)
  case (Cons u us)
  have "fst u = k \<Longrightarrow> filter (\<lambda>v. fst v \<noteq> k \<and> fst v \<notin> ks) us = filter (\<lambda>v. fst v \<notin> ks) us"
    using Cons.prems(2) drop_key [of k us] by simp
  then show ?case using Cons by (cases u) (auto simp: leftover_def)
qed (simp add: leftover_def)

lemma set_dict_put: "set (dict_put k v d) \<subseteq> insert (k, v) (set d)"
  by (induction k v d rule: dict_put.induct) auto

lemma short_put: "\<forall>u \<in> set us. length (snd u) \<le> 1 \<Longrightarrow> \<forall>u \<in> set (dict_put k [] us). length (snd u) \<le> 1"
  using set_dict_put [of k "[]" us] by fastforce

lemma place_rest:
  "distinct (map fst us) \<Longrightarrow> \<forall>u \<in> set us. length (snd u) \<le> 1 \<Longrightarrow>
    concat (map snd (snd (place_updates us es))) = leftover us (mail_identity ` set es)"
proof (induction us es rule: place_updates.induct)
  case (1 us)
  then show ?case by (simp add: leftover_def)
next
  case (2 us m ms)
  show ?case
  proof (cases "map_of us (mail_identity m)")
    case None
    then show ?thesis using 2 leftover_unused by simp
  next
    case (Some xs)
    show ?thesis
    proof (cases xs)
      case Nil
      then show ?thesis using Some 2 leftover_unused by simp
    next
      case (Cons x ys)
      have "ys = []" using 2(5) map_of_SomeD [OF Some] Cons by fastforce
      then have some: "map_of us (mail_identity m) = Some [x]" using Some Cons by simp
      have "concat (map snd (snd (place_updates (dict_put (mail_identity m) [] us) ms)))
          = leftover (dict_put (mail_identity m) [] us) (mail_identity ` set ms)"
        by (rule 2(3) [OF some refl distinct_dict_put [OF 2(4)] short_put [OF 2(5)]])
      then show ?thesis by (simp add: some leftover_used [OF some 2(4)])
    qed
  qed
qed

definition row_for :: "mail list \<Rightarrow> mail \<Rightarrow> mail" where
  "row_for ms e = (case List.find (\<lambda>m. mail_identity m = mail_identity e) ms of None \<Rightarrow> e | Some m \<Rightarrow> m)"

lemma map_of_singletons: "map_of (map (\<lambda>m. (mail_identity m, [m])) ms) k = map_option (\<lambda>m. [m]) (List.find (\<lambda>m. mail_identity m = k) ms)"
  by (induction ms) auto

lemma merge_quiet:
  assumes "\<forall>m \<in> set ms. recovered m = None" "distinct (map mail_identity ms)" "distinct (map mail_identity es)"
  shows "merge_rows recovered es ms = map (row_for ms) es @ filter (\<lambda>m. mail_identity m \<notin> mail_identity ` set es) ms"
proof -
  let ?us = "map (\<lambda>m. (mail_identity m, [m])) ms"
  have us: "fold (queue_update recovered) ms [] = ?us" using queue_all [of ms recovered "[]"] assms by simp
  have rows: "fst (place_updates ?us es) = map (row_for ms) es"
    unfolding place_rows [OF assms(3)] map_of_singletons by (intro map_cong) (auto simp: row_for_def split: option.splits)
  have "distinct (map fst ?us)" using assms(2) by (simp add: o_def)
  then have "concat (map snd (snd (place_updates ?us es))) = leftover ?us (mail_identity ` set es)"
    by (intro place_rest) auto
  also have "\<dots> = filter (\<lambda>m. mail_identity m \<notin> mail_identity ` set es) ms"
    by (induction ms) (auto simp: leftover_def)
  finally show ?thesis unfolding merge_rows_def us using rows by (simp add: split_beta)
qed

lemma no_recovered_row [simp]: "recovered_row team es [] [] m = None"
  by (simp add: recovered_row_def unique_scoped_match_def split: option.split)

lemma distinct_identity: "distinct (map ml_id ms) \<Longrightarrow> distinct (map mail_identity ms)"
  by (auto simp: distinct_map inj_on_def mail_identity_def)

lemma read_other_mailbox [simp]:
  "v \<noteq> w \<Longrightarrow> read_legacy_mailbox v (write_mailbox br team w ms x s) = read_legacy_mailbox v s"
  by (simp add: read_legacy_mailbox_def write_mailbox_def Let_def)

lemma written_merged:
  "\<exists>recs recoverable. read_legacy_mailbox w (write_mailbox br team w ms x s)
      = (let es = remove_replaced x (read_legacy_mailbox w s) in merge_rows (recovered_row team es recs recoverable) es ms)
    \<and> (\<not> (needs_recovery (remove_replaced x (read_legacy_mailbox w s)) ms \<and> br_enabled br) \<longrightarrow> recs = [] \<and> recoverable = [])"
  unfolding write_mailbox_def Let_def
  by (intro exI conjI) (auto simp: read_legacy_mailbox_def)

lemma written_rows:
  assumes "\<not> (needs_recovery (remove_replaced x (read_legacy_mailbox w s)) ms \<and> br_enabled br)" "distinct (map mail_identity ms)"
    "distinct (map mail_identity (remove_replaced x (read_legacy_mailbox w s)))"
  shows "read_legacy_mailbox w (write_mailbox br team w ms x s)
    = map (row_for ms) (remove_replaced x (read_legacy_mailbox w s))
      @ filter (\<lambda>m. mail_identity m \<notin> mail_identity ` set (remove_replaced x (read_legacy_mailbox w s))) ms"
proof -
  define es where "es = remove_replaced x (read_legacy_mailbox w s)"
  obtain recs recoverable where r: "read_legacy_mailbox w (write_mailbox br team w ms x s) = merge_rows (recovered_row team es recs recoverable) es ms"
    "recs = []" "recoverable = []"
    using written_merged [of w br team ms x s] assms(1) unfolding Let_def es_def by blast
  show ?thesis unfolding r es_def [symmetric] by (rule merge_quiet) (use assms in \<open>simp_all add: es_def\<close>)
qed

end
