(* ===== verification/MailboxProps.thy ===== *)
theory MailboxProps
  imports MailboxRows
begin

text \<open>
  What the mailboxes of a team promise: without the bridge they implement one list of messages per
  worker under every sequence of operations, a retirement that succeeds leaves nothing
  undelivered, and with any bridge a mailbox holds messages to its worker only.
\<close>

subsection \<open>Mailboxes without the bridge\<close>

definition mail_ok :: "string \<Rightarrow> mail list \<Rightarrow> bool" where
  "mail_ok w ms \<longleftrightarrow> distinct (map ml_id ms) \<and> (\<forall>m \<in> set ms. ml_to m = w)"

definition recorded :: "string \<Rightarrow> string \<Rightarrow> 'b mail_world \<Rightarrow> string \<Rightarrow> bool" where
  "recorded team w s i \<longleftrightarrow> (\<exists>e \<in> set (mw_journal s). me_team e = team \<and> me_worker e = w \<and> me_message e = i)"

definition mail_inv :: "'b mail_world \<Rightarrow> bool" where
  "mail_inv s \<longleftrightarrow> (\<forall>w. mail_ok w (read_legacy_mailbox w s))"

lemma not_repeated: "distinct xs \<Longrightarrow> \<not> repeated i xs"
proof -
  assume "distinct xs"
  then have "length (filter (\<lambda>j. j = i) xs) = card (set (filter (\<lambda>j. j = i) xs))" by (intro distinct_card [symmetric]) simp
  also have "\<dots> \<le> card {i}" by (intro card_mono) auto
  finally show ?thesis by (simp add: repeated_def)
qed

lemma legacy_quiet:
  assumes "mail_ok w ms"
  shows "i \<in> set (legacy_message_ids team w ms (mw_journal s) []) \<longleftrightarrow> i \<in> ml_id ` set ms \<and> recorded team w s i"
  using assms not_repeated [of "map ml_id ms" i] not_repeated [of "[]" i]
  by (auto simp: in_legacy provable_shadow_def mail_ok_def recorded_def list_all_iff)

definition known_rows :: "string \<Rightarrow> string \<Rightarrow> 'b mail_world \<Rightarrow> mail list" where
  "known_rows team w s = filter (\<lambda>m. recorded team w s (ml_id m)) (read_legacy_mailbox w s)"

lemma read_quiet:
  assumes "\<not> br_enabled br" "mail_inv s"
  shows "read_mailbox br team w s = known_rows team w s"
proof -
  have "mail_ok w (read_legacy_mailbox w s)" using assms(2) by (simp add: mail_inv_def)
  then have "filter (\<lambda>m. ml_id m \<in> set (legacy_message_ids team w (read_legacy_mailbox w s) (mw_journal s) [])) (read_legacy_mailbox w s)
      = known_rows team w s"
    unfolding known_rows_def by (intro filter_cong refl) (simp only: legacy_quiet, blast)
  then show ?thesis using assms(1) by (simp add: read_mailbox_def Let_def)
qed

lemma find_unique:
  assumes "x \<in> set xs" "p x" "\<And>y. y \<in> set xs \<Longrightarrow> p y \<Longrightarrow> y = x"
  shows "List.find p xs = Some x"
proof (cases "List.find p xs")
  case None
  then show ?thesis using assms(1,2) by (auto simp: find_None_iff)
next
  case (Some y)
  then have "y = x" using find_SomeD [OF Some] by (intro assms(3)) simp_all
  then show ?thesis using Some by simp
qed

text \<open>Writing back rows that were read and changed, but kept their identity.\<close>

lemma written_back:
  assumes off: "\<not> br_enabled br" and ok: "mail_ok w (read_legacy_mailbox w s)" and g: "\<And>m. mail_identity (g m) = mail_identity m"
  shows "read_legacy_mailbox w (write_mailbox br team w (map g (filter (\<lambda>m. q (ml_id m)) (read_legacy_mailbox w s))) None s)
    = map (\<lambda>m. if q (ml_id m) then g m else m) (read_legacy_mailbox w s)"
proof -
  let ?rows = "read_legacy_mailbox w s"
  let ?ms = "map g (filter (\<lambda>m. q (ml_id m)) ?rows)"
  have inj: "m = n" if "m \<in> set ?rows" "n \<in> set ?rows" "mail_identity m = mail_identity n" for m n
    using ok that by (auto simp: mail_ok_def mail_identity_def distinct_map dest: inj_onD)
  have ids: "distinct (map mail_identity ?rows)" using ok distinct_identity by (auto simp: mail_ok_def)
  have "map mail_identity ?ms = map mail_identity (filter (\<lambda>m. q (ml_id m)) ?rows)" by (simp add: g)
  moreover have "distinct (map mail_identity (filter (\<lambda>m. q (ml_id m)) ?rows))" using ids by (rule distinct_map_filter)
  ultimately have dis: "distinct (map mail_identity ?ms)" by (simp only:)
  have rows: "row_for ?ms e = (if q (ml_id e) then g e else e)" if e: "e \<in> set ?rows" for e
  proof (cases "q (ml_id e)")
    case True
    then have "List.find (\<lambda>m. mail_identity m = mail_identity e) ?ms = Some (g e)"
    proof (intro find_unique)
      fix y
      assume y: "y \<in> set ?ms" "mail_identity y = mail_identity e"
      then obtain m where "m \<in> set ?rows" "y = g m" by auto
      then show "y = g e" using inj [of m e] e y(2) by (simp add: g)
    qed (use e True in \<open>simp_all add: g\<close>)
    then show ?thesis using True by (simp add: row_for_def)
  next
    case False
    then have "List.find (\<lambda>m. mail_identity m = mail_identity e) ?ms = None"
      using e inj by (auto simp: find_None_iff g)
    then show ?thesis using False by (simp add: row_for_def)
  qed
  have "filter (\<lambda>m. mail_identity m \<notin> mail_identity ` set ?rows) ?ms = []" by (auto simp: filter_empty_conv g)
  moreover have "map (row_for ?ms) ?rows = map (\<lambda>m. if q (ml_id m) then g m else m) ?rows" by (intro map_cong refl rows)
  ultimately show ?thesis
    using written_rows [of None w s ?ms br team] off dis ids unfolding remove_replaced_def option.case by (simp only: append_Nil2) blast
qed

lemma written_new:
  assumes off: "\<not> br_enabled br" and ok: "mail_ok w (read_legacy_mailbox w s)" and new: "ml_id x \<notin> ml_id ` set (read_legacy_mailbox w s)"
  shows "read_legacy_mailbox w (write_mailbox br team w (read_legacy_mailbox w s @ [x]) None s) = read_legacy_mailbox w s @ [x]"
proof -
  let ?rows = "read_legacy_mailbox w s"
  have ids: "distinct (map mail_identity (?rows @ [x]))"
    using ok new by (intro distinct_identity) (simp add: mail_ok_def)
  have keep: "row_for (?rows @ [x]) e = e" if "e \<in> set ?rows" for e
  proof -
    have "List.find (\<lambda>m. mail_identity m = mail_identity e) (?rows @ [x]) = Some e"
    proof (rule find_unique)
      fix y
      assume y: "y \<in> set (?rows @ [x])" "mail_identity y = mail_identity e"
      have "inj_on mail_identity (set (?rows @ [x]))" using ids by (simp only: distinct_map)
      then show "y = e" by (rule inj_onD [OF _ y(2) y(1)]) (use that in simp)
    qed (use that in auto)
    then show ?thesis by (simp add: row_for_def)
  qed
  have "filter (\<lambda>m. mail_identity m \<notin> mail_identity ` set ?rows) (?rows @ [x]) = [x]" using ids by (auto simp: filter_empty_conv)
  moreover have "map (row_for (?rows @ [x])) ?rows = ?rows" by (intro map_idI) (rule keep)
  moreover have "distinct (map mail_identity ?rows)" using ids by simp
  ultimately show ?thesis
    using written_rows [of None w s "?rows @ [x]" br team] off ids unfolding remove_replaced_def option.case by (simp only:) blast
qed

lemma write_mailbox_frame [simp]:
  "mw_journal (write_mailbox br team w ms x s) = mw_journal s" "mw_bridge (write_mailbox br team w ms x s) = mw_bridge s"
  by (simp_all add: write_mailbox_def Let_def)

lemma recorded_append: "recorded team v (append_mail_event team w i s) j \<longleftrightarrow> recorded team v s j \<or> v = w \<and> j = i"
  by (auto simp: recorded_def append_mail_event_def)

lemma rows_append [simp]: "read_legacy_mailbox v (append_mail_event team w i s) = read_legacy_mailbox v s"
  by (simp add: read_legacy_mailbox_def append_mail_event_def)

lemma known_ids: "ml_id ` set (known_rows team w s) = {i \<in> ml_id ` set (read_legacy_mailbox w s). recorded team w s i}"
  by (auto simp: known_rows_def)

lemma mail_inv_change:
  assumes "mail_inv s" "mail_ok w (read_legacy_mailbox w s1)" "\<And>v. v \<noteq> w \<Longrightarrow> read_legacy_mailbox v s1 = read_legacy_mailbox v s"
  shows "mail_inv s1"
  unfolding mail_inv_def
proof
  fix v
  show "mail_ok v (read_legacy_mailbox v s1)"
    by (cases "v = w") (use assms in \<open>auto simp: mail_inv_def\<close>)
qed

text \<open>The abstract mailbox of a worker: what sending and marking do to the list its reader sees.\<close>

definition sent_mail :: "string option \<Rightarrow> mail \<Rightarrow> mail list \<Rightarrow> mail list \<times> mail" where
  "sent_mail team_created m ms =
     (case find_existing team_created (ml_from m) (ml_to m) (ml_body m) ms of Some x \<Rightarrow> (ms, x) | None \<Rightarrow> (ms @ [m], m))"

definition marked_mail :: "string \<Rightarrow> (mail \<Rightarrow> mail) \<Rightarrow> mail list \<Rightarrow> mail list" where
  "marked_mail i f ms = map (\<lambda>m. if ml_id m = i \<and> \<not> truthy_str (ml_delivered m) then f m else m) ms"

definition new_mail :: "string \<Rightarrow> string \<Rightarrow> string \<Rightarrow> string \<Rightarrow> string \<Rightarrow> mail" where
  "new_mail i sender w body now =
     \<lparr> ml_id = i, ml_from = sender, ml_to = w, ml_body = body, ml_created = now, ml_notified = None, ml_delivered = None \<rparr>"

text \<open>Only the shadow file is written: a send that stops before the journal.\<close>

definition send_cut_short :: "'b mail_bridge \<Rightarrow> string \<Rightarrow> string \<Rightarrow> mail \<Rightarrow> 'b mail_world \<Rightarrow> 'b mail_world" where
  "send_cut_short br team w m s = write_mailbox br team w (read_legacy_mailbox w s @ [m]) None s"

definition unused_id :: "string \<Rightarrow> string \<Rightarrow> 'b mail_world \<Rightarrow> bool" where
  "unused_id w i s \<longleftrightarrow> i \<notin> ml_id ` set (read_legacy_mailbox w s) \<and> i \<notin> me_message ` set (mw_journal s)"

lemma unused_unrecorded: "unused_id w i s \<Longrightarrow> \<not> recorded team v s i"
  by (auto simp: unused_id_def recorded_def image_iff)

lemma cut_short:
  assumes "\<not> br_enabled br" "mail_inv s" "unused_id w (ml_id m) s" "ml_to m = w"
  shows "known_rows team v (send_cut_short br team w m s) = known_rows team v s" "mail_inv (send_cut_short br team w m s)"
    "read_legacy_mailbox w (send_cut_short br team w m s) = read_legacy_mailbox w s @ [m]"
    "v \<noteq> w \<Longrightarrow> read_legacy_mailbox v (send_cut_short br team w m s) = read_legacy_mailbox v s"
    "recorded t v (send_cut_short br team w m s) = recorded t v s"
proof -
  let ?s = "send_cut_short br team w m s"
  have ok: "mail_ok w (read_legacy_mailbox w s)" using assms(2) by (simp add: mail_inv_def)
  show rows: "read_legacy_mailbox w ?s = read_legacy_mailbox w s @ [m]"
    unfolding send_cut_short_def by (rule written_new [OF assms(1) ok]) (use assms(3) in \<open>simp add: unused_id_def\<close>)
  show other: "v \<noteq> w \<Longrightarrow> read_legacy_mailbox v ?s = read_legacy_mailbox v s" for v by (simp add: send_cut_short_def)
  show rec: "recorded t v ?s = recorded t v s" for t v by (simp add: recorded_def send_cut_short_def fun_eq_iff)
  show "known_rows team v ?s = known_rows team v s"
    by (cases "v = w") (use rows other rec unused_unrecorded [OF assms(3)] in \<open>simp_all add: known_rows_def\<close>)
  show "mail_inv ?s"
    by (rule mail_inv_change [OF assms(2), of w]) (use rows other ok assms(3,4) in \<open>auto simp: mail_ok_def unused_id_def\<close>)
qed

lemma find_sent_quiet:
  assumes "\<not> br_enabled br" "mail_inv s"
  shows "find_sent br team team_created sender w body s
    = (mw_bridge s, Inr (find_existing team_created sender w body (known_rows team w s)))"
proof -
  have ok: "mail_ok w (read_legacy_mailbox w s)" using assms(2) by (simp add: mail_inv_def)
  have "filter (\<lambda>m. ml_id m \<notin> set (map ml_id (known_rows team w s))
      \<and> ml_id m \<in> set (legacy_message_ids team w (read_legacy_mailbox w s) (mw_journal s) [])) (read_legacy_mailbox w s) = []"
    unfolding filter_empty_conv legacy_quiet [OF ok] set_map known_ids by blast
  then show ?thesis using assms(1) by (simp add: find_sent_def dedupe_candidates_def Let_def read_quiet [OF assms] split: option.split)
qed

lemma send_quiet:
  assumes off: "\<not> br_enabled br" and inv: "mail_inv s" and new: "unused_id w fresh s"
    and run: "send_direct_message br team team_created sender w body fresh now s = (s1, r)"
  shows "r = Inr (snd (sent_mail team_created (new_mail fresh sender w body now) (known_rows team w s)))
    \<and> known_rows team w s1 = fst (sent_mail team_created (new_mail fresh sender w body now) (known_rows team w s))
    \<and> (\<forall>v. v \<noteq> w \<longrightarrow> known_rows team v s1 = known_rows team v s) \<and> mail_inv s1"
proof (cases "find_existing team_created sender w body (known_rows team w s)")
  case (Some m)
  then have "s1 = s \<and> r = Inr m" using run by (simp add: send_direct_message_def find_sent_quiet [OF off inv])
  then show ?thesis using Some inv by (simp add: sent_mail_def new_mail_def)
next
  case None
  let ?m = "new_mail fresh sender w body now"
  have m: "unused_id w (ml_id ?m) s" "ml_to ?m = w" using new by (simp_all add: new_mail_def)
  note cut = cut_short [OF off inv m]
  have "send_direct_message br team team_created sender w body fresh now s = create_message br team w ?m s"
    using None off by (simp add: send_direct_message_def find_sent_quiet [OF off inv] preflight_def new_mail_def)
  also have "\<dots> = (append_mail_event team w fresh (send_cut_short br team w ?m s), Inr ?m)"
    using off by (simp add: create_message_def execute_bridge_command_def send_cut_short_def new_mail_def)
  finally have r: "s1 = append_mail_event team w fresh (send_cut_short br team w ?m s)" "r = Inr ?m" using run by simp_all
  have known: "known_rows team v s1 = (if v = w then known_rows team w s @ [?m] else known_rows team v s)" for v
    using cut(3,4) m(1) unfolding known_rows_def r(1) recorded_append cut(5) rows_append
    by (cases "v = w") (auto simp: new_mail_def unused_id_def intro!: filter_cong)
  have "mail_inv s1" using cut(2) by (simp add: mail_inv_def r(1))
  then show ?thesis using None known r(2) by (simp add: sent_mail_def new_mail_def)
qed

lemma marked_key:
  assumes "distinct (map ml_id ms)" "x \<in> set ms"
  shows "marked_mail (ml_id x) f ms = (if truthy_str (ml_delivered x) then ms else map (\<lambda>m. if ml_id m = ml_id x then f m else m) ms)"
proof -
  have "m = x" if "m \<in> set ms" "ml_id m = ml_id x" for m
    using assms that by (auto simp: distinct_map dest: inj_onD)
  then have "(if ml_id m = ml_id x \<and> \<not> truthy_str (ml_delivered m) then f m else m)
      = (if truthy_str (ml_delivered x) then m else if ml_id m = ml_id x then f m else m)" if "m \<in> set ms" for m
    using that by metis
  then have "marked_mail (ml_id x) f ms = map (\<lambda>m. if truthy_str (ml_delivered x) then m else if ml_id m = ml_id x then f m else m) ms"
    unfolding marked_mail_def by (intro map_cong refl)
  then show ?thesis by simp
qed

lemma update_key:
  assumes "distinct (map ml_id ms)" "x \<in> set ms"
  shows "update_first (\<lambda>m. ml_id m = ml_id x) (\<lambda>_. f x) ms = map (\<lambda>m. if ml_id m = ml_id x then f m else m) ms"
  using assms
proof (induction ms)
  case (Cons m ms)
  have "map (\<lambda>y. if ml_id y = ml_id x then f y else y) ms = ms" if "m = x"
    by (rule map_idI) (use Cons.prems(1) that in \<open>auto simp: image_iff\<close>)
  moreover have "ml_id m \<noteq> ml_id x" if "m \<noteq> x" using Cons.prems that by (auto simp: image_iff)
  ultimately show ?case using Cons by auto
qed simp

lemma known_written:
  assumes off: "\<not> br_enabled br" and inv: "mail_inv s" and g: "\<And>m. mail_identity (g m) = mail_identity m"
    and s1: "s1 = write_mailbox br team w (map g (known_rows team w s)) None s"
  shows "known_rows team w s1 = map g (known_rows team w s) \<and> (\<forall>v. v \<noteq> w \<longrightarrow> known_rows team v s1 = known_rows team v s) \<and> mail_inv s1"
proof -
  have ok: "mail_ok w (read_legacy_mailbox w s)" using inv by (simp add: mail_inv_def)
  have gid: "ml_id (g m) = ml_id m" for m using g [of m] by (simp add: mail_identity_def)
  have gto: "ml_to (g m) = ml_to m" for m using g [of m] by (simp add: mail_identity_def)
  have rows: "read_legacy_mailbox w s1 = map (\<lambda>m. if recorded team w s (ml_id m) then g m else m) (read_legacy_mailbox w s)"
    unfolding s1 known_rows_def by (rule written_back [OF off ok g])
  have rec: "recorded t v s1 = recorded t v s" for t v by (simp add: recorded_def s1 fun_eq_iff)
  have other: "read_legacy_mailbox v s1 = read_legacy_mailbox v s" if "v \<noteq> w" for v using that by (simp add: s1)
  have "map ml_id (read_legacy_mailbox w s1) = map ml_id (read_legacy_mailbox w s)" by (simp add: rows gid)
  moreover have "\<forall>m \<in> set (read_legacy_mailbox w s1). ml_to m = w" using ok by (auto simp: mail_ok_def rows gto)
  ultimately have "mail_ok w (read_legacy_mailbox w s1)" using ok by (simp only: mail_ok_def)
  then have "mail_inv s1" using other by (rule mail_inv_change [OF inv])
  moreover have "known_rows team w s1 = map g (known_rows team w s)"
    unfolding known_rows_def rec rows filter_map by (simp add: o_def gid cong: map_cong if_cong)
  ultimately show ?thesis using other by (simp add: known_rows_def rec)
qed

lemma length_filter_key:
  assumes "distinct (map f xs)" "x \<in> set xs"
  shows "length (filter (\<lambda>y. f y = f x) xs) = 1"
proof -
  have "set (filter (\<lambda>y. f y = f x) xs) = {x}" using assms by (auto simp: distinct_map dest: inj_onD)
  moreover have "distinct (filter (\<lambda>y. f y = f x) xs)" using assms(1) by (simp add: distinct_map)
  ultimately show ?thesis using distinct_card by fastforce
qed

lemma mark_quiet:
  assumes off: "\<not> br_enabled br" and inv: "mail_inv s"
    and f: "\<And>m. mail_identity (f m) = mail_identity m" and change: "\<And>m. \<not> truthy_str (ml_delivered m) \<Longrightarrow> change False m = Some (f m)"
    and run: "mark_message br team c change w i s = (s1, r)"
  shows "r = Inr (i \<in> ml_id ` set (known_rows team w s)) \<and> known_rows team w s1 = marked_mail i f (known_rows team w s)
    \<and> (\<forall>v. v \<noteq> w \<longrightarrow> known_rows team v s1 = known_rows team v s) \<and> mail_inv s1"
proof -
  let ?known = "known_rows team w s"
  note read = read_quiet [OF off inv]
  have ok: "mail_ok w (read_legacy_mailbox w s)" using inv by (simp add: mail_inv_def)
  then have dis: "distinct (map ml_id ?known)" unfolding mail_ok_def known_rows_def by (blast intro: distinct_map_filter)
  show ?thesis
  proof (cases "List.find (\<lambda>m. ml_id m = i) ?known")
    case None
    then have "i \<notin> ml_id ` set ?known" by (auto simp: find_None_iff)
    moreover have "s1 = s \<and> r = Inr False" using run None by (simp add: mark_message_def read)
    moreover have "marked_mail i f ?known = ?known"
      using calculation(1) unfolding marked_mail_def by (intro map_idI) auto
    ultimately show ?thesis using inv by simp
  next
    case (Some x)
    then have x: "x \<in> set ?known" "ml_id x = i" using find_SomeD by fastforce+
    then have i: "i \<in> ml_id ` set ?known" by blast
    have one: "length (filter (\<lambda>m. ml_id m = i) ?known) = 1" using length_filter_key [OF dis x(1)] x(2) by simp
    have marked: "marked_mail i f ?known = (if truthy_str (ml_delivered x) then ?known else map (\<lambda>m. if ml_id m = i then f m else m) ?known)"
      using marked_key [OF dis x(1)] x(2) by simp
    show ?thesis
    proof (cases "truthy_str (ml_delivered x)")
      case True
      then have "s1 = s \<and> r = Inr True" using run Some one by (simp add: mark_message_def read)
      then show ?thesis using i marked True inv by simp
    next
      case False
      define g where "g m = (if ml_id m = i then f m else m)" for m
      have g: "mail_identity (g m) = mail_identity m" for m by (simp add: g_def f)
      have upd: "update_first (\<lambda>m. ml_id m = i) (\<lambda>_. f x) ?known = map g ?known"
        using update_key [OF dis x(1), of f] x(2) by (simp add: g_def)
      have r: "s1 = write_mailbox br team w (map g ?known) None s" "r = Inr True"
        using run Some False off change [OF False] upd by (simp_all add: mark_message_def read execute_bridge_command_def Let_def)
      show ?thesis using known_written [OF off inv g r(1)] i marked False r(2) by (simp add: g_def [abs_def])
    qed
  qed
qed

subsection \<open>Runs\<close>

inductive mail_step :: "'b mail_bridge \<Rightarrow> string \<Rightarrow> 'b mail_world \<Rightarrow> 'b mail_world \<Rightarrow> bool" for br team where
  Sent: "unused_id w fresh s \<Longrightarrow>
     mail_step br team s (fst (send_direct_message br team team_created sender w body fresh now s))"
| CutShort: "unused_id w fresh s \<Longrightarrow> mail_step br team s (send_cut_short br team w (new_mail fresh sender w body now) s)"
| Delivered: "mail_step br team s (fst (mark_message_delivered br team w i now s))"
| Notified: "mail_step br team s (fst (mark_message_notified br team w i now s))"

lemma delivered_quiet:
  assumes "\<not> br_enabled br" "mail_inv s" "mark_message_delivered br team w i now s = (s1, r)"
  shows "r = Inr (i \<in> ml_id ` set (known_rows team w s))
    \<and> known_rows team w s1 = marked_mail i (\<lambda>m. m\<lparr> ml_delivered := Some now \<rparr>) (known_rows team w s)
    \<and> (\<forall>v. v \<noteq> w \<longrightarrow> known_rows team v s1 = known_rows team v s) \<and> mail_inv s1"
  by (rule mark_quiet [OF assms(1,2) _ _ assms(3) [unfolded mark_message_delivered_def]]) (simp_all add: mail_identity_def)

lemma notified_quiet:
  assumes "\<not> br_enabled br" "mail_inv s" "mark_message_notified br team w i now s = (s1, r)"
  shows "r = Inr (i \<in> ml_id ` set (known_rows team w s))
    \<and> known_rows team w s1 = marked_mail i (\<lambda>m. m\<lparr> ml_notified := Some now \<rparr>) (known_rows team w s)
    \<and> (\<forall>v. v \<noteq> w \<longrightarrow> known_rows team v s1 = known_rows team v s) \<and> mail_inv s1"
  by (rule mark_quiet [OF assms(1,2) _ _ assms(3) [unfolded mark_message_notified_def]]) (simp_all add: mail_identity_def)

lemma mail_step_inv:
  assumes "mail_step br team s s1" "\<not> br_enabled br" "mail_inv s"
  shows "mail_inv s1"
  using assms
proof cases
  case (Sent w fresh team_created sender body now)
  then show ?thesis using send_quiet [OF assms(2,3) Sent(2) surjective_pairing] by simp
next
  case (CutShort w fresh sender body now)
  then show ?thesis using cut_short(2) [OF assms(2,3), of w "new_mail fresh sender w body now"] by (simp add: new_mail_def)
next
  case (Delivered w i now)
  then show ?thesis using delivered_quiet [OF assms(2,3) surjective_pairing] by simp
next
  case (Notified w i now)
  then show ?thesis using notified_quiet [OF assms(2,3) surjective_pairing] by simp
qed

definition empty_mail :: "'b \<Rightarrow> 'b mail_world" where
  "empty_mail b = \<lparr> mw_files = [], mw_journal = [], mw_bridge = b \<rparr>"

lemma empty_mail_inv: "mail_inv (empty_mail b)"
  by (simp add: mail_inv_def mail_ok_def empty_mail_def read_legacy_mailbox_def)

lemma mail_runs_inv: "(mail_step br team)\<^sup>*\<^sup>* (empty_mail b) s \<Longrightarrow> \<not> br_enabled br \<Longrightarrow> mail_inv s"
  by (induction rule: rtranclp_induct) (blast intro: mail_step_inv empty_mail_inv)+

text \<open>C12. Without the bridge the files and the journal implement one list of messages per worker: a send
  returns the undelivered message of the same text that is already there or appends one, a
  mark changes the message it names and no delivered one, a send that stops before the
  journal shows nothing, and the other mailboxes stay as they are.\<close>

theorem mailbox_refines:
  assumes "\<not> br_enabled br" "(mail_step br team)\<^sup>*\<^sup>* (empty_mail b) s" "unused_id w fresh s"
  shows "let inbox = list_mailbox_messages br team; m = new_mail fresh sender w body now in
      (case send_direct_message br team team_created sender w body fresh now s of (s1, r) \<Rightarrow>
        r = Inr (snd (sent_mail team_created m (inbox w s))) \<and> inbox w s1 = fst (sent_mail team_created m (inbox w s))
        \<and> (\<forall>v. v \<noteq> w \<longrightarrow> inbox v s1 = inbox v s))
    \<and> (\<forall>v. inbox v (send_cut_short br team w m s) = inbox v s)
    \<and> (case mark_message_delivered br team w i now s of (s1, r) \<Rightarrow>
        r = Inr (i \<in> ml_id ` set (inbox w s)) \<and> inbox w s1 = marked_mail i (\<lambda>m. m\<lparr> ml_delivered := Some now \<rparr>) (inbox w s)
        \<and> (\<forall>v. v \<noteq> w \<longrightarrow> inbox v s1 = inbox v s))
    \<and> (case mark_message_notified br team w i now s of (s1, r) \<Rightarrow>
        r = Inr (i \<in> ml_id ` set (inbox w s)) \<and> inbox w s1 = marked_mail i (\<lambda>m. m\<lparr> ml_notified := Some now \<rparr>) (inbox w s)
        \<and> (\<forall>v. v \<noteq> w \<longrightarrow> inbox v s1 = inbox v s))"
proof -
  note inv = mail_runs_inv [OF assms(2,1)]
  have inbox: "mail_inv s' \<Longrightarrow> list_mailbox_messages br team v s' = known_rows team v s'" for v s'
    by (simp add: list_mailbox_messages_def read_quiet [OF assms(1)])
  have m: "unused_id w (ml_id (new_mail fresh sender w body now)) s" "ml_to (new_mail fresh sender w body now) = w"
    using assms(3) by (simp_all add: new_mail_def)
  obtain s1 r1 where 1: "send_direct_message br team team_created sender w body fresh now s = (s1, r1)" by fastforce
  obtain s2 r2 where 2: "mark_message_delivered br team w i now s = (s2, r2)" by fastforce
  obtain s3 r3 where 3: "mark_message_notified br team w i now s = (s3, r3)" by fastforce
  show ?thesis
    unfolding 1 2 3 prod.case Let_def
    using send_quiet [OF assms(1) inv assms(3) 1] delivered_quiet [OF assms(1) inv 2] notified_quiet [OF assms(1) inv 3]
      cut_short(1,2) [OF assms(1) inv m] by (simp add: inbox inv)
qed

subsection \<open>Retirement\<close>

abbreviation is_delivered :: "mail \<Rightarrow> bool" where
  "is_delivered m \<equiv> truthy_str (ml_delivered m)"

lemma no_pending: "pending_mail ms = [] \<longleftrightarrow> (\<forall>m \<in> set ms. is_delivered m)"
  by (simp add: pending_mail_def filter_empty_conv)

definition rewritten :: "(mail \<Rightarrow> mail option) \<Rightarrow> mail \<Rightarrow> mail" where
  "rewritten recovered m = (case recovered m of None \<Rightarrow> m | Some p \<Rightarrow> m\<lparr> ml_created := ml_created p \<rparr>)"

lemma rewritten_delivered [simp]: "ml_delivered (rewritten recovered m) = ml_delivered m"
  by (simp add: rewritten_def split: option.split)

lemma queue_fold:
  assumes "\<forall>m \<in> set ms. is_delivered m" "\<forall>u \<in> set us. snd u \<noteq> [] \<and> (\<forall>x \<in> set (snd u). is_delivered x)"
  shows "(\<forall>u \<in> set (fold (queue_update recovered) ms us). snd u \<noteq> [] \<and> (\<forall>x \<in> set (snd u). is_delivered x))
    \<and> fst ` set (fold (queue_update recovered) ms us) = fst ` set us \<union> (\<lambda>m. mail_identity (rewritten recovered m)) ` set ms"
  using assms
proof (induction ms arbitrary: us)
  case (Cons m ms)
  let ?x = "rewritten recovered m" and ?P = "\<lambda>us. \<forall>u \<in> set us. snd u \<noteq> [] \<and> (\<forall>x \<in> set (snd u). is_delivered x)"
  define xs where "xs = (if recovered m \<noteq> None then [] else (case map_of us (mail_identity ?x) of None \<Rightarrow> [] | Some ys \<Rightarrow> ys))"
  have "queue_update recovered m us = dict_put (mail_identity ?x) (xs @ [?x]) us"
    by (simp add: queue_update_def xs_def rewritten_def Let_def)
  moreover have "\<forall>x \<in> set ys. is_delivered x" if "map_of us k = Some ys" for k ys
    using Cons.prems(2) map_of_SomeD [OF that] by fastforce
  then have "\<forall>x \<in> set xs. is_delivered x" unfolding xs_def by (cases "map_of us (mail_identity ?x)") simp_all
  ultimately have q: "queue_update recovered m us = dict_put (mail_identity ?x) (xs @ [?x]) us" "\<forall>x \<in> set xs. is_delivered x" .
  have "\<forall>u \<in> set (queue_update recovered m us). snd u \<noteq> [] \<and> (\<forall>x \<in> set (snd u). is_delivered x)"
    using set_dict_put [of "mail_identity ?x" "xs @ [?x]" us] q Cons.prems by fastforce
  then have "?P (fold (queue_update recovered) ms (queue_update recovered m us))
      \<and> fst ` set (fold (queue_update recovered) ms (queue_update recovered m us))
        = fst ` set (queue_update recovered m us) \<union> (\<lambda>m. mail_identity (rewritten recovered m)) ` set ms"
    by (rule Cons.IH [rotated]) (use Cons.prems(1) in simp)
  moreover have "fst ` set (queue_update recovered m us) = insert (mail_identity ?x) (fst ` set us)" unfolding q(1) by simp
  ultimately show ?case by (simp add: Un_commute)
qed simp

lemma place_rest_delivered:
  "\<forall>u \<in> set us. \<forall>x \<in> set (snd u). is_delivered x \<Longrightarrow> \<forall>u \<in> set (snd (place_updates us es)). \<forall>x \<in> set (snd u). is_delivered x"
proof (induction us es rule: place_updates.induct)
  case (2 us m ms)
  show ?case
  proof (cases "map_of us (mail_identity m)")
    case (Some xs)
    then have "\<forall>x \<in> set xs. is_delivered x" using 2(4) map_of_SomeD by fastforce
    then have "\<forall>u \<in> set (dict_put (mail_identity m) ys us). \<forall>x \<in> set (snd u). is_delivered x" if "xs = y # ys" for y ys
      using set_dict_put [of "mail_identity m" ys us] 2(4) that by fastforce
    note put = this
    show ?thesis
    proof (cases xs)
      case Nil
      then show ?thesis using 2(2) [OF Some Nil 2(4)] Some by simp
    next
      case (Cons y ys)
      then show ?thesis using 2(3) [OF Some Cons put [OF Cons]] Some by simp
    qed
  qed (use 2 in simp)
qed simp

lemma merge_delivered:
  assumes "distinct (map ml_id es)" "\<forall>m \<in> set ms. is_delivered m" "mail_identity ` set es \<subseteq> mail_identity ` set ms"
    and rec: "\<And>m p. recovered m = Some p \<Longrightarrow> last_by_id es (ml_id m) = Some p"
  shows "\<forall>m \<in> set (merge_rows recovered es ms). is_delivered m"
proof -
  let ?us = "fold (queue_update recovered) ms []"
  have us: "\<forall>u \<in> set ?us. snd u \<noteq> [] \<and> (\<forall>x \<in> set (snd u). is_delivered x)"
    "fst ` set ?us = (\<lambda>m. mail_identity (rewritten recovered m)) ` set ms"
    using queue_fold [of ms "[]" recovered] assms(2) by simp_all
  have rows: "is_delivered (case map_of ?us (mail_identity e) of Some (x # _) \<Rightarrow> x | _ \<Rightarrow> e)" if e: "e \<in> set es" for e
  proof -
    obtain m where m: "m \<in> set ms" "mail_identity m = mail_identity e" using assms(3) e by force
    have "mail_identity (rewritten recovered m) = mail_identity e"
    proof (cases "recovered m")
      case (Some p)
      then have "p \<in> set es" "ml_id p = ml_id e" using rec last_by_idD m(2) by (fastforce simp: mail_identity_def)+
      then have "p = e" using assms(1) e by (auto simp: distinct_map dest: inj_onD)
      then show ?thesis using Some m(2) by (simp add: rewritten_def mail_identity_def)
    qed (simp add: rewritten_def m(2))
    then have "mail_identity e \<in> fst ` set ?us" using us(2) m(1) by force
    then obtain xs where xs: "map_of ?us (mail_identity e) = Some xs"
      by (metis map_of_eq_None_iff option.exhaust)
    have "xs \<noteq> [] \<and> (\<forall>x \<in> set xs. is_delivered x)" using us(1) map_of_SomeD [OF xs] by (metis snd_conv)
    then show ?thesis using xs by (cases xs) simp_all
  qed
  have "\<forall>u \<in> set (snd (place_updates ?us es)). \<forall>x \<in> set (snd u). is_delivered x"
    by (rule place_rest_delivered) (use us(1) in blast)
  moreover have "\<forall>m \<in> set (fst (place_updates ?us es)). is_delivered m"
    unfolding place_rows [OF distinct_identity [OF assms(1)]] using rows by auto
  ultimately show ?thesis by (auto simp: merge_rows_def split_beta)
qed

lemma written_delivered:
  assumes "distinct (map ml_id (read_legacy_mailbox w s))" "\<forall>m \<in> set ms. is_delivered m"
    "mail_identity ` set (read_legacy_mailbox w s) \<subseteq> mail_identity ` set ms"
  shows "pending_mail (read_legacy_mailbox w (write_mailbox br team w ms None s)) = []"
proof -
  obtain recs recoverable where r: "read_legacy_mailbox w (write_mailbox br team w ms None s)
      = merge_rows (recovered_row team (read_legacy_mailbox w s) recs recoverable) (read_legacy_mailbox w s) ms"
    using written_merged [of w br team ms None s] unfolding Let_def remove_replaced_def option.case by blast
  have "recovered_row team es recs recoverable m = Some p \<Longrightarrow> last_by_id es (ml_id m) = Some p" for es m p
    by (simp add: recovered_row_def split: option.splits if_splits)
  then show ?thesis unfolding r no_pending by (intro merge_delivered [OF assms])
qed

definition rows_kept :: "mail list \<Rightarrow> 'b retirement \<Rightarrow> bool" where
  "rows_kept ms t \<longleftrightarrow> mail_identity ` set ms \<subseteq> mail_identity ` set (rt_rows t) \<and> (\<not> rt_changed t \<longrightarrow> rt_rows t = ms)"

lemma retire_record_kept:
  assumes "retire_record br team w legacy recs now r t = (t1, x)" "rows_kept ms t"
  shows "rows_kept ms t1"
proof (cases "record_belongs team w legacy r")
  case True
  define n where "n = normalize_bridge_mail r (if ml_id r \<in> set legacy then List.find (\<lambda>m. ml_id m = ml_id r) (rt_rows t) else None)"
  define hit where "hit = find_index (\<lambda>m. mail_identity m = mail_identity n
    \<or> (ml_id r \<in> set legacy \<or> unique_scoped_match team n recs (rt_rows t)) \<and> content_matches m n) (rt_rows t)"
  define rows where "rows = (if hit = None then rt_rows t @ [n] else rt_rows t)"
  have kept: "mail_identity ` set ms \<subseteq> mail_identity ` set rows" using assms(2) by (auto simp: rows_kept_def rows_def)
  have upd: "mail_identity ` set (rows[k := (rows ! k)\<lparr> ml_delivered := d \<rparr>]) = mail_identity ` set rows" for k d
  proof (cases "k < length rows")
    case True
    have "map mail_identity (rows[k := (rows ! k)\<lparr> ml_delivered := d \<rparr>]) = (map mail_identity rows)[k := mail_identity (rows ! k)]"
      by (simp add: map_update mail_identity_def)
    also have "\<dots> = map mail_identity rows" using True by (metis list_update_id nth_map)
    finally show ?thesis by (metis set_map)
  next
    case False
    then have "rows[k := x] = rows" for x by (simp add: list_update_beyond)
    then show ?thesis by simp
  qed
  define k where "k = (case hit of None \<Rightarrow> length (rt_rows t) | Some k \<Rightarrow> k)"
  define ran where "ran = (if truthy_str (ml_delivered r) then (rt_bridge t, None)
      else (case br_exec br (MarkMailboxDelivered team (ml_id (rows ! k))) (rt_bridge t) of
              (b, Inl f) \<Rightarrow> (b, Some (BridgeError f))
            | (b, Inr ack) \<Rightarrow>
                (b, if js_get ack ''event'' = JStr ''MailboxDelivered'' \<and> js_get ack ''message_id'' = JStr (ml_id (rows ! k))
                    then None else Some (RetirementFailed (ml_id (rows ! k))))))"
  have "rt_rows t1 = rows \<and> rt_changed t1 = (rt_changed t \<or> hit = None)
      \<or> rt_rows t1 = rows[k := (rows ! k)\<lparr> ml_delivered := Some now \<rparr>] \<and> rt_changed t1"
    using assms(1) True
    unfolding retire_record_def Let_def n_def [symmetric] hit_def [symmetric] rows_def [symmetric] k_def [symmetric] ran_def [symmetric]
    by (auto split: option.splits if_splits)
  moreover have "rows = ms" if "\<not> (rt_changed t \<or> hit = None)" using assms(2) that by (simp add: rows_kept_def rows_def)
  ultimately show ?thesis using kept upd by (auto simp: rows_kept_def)
qed (use assms in \<open>simp add: retire_record_def\<close>)

lemma retire_records_kept:
  "retire_records br team w legacy recs now rs t = (t1, x) \<Longrightarrow> rows_kept ms t \<Longrightarrow> rows_kept ms t1"
proof (induction br team w legacy recs now rs t arbitrary: t1 rule: retire_records.induct)
  case (2 br team w legacy recs now r rs t)
  obtain t2 y where y: "retire_record br team w legacy recs now r t = (t2, y)" by fastforce
  then have "rows_kept ms t2" using 2(3) by (rule retire_record_kept)
  then show ?case using 2(1) [OF y [symmetric]] 2(2) y by (cases y) auto
qed simp

lemma rows_bridge [simp]: "read_legacy_mailbox v (s\<lparr> mw_bridge := b \<rparr>) = read_legacy_mailbox v s"
  by (simp add: read_legacy_mailbox_def)

lemma deliver_now_identity: "mail_identity ` set (deliver_now now due ms) = mail_identity ` set ms"
proof -
  have "map mail_identity (deliver_now now due ms) = map mail_identity ms"
    unfolding deliver_now_def map_map by (intro map_cong) (simp_all add: mail_identity_def)
  then show ?thesis by (metis set_map)
qed

lemma retire_with_records_done:
  assumes run: "retire_with_records br team w recs now s = (s1, Inr n)" and dis: "distinct (map ml_id (read_legacy_mailbox w s))"
  shows "pending_mail (read_legacy_mailbox w s1) = [] \<and> (\<forall>v. v \<noteq> w \<longrightarrow> read_legacy_mailbox v s1 = read_legacy_mailbox v s)"
proof -
  define ms where "ms = read_legacy_mailbox w s"
  define legacy where "legacy = legacy_message_ids team w ms (mw_journal s) recs"
  define due where "due = (\<lambda>m :: mail. ml_id m \<notin> set (map ml_id (filter (record_belongs team w legacy) recs)) \<and> ml_id m \<in> set legacy)"
  obtain t y where t: "retire_records br team w legacy recs now recs
      \<lparr> rt_bridge = mw_bridge s, rt_rows = ms, rt_changed = False, rt_count = 0 \<rparr> = (t, y)" by fastforce
  define rows where "rows = deliver_now now due (rt_rows t)"
  define changed where "changed = (rt_changed t \<or> filter due (pending_mail (rt_rows t)) \<noteq> [])"
  have s1: "s1 = (if changed then write_mailbox br team w rows None (s\<lparr> mw_bridge := rt_bridge t \<rparr>) else s\<lparr> mw_bridge := rt_bridge t \<rparr>)"
    and all: "pending_mail rows = []"
    using run
    unfolding retire_with_records_def Let_def ms_def [symmetric] legacy_def [symmetric] t prod.case
      due_def [symmetric] rows_def [symmetric] changed_def [symmetric]
    by (auto split: if_splits option.splits)
  have kept: "rows_kept ms t" using retire_records_kept [OF t] by (simp add: rows_kept_def)
  show ?thesis
  proof (cases changed)
    case True
    have "mail_identity ` set ms \<subseteq> mail_identity ` set rows"
      using kept by (simp add: rows_def deliver_now_identity rows_kept_def)
    then have "pending_mail (read_legacy_mailbox w (write_mailbox br team w rows None (s\<lparr> mw_bridge := rt_bridge t \<rparr>))) = []"
      by (intro written_delivered) (use dis all in \<open>simp_all add: no_pending ms_def\<close>)
    then show ?thesis using True by (simp add: s1)
  next
    case False
    then have "rt_rows t = ms" and "filter due (pending_mail (rt_rows t)) = []" using kept by (simp_all add: changed_def rows_kept_def)
    then have "rows = ms"
      unfolding rows_def deliver_now_def by (intro trans [OF map_idI]) (auto simp: pending_mail_def filter_empty_conv)
    then show ?thesis using False all by (simp add: s1 ms_def)
  qed
qed

lemma retire_worker_done:
  assumes run: "retire_worker br team w now s = (s1, Inr n)" and dis: "distinct (map ml_id (read_legacy_mailbox w s))" and now: "now \<noteq> []"
  shows "pending_mail (read_legacy_mailbox w s1) = [] \<and> (\<forall>v. v \<noteq> w \<longrightarrow> read_legacy_mailbox v s1 = read_legacy_mailbox v s)"
proof (cases "br_enabled br")
  case True
  then show ?thesis
    using run retire_with_records_done [OF _ dis]
    unfolding retire_worker_def Let_def
    by (cases "br_mailbox br (mw_bridge s)") (simp_all add: pending_mail_def split: if_splits)
next
  case False
  let ?ms = "read_legacy_mailbox w s"
  have all: "\<forall>m \<in> set (deliver_now now (\<lambda>_. True) ?ms). is_delivered m" using now by (auto simp: deliver_now_def truthy_str_def)
  have "pending_mail (read_legacy_mailbox w (write_mailbox br team w (deliver_now now (\<lambda>_. True) ?ms) None s)) = []"
    by (rule written_delivered [OF dis all]) (simp add: deliver_now_identity)
  then show ?thesis using run False unfolding retire_worker_def Let_def by (auto split: if_splits)
qed

lemma retire_workers_done:
  "retire_workers br team now ws s = (s1, Inr n) \<Longrightarrow> distinct ws \<Longrightarrow> \<forall>w \<in> set ws. distinct (map ml_id (read_legacy_mailbox w s)) \<Longrightarrow> now \<noteq> []
    \<Longrightarrow> (\<forall>w \<in> set ws. pending_mail (read_legacy_mailbox w s1) = [])
      \<and> (\<forall>v. v \<notin> set ws \<longrightarrow> read_legacy_mailbox v s1 = read_legacy_mailbox v s)"
proof (induction br team now ws s arbitrary: s1 n rule: retire_workers.induct)
  case (2 br team now w ws s)
  obtain s2 k where k: "retire_worker br team w now s = (s2, Inr k)"
    using 2(2) by (auto split: prod.splits sum.splits)
  obtain n' where n': "retire_workers br team now ws s2 = (s1, Inr n')"
    using 2(2) k by (cases "retire_workers br team now ws s2"; cases "snd (retire_workers br team now ws s2)") auto
  have settled: "pending_mail (read_legacy_mailbox w s2) = []" "\<forall>v. v \<noteq> w \<longrightarrow> read_legacy_mailbox v s2 = read_legacy_mailbox v s"
    using retire_worker_done [OF k] 2(4,5) by simp_all
  have "\<forall>v \<in> set ws. distinct (map ml_id (read_legacy_mailbox v s2))" using 2(3,4) settled(2) by auto
  then have "(\<forall>w \<in> set ws. pending_mail (read_legacy_mailbox w s1) = [])
      \<and> (\<forall>v. v \<notin> set ws \<longrightarrow> read_legacy_mailbox v s1 = read_legacy_mailbox v s2)"
    using 2(1) [OF k [symmetric] refl n'] 2(3,5) by simp
  then show ?case using settled 2(3) by auto
qed simp

text \<open>C13. A retirement that succeeds, whatever the bridge answered, leaves no undelivered message in the
  shadow file of a worker that was named or has a safe name; a message it cannot account for
  makes it fail.\<close>

theorem retirement_complete:
  assumes "retire_team_mailbox_messages br team names now s = (s1, Inr n)" and "now \<noteq> []"
    and "\<forall>ms \<in> snd ` set (mw_files s). distinct (map ml_id ms)"
    and "w \<in> set names \<or> worker_name_safe w"
  shows "pending_mail (read_legacy_mailbox w s1) = []"
proof -
  obtain s2 targets where t: "retirement_targets br team names s = (s2, Inr targets)" "retire_workers br team now targets s2 = (s1, Inr n)"
    using assms(1) by (auto simp: retire_team_mailbox_messages_def split: prod.splits sum.splits)
  have targets: "distinct targets" "set names \<union> {v \<in> set (map fst (mw_files s)). worker_name_safe v} \<subseteq> set targets" "mw_files s2 = mw_files s"
    using t(1) by (auto simp: retirement_targets_def Let_def simp del: set_map split: if_splits prod.splits sum.splits)
  have rows: "read_legacy_mailbox v s2 = read_legacy_mailbox v s" for v by (simp add: read_legacy_mailbox_def targets(3))
  have "distinct (map ml_id (read_legacy_mailbox v s))" for v
    using assms(3) map_of_SomeD [of "mw_files s" v] by (fastforce simp: read_legacy_mailbox_def split: option.split)
  then have settled: "(\<forall>v \<in> set targets. pending_mail (read_legacy_mailbox v s1) = [])
      \<and> (\<forall>v. v \<notin> set targets \<longrightarrow> read_legacy_mailbox v s1 = read_legacy_mailbox v s2)"
    by (intro retire_workers_done [OF t(2) targets(1) _ assms(2)]) (simp add: rows)
  show ?thesis
  proof (cases "w \<in> set targets")
    case False
    then have "w \<notin> set (map fst (mw_files s))" using targets(2) assms(4) by blast
    then have "map_of (mw_files s) w = None" by (simp add: map_of_eq_None_iff)
    then have "read_legacy_mailbox w s = []" by (simp add: read_legacy_mailbox_def)
    then show ?thesis using settled False by (simp add: rows pending_mail_def)
  qed (use settled in blast)
qed

text \<open>Whatever the bridge shows, a mailbox holds messages to its worker only: the team's records, and
  messages whose creation the journal of the team records.\<close>

theorem mailbox_isolated:
  assumes "m \<in> set (list_mailbox_messages br team w s)"
  shows "ml_to m = w \<and> (recorded team w s (ml_id m)
    \<or> (\<exists>r \<in> set (read_mailbox_records br (mw_bridge s)). bm_team r = Some team \<and> ml_id r = ml_id m \<and> ml_from r = ml_from m))"
proof -
  let ?ms = "read_legacy_mailbox w s" and ?recs = "read_mailbox_records br (mw_bridge s)"
  have proven: "recorded team w s i \<and> (\<forall>x \<in> set ?ms. ml_id x = i \<longrightarrow> ml_to x = w)"
    if "i \<in> set (legacy_message_ids team w ?ms (mw_journal s) recs)" for i recs
    using that by (auto simp: in_legacy recorded_def provable_shadow_def list_all_iff Let_def)
  show ?thesis
  proof (cases "br_enabled br \<and> br_mailbox br (mw_bridge s) \<notin> {CompatMissing, CompatUnreadable}")
    case True
    define legacy where "legacy = (if needs_legacy_evidence team w ?ms ?recs then legacy_message_ids team w ?ms (mw_journal s) ?recs else [])"
    have legacy: "i \<in> set legacy \<Longrightarrow> recorded team w s i \<and> (\<forall>x \<in> set ?ms. ml_id x = i \<longrightarrow> ml_to x = w)" for i
      using proven [of i ?recs] by (simp add: legacy_def split: if_splits)
    have "m \<in> set (merged_mailbox team w ?ms ?recs legacy)"
      using assms True by (simp add: list_mailbox_messages_def read_mailbox_def legacy_def Let_def)
    then consider r where "r \<in> set ?recs" "record_belongs team w legacy r" "ml_id m = ml_id r" "ml_from m = ml_from r" "ml_to m = ml_to r"
      | "m \<in> set ?ms" "ml_id m \<in> set legacy"
      by (auto simp: merged_mailbox_def Let_def normalize_bridge_mail_def)
    then show ?thesis
    proof cases
      case 1
      then show ?thesis using legacy by (cases "bm_team r") (auto simp: record_belongs_def)
    next
      case 2
      then show ?thesis using legacy by blast
    qed
  next
    case False
    then have "m \<in> set ?ms" "ml_id m \<in> set (legacy_message_ids team w ?ms (mw_journal s) [])"
      using assms by (auto simp: list_mailbox_messages_def read_mailbox_def Let_def)
    then show ?thesis using proven by blast
  qed
qed

subsection \<open>Concrete mailboxes\<close>

definition no_bridge :: "unit mail_bridge" where
  "no_bridge = \<lparr> br_enabled = False, br_mailbox = \<lambda>_. CompatMissing, br_events = \<lambda>_. NoFile, br_snapshot = \<lambda>_. False,
     br_dispatch_seen = \<lambda>_. False, br_exec = \<lambda>_ b. (b, Inl TransportFailure), br_check = \<lambda>_. None \<rparr>"

definition one_sent :: "unit mail_world" where
  "one_sent = fst (send_direct_message no_bridge ''t'' None ''a'' ''b'' ''x'' ''1'' ''n'' (empty_mail ()))"

lemma one_sent_value:
  "\<not> br_enabled no_bridge \<and> unused_id ''b'' ''1'' (empty_mail ()) \<and> unused_id ''b'' ''2'' one_sent
    \<and> list_mailbox_messages no_bridge ''t'' ''b'' one_sent = [new_mail ''1'' ''a'' ''b'' ''x'' ''n'']"
  by code_simp

lemma one_sent_reachable: "(mail_step no_bridge ''t'')\<^sup>*\<^sup>* (empty_mail ()) one_sent"
  unfolding one_sent_def using one_sent_value by (intro r_into_rtranclp mail_step.Sent) blast

theorem mailbox_refines_witness:
  "list_mailbox_messages no_bridge ''t'' ''b''
      (fst (send_direct_message no_bridge ''t'' None ''a'' ''b'' ''y'' ''2'' ''n'' one_sent))
    = [new_mail ''1'' ''a'' ''b'' ''x'' ''n'', new_mail ''2'' ''a'' ''b'' ''y'' ''n'']"
proof -
  have "unused_id ''b'' ''2'' one_sent" "\<not> br_enabled no_bridge" using one_sent_value by simp_all
  from mailbox_refines [OF this(2) one_sent_reachable this(1), of "''a''" "''y''" "''n''" None "''1''"] show ?thesis
    using one_sent_value
    by (simp add: Let_def split_beta sent_mail_def find_existing_def new_mail_def)
qed

definition half_retired :: "unit mail_world" where
  "half_retired = fst (retire_team_mailbox_messages no_bridge ''t'' [''b''] ''n'' one_sent)"

lemma half_retired_value:
  "snd (retire_team_mailbox_messages no_bridge ''t'' [''b''] ''n'' one_sent) = Inr 1
    \<and> list_all (\<lambda>f. distinct (map ml_id (snd f))) (mw_files one_sent)"
  by code_simp

theorem retirement_complete_witness:
  "pending_mail (read_legacy_mailbox ''b'' half_retired) = [] \<and> pending_mail (read_legacy_mailbox ''b'' one_sent) \<noteq> []"
proof -
  have "retire_team_mailbox_messages no_bridge ''t'' [''b''] ''n'' one_sent = (half_retired, Inr 1)"
    using half_retired_value by (simp add: half_retired_def prod_eq_iff)
  moreover have "\<forall>ms \<in> snd ` set (mw_files one_sent). distinct (map ml_id ms)"
    using half_retired_value by (auto simp: list_all_iff)
  moreover have "pending_mail (read_legacy_mailbox ''b'' one_sent) \<noteq> []" by code_simp
  ultimately show ?thesis using retirement_complete [of no_bridge "''t''" "[''b'']" "''n''" one_sent half_retired 1 "''b''"] by simp
qed

text \<open>A send that stops between the shadow file and the journal makes every retirement of the team fail.\<close>

theorem cut_short_blocks_retirement:
  "snd (retire_team_mailbox_messages no_bridge ''t'' [] ''n''
      (send_cut_short no_bridge ''t'' ''b'' (new_mail ''2'' ''a'' ''b'' ''y'' ''n'') one_sent)) = Inl (RetirementUnproven [''2''])"
  by code_simp

end
