(* ===== verification/QuestionSchema.thy ===== *)
theory QuestionSchema
  imports JsValue
begin

text \<open>
  The questions a workflow asks its user (\<open>src/question/types.ts\<close>), the answers that are submitted
  (\<open>src/question/events.ts\<close>) and their check against the schema of the question
  (\<open>src/question/state.ts\<close>). Input and answers are untyped values; an error of the code is a
  constructor, with the position its text names.
\<close>

datatype question_type = SingleAnswerable | MultiAnswerable

record question_option =
  qo_label :: string
  qo_value :: string
  qo_description :: "string option"

record question_item =
  qi_id :: string
  qi_header :: "string option"
  qi_question :: string
  qi_options :: "question_option list"
  qi_allow_other :: bool
  qi_other_label :: string
  qi_type :: question_type

record question_input =
  qn_header :: "string option"
  qn_questions :: "question_item list"
  qn_source :: "string option"
  qn_session :: "string option"

datatype question_error =
    InputNotAnObject
  | ItemNotAnObject nat
  | BadQuestionType
  | QuestionRequired nat
  | OptionsRequired nat
  | TypeConflict nat
  | OptionEmpty nat
  | OptionNotAnObject nat
  | OptionLabelRequired nat
  | NoQuestions
  | RepeatedQuestion string
  | AnswerMissing
  | AnswerEntryInvalid nat
  | UnknownQuestion string
  | RepeatedAnswer string
  | AnswerNotAnObject nat
  | AnswerKindInvalid nat
  | SelectionMissing nat
  | NotAStringList
  | RepeatedValue string
  | KindNotAllowed
  | OtherTextMismatch
  | NotOneOption
  | ValueNotInSchema string
  | ValueMismatch
  | LabelMismatch
  | AnswerCountMismatch nat

text \<open>\<open>map\<close> with a function that may throw: the first error.\<close>

fun try_map :: "('a \<Rightarrow> 'e + 'b) \<Rightarrow> 'a list \<Rightarrow> 'e + 'b list" where
  "try_map f [] = Inr []"
| "try_map f (x # xs) =
     (case f x of
        Inl e \<Rightarrow> Inl e
      | Inr y \<Rightarrow> (case try_map f xs of Inl e \<Rightarrow> Inl e | Inr ys \<Rightarrow> Inr (y # ys)))"

subsection \<open>Normalising a question\<close>

definition plain_object :: "js \<Rightarrow> bool" where
  "plain_object v \<longleftrightarrow> is_object v \<and> js_array v = None"

definition text_option :: "string \<Rightarrow> string option" where
  "text_option s = (if s = [] then None else Some s)"

definition normalize_option :: "nat \<Rightarrow> js \<Rightarrow> question_error + question_option" where
  "normalize_option index raw =
     (case raw of
        JStr s \<Rightarrow>
          (if js_trim s = [] then Inl (OptionEmpty index)
           else Inr \<lparr> qo_label = js_trim s, qo_value = js_trim s, qo_description = None \<rparr>)
      | _ \<Rightarrow>
          (if \<not> plain_object raw then Inl (OptionNotAnObject index)
           else (let label = trimmed (js_get raw ''label''); value = trimmed (js_get raw ''value'')
                 in if label = [] then Inl (OptionLabelRequired index)
                    else Inr \<lparr> qo_label = label, qo_value = (if value = [] then label else value),
                               qo_description = text_option (trimmed (js_get raw ''description'')) \<rparr>)))"

definition parse_question_type :: "js \<Rightarrow> question_error + question_type option" where
  "parse_question_type raw =
     (let t = js_lower (trimmed raw)
      in if t = [] then Inr None
         else if t = ''multi-answerable'' \<or> t = ''multi-select'' then Inr (Some MultiAnswerable)
         else if t = ''single-answerable'' \<or> t = ''single-select'' then Inr (Some SingleAnswerable)
         else Inl BadQuestionType)"

definition normalized_question_type :: "question_type option \<Rightarrow> bool \<Rightarrow> question_type" where
  "normalized_question_type t multi =
     (case t of Some x \<Rightarrow> x | None \<Rightarrow> (if multi then MultiAnswerable else SingleAnswerable))"

definition normalize_question_item :: "string option \<Rightarrow> nat \<Rightarrow> js \<Rightarrow> question_error + question_item" where
  "normalize_question_item inherited index raw =
     (if \<not> plain_object raw then Inl (ItemNotAnObject index)
      else (case parse_question_type (js_get raw ''type'') of
              Inl e \<Rightarrow> Inl e
            | Inr t \<Rightarrow>
           (let get = (\<lambda>k. trimmed (js_get raw k));
                multi = js_get raw ''multi_select'';
                allow = (js_get raw ''allow_other'' \<noteq> JBool False);
                options = (case js_get raw ''options'' of JArr vs \<Rightarrow> vs | _ \<Rightarrow> [])
            in if get ''question'' = [] then Inl (QuestionRequired index)
               else if options = [] \<and> \<not> allow then Inl (OptionsRequired index)
               else if t = Some SingleAnswerable \<and> multi = JBool True then Inl (TypeConflict index)
               else if t = Some MultiAnswerable \<and> multi = JBool False then Inl (TypeConflict index)
               else (case try_map (\<lambda>(i, v). normalize_option i v) (enumerate 0 options) of
                       Inl e \<Rightarrow> Inl e
                     | Inr opts \<Rightarrow>
                         Inr \<lparr> qi_id = (if get ''id'' = [] then ''q-'' @ string_of_nat (Suc index) else get ''id''),
                               qi_header = (if get ''header'' \<noteq> [] then Some (get ''header'')
                                            else if index = 0 then inherited else None),
                               qi_question = get ''question'', qi_options = opts, qi_allow_other = allow,
                               qi_other_label = (if get ''other_label'' = [] then ''Other'' else get ''other_label''),
                               qi_type = normalized_question_type t (multi = JBool True) \<rparr>))))"

text \<open>A question without a list of questions: the object itself, as the first one.\<close>

definition normalize_legacy_question :: "string option \<Rightarrow> js \<Rightarrow> question_error + question_item" where
  "normalize_legacy_question header raw =
     (case raw of
        JObj r \<Rightarrow>
          normalize_question_item header 0
            (JObj (rec_set ''header'' (case header of None \<Rightarrow> JUndef | Some h \<Rightarrow> JStr h)
              (rec_set ''id'' (JStr (if trimmed (rec_get r ''id'') = [] then ''q-1'' else trimmed (rec_get r ''id''))) r)))
      | _ \<Rightarrow> Inl InputNotAnObject)"

fun repeated_question :: "string list \<Rightarrow> question_item list \<Rightarrow> string option" where
  "repeated_question seen [] = None"
| "repeated_question seen (q # qs) =
     (if qi_id q \<in> set seen then Some (qi_id q) else repeated_question (qi_id q # seen) qs)"

definition normalize_question_input :: "js \<Rightarrow> question_error + question_input" where
  "normalize_question_input raw =
     (if \<not> plain_object raw then Inl InputNotAnObject
      else (let header = text_option (trimmed (js_get raw ''header''))
            in case (case js_get raw ''questions'' of
                       JArr vs \<Rightarrow> try_map (\<lambda>(i, v). normalize_question_item header i v) (enumerate 0 vs)
                     | _ \<Rightarrow> map_sum id (\<lambda>q. [q]) (normalize_legacy_question header raw)) of
                 Inl e \<Rightarrow> Inl e
               | Inr qs \<Rightarrow>
                   (if qs = [] then Inl NoQuestions
                    else (case repeated_question [] qs of
                            Some i \<Rightarrow> Inl (RepeatedQuestion i)
                          | None \<Rightarrow>
                              Inr \<lparr> qn_header = header, qn_questions = qs,
                                    qn_source = text_option (trimmed (js_get raw ''source'')),
                                    qn_session = text_option (trimmed (js_get raw ''session_id'')) \<rparr>))))"

text \<open>What \<open>JSON.stringify\<close> writes of a normalised input; the fields of the first question are repeated at
  the top.\<close>

definition option_js :: "question_option \<Rightarrow> js" where
  "option_js p = JObj [(''label'', JStr (qo_label p)), (''value'', JStr (qo_value p)),
     (''description'', case qo_description p of None \<Rightarrow> JUndef | Some d \<Rightarrow> JStr d)]"

definition type_js :: "question_type \<Rightarrow> js" where
  "type_js t = JStr (case t of SingleAnswerable \<Rightarrow> ''single-answerable'' | MultiAnswerable \<Rightarrow> ''multi-answerable'')"

definition item_fields :: "question_item \<Rightarrow> js_record" where
  "item_fields q =
     [(''question'', JStr (qi_question q)), (''options'', JArr (map option_js (qi_options q))),
      (''allow_other'', JBool (qi_allow_other q)), (''other_label'', JStr (qi_other_label q)),
      (''multi_select'', JBool (qi_type q = MultiAnswerable)), (''type'', type_js (qi_type q))]"

definition item_js :: "question_item \<Rightarrow> js" where
  "item_js q = JObj ([(''id'', JStr (qi_id q)), (''header'', case qi_header q of None \<Rightarrow> JUndef | Some h \<Rightarrow> JStr h)] @ item_fields q)"

definition input_js :: "question_input \<Rightarrow> js" where
  "input_js n =
     JObj ([(''header'', case qn_header n of None \<Rightarrow> JUndef | Some h \<Rightarrow> JStr h)] @ item_fields (hd (qn_questions n))
       @ [(''questions'', JArr (map item_js (qn_questions n))),
          (''source'', case qn_source n of None \<Rightarrow> JUndef | Some s \<Rightarrow> JStr s),
          (''session_id'', case qn_session n of None \<Rightarrow> JUndef | Some s \<Rightarrow> JStr s)])"

subsection \<open>Submitted answers\<close>

record answer_entry =
  ae_question :: string
  ae_index :: int
  ae_answer :: js

text \<open>The entries of a payload: an array, its \<open>answers\<close>, or one \<open>answer\<close> to the first question.\<close>

definition raw_answers :: "question_item list \<Rightarrow> js \<Rightarrow> js list" where
  "raw_answers qs raw =
     (case raw of
        JArr vs \<Rightarrow> vs
      | _ \<Rightarrow>
          (case js_get raw ''answers'' of
             JArr vs \<Rightarrow> vs
           | _ \<Rightarrow>
               (if js_truthy (js_get raw ''answer'')
                then [JObj [(''question_id'', JStr (case qs of [] \<Rightarrow> ''q-1'' | q # _ \<Rightarrow> qi_id q)), (''index'', JInt 0),
                            (''answer'', js_get raw ''answer'')]]
                else [])))"

definition answer_question_id :: "question_item list \<Rightarrow> nat \<Rightarrow> js \<Rightarrow> string" where
  "answer_question_id qs index e =
     (if trimmed (js_get e ''question_id'') \<noteq> [] then trimmed (js_get e ''question_id'')
      else if index < length qs then qi_id (qs ! index)
      else if index = 0 then ''q-1'' else [])"

definition normalize_answer :: "question_item list \<Rightarrow> string list \<Rightarrow> nat \<Rightarrow> js \<Rightarrow> question_error + answer_entry" where
  "normalize_answer qs seen index e =
     (if \<not> plain_object e then Inl (AnswerEntryInvalid index)
      else (let i = answer_question_id qs index e; a = js_get e ''answer''
            in if i = [] \<or> i \<notin> (if qs = [] then {''q-1''} else qi_id ` set qs) then Inl (UnknownQuestion i)
               else if i \<in> set seen then Inl (RepeatedAnswer i)
               else if \<not> plain_object a then Inl (AnswerNotAnObject index)
               else if trimmed (js_get a ''kind'') \<notin> {''option'', ''other'', ''multi''} then Inl (AnswerKindInvalid index)
               else if js_array (js_get a ''selected_labels'') = None \<or> js_array (js_get a ''selected_values'') = None
               then Inl (SelectionMissing index)
               else Inr \<lparr> ae_question = i,
                          ae_index = (case js_integer (js_get e ''index'') of None \<Rightarrow> int index | Some k \<Rightarrow> k),
                          ae_answer = a \<rparr>))"

fun normalize_answers :: "question_item list \<Rightarrow> string list \<Rightarrow> nat \<Rightarrow> js list \<Rightarrow> question_error + answer_entry list" where
  "normalize_answers qs seen index [] = Inr []"
| "normalize_answers qs seen index (e # es) =
     (case normalize_answer qs seen index e of
        Inl x \<Rightarrow> Inl x
      | Inr a \<Rightarrow>
          (case normalize_answers qs (ae_question a # seen) (Suc index) es of
             Inl x \<Rightarrow> Inl x
           | Inr as \<Rightarrow> Inr (a # as)))"

definition normalize_submitted_answers :: "question_item list \<Rightarrow> js \<Rightarrow> question_error + answer_entry list" where
  "normalize_submitted_answers qs raw =
     (if raw_answers qs raw = [] then Inl AnswerMissing else normalize_answers qs [] 0 (raw_answers qs raw))"

subsection \<open>Answers against their question\<close>

definition string_list :: "js \<Rightarrow> string list option" where
  "string_list v =
     (case v of
        JArr vs \<Rightarrow>
          (if list_all (\<lambda>x. trimmed x \<noteq> []) vs then Some (map (\<lambda>x. the (js_string x)) vs) else None)
      | _ \<Rightarrow> None)"

fun repeated_value :: "string list \<Rightarrow> string list \<Rightarrow> string option" where
  "repeated_value seen [] = None"
| "repeated_value seen (v # vs) = (if v \<in> set seen then Some v else repeated_value (v # seen) vs)"

text \<open>The label of an option value; a map built from the options, so the last one.\<close>

definition option_label :: "question_item \<Rightarrow> string \<Rightarrow> string option" where
  "option_label q v = map_option qo_label (List.find (\<lambda>p. qo_value p = v) (rev (qi_options q)))"

definition expected_label :: "question_item \<Rightarrow> string option \<Rightarrow> string \<Rightarrow> question_error + string" where
  "expected_label q other v =
     (if truthy_str (option_label q v) then Inr (the (option_label q v))
      else if qi_allow_other q \<and> other = Some v then Inr (qi_other_label q)
      else Inl (ValueNotInSchema v))"

definition labels_error :: "string list \<Rightarrow> question_error + string list \<Rightarrow> question_error option" where
  "labels_error labels expected =
     (case expected of Inl e \<Rightarrow> Some e | Inr ls \<Rightarrow> (if labels = ls then None else Some LabelMismatch))"

definition other_error :: "question_item \<Rightarrow> string list \<Rightarrow> string list \<Rightarrow> string option \<Rightarrow> js \<Rightarrow> question_error option" where
  "other_error q vs ls other v =
     (if \<not> qi_allow_other q then Some KindNotAllowed
      else if qi_type q = MultiAnswerable then Some KindNotAllowed
      else (case other of
              None \<Rightarrow> Some OtherTextMismatch
            | Some t \<Rightarrow>
                (if vs \<noteq> [t] \<or> v \<noteq> JStr t then Some OtherTextMismatch
                 else labels_error ls (Inr [qi_other_label q]))))"

definition single_error :: "question_item \<Rightarrow> string list \<Rightarrow> string list \<Rightarrow> js \<Rightarrow> question_error option" where
  "single_error q vs ls v =
     (if qi_type q = MultiAnswerable then Some KindNotAllowed
      else (case (vs, ls) of
              ([x], [_]) \<Rightarrow>
                (if x \<notin> qo_value ` set (qi_options q) then Some (ValueNotInSchema x)
                 else if v \<noteq> JStr x then Some ValueMismatch
                 else labels_error ls (try_map (expected_label q None) vs))
            | _ \<Rightarrow> Some NotOneOption))"

definition multi_error :: "question_item \<Rightarrow> string list \<Rightarrow> string list \<Rightarrow> string option \<Rightarrow> js \<Rightarrow> question_error option" where
  "multi_error q vs ls other v =
     (let foreign = filter (\<lambda>x. x \<notin> qo_value ` set (qi_options q)) vs
      in if qi_type q \<noteq> MultiAnswerable then Some KindNotAllowed
         else if v \<noteq> JArr (map JStr vs) then Some ValueMismatch
         else if foreign \<noteq> [] \<and> \<not> qi_allow_other q then Some (ValueNotInSchema (hd foreign))
         else if foreign \<noteq> [] \<and> (other = None \<or> foreign \<noteq> [the other]) then Some OtherTextMismatch
         else labels_error ls (try_map (expected_label q other) vs))"

definition validate_answer :: "question_item \<Rightarrow> js \<Rightarrow> question_error option" where
  "validate_answer q a =
     (case string_list (js_get a ''selected_values'') of None \<Rightarrow> Some NotAStringList | Some vs \<Rightarrow>
     (case string_list (js_get a ''selected_labels'') of None \<Rightarrow> Some NotAStringList | Some ls \<Rightarrow>
     (case repeated_value [] vs of Some v \<Rightarrow> Some (RepeatedValue v) | None \<Rightarrow>
       (let other = text_option (trimmed (js_get a ''other_text'')); v = js_get a ''value''
        in if js_get a ''kind'' = JStr ''other'' then other_error q vs ls other v
           else if js_get a ''kind'' = JStr ''option'' then single_error q vs ls v
           else multi_error q vs ls other v))))"

definition validate_answers :: "question_item list \<Rightarrow> answer_entry list \<Rightarrow> question_error option" where
  "validate_answers qs es =
     (let n = card (qi_id ` set qs)
      in if 0 < n \<and> length es \<noteq> n then Some (AnswerCountMismatch n)
         else (case try_map (\<lambda>e. case List.find (\<lambda>q. qi_id q = ae_question e) qs of
                 None \<Rightarrow> Inl (UnknownQuestion (ae_question e))
               | Some q \<Rightarrow> (case validate_answer q (ae_answer e) of None \<Rightarrow> Inr () | Some x \<Rightarrow> Inl x)) es of
              Inl x \<Rightarrow> Some x
            | Inr _ \<Rightarrow> None))"

end
