(* ===== verification/QuestionState.thy ===== *)
theory QuestionState
  imports QuestionSchema Regex
begin

text \<open>
  The life of a question (\<open>src/question/state.ts\<close>): a record per question, its status, and the log of
  answered events. Prompting, answering and submitting hold the submit lock of the question and
  are one step; \<open>markQuestionTerminalError\<close> holds no lock and is a read and a later write. The
  records are those the code creates, with at least one normalised question.
\<close>

datatype question_status = QPending | QPrompting | QAnswered | QAborted | QError | QSuperseded

record renderer_state =
  rs_renderer :: string
  rs_target :: string
  rs_return_target :: "string option"
  rs_return_keys :: bool  \<comment> \<open>the return transport is \<open>tmux-send-keys\<close>\<close>

record question_record =
  qr_id :: string
  qr_session :: "string option"
  qr_run :: "string option"
  qr_created :: string
  qr_updated :: string
  qr_status :: question_status
  qr_header :: "string option"
  qr_questions :: "question_item list"
  qr_source :: "string option"
  qr_renderer :: "renderer_state option"
  qr_answer :: "js option"
  qr_answers :: "answer_entry list option"
  qr_error :: "(string \<times> string \<times> string) option"

record question_store =
  qw_records :: "(string \<times> question_record) list"
  qw_answered :: "string list"  \<comment> \<open>the questions with an event \<open>question-answered\<close>\<close>
  qw_created :: "string list"

datatype question_effect = CloseRenderer "renderer_state option" | InjectAnswers string "answer_entry list"

datatype submit_error = QuestionUnknown | QuestionNotOpen question_status | QuestionInvalidAnswer question_error

definition is_terminal_question :: "question_status \<Rightarrow> bool" where
  "is_terminal_question s \<longleftrightarrow> s \<in> {QAnswered, QAborted, QError, QSuperseded}"

definition read_question :: "question_store \<Rightarrow> string \<Rightarrow> question_record option" where
  "read_question st i = map_of (qw_records st) i"

definition write_question :: "string \<Rightarrow> question_record \<Rightarrow> question_store \<Rightarrow> question_store" where
  "write_question i r st = st\<lparr> qw_records := dict_put i r (qw_records st) \<rparr>"

definition create_question ::
    "string \<Rightarrow> js \<Rightarrow> string option \<Rightarrow> string option \<Rightarrow> bool \<Rightarrow> string \<Rightarrow> question_store
      \<Rightarrow> question_store \<times> (question_error + question_record)" where
  "create_question fresh raw session run emit now st =
     (case normalize_question_input raw of
        Inl e \<Rightarrow> (st, Inl e)
      | Inr n \<Rightarrow>
          (let r = \<lparr> qr_id = fresh, qr_session = (if truthy_str session then session else None),
                     qr_run = (if truthy_str run then run else None), qr_created = now, qr_updated = now, qr_status = QPending,
                     qr_header = qn_header n, qr_questions = qn_questions n, qr_source = qn_source n,
                     qr_renderer = None, qr_answer = None, qr_answers = None, qr_error = None \<rparr>;
               st1 = write_question fresh r st
           in (if emit then st1\<lparr> qw_created := qw_created st1 @ [fresh] \<rparr> else st1, Inr r)))"

subsection \<open>Prompting and answering\<close>

definition prompted :: "renderer_state \<Rightarrow> string \<Rightarrow> question_record \<Rightarrow> question_record" where
  "prompted renderer now r =
     (if is_terminal_question (qr_status r) then r
      else r\<lparr> qr_status := QPrompting, qr_updated := now, qr_renderer := Some renderer \<rparr>)"

definition mark_question_prompting ::
    "string \<Rightarrow> renderer_state \<Rightarrow> string \<Rightarrow> question_store \<Rightarrow> question_store \<times> question_effect list \<times> question_record option" where
  "mark_question_prompting i renderer now st =
     (case read_question st i of
        None \<Rightarrow> (st, [], None)
      | Some r \<Rightarrow>
          (write_question i (prompted renderer now r) st,
           if is_terminal_question (qr_status r) then [CloseRenderer (Some renderer)] else [], Some (prompted renderer now r)))"

definition answered :: "answer_entry list \<Rightarrow> string \<Rightarrow> question_record \<Rightarrow> question_record" where
  "answered es now r =
     r\<lparr> qr_status := QAnswered, qr_updated := now,
        qr_answer := (case es of e # _ \<Rightarrow> (if js_truthy (ae_answer e) then Some (ae_answer e) else qr_answer r) | [] \<Rightarrow> qr_answer r),
        qr_answers := Some es, qr_error := None \<rparr>"

definition pane_name :: "string \<Rightarrow> bool" where
  "pane_name s \<longleftrightarrow> (case s of c # ds \<Rightarrow> c = CHR ''%'' \<and> ds \<noteq> [] \<and> list_all is_digit ds | [] \<Rightarrow> False)"

text \<open>The answers go back to the pane of the asker, then the renderer is closed.\<close>

definition answered_effects :: "question_record \<Rightarrow> question_effect list" where
  "answered_effects r =
     (case (qr_renderer r, qr_answers r) of
        (Some s, Some (e # es)) \<Rightarrow>
          (case rs_return_target s of
             Some t \<Rightarrow> (if rs_return_keys s \<and> pane_name (js_trim t) then [InjectAnswers (js_trim t) (e # es)] else [])
           | None \<Rightarrow> [])
      | _ \<Rightarrow> []) @ [CloseRenderer (qr_renderer r)]"

text \<open>The answer of the user interface: it is recorded whatever the status of the question is.\<close>

definition mark_question_answered ::
    "string \<Rightarrow> answer_entry list \<Rightarrow> string \<Rightarrow> question_store \<Rightarrow> question_store \<times> question_effect list \<times> question_record option" where
  "mark_question_answered i es now st =
     (case read_question st i of
        None \<Rightarrow> (st, [], None)
      | Some r \<Rightarrow> (write_question i (answered es now r) st, answered_effects (answered es now r), Some (answered es now r)))"

definition single_answer :: "question_record \<Rightarrow> js \<Rightarrow> answer_entry list" where
  "single_answer r a =
     [\<lparr> ae_question = (case qr_questions r of [] \<Rightarrow> ''q-1'' | q # _ \<Rightarrow> qi_id q), ae_index = 0, ae_answer = a \<rparr>]"

definition append_answered_once :: "string \<Rightarrow> question_store \<Rightarrow> question_store" where
  "append_answered_once i st =
     (if i \<in> set (qw_answered st) then st else st\<lparr> qw_answered := qw_answered st @ [i] \<rparr>)"

definition valid_question_id :: "string \<Rightarrow> bool" where
  "valid_question_id i \<longleftrightarrow>
     js_starts_with i ''question-'' \<and> drop 9 i \<noteq> []
     \<and> list_all (\<lambda>c. is_word_char c \<or> c = CHR ''.'' \<or> c = CHR ''-'') (drop 9 i) \<and> \<not> js_includes i ''..''"

definition submit_question_answer ::
    "string \<Rightarrow> js \<Rightarrow> string \<Rightarrow> question_store
      \<Rightarrow> question_store \<times> question_effect list \<times> (submit_error + question_record)" where
  "submit_question_answer question_id payload now st =
     (let i = js_trim question_id
      in if \<not> valid_question_id i then (st, [], Inl QuestionUnknown)
         else (case read_question st i of
                 None \<Rightarrow> (st, [], Inl QuestionUnknown)
               | Some r \<Rightarrow>
                   (if qr_status r \<noteq> QPending \<and> qr_status r \<noteq> QPrompting then (st, [], Inl (QuestionNotOpen (qr_status r)))
                    else (case normalize_submitted_answers (qr_questions r) payload of
                            Inl e \<Rightarrow> (st, [], Inl (QuestionInvalidAnswer e))
                          | Inr es \<Rightarrow>
                              (case validate_answers (qr_questions r) es of
                                 Some e \<Rightarrow> (st, [], Inl (QuestionInvalidAnswer e))
                               | None \<Rightarrow>
                                   (append_answered_once (qr_id r) (write_question i (answered es now r) st),
                                    answered_effects (answered es now r), Inr (answered es now r)))))))"

subsection \<open>Ending without an answer\<close>

text \<open>The record that is written over the one read before.\<close>

definition terminal_error :: "question_status \<Rightarrow> string \<Rightarrow> string \<Rightarrow> string \<Rightarrow> question_record \<Rightarrow> question_record" where
  "terminal_error status code message now r =
     r\<lparr> qr_status := status, qr_updated := now, qr_error := Some (code, message, now) \<rparr>"

text \<open>Waiting: a list of polls, each with the record read, whether the renderer is alive and the time
  since the start; \<open>None\<close> when the polls end before the wait does.\<close>

datatype wait_result = WaitDone question_record | WaitRecordMissing | WaitRendererGone | WaitTimedOut

fun wait_for_terminal :: "int option \<Rightarrow> (question_record option \<times> bool \<times> int) list \<Rightarrow> wait_result option" where
  "wait_for_terminal limit [] = None"
| "wait_for_terminal limit ((r, alive, elapsed) # polls) =
     (case r of
        None \<Rightarrow> Some WaitRecordMissing
      | Some q \<Rightarrow>
          (if is_terminal_question (qr_status q) then Some (WaitDone q)
           else if \<not> alive then Some WaitRendererGone
           else if (case limit of Some t \<Rightarrow> 0 \<le> t \<and> t < elapsed | None \<Rightarrow> False) then Some WaitTimedOut
           else wait_for_terminal limit polls))"

subsection \<open>Runs\<close>

text \<open>Questions are created under fresh identifiers, prompted and submitted, in any order.\<close>

inductive question_step :: "question_store \<Rightarrow> question_store \<Rightarrow> bool" where
  Created: "fresh \<notin> fst ` set (qw_records st) \<Longrightarrow> fresh \<notin> set (qw_answered st) \<Longrightarrow>
     question_step st (fst (create_question fresh raw session run emit now st))"
| Prompted: "question_step st (fst (mark_question_prompting i renderer now st))"
| Submitted: "question_step st (fst (submit_question_answer i payload now st))"

definition no_questions :: question_store where
  "no_questions = \<lparr> qw_records = [], qw_answered = [], qw_created = [] \<rparr>"

end
