(* ===== verification/QuestionProps.thy ===== *)
theory QuestionProps
  imports QuestionState
begin

text \<open>
  What the questions of a workflow promise: an answer is accepted exactly when it fits its question,
  a normalised question reads back as it was written, and an answered question keeps its answer
  under prompts and submissions. Two theorems at the end show how the writes that do not check
  the status take an answer back.
\<close>

subsection \<open>Lists that may fail\<close>

lemma try_map_Inr: "try_map f xs = Inr ys \<longleftrightarrow> length ys = length xs \<and> (\<forall>i < length xs. f (xs ! i) = Inr (ys ! i))"
proof (induction xs arbitrary: ys)
  case (Cons x xs)
  show ?case
  proof (cases ys)
    case (Cons y zs)
    have "(\<forall>i < length (x # xs). f ((x # xs) ! i) = Inr ((y # zs) ! i)) \<longleftrightarrow> f x = Inr y \<and> (\<forall>i < length xs. f (xs ! i) = Inr (zs ! i))"
      by (auto simp: nth_Cons split: nat.splits)
    then show ?thesis using Cons.IH [of zs] \<open>ys = y # zs\<close> by (auto split: sum.splits)
  qed (auto split: sum.splits)
qed auto

lemma try_map_all: "(\<And>x. x \<in> set xs \<Longrightarrow> f x = Inr (g x)) \<Longrightarrow> try_map f xs = Inr (map g xs)"
  by (simp add: try_map_Inr)

lemma try_map_set: "try_map f xs = Inr ys \<Longrightarrow> x \<in> set xs \<Longrightarrow> \<exists>y \<in> set ys. f x = Inr y"
  unfolding try_map_Inr by (metis in_set_conv_nth)

subsection \<open>Answers that fit\<close>

text \<open>A question whose labels are not blank, as normalisation leaves it.\<close>

definition labels_ok :: "question_item \<Rightarrow> bool" where
  "labels_ok q \<longleftrightarrow> js_trim (qi_other_label q) \<noteq> [] \<and> (\<forall>p \<in> set (qi_options q). js_trim (qo_label p) \<noteq> [])"

definition label_of :: "question_item \<Rightarrow> string \<Rightarrow> string" where
  "label_of q v = (case option_label q v of Some l \<Rightarrow> l | None \<Rightarrow> qi_other_label q)"

text \<open>What an accepted answer is: distinct values of the schema, or the one free text, with the labels and
  the value that belong to them.\<close>

definition answer_fits :: "question_item \<Rightarrow> js \<Rightarrow> bool" where
  "answer_fits q a \<longleftrightarrow>
     (\<exists>vs ls. js_get a ''selected_values'' = JArr (map JStr vs) \<and> js_get a ''selected_labels'' = JArr (map JStr ls)
       \<and> distinct vs \<and> (\<forall>v \<in> set vs. js_trim v \<noteq> [])
       \<and> (let free = text_option (trimmed (js_get a ''other_text'')); v = js_get a ''value''; known = qo_value ` set (qi_options q)
          in if js_get a ''kind'' = JStr ''other''
             then qi_type q = SingleAnswerable \<and> qi_allow_other q \<and> ls = [qi_other_label q]
                  \<and> (\<exists>t. free = Some t \<and> vs = [t] \<and> v = JStr t)
             else ls = map (label_of q) vs
                  \<and> (if js_get a ''kind'' = JStr ''option''
                     then qi_type q = SingleAnswerable \<and> (\<exists>x \<in> known. vs = [x] \<and> v = JStr x)
                     else qi_type q = MultiAnswerable \<and> v = JArr (map JStr vs)
                          \<and> (\<forall>x \<in> set vs. x \<in> known \<or> qi_allow_other q \<and> free = Some x))))"

lemma string_list_iff: "string_list v = Some vs \<longleftrightarrow> v = JArr (map JStr vs) \<and> (\<forall>x \<in> set vs. js_trim x \<noteq> [])"
proof (cases v)
  case (JArr xs)
  have str: "trimmed x \<noteq> [] \<Longrightarrow> x = JStr (the (js_string x)) \<and> js_trim (the (js_string x)) \<noteq> []" for x
    by (cases x) (simp_all add: trimmed_def)
  show ?thesis
  proof
    assume "string_list v = Some vs"
    then have all: "list_all (\<lambda>x. trimmed x \<noteq> []) xs" and vs: "vs = map (\<lambda>x. the (js_string x)) xs"
      by (auto simp: string_list_def JArr split: if_splits)
    have "map JStr vs = xs" unfolding vs map_map by (intro map_idI) (use all str in \<open>auto simp: list_all_iff\<close>)
    then show "v = JArr (map JStr vs) \<and> (\<forall>x \<in> set vs. js_trim x \<noteq> [])"
      using all str by (auto simp: JArr vs list_all_iff)
  next
    assume r: "v = JArr (map JStr vs) \<and> (\<forall>x \<in> set vs. js_trim x \<noteq> [])"
    then have "map (\<lambda>x. the (js_string x)) (map JStr vs) = vs" by (simp add: o_def)
    then show "string_list v = Some vs" using r by (simp add: string_list_def list_all_iff o_def)
  qed
qed (auto simp: string_list_def)

lemma repeated_value_None: "repeated_value seen vs = None \<longleftrightarrow> distinct vs \<and> set vs \<inter> set seen = {}"
  by (induction seen vs rule: repeated_value.induct) auto

lemma option_label_known:
  assumes "v \<in> qo_value ` set (qi_options q)"
  shows "\<exists>p \<in> set (qi_options q). qo_value p = v \<and> option_label q v = Some (qo_label p)"
proof (cases "List.find (\<lambda>p. qo_value p = v) (rev (qi_options q))")
  case None
  then show ?thesis using assms by (auto simp: find_None_iff)
next
  case (Some p)
  then show ?thesis using find_SomeD [OF Some] by (auto simp: option_label_def)
qed

lemma option_label_unknown: "v \<notin> qo_value ` set (qi_options q) \<Longrightarrow> option_label q v = None"
  by (auto simp: option_label_def find_None_iff)

lemma expected_label_iff:
  assumes "labels_ok q"
  shows "expected_label q free v = (if v \<in> qo_value ` set (qi_options q) \<or> qi_allow_other q \<and> free = Some v
    then Inr (label_of q v) else Inl (ValueNotInSchema v))"
proof (cases "v \<in> qo_value ` set (qi_options q)")
  case True
  then obtain p where "p \<in> set (qi_options q)" "option_label q v = Some (qo_label p)" using option_label_known by blast
  then show ?thesis using assms True by (auto simp: expected_label_def label_of_def labels_ok_def)
next
  case False
  then show ?thesis using option_label_unknown [OF False] by (simp add: expected_label_def label_of_def)
qed

lemma expected_labels:
  assumes "labels_ok q" "\<forall>x \<in> set vs. x \<in> qo_value ` set (qi_options q) \<or> qi_allow_other q \<and> free = Some x"
  shows "try_map (expected_label q free) vs = Inr (map (label_of q) vs)"
  by (rule try_map_all) (use assms in \<open>simp add: expected_label_iff\<close>)

text \<open>The values outside the schema are at most the one free text.\<close>

lemma foreign_values:
  assumes "distinct vs"
  shows "(let foreign = filter (\<lambda>x. x \<notin> known) vs
      in foreign = [] \<or> allow \<and> free \<noteq> None \<and> foreign = [the free]) \<longleftrightarrow> (\<forall>x \<in> set vs. x \<in> known \<or> allow \<and> free = Some x)"
proof
  assume "let foreign = filter (\<lambda>x. x \<notin> known) vs in foreign = [] \<or> allow \<and> free \<noteq> None \<and> foreign = [the free]"
  then have "filter (\<lambda>x. x \<notin> known) vs = [] \<or> allow \<and> free \<noteq> None \<and> filter (\<lambda>x. x \<notin> known) vs = [the free]" by (simp only: Let_def)
  then show "\<forall>x \<in> set vs. x \<in> known \<or> allow \<and> free = Some x"
    by (auto simp: filter_empty_conv dest!: arg_cong [of _ _ set])
      (metis (mono_tags, lifting) mem_Collect_eq singletonD)
next
  assume r: "\<forall>x \<in> set vs. x \<in> known \<or> allow \<and> free = Some x"
  have d: "distinct (filter (\<lambda>x. x \<notin> known) vs)" using assms by simp
  have s: "set (filter (\<lambda>x. x \<notin> known) vs) \<subseteq> {x. allow \<and> free = Some x}" using r by auto
  show "let foreign = filter (\<lambda>x. x \<notin> known) vs in foreign = [] \<or> allow \<and> free \<noteq> None \<and> foreign = [the free]"
  proof (cases "filter (\<lambda>x. x \<notin> known) vs")
    case (Cons y ys)
    then have "allow" "free = Some y" "ys = []" using s d by (cases ys; auto)+
    then show ?thesis using Cons by simp
  qed simp
qed

lemma label_of_ok: "labels_ok q \<Longrightarrow> js_trim (label_of q v) \<noteq> []"
  using find_SomeD by (fastforce simp: label_of_def option_label_def labels_ok_def split: option.splits)

lemma distinct_check: "(case repeated_value [] vs of None \<Rightarrow> x | Some v \<Rightarrow> Some (f v)) = None \<longleftrightarrow> distinct vs \<and> x = None"
  using repeated_value_None [of "[]" vs] by (cases "repeated_value [] vs") simp_all

lemma labels_error_iff: "labels_error ls (Inr es) = None \<longleftrightarrow> ls = es"
  by (simp add: labels_error_def)

lemma answer_check_exact:
  assumes "labels_ok q"
  shows "(validate_answer q a = None) = answer_fits q a"
proof -
  define free where "free = text_option (trimmed (js_get a ''other_text''))"
  define v where "v = js_get a ''value''"
  define known where "known = qo_value ` set (qi_options q)"
  define fit where "fit vs ls \<longleftrightarrow>
     (if js_get a ''kind'' = JStr ''other''
      then qi_type q = SingleAnswerable \<and> qi_allow_other q \<and> ls = [qi_other_label q] \<and> (\<exists>t. free = Some t \<and> vs = [t] \<and> v = JStr t)
      else ls = map (label_of q) vs
           \<and> (if js_get a ''kind'' = JStr ''option'' then qi_type q = SingleAnswerable \<and> (\<exists>x \<in> known. vs = [x] \<and> v = JStr x)
              else qi_type q = MultiAnswerable \<and> v = JArr (map JStr vs)
                   \<and> (\<forall>x \<in> set vs. x \<in> known \<or> qi_allow_other q \<and> free = Some x)))" for vs ls
  have fit_labels: "fit vs ls \<Longrightarrow> \<forall>l \<in> set ls. js_trim l \<noteq> []" for vs ls
    using assms label_of_ok [OF assms] by (auto simp: fit_def labels_ok_def split: if_splits)
  have multi: "qi_type q = MultiAnswerable \<longleftrightarrow> qi_type q \<noteq> SingleAnswerable" by (cases "qi_type q") simp_all
  have other: "other_error q vs ls free v = None \<longleftrightarrow> qi_type q = SingleAnswerable \<and> qi_allow_other q \<and> ls = [qi_other_label q]
      \<and> (\<exists>t. free = Some t \<and> vs = [t] \<and> v = JStr t)" for vs ls
    by (auto simp: other_error_def labels_error_iff multi split: option.splits)
  have single: "single_error q vs ls v = None \<longleftrightarrow> ls = map (label_of q) vs \<and> qi_type q = SingleAnswerable
      \<and> (\<exists>x \<in> known. vs = [x] \<and> v = JStr x)" for vs ls
    using expected_label_iff [OF assms, of None]
    by (auto simp: single_error_def labels_error_def multi known_def split: list.splits)
  have several: "multi_error q vs ls free v = None \<longleftrightarrow> ls = map (label_of q) vs \<and> qi_type q = MultiAnswerable \<and> v = JArr (map JStr vs)
      \<and> (\<forall>x \<in> set vs. x \<in> known \<or> qi_allow_other q \<and> free = Some x)" if d: "distinct vs" for vs ls
  proof -
    have "multi_error q vs ls free v = None \<longleftrightarrow> qi_type q = MultiAnswerable \<and> v = JArr (map JStr vs)
        \<and> (let foreign = filter (\<lambda>x. x \<notin> known) vs in foreign = [] \<or> qi_allow_other q \<and> free \<noteq> None \<and> foreign = [the free])
        \<and> labels_error ls (try_map (expected_label q free) vs) = None"
      by (simp add: multi_error_def Let_def known_def split: if_splits) blast
    then show ?thesis
      using foreign_values [OF d, of known "qi_allow_other q" free] expected_labels [OF assms, of vs free]
      by (auto simp: labels_error_def known_def split: if_splits)
  qed
  have "validate_answer q a = None \<longleftrightarrow> (\<exists>vs ls. string_list (js_get a ''selected_values'') = Some vs
      \<and> string_list (js_get a ''selected_labels'') = Some ls \<and> distinct vs
      \<and> (if js_get a ''kind'' = JStr ''other'' then other_error q vs ls free v
         else if js_get a ''kind'' = JStr ''option'' then single_error q vs ls v else multi_error q vs ls free v) = None)"
    unfolding validate_answer_def Let_def free_def [symmetric] v_def [symmetric]
    by (cases "string_list (js_get a ''selected_values'')"; cases "string_list (js_get a ''selected_labels'')")
      (simp_all add: distinct_check)
  also have "\<dots> \<longleftrightarrow> (\<exists>vs ls. js_get a ''selected_values'' = JArr (map JStr vs) \<and> js_get a ''selected_labels'' = JArr (map JStr ls)
      \<and> distinct vs \<and> (\<forall>v \<in> set vs. js_trim v \<noteq> []) \<and> (\<forall>l \<in> set ls. js_trim l \<noteq> []) \<and> fit vs ls)"
    unfolding string_list_iff fit_def by (intro ex_cong1) (use other single several in auto)
  also have "\<dots> \<longleftrightarrow> (\<exists>vs ls. js_get a ''selected_values'' = JArr (map JStr vs) \<and> js_get a ''selected_labels'' = JArr (map JStr ls)
      \<and> distinct vs \<and> (\<forall>v \<in> set vs. js_trim v \<noteq> []) \<and> fit vs ls)"
    using fit_labels by blast
  also have "\<dots> = answer_fits q a"
    by (simp only: answer_fits_def Let_def fit_def free_def v_def known_def)
  finally show ?thesis .
qed

text \<open>C15. The check accepts an answer exactly when it fits its question: distinct values of the schema, or the
  one free text where it is allowed, the labels that belong to them, and one value for a
  question with one answer.\<close>

theorem validation_exact:
  assumes "labels_ok q"
  shows "(validate_answer q a = None) = answer_fits q a"
  by (rule answer_check_exact [OF assms])

subsection \<open>Normalised questions\<close>

definition clean :: "string \<Rightarrow> bool" where
  "clean s \<longleftrightarrow> js_trim s = s \<and> s \<noteq> []"

definition option_ok :: "question_option \<Rightarrow> bool" where
  "option_ok p \<longleftrightarrow> clean (qo_label p) \<and> clean (qo_value p) \<and> (\<forall>d. qo_description p = Some d \<longrightarrow> clean d)"

definition item_ok :: "question_item \<Rightarrow> bool" where
  "item_ok q \<longleftrightarrow> clean (qi_id q) \<and> clean (qi_question q) \<and> clean (qi_other_label q) \<and> (\<forall>h. qi_header q = Some h \<longrightarrow> clean h)
     \<and> (\<forall>p \<in> set (qi_options q). option_ok p) \<and> (qi_options q = [] \<longrightarrow> qi_allow_other q)"

lemma clean_trim: "js_trim s \<noteq> [] \<Longrightarrow> clean (js_trim s)"
  by (simp add: clean_def)

lemma trimmed_clean: "trimmed v \<noteq> [] \<Longrightarrow> clean (trimmed v)"
  by (auto simp: trimmed_def clean_def split: option.splits)

lemma text_option_Some: "text_option s = Some x \<longleftrightarrow> x = s \<and> s \<noteq> []"
  by (auto simp: text_option_def)

lemma item_ok_labels: "item_ok q \<Longrightarrow> labels_ok q"
  by (auto simp: item_ok_def labels_ok_def option_ok_def clean_def)

lemma question_number_clean: "clean (''q-'' @ string_of_nat n)"
proof -
  have "\<not> js_ws c" if "c \<in> set (string_of_nat n)" for c
    using string_of_nat_digits that by (fastforce simp: is_digit_def js_ws_def Let_def)
  then have "list_all (\<lambda>c. \<not> js_ws c) (''q-'' @ string_of_nat n)"
    by (auto simp: list_all_iff js_ws_def Let_def)
  then show ?thesis using no_ws_trim by (simp add: clean_def)
qed

lemma normalized_option_ok: "normalize_option k raw = Inr p \<Longrightarrow> option_ok p"
  by (auto simp: normalize_option_def option_ok_def Let_def text_option_Some clean_trim trimmed_clean
      split: js.splits if_splits)

lemma normalized_header: "normalize_question_item inherited 0 raw = Inr q \<Longrightarrow> qi_header q = None \<Longrightarrow> inherited = None"
  unfolding normalize_question_item_def Let_def
  by (fastforce split: if_splits sum.splits)

lemma normalized_item_ok:
  assumes "normalize_question_item inherited k raw = Inr q" "\<forall>h. inherited = Some h \<longrightarrow> clean h"
  shows "item_ok q"
proof -
  define options where "options = (case js_get raw ''options'' of JArr vs \<Rightarrow> vs | _ \<Rightarrow> [])"
  obtain opts t where o: "try_map (\<lambda>(i, v). normalize_option i v) (enumerate 0 options) = Inr opts"
      "\<not> (options = [] \<and> js_get raw ''allow_other'' = JBool False)" "trimmed (js_get raw ''question'') \<noteq> []"
    and q: "q = \<lparr> qi_id = (if trimmed (js_get raw ''id'') = [] then ''q-'' @ string_of_nat (Suc k) else trimmed (js_get raw ''id'')),
        qi_header = (if trimmed (js_get raw ''header'') \<noteq> [] then Some (trimmed (js_get raw ''header'')) else if k = 0 then inherited else None),
        qi_question = trimmed (js_get raw ''question''), qi_options = opts, qi_allow_other = (js_get raw ''allow_other'' \<noteq> JBool False),
        qi_other_label = (if trimmed (js_get raw ''other_label'') = [] then ''Other'' else trimmed (js_get raw ''other_label'')),
        qi_type = t \<rparr>"
    using assms(1) unfolding normalize_question_item_def Let_def options_def [symmetric]
    by (auto split: if_splits sum.splits)
  have other: "clean ''Other''" by code_simp
  have q_ok: "clean (qi_id q)" "clean (qi_question q)" "clean (qi_other_label q)" "\<forall>h. qi_header q = Some h \<longrightarrow> clean h"
    using question_number_clean [of "Suc k"] trimmed_clean o(3) assms(2) other by (simp_all add: q)
  have "option_ok p" if "p \<in> set opts" for p
  proof -
    obtain i where "i < length opts" "p = opts ! i" using \<open>p \<in> set opts\<close> by (metis in_set_conv_nth)
    then show ?thesis using o(1) normalized_option_ok by (fastforce simp: try_map_Inr nth_enumerate_eq)
  qed
  moreover have "opts = [] \<longleftrightarrow> options = []" using o(1) by (auto simp: try_map_Inr)
  ultimately show ?thesis using o(2) q_ok by (auto simp: item_ok_def q)
qed

lemma repeated_question_None: "repeated_question seen qs = None \<longleftrightarrow> distinct (map qi_id qs) \<and> set (map qi_id qs) \<inter> set seen = {}"
  by (induction seen qs rule: repeated_question.induct) auto

definition questions_ok :: "question_item list \<Rightarrow> bool" where
  "questions_ok qs \<longleftrightarrow> qs \<noteq> [] \<and> distinct (map qi_id qs) \<and> (\<forall>q \<in> set qs. item_ok q)"

lemma normalized_input_ok:
  assumes "normalize_question_input raw = Inr n"
  shows "questions_ok (qn_questions n) \<and> (qi_header (hd (qn_questions n)) = None \<longrightarrow> qn_header n = None)
    \<and> (\<forall>h. qn_header n = Some h \<longrightarrow> clean h) \<and> (\<forall>h. qn_source n = Some h \<longrightarrow> clean h) \<and> (\<forall>h. qn_session n = Some h \<longrightarrow> clean h)"
proof -
  define header where "header = text_option (trimmed (js_get raw ''header''))"
  define result where "result = (case js_get raw ''questions'' of
       JArr vs \<Rightarrow> try_map (\<lambda>(i, v). normalize_question_item header i v) (enumerate 0 vs)
     | _ \<Rightarrow> map_sum id (\<lambda>q. [q]) (normalize_legacy_question header raw))"
  obtain qs where qs: "result = Inr qs" "qs \<noteq> []" "repeated_question [] qs = None" and n: "qn_questions n = qs" "qn_header n = header"
      "qn_source n = text_option (trimmed (js_get raw ''source''))" "qn_session n = text_option (trimmed (js_get raw ''session_id''))"
    using assms unfolding normalize_question_input_def Let_def header_def [symmetric] result_def [symmetric]
    by (auto split: if_splits sum.splits option.splits)
  have header: "\<forall>h. header = Some h \<longrightarrow> clean h" by (auto simp: header_def text_option_Some trimmed_clean)
  have item: "\<exists>k v. normalize_question_item header k v = Inr q" if q: "q \<in> set qs" for q
  proof (cases "\<exists>vs. js_get raw ''questions'' = JArr vs")
    case True
    then obtain vs where "try_map (\<lambda>(i, v). normalize_question_item header i v) (enumerate 0 vs) = Inr qs" using qs(1) by (auto simp: result_def)
    moreover obtain i where "i < length qs" "q = qs ! i" using q by (metis in_set_conv_nth)
    ultimately show ?thesis by (auto simp: try_map_Inr nth_enumerate_eq)
  next
    case False
    then have "normalize_legacy_question header raw = Inr q \<and> qs = [q]"
      using qs(1) q by (cases "normalize_legacy_question header raw") (auto simp: result_def split: js.splits)
    then show ?thesis by (auto simp: normalize_legacy_question_def split: js.splits)
  qed
  have first: "\<exists>v. normalize_question_item header 0 v = Inr (hd qs)"
  proof (cases "\<exists>vs. js_get raw ''questions'' = JArr vs")
    case True
    then obtain vs where "try_map (\<lambda>(i, v). normalize_question_item header i v) (enumerate 0 vs) = Inr qs" using qs(1) by (auto simp: result_def)
    then have "length qs = length vs" "\<forall>i < length vs. normalize_question_item header i (vs ! i) = Inr (qs ! i)"
      by (auto simp: try_map_Inr nth_enumerate_eq)
    then show ?thesis using qs(2) by (metis hd_conv_nth length_greater_0_conv)
  next
    case False
    then have "normalize_legacy_question header raw = Inr (hd qs)"
      using qs(1) by (cases "normalize_legacy_question header raw") (auto simp: result_def split: js.splits)
    then show ?thesis by (auto simp: normalize_legacy_question_def split: js.splits)
  qed
  then have "qi_header (hd qs) = None \<longrightarrow> header = None" using normalized_header by blast
  moreover have "questions_ok qs"
    using qs(2,3) item normalized_item_ok [OF _ header] by (auto simp: questions_ok_def repeated_question_None)
  ultimately show ?thesis using n header by (auto simp: text_option_Some trimmed_clean)
qed

subsection \<open>Reading a written question\<close>

lemma option_again: "option_ok p \<Longrightarrow> normalize_option k (option_js p) = Inr p"
  by (cases "qo_description p")
    (auto simp: normalize_option_def option_js_def plain_object_def option_ok_def clean_def text_option_def Let_def rec_get_def)

lemma type_names_again:
  "parse_question_type (type_js SingleAnswerable) = Inr (Some SingleAnswerable)"
  "parse_question_type (type_js MultiAnswerable) = Inr (Some MultiAnswerable)"
  by code_simp+

lemma type_again: "parse_question_type (type_js t) = Inr (Some t)"
  by (cases t) (simp_all add: type_names_again)

lemma item_again:
  assumes "item_ok q" "k \<noteq> 0 \<or> qi_header q \<noteq> None \<or> inherited = None"
  shows "normalize_question_item inherited k (item_js q) = Inr q"
proof -
  have "try_map (\<lambda>(i, v). normalize_option i v) (enumerate 0 (map option_js (qi_options q))) = Inr (qi_options q)"
    using assms(1) by (simp add: try_map_Inr nth_enumerate_eq option_again item_ok_def)
  then show ?thesis
    using assms type_again [of "qi_type q"]
    by (cases "qi_header q"; cases "qi_type q")
      (auto simp: normalize_question_item_def item_js_def item_fields_def plain_object_def rec_get_def Let_def item_ok_def clean_def
        normalized_question_type_def)
qed

text \<open>C40. A normalised question is written so that it is read back as it is: normalising what was written
  changes nothing, whatever form the input had.\<close>

theorem question_round_trip:
  assumes "normalize_question_input raw = Inr n"
  shows "normalize_question_input (input_js n) = Inr n"
proof -
  note ok = normalized_input_ok [OF assms]
  let ?qs = "qn_questions n"
  have header: "text_option (trimmed (js_get (input_js n) ''header'')) = qn_header n"
    using ok by (cases "qn_header n") (auto simp: input_js_def rec_get_def text_option_def clean_def)
  have source: "text_option (trimmed (js_get (input_js n) ''source'')) = qn_source n"
    using ok by (cases "qn_source n") (auto simp: input_js_def item_fields_def rec_get_def text_option_def clean_def)
  have session: "text_option (trimmed (js_get (input_js n) ''session_id'')) = qn_session n"
    using ok by (cases "qn_session n") (auto simp: input_js_def item_fields_def rec_get_def text_option_def clean_def)
  have items: "js_get (input_js n) ''questions'' = JArr (map item_js ?qs)"
    by (simp add: input_js_def item_fields_def rec_get_def)
  have "normalize_question_item (qn_header n) i (item_js (?qs ! i)) = Inr (?qs ! i)" if i: "i < length ?qs" for i
    by (rule item_again) (use ok i in \<open>auto simp: questions_ok_def hd_conv_nth\<close>)
  then have again: "try_map (\<lambda>(i, v). normalize_question_item (qn_header n) i v) (enumerate 0 (map item_js ?qs)) = Inr ?qs"
    by (simp add: try_map_Inr nth_enumerate_eq)
  have "repeated_question [] ?qs = None" using ok by (simp add: questions_ok_def repeated_question_None)
  moreover have "plain_object (input_js n)" by (simp add: input_js_def plain_object_def)
  ultimately show ?thesis
    using ok unfolding normalize_question_input_def Let_def header source session items js.case again
    by (simp add: questions_ok_def)
qed

subsection \<open>Submitted answers cover the questions\<close>

lemma normalized_answers:
  assumes "normalize_answers qs seen k es = Inr as"
  shows "distinct (map ae_question as) \<and> set (map ae_question as) \<inter> set seen = {}
    \<and> (qs \<noteq> [] \<longrightarrow> set (map ae_question as) \<subseteq> qi_id ` set qs)"
  using assms
proof (induction qs seen k es arbitrary: as rule: normalize_answers.induct)
  case (2 qs seen k e es)
  obtain a bs where a: "normalize_answer qs seen k e = Inr a" "normalize_answers qs (ae_question a # seen) (Suc k) es = Inr bs" "as = a # bs"
    using 2(2) by (auto split: sum.splits)
  have "ae_question a \<notin> set seen \<and> (qs \<noteq> [] \<longrightarrow> ae_question a \<in> qi_id ` set qs)"
    using a(1) by (auto simp: normalize_answer_def Let_def split: if_splits)
  then show ?case using 2(1) [OF a(1,2)] a(3) by auto
qed simp

definition answers_fit :: "question_item list \<Rightarrow> answer_entry list \<Rightarrow> bool" where
  "answers_fit qs as \<longleftrightarrow>
     distinct (map ae_question as) \<and> ae_question ` set as = qi_id ` set qs
     \<and> (\<forall>a \<in> set as. \<exists>q \<in> set qs. qi_id q = ae_question a \<and> answer_fits q (ae_answer a))"

lemma accepted_answers_fit:
  assumes ok: "questions_ok qs" and n: "normalize_submitted_answers qs raw = Inr as" and v: "validate_answers qs as = None"
  shows "answers_fit qs as"
proof -
  have as: "distinct (map ae_question as)" "set (map ae_question as) \<subseteq> qi_id ` set qs"
    using n ok normalized_answers by (auto simp: normalize_submitted_answers_def questions_ok_def split: if_splits)
  obtain us where us: "try_map (\<lambda>e. case List.find (\<lambda>q. qi_id q = ae_question e) qs of
        None \<Rightarrow> Inl (UnknownQuestion (ae_question e))
      | Some q \<Rightarrow> (case validate_answer q (ae_answer e) of None \<Rightarrow> Inr () | Some x \<Rightarrow> Inl x)) as = Inr us"
    and count: "\<not> (0 < card (qi_id ` set qs) \<and> length as \<noteq> card (qi_id ` set qs))"
    using v by (auto simp: validate_answers_def Let_def split: if_splits sum.splits)
  have "card (set (map ae_question as)) = card (qi_id ` set qs)"
    using count ok distinct_card [OF as(1)] by (auto simp: questions_ok_def card_gt_0_iff)
  then have ids: "ae_question ` set as = qi_id ` set qs" using card_subset_eq [OF _ as(2)] by simp
  have "\<exists>q \<in> set qs. qi_id q = ae_question a \<and> answer_fits q (ae_answer a)" if a: "a \<in> set as" for a
  proof -
    obtain q where q: "List.find (\<lambda>q. qi_id q = ae_question a) qs = Some q" "validate_answer q (ae_answer a) = None"
      using try_map_set [OF us a] by (auto split: option.splits)
    then have "q \<in> set qs \<and> qi_id q = ae_question a" using find_SomeD [OF q(1)] by simp
    then show ?thesis using q(2) answer_check_exact ok item_ok_labels by (auto simp: questions_ok_def)
  qed
  then show ?thesis using as(1) ids by (simp add: answers_fit_def)
qed

subsection \<open>Runs\<close>

definition record_ok :: "string list \<Rightarrow> string \<Rightarrow> question_record \<Rightarrow> bool" where
  "record_ok events i r \<longleftrightarrow>
     qr_id r = i \<and> questions_ok (qr_questions r) \<and> (qr_status r = QAnswered \<longleftrightarrow> i \<in> set events)
     \<and> (qr_status r = QAnswered \<longrightarrow> (\<exists>as. qr_answers r = Some as \<and> answers_fit (qr_questions r) as))"

definition store_ok :: "question_store \<Rightarrow> bool" where
  "store_ok st \<longleftrightarrow> distinct (qw_answered st) \<and> (\<forall>i r. read_question st i = Some r \<longrightarrow> record_ok (qw_answered st) i r)"

lemma read_write [simp]: "read_question (write_question i r st) j = (if j = i then Some r else read_question st j)"
  by (simp add: read_question_def write_question_def)

lemma write_question_events [simp]: "qw_answered (write_question i r st) = qw_answered st"
  by (simp add: write_question_def)

lemma read_answered_once [simp]: "read_question (append_answered_once i st) j = read_question st j"
  by (simp add: read_question_def append_answered_once_def)

lemma read_created_event [simp]: "read_question (st\<lparr> qw_created := es \<rparr>) j = read_question st j"
  by (simp add: read_question_def)

lemma created_kept:
  assumes "store_ok st" "fresh \<notin> fst ` set (qw_records st)" "fresh \<notin> set (qw_answered st)"
    and "st1 = fst (create_question fresh raw session run emit now st)"
  shows "store_ok st1 \<and> (\<forall>i r. read_question st i = Some r \<longrightarrow> read_question st1 i = Some r)"
proof (cases "normalize_question_input raw")
  case (Inr n)
  have none: "read_question st fresh = None" using assms(2) by (simp add: read_question_def map_of_eq_None_iff)
  define r where "r = the (read_question st1 fresh)"
  have reads: "read_question st1 j = (if j = fresh then Some r else read_question st j)" for j
    by (simp add: r_def assms(4) create_question_def Inr Let_def)
  have r: "qw_answered st1 = qw_answered st" "qr_id r = fresh" "qr_status r = QPending" "qr_questions r = qn_questions n"
    by (simp_all add: r_def assms(4) create_question_def Inr Let_def)
  have "record_ok (qw_answered st1) fresh r"
    using r assms(3) normalized_input_ok [OF Inr] by (simp add: record_ok_def)
  then show ?thesis using assms(1) r(1) none by (auto simp: store_ok_def reads split: if_splits)
qed (use assms in \<open>simp add: create_question_def\<close>)

lemma prompted_kept:
  assumes "store_ok st" "st1 = fst (mark_question_prompting i renderer now st)"
  shows "store_ok st1 \<and> (\<forall>j r. read_question st j = Some r \<longrightarrow> qr_status r = QAnswered \<longrightarrow> read_question st1 j = Some r)"
proof (cases "read_question st i")
  case (Some r)
  have same: "is_terminal_question (qr_status r) \<Longrightarrow> prompted renderer now r = r" by (simp add: prompted_def)
  have "record_ok (qw_answered st) i (prompted renderer now r)"
    using assms(1) Some by (auto simp: store_ok_def record_ok_def prompted_def is_terminal_question_def)
  moreover have "read_question st1 j = (if j = i then Some (prompted renderer now r) else read_question st j)" for j
    using assms(2) Some by (simp add: mark_question_prompting_def)
  moreover have "qw_answered st1 = qw_answered st" using assms(2) Some by (simp add: mark_question_prompting_def write_question_def)
  ultimately show ?thesis using assms(1) Some same by (auto simp: store_ok_def is_terminal_question_def)
qed (use assms in \<open>simp add: mark_question_prompting_def\<close>)

lemma submitted_kept:
  assumes "store_ok st" "st1 = fst (submit_question_answer i payload now st)"
  shows "store_ok st1 \<and> (\<forall>j r. read_question st j = Some r \<longrightarrow> qr_status r = QAnswered \<longrightarrow> read_question st1 j = Some r)"
proof (cases "\<exists>r. snd (snd (submit_question_answer i payload now st)) = Inr r")
  case True
  let ?i = "js_trim i"
  obtain r as where r: "read_question st ?i = Some r" "qr_status r = QPending \<or> qr_status r = QPrompting"
      "normalize_submitted_answers (qr_questions r) payload = Inr as" "validate_answers (qr_questions r) as = None"
    and st1: "st1 = append_answered_once (qr_id r) (write_question ?i (answered as now r) st)"
    using True assms(2)
    by (auto simp: submit_question_answer_def Let_def split: if_splits option.splits sum.splits)
  have ok: "record_ok (qw_answered st) ?i r" using assms(1) r(1) by (simp add: store_ok_def)
  then have new: "?i \<notin> set (qw_answered st)" "qr_id r = ?i" using r(2) by (auto simp: record_ok_def)
  have events: "qw_answered st1 = qw_answered st @ [?i]"
    using new by (simp add: st1 append_answered_once_def write_question_def)
  have "record_ok (qw_answered st1) ?i (answered as now r)"
    using ok accepted_answers_fit [OF _ r(3,4)] by (simp add: record_ok_def answered_def events)
  moreover have "record_ok (qw_answered st1) j q" if "record_ok (qw_answered st) j q" "j \<noteq> ?i" for j q
    using that by (simp add: record_ok_def events)
  moreover have "read_question st1 j = (if j = ?i then Some (answered as now r) else read_question st j)" for j by (simp add: st1)
  moreover have "distinct (qw_answered st1)" using assms(1) new(1) by (simp add: events store_ok_def)
  ultimately show ?thesis using assms(1) r(1,2) by (auto simp: store_ok_def)
next
  case False
  then have "st1 = st" using assms(2)
    by (auto simp: submit_question_answer_def Let_def split: if_splits option.splits sum.splits)
  then show ?thesis using assms(1) by simp
qed

lemma step_kept:
  assumes "question_step st st1" "store_ok st"
  shows "store_ok st1 \<and> (\<forall>j r. read_question st j = Some r \<longrightarrow> qr_status r = QAnswered \<longrightarrow> read_question st1 j = Some r)"
  using assms
proof cases
  case (Created fresh raw session run emit now)
  then show ?thesis using created_kept [OF assms(2)] by blast
next
  case (Prompted i renderer now)
  then show ?thesis using prompted_kept [OF assms(2)] by blast
next
  case (Submitted i payload now)
  then show ?thesis using submitted_kept [OF assms(2)] by blast
qed

lemma runs_kept:
  assumes "question_step\<^sup>*\<^sup>* st st1" "store_ok st"
  shows "store_ok st1 \<and> (\<forall>j r. read_question st j = Some r \<longrightarrow> qr_status r = QAnswered \<longrightarrow> read_question st1 j = Some r)"
  using assms by (induction rule: rtranclp_induct) (use step_kept in blast)+

lemma count_one: "distinct xs \<Longrightarrow> x \<in> set xs \<Longrightarrow> count_list xs x = 1"
  by (induction xs) auto

lemma no_questions_ok: "store_ok no_questions"
  by (simp add: store_ok_def no_questions_def read_question_def)


subsection \<open>A question and its answer\<close>

definition demo_question :: js where
  "demo_question = JObj [(''question'', JStr '' q ''), (''options'', JArr [JStr ''a'', JStr ''b'']), (''allow_other'', JBool False)]"

definition demo_choice :: "string \<Rightarrow> js" where
  "demo_choice v = JObj [(''kind'', JStr ''option''), (''value'', JStr v), (''selected_labels'', JArr [JStr v]), (''selected_values'', JArr [JStr v])]"

definition demo_item :: question_item where
  "demo_item = \<lparr> qi_id = ''q-1'', qi_header = None, qi_question = ''q'',
     qi_options = [\<lparr> qo_label = ''a'', qo_value = ''a'', qo_description = None \<rparr>, \<lparr> qo_label = ''b'', qo_value = ''b'', qo_description = None \<rparr>],
     qi_allow_other = False, qi_other_label = ''Other'', qi_type = SingleAnswerable \<rparr>"

definition asked :: question_store where
  "asked = fst (create_question ''question-1'' demo_question None None False ''n'' no_questions)"

definition replied :: question_store where
  "replied = fst (submit_question_answer ''question-1'' (JObj [(''answer'', demo_choice ''a'')]) ''n'' asked)"

definition reply :: question_record where
  "reply = the (read_question replied ''question-1'')"

lemma demo_values:
  "normalize_question_input demo_question
    = Inr \<lparr> qn_header = None, qn_questions = [demo_item], qn_source = None, qn_session = None \<rparr>"
  "validate_answer demo_item (demo_choice ''a'') = None \<and> validate_answer demo_item (demo_choice ''c'') \<noteq> None \<and> js_trim ''a'' \<noteq> [] \<and> js_trim ''b'' \<noteq> []
    \<and> js_trim ''Other'' \<noteq> []"
  "read_question replied ''question-1'' \<noteq> None \<and> qr_status reply = QAnswered"
  by code_simp+

theorem validation_exact_witness: "answer_fits demo_item (demo_choice ''a'') \<and> \<not> answer_fits demo_item (demo_choice ''c'')"
proof -
  have "labels_ok demo_item" using demo_values(2) by (simp add: labels_ok_def demo_item_def)
  then show ?thesis using validation_exact [of demo_item] demo_values(2) by simp
qed

theorem question_round_trip_witness:
  "normalize_question_input (input_js \<lparr> qn_header = None, qn_questions = [demo_item], qn_source = None, qn_session = None \<rparr>)
    = Inr \<lparr> qn_header = None, qn_questions = [demo_item], qn_source = None, qn_session = None \<rparr>"
  by (rule question_round_trip [OF demo_values(1)])

lemma replied_reachable: "question_step\<^sup>*\<^sup>* no_questions replied"
proof -
  have "question_step no_questions asked" unfolding asked_def by (rule Created) (simp_all add: no_questions_def)
  moreover have "question_step asked replied" unfolding replied_def by (rule Submitted)
  ultimately show ?thesis by (meson rtranclp.rtrancl_refl rtranclp.rtrancl_into_rtrancl)
qed


text \<open>The write of a terminal error takes no lock and does not look at the status again: one that read before
  a submission and writes after it takes the answer back, although the submission succeeded and
  its event is in the log.\<close>

theorem answer_lost_to_error:
  "case read_question asked ''question-1'' of
     None \<Rightarrow> False
   | Some before \<Rightarrow>
       (let st = write_question ''question-1'' (terminal_error QError ''c'' ''m'' ''t'' before) replied
        in map_option (\<lambda>r. (qr_status r, qr_answers r)) (read_question st ''question-1'') = Some (QError, None)
           \<and> qw_answered st = [''question-1''])"
  by code_simp

text \<open>The answer of the user interface replaces one that was submitted before.\<close>

theorem submitted_answer_replaced:
  "case read_question (fst (mark_question_answered ''question-1'' (single_answer reply (demo_choice ''b'')) ''m'' replied)) ''question-1'' of
     None \<Rightarrow> False
   | Some r \<Rightarrow> qr_answer reply = Some (demo_choice ''a'') \<and> qr_answer r = Some (demo_choice ''b'')"
  by code_simp

end
