(* ===== verification/Spec2Isabelle.thy ===== *)
theory Spec2Isabelle
  imports TeamTaskProps TeamAllocation TeamDispatch TeamLocks WorkflowReconcile UltragoalGuards AutopilotProps ModeWriteProps ModeWriteSession TeamDecomposeProps ExecFollowupProps MailboxProps QuestionProps
begin

text \<open>
  A model of the coordination core of oh-my-codex (the TypeScript under \<open>src/src\<close>): the durable
  state that teams of agents and long running workflows share through JSON files, and the
  rules by which concurrent processes may change it.

  \<^bold>\<open>Parts and how they interact.\<close> A team runs a pipeline of phases and a board of tasks. Workers
  claim tasks under a lease, finish them with evidence, and receive work and messages through
  dispatch requests; every write of the board or of the requests happens under a directory
  lock. Beside teams, a session runs workflow modes (autopilot, ralph, ultragoal, ...): each
  mode has a detail file, the set of active modes is kept in the canonical list of active
  skills, and a mode ends with a run outcome from which its run state is derived.

  \<^bold>\<open>Theories and the code they model.\<close>
  \<^item> \<open>Prelude\<close>, \<open>JsValue\<close>, \<open>JsDate\<close>, \<open>Regex\<close>: the operations of the JavaScript standard
    library that the source uses (strings, arrays, untyped data, \<open>toISOString\<close> and
    \<open>Date.parse\<close>, regular expressions with ECMAScript's order of matches), the locale
    \<open>keyed_store\<close> of stores that are read by key, and shared list lemmas.
  \<^item> \<open>StatusMachine\<close>: the contract of a table of status transitions (final statuses are left by
    no transition), with the ranked extension that bounds chains of transitions. It is
    interpreted for the task table, the dispatch table, the team phases and the workflow
    handoffs.
  \<^item> \<open>TeamContracts\<close>, \<open>TeamTypes\<close>: \<open>team/contracts.ts\<close> and \<open>team/state/types.ts\<close>.
  \<^item> \<open>TeamPhase\<close>: \<open>team/orchestrator.ts\<close> and \<open>team/phase-controller.ts\<close>; a phase state is the record
    \<open>team_state\<close>, a thrown error the left side of a sum.
  \<^item> \<open>TeamEvidence\<close>, \<open>TeamTasks\<close>, \<open>TeamBoard\<close>, \<open>TeamTaskProps\<close>: \<open>team/state/tasks.ts\<close>, the task
    functions of \<open>team/state.ts\<close>, \<open>team/completion-evidence.ts\<close>, \<open>verification/verifier.ts\<close> and
    \<open>team/coordination-protocol.ts\<close>. The store \<open>team_store\<close> holds the task files, the
    configuration and the counter of ids; an operation returns its outcome and the new store,
    and \<open>TeamBoard\<close> folds arbitrary sequences of operations.
  \<^item> \<open>TeamAllocation\<close>: \<open>team/allocation-policy.ts\<close> and \<open>team/rebalance-policy.ts\<close>.
  \<^item> \<open>TeamDispatch\<close>: \<open>team/state/dispatch.ts\<close>, \<open>dispatch-recovery.ts\<close> and the reader of
    \<open>team/state.ts\<close>. The dependencies the code receives as an object are the record
    \<open>dispatch_deps\<close>, and the client lemmas are proved in locales over its laws, interpreted on
    the file store.
  \<^item> \<open>TeamLocks\<close>: \<open>team/state/locks.ts\<close> and \<open>dispatch-lock.ts\<close> as interleavings of the file system
    calls of any number of processes.
  \<^item> \<open>RunOutcome\<close>, \<open>RunState\<close>: \<open>runtime/run-outcome.ts\<close>, \<open>run-state.ts\<close>, \<open>run-loop.ts\<close>,
    \<open>terminal-lifecycle.ts\<close> and \<open>state/terminal-normalization.ts\<close>.
  \<^item> \<open>Workflow\<close>, \<open>SkillActive\<close>, \<open>WorkflowReconcile\<close>: \<open>state/workflow-transition.ts\<close>,
    \<open>skill-active.ts\<close> and \<open>workflow-transition-reconcile.ts\<close>.
  \<^item> \<open>GoalSnapshot\<close>, \<open>UltragoalPlan\<close>, \<open>UltragoalStore\<close>, \<open>UltragoalBrief\<close>, \<open>UltragoalRun\<close>,
    \<open>UltragoalSteering\<close>: \<open>goal-workflows/codex-goal-snapshot.ts\<close> and \<open>ultragoal/artifacts.ts\<close>. The
    store \<open>ug_store\<close> holds the plan file, the ledger and the brief; every operation takes the
    store under the mutation lock and returns an error or a result with the new store.
    \<open>UltragoalLifecycle\<close> states the abstract lifecycle of goals, a step relation on what a
    schedule sees of a goal (identifier, status, whether it is scheduled), and proves that
    every operation takes zero or more of its steps. \<open>UltragoalProps\<close> and \<open>UltragoalGuards\<close>
    hold the properties.
  \<^item> \<open>NodePath\<close>, \<open>RalphContract\<close>: POSIX paths as the \<open>path\<close> module resolves them, with
    \<open>canonicalizeComparablePath\<close> of \<open>utils/paths.ts\<close>; \<open>ralph/contract.ts\<close> and
    \<open>ralph/completion-audit.ts\<close>. The file system is the record \<open>fs_env\<close>.
  \<^item> \<open>AutopilotGate\<close>, \<open>AutopilotProps\<close>: \<open>autopilot/fsm.ts\<close>, \<open>state/handoff-carrier.ts\<close> and
    \<open>autopilot/completion-gate.ts\<close>; the gate returns a refusal, an advisory or nothing.
  \<^item> \<open>ModeWrite\<close> with \<open>ModeWriteFacts\<close>, \<open>ModeWriteContract\<close>, \<open>ModeWriteProps\<close>, \<open>ModeWriteSession\<close>:
    \<open>state_write\<close> and \<open>state_clear\<close> of \<open>state/operations.ts\<close> and \<open>state/mode-state-context.ts\<close>. A
    write is a chain of stages on the merged state (the contracts of ralph and of run
    outcomes, the carriers and the gate of autopilot, the checks of ralplan), then the
    transition of \<open>WorkflowReconcile\<close>, the file and the canonical list of \<open>SkillActive\<close>, over
    the store \<open>workflow_store\<close> that those theories share.
  \<^item> \<open>TeamDag\<close>, \<open>TeamDecompose\<close>, \<open>TeamDecomposeProps\<close>: \<open>team/dag-schema.ts\<close> and
    \<open>team/repo-aware-decomposition.ts\<close>. A hand-off value is parsed into the record \<open>team_dag\<close>, its
    nodes are sorted, and the sorted tasks go to the allocation of \<open>TeamAllocation\<close>.
  \<^item> \<open>ExecFollowup\<close>, \<open>ExecFollowupProps\<close>: \<open>exec/followup.ts\<close>. The store \<open>followup_store\<close> holds the queue
    files and the audit log; \<open>followup_step\<close> interleaves locked injections and marks with the
    unlocked reads of Stop hooks.
  \<^item> \<open>TeamMailbox\<close>, \<open>MailboxOps\<close>, \<open>MailboxRows\<close>, \<open>MailboxProps\<close>: \<open>team/state/mailbox.ts\<close> and the
    mailbox functions of \<open>team/state.ts\<close>. The record \<open>mail_world\<close> holds the shadow files, the
    journal and the state of the bridge, which only the functions of \<open>mail_bridge\<close> read and
    change.
  \<^item> \<open>QuestionSchema\<close>, \<open>QuestionState\<close>, \<open>QuestionProps\<close>: \<open>question/types.ts\<close>, the answers of
    \<open>question/events.ts\<close> and \<open>question/state.ts\<close>. Untyped input becomes a \<open>question_input\<close> or a
    \<open>question_error\<close>; \<open>question_step\<close> interleaves the operations that hold the submit lock.

  \<^bold>\<open>What the lemmas show.\<close> For each component the lemmas beside its definitions give the effect of
  every operation on every branch (the errors included) and what it leaves alone; the
  properties combine them over sequences of operations (leases are exclusive, finished tasks
  stay finished, request statuses only advance, the fix loop ends), state round trips between
  what is written and what is read (requests, active skills, outcomes), relate the code to
  reference definitions (the transition table of workflows, the per-session view of the
  active skills, the handoff of detail files, the lifecycle of goals), and record where the code does not do what it
  says (the stale lock race, the failed mark of a notified request, lifecycles that end an
  active run, an ordinary close that leaves a review-blocked goal, a restarted autopilot run
  that counts as completed). For state writes they give the contract of every stored state,
  the files a write may touch, the change of the active modes of its session, the agreement
  of closing a ralplan session with the projection that recovers it, and that an autopilot
  run completes without an advisory only in phase order and with its evidence. For planned
  teams the search for cycles is exact and an accepted graph always becomes a plan with the
  dependencies of a task before it. For the follow-up queue the file refines the abstract
  queue of what was injected and not yet shown, under every interleaving. The mailboxes
  without the bridge refine one list of messages per worker, interrupted sends included; with
  any bridge a mailbox holds only messages to its worker, and a successful retirement leaves
  nothing undelivered. For questions the check of an answer is equivalent to a declarative
  specification, a normalised question survives being written and read, and an answer stays
  as it was submitted under every later prompt and submission. For ultragoal plans they
  also give what a strict close demands (an approving gate that proves every declared
  invariant, no goal left that blocks completion), the circuit breaker on repeated
  authorization failures and the frame of a steering mutation.

  \<^bold>\<open>Bounds and fuel.\<close> Recursion is structural or on the length of a string or list, and the scans of
  \<open>Regex\<close> take the length of the input plus one as fuel, which suffices because every step
  moves on by one position. The rounds of \<open>kahn\<close> are bounded by the number of nodes, which
  \<open>topological_sort_cases\<close> proves to be enough; the depth first search needs no fuel, because the
  path to the current node grows. The run loop takes the list of outcomes of its iterations. Times
  are integers of milliseconds; \<open>toISOString\<close> is modelled for the years 0 to 9999. A state write
  reads the clock several times; the model takes one time for all of them.

  \<^bold>\<open>Not modelled.\<close> Processes, terminals and hooks: the CLI, the native Codex hook scripts, tmux, the
  HUD, notifications, MCP servers, set-up and configuration writers, which are input and
  output around the state above. The native runtime behind the bridge is a parameter of
  \<open>TeamDispatch\<close> and \<open>TeamMailbox\<close>, and so are the file system, SHA-256 and the random tokens. The lock and the
  two-phase commit around the root file of active skills are not part of \<open>SkillActive\<close>. In
  \<open>ModeWrite\<close> the file lock, the revalidation of the scope before a commit, the artifacts of
  ralph, the native-stop file and the mode \<open>skill-active\<close> are left out, and the checks of
  advisory ralplan states and the binding of a terminal pane are arguments. In
  \<open>TeamDecompose\<close> the search for the hand-off on disk, the guess whether a task changes code and the
  plan without a graph are left out; in \<open>ExecFollowup\<close> the retries of the queue lock; in \<open>TeamMailbox\<close>
  the log of deliveries and rows that do not have the declared type of a message; in
  \<open>QuestionState\<close> the listing of questions, the retries of the submit lock, the fields of an
  event and the renderer. In
  the ultragoal theories \<open>JSON.parse\<close> of text embedded in a response, the state scope and the
  outcome of acquiring the lock are arguments; the texts of messages and instructions, and
  the copies of payloads that the ledger keeps for its readers, are left out.
\<close>

end
